(* ===== verification/Prelude.thy ===== *)
theory Prelude
  imports Main "HOL-Library.State_Monad" "HOL-Library.Char_ord" "HOL-Library.List_Lexorder"
begin

text \<open>
  What every component of the development shares: Go's string helpers on
  \<open>string\<close> (a list of bytes), the part of \<open>fmt.Sprintf\<close> the controller uses,
  64-bit durations with their wrap-around, \<open>map[string]string\<close> as a key-sorted
  association list behind the interface \<open>string_map\<close>, and the \<open>named_theorems\<close>
  the component theories fill.
\<close>

named_theorems only_intros \<open>introduction rules of the effect judgement\<close>
named_theorems text_defs \<open>definitions of the program's message texts\<close>

section \<open>Strings\<close>

text \<open>\<open>strings.TrimSpace\<close> on ASCII text, \<open>strings.TrimRight\<close>, \<open>strings.HasPrefix\<close>.\<close>

definition is_space :: "char \<Rightarrow> bool" where
  "is_space c \<longleftrightarrow> c \<in> {CHR '' '', CHR 0x09, CHR 0x0A, CHR 0x0B, CHR 0x0C, CHR 0x0D}"

definition trim_right_by :: "(char \<Rightarrow> bool) \<Rightarrow> string \<Rightarrow> string" where
  "trim_right_by p s = rev (dropWhile p (rev s))"

definition trim_right :: "string \<Rightarrow> string \<Rightarrow> string" where
  "trim_right s cutset = trim_right_by (\<lambda>c. c \<in> set cutset) s"

definition trim_space :: "string \<Rightarrow> string" where
  "trim_space s = trim_right_by is_space (dropWhile is_space s)"

fun has_prefix :: "string \<Rightarrow> string \<Rightarrow> bool" where
  "has_prefix s [] = True"
| "has_prefix [] (p # ps) = False"
| "has_prefix (c # cs) (p # ps) = (c = p \<and> has_prefix cs ps)"

fun join :: "string \<Rightarrow> string list \<Rightarrow> string" where
  "join sep [] = []"
| "join sep [x] = x"
| "join sep (x # y # xs) = x @ sep @ join sep (y # xs)"

definition to_lower_char :: "char \<Rightarrow> char" where
  "to_lower_char c = (if CHR ''A'' \<le> c \<and> c \<le> CHR ''Z'' then char_of (of_char c + 32 :: nat) else c)"

definition to_lower :: "string \<Rightarrow> string" where
  "to_lower s = map to_lower_char s"

text \<open>\<open>strings.EqualFold\<close> on ASCII text.\<close>

definition equal_fold :: "string \<Rightarrow> string \<Rightarrow> bool" where
  "equal_fold s t \<longleftrightarrow> to_lower s = to_lower t"

lemma has_prefix_append [simp]: "has_prefix (p @ s) p"
  by (induction p) auto

lemma has_prefix_iff: "has_prefix s p \<longleftrightarrow> (\<exists>t. s = p @ t)"
proof (induction s p rule: has_prefix.induct)
  case (3 c cs p ps)
  then show ?case by auto
qed auto

lemma dropWhile_idem [simp]: "dropWhile p (dropWhile p xs) = dropWhile p xs"
  by (induction xs) auto

lemma trim_right_by_idem [simp]: "trim_right_by p (trim_right_by p s) = trim_right_by p s"
  by (simp add: trim_right_by_def)

lemma length_trim_right_by: "length (trim_right_by p s) \<le> length s"
  by (simp add: trim_right_by_def) (metis length_dropWhile_le length_rev)

lemma trim_right_by_last: "trim_right_by p s \<noteq> [] \<Longrightarrow> \<not> p (last (trim_right_by p s))"
  unfolding trim_right_by_def by (metis hd_dropWhile last_rev rev_is_Nil_conv)

lemma list_all_take: "list_all P xs \<Longrightarrow> list_all P (take k xs)"
  by (auto simp: list_all_iff dest: in_set_takeD)

section \<open>Numbers and formatted text\<close>

fun nat_digits :: "nat \<Rightarrow> string" where
  "nat_digits n = (if n < 10 then [char_of (48 + n)]
     else nat_digits (n div 10) @ [char_of (48 + n mod 10)])"

declare nat_digits.simps [simp del]

text \<open>\<open>strconv.Itoa\<close>, and \<open>%d\<close> on an integer.\<close>

definition itoa :: "int \<Rightarrow> string" where
  "itoa n = (if n < 0 then CHR ''-'' # nat_digits (nat (- n)) else nat_digits (nat n))"

text \<open>
  The verbs the controller formats with: \<open>%d\<close>, \<open>%s\<close>, \<open>%v\<close>, \<open>%w\<close>, \<open>%q\<close> and \<open>%%\<close>.
  \<open>%q\<close> is \<open>strconv.Quote\<close> on printable text: a double quote and a backslash are
  escaped. Arguments arrive as text already (an integer through \<open>itoa\<close>).
\<close>

definition quote_char :: "char \<Rightarrow> string" where
  "quote_char c = (if c = CHR 0x22 \<or> c = CHR 0x5C then [CHR 0x5C, c]
     else if c = CHR 0x0A then [CHR 0x5C, CHR ''n'']
     else if c = CHR 0x09 then [CHR 0x5C, CHR ''t''] else [c])"

definition quote :: "string \<Rightarrow> string" where
  "quote s = CHR 0x22 # concat (map quote_char s) @ [CHR 0x22]"

fun sprintf :: "string \<Rightarrow> string list \<Rightarrow> string" where
  "sprintf [] args = []"
| "sprintf [c] args = [c]"
| "sprintf (c # d # cs) args =
     (if c \<noteq> CHR ''%'' then c # sprintf (d # cs) args
      else if d = CHR ''%'' then CHR ''%'' # sprintf cs args
      else (case args of
              [] \<Rightarrow> ''%!'' @ [d] @ ''(MISSING)'' @ sprintf cs []
            | a # as \<Rightarrow> (if d = CHR ''q'' then quote a else a) @ sprintf cs as))"

text \<open>
  Time is an \<open>int\<close> of nanoseconds since the epoch; a \<open>time.Duration\<close> is an \<open>int64\<close> of
  nanoseconds, so multiplying a number of seconds into one wraps around.
\<close>

definition wrap64 :: "int \<Rightarrow> int" where
  "wrap64 x = (x + 2 ^ 63) mod 2 ^ 64 - 2 ^ 63"

abbreviation nanos_per_second :: int where
  "nanos_per_second \<equiv> 1000000000"

text \<open>\<open>time.Duration(n) * time.Second\<close>.\<close>

definition seconds :: "int \<Rightarrow> int" where
  "seconds n = wrap64 (n * nanos_per_second)"

text \<open>\<open>Time.Sub\<close> saturates at the ends of the range.\<close>

definition time_sub :: "int \<Rightarrow> int \<Rightarrow> int" where
  "time_sub a b = max (- (2 ^ 63)) (min (2 ^ 63 - 1) (a - b))"

lemma wrap64_id: "- (2 ^ 63) \<le> x \<Longrightarrow> x < 2 ^ 63 \<Longrightarrow> wrap64 x = x"
  by (simp add: wrap64_def)

lemma seconds_small: "0 \<le> n \<Longrightarrow> n \<le> 9223372036 \<Longrightarrow> seconds n = n * nanos_per_second"
  unfolding seconds_def by (rule wrap64_id) simp_all

lemma seconds_wraps: "seconds 9223372037 < 0"
  by (simp add: seconds_def wrap64_def)

lemma wrap64_range: "- (2 ^ 63) \<le> wrap64 x \<and> wrap64 x < 2 ^ 63"
  unfolding wrap64_def using pos_mod_bound [of "2 ^ 64" "x + 2 ^ 63"] pos_mod_sign [of "2 ^ 64" "x + 2 ^ 63"]
  by simp

section \<open>Maps with string keys\<close>

text \<open>
  \<open>map[string]string\<close> is an association list sorted by key (byte order, as \<open>sort.Strings\<close>
  and \<open>json.Marshal\<close> order keys), so that two equal Go maps are equal lists.
\<close>

type_synonym 'v smap = "(string \<times> 'v) list"

fun smap_put :: "string \<Rightarrow> 'v \<Rightarrow> 'v smap \<Rightarrow> 'v smap" where
  "smap_put k v [] = [(k, v)]"
| "smap_put k v ((a, b) # m) =
     (if k = a then (k, v) # m else if k < a then (k, v) # (a, b) # m else (a, b) # smap_put k v m)"

definition smap_get :: "'v smap \<Rightarrow> string \<Rightarrow> 'v option" where
  "smap_get m k = map_of m k"

definition smap_keys :: "'v smap \<Rightarrow> string list" where
  "smap_keys m = map fst m"

fun smap_remove :: "string \<Rightarrow> 'v smap \<Rightarrow> 'v smap" where
  "smap_remove k [] = []"
| "smap_remove k ((a, b) # m) = (if k = a then m else (a, b) # smap_remove k m)"

text \<open>The loop \<open>for k, v := range src { dst[k] = v }\<close>.\<close>

fun smap_merge :: "'v smap \<Rightarrow> 'v smap \<Rightarrow> 'v smap" where
  "smap_merge dst [] = dst"
| "smap_merge dst ((k, v) # src) = smap_merge (smap_put k v dst) src"

abbreviation smap_ok :: "'v smap \<Rightarrow> bool" where
  "smap_ok m \<equiv> sorted_wrt (<) (map fst m)"

lemma map_of_smap_put [simp]: "map_of (smap_put k v m) = (map_of m)(k \<mapsto> v)"
  by (induction k v m rule: smap_put.induct) (auto simp: fun_eq_iff)

lemma keys_smap_put [simp]: "fst ` set (smap_put k v m) = insert k (fst ` set m)"
  by (induction k v m rule: smap_put.induct) auto

lemma smap_put_ok: "smap_ok m \<Longrightarrow> smap_ok (smap_put k v m)"
proof (induction k v m rule: smap_put.induct)
  case (2 k v a b m)
  then show ?case by (auto simp: keys_smap_put [unfolded image_set] not_less_iff_gr_or_eq)
qed simp

lemma smap_remove_keys: "set (map fst (smap_remove k m)) \<subseteq> set (map fst m)"
  by (induction k m rule: smap_remove.induct) auto

lemma smap_remove_ok: "smap_ok m \<Longrightarrow> smap_ok (smap_remove k m)"
proof (induction k m rule: smap_remove.induct)
  case (2 k a b m)
  then show ?case using smap_remove_keys [of k m] by fastforce
qed simp

lemma map_of_smap_remove: "smap_ok m \<Longrightarrow> map_of (smap_remove k m) = (map_of m)(k := None)"
proof (induction k m rule: smap_remove.induct)
  case (2 k a b m)
  show ?case
  proof (cases "k = a")
    case True
    with "2.prems" have "a \<notin> fst ` set m" by auto
    then have "map_of m a = None" by (simp add: map_of_eq_None_iff)
    with True show ?thesis by (auto simp: fun_eq_iff)
  next
    case False
    with 2 show ?thesis by (auto simp: fun_eq_iff)
  qed
qed auto

lemma map_of_smap_merge: "smap_ok src \<Longrightarrow> map_of (smap_merge dst src) = map_of dst ++ map_of src"
proof (induction dst src rule: smap_merge.induct)
  case (2 dst k v src)
  then have "k \<notin> fst ` set src" by auto
  then have "map_of src k = None" by (simp add: map_of_eq_None_iff)
  with 2 show ?case by (auto simp: fun_eq_iff map_add_def split: option.splits)
qed simp

lemma smap_merge_ok: "smap_ok dst \<Longrightarrow> smap_ok (smap_merge dst src)"
  by (induction dst src rule: smap_merge.induct) (auto simp: smap_put_ok)

lemma smap_merge_Nil_iff [simp]: "smap_merge dst src = [] \<longleftrightarrow> dst = [] \<and> src = []"
proof (induction dst src rule: smap_merge.induct)
  case (2 dst k v src)
  moreover have "smap_put k v dst \<noteq> []" by (cases "(k, v, dst)" rule: smap_put.cases) auto
  ultimately show ?case by simp
qed simp

text \<open>
  The interface the components use a Go map through: what a lookup returns after a write and
  after a deletion, and that the keys come out sorted and without repetition.
\<close>

locale string_map =
  fixes put :: "string \<Rightarrow> 'v \<Rightarrow> 'm \<Rightarrow> 'm"
    and get :: "'m \<Rightarrow> string \<Rightarrow> 'v option"
    and del :: "string \<Rightarrow> 'm \<Rightarrow> 'm"
    and keys :: "'m \<Rightarrow> string list"
    and ok :: "'m \<Rightarrow> bool"
  assumes get_put: "get (put k v m) k' = (if k' = k then Some v else get m k')"
    and get_del: "ok m \<Longrightarrow> get (del k m) k' = (if k' = k then None else get m k')"
    and put_ok: "ok m \<Longrightarrow> ok (put k v m)"
    and del_ok: "ok m \<Longrightarrow> ok (del k m)"
    and keys_get: "k \<in> set (keys m) \<longleftrightarrow> get m k \<noteq> None"
    and keys_sorted: "ok m \<Longrightarrow> sorted_wrt (<) (keys m)"
begin

lemma put_twice: "get (put k v (put k u m)) = get (put k v m)"
  by (simp add: fun_eq_iff get_put)

lemma del_put: "ok m \<Longrightarrow> get (del k (put k v m)) = get (del k m)"
  by (simp add: fun_eq_iff get_put get_del put_ok)

lemma put_del_restore: "ok m \<Longrightarrow> get m k = None \<Longrightarrow> get (del k (put k v m)) = get m"
  by (simp add: fun_eq_iff get_put get_del put_ok)

lemma put_put_restore: "get m k = Some u \<Longrightarrow> get (put k u (put k v m)) = get m"
  by (auto simp: fun_eq_iff get_put)

lemma keys_distinct: "ok m \<Longrightarrow> distinct (keys m)"
  using keys_sorted [of m] by (simp add: strict_sorted_iff)

end

interpretation smap: string_map smap_put smap_get smap_remove smap_keys smap_ok
proof (unfold_locales, goal_cases)
  case (2 m k k')
  then show ?case by (simp add: smap_get_def map_of_smap_remove)
next
  case (5 k m)
  then show ?case by (simp add: smap_get_def smap_keys_def map_of_eq_None_iff)
qed (simp_all add: smap_get_def smap_keys_def smap_put_ok smap_remove_ok)

end
