(* ===== verification/GoErrors.thy ===== *)
theory GoErrors
  imports Prelude
begin

text \<open>
  Errors as values. A \<open>gerr\<close> is a Go error with the chain that \<open>errors.As\<close> and
  \<open>errors.Is\<close> walk: \<open>fmt.Errorf\<close> with its \<open>%w\<close> operands (\<open>WrapE\<close>), the two sentinels of
  the package, an API server status error, \<open>*awxStatusError\<close>, \<open>*terminalError\<close> and
  \<open>*errCleanupPending\<close>. \<open>fmt.Errorf\<close> with \<open>%v\<close> keeps the text and drops the chain, which is
  a \<open>WrapE\<close> with no operand. The second half is the classification the controller bases
  every retry decision on.
\<close>

section \<open>Error values\<close>

datatype api_reason = NotFoundR | AlreadyExistsR | ConflictR | OtherR

datatype gerr =
    WrapE string "gerr list"
  | PermanentConfigE
  | NotPopulatedE
  | ApiE api_reason string
  | AwxStatusE string string int string
  | TerminalE gerr
  | CleanupPendingE gerr

abbreviation HTTP_NOT_FOUND :: int where "HTTP_NOT_FOUND \<equiv> 404"
abbreviation HTTP_METHOD_NOT_ALLOWED :: int where "HTTP_METHOD_NOT_ALLOWED \<equiv> 405"
abbreviation HTTP_REQUEST_TIMEOUT :: int where "HTTP_REQUEST_TIMEOUT \<equiv> 408"
abbreviation HTTP_TOO_MANY_REQUESTS :: int where "HTTP_TOO_MANY_REQUESTS \<equiv> 429"

definition maxErrorBodyChars :: nat where "maxErrorBodyChars = 512"

definition f_truncated where [text_defs]: "f_truncated = ''... (truncated)''"

definition truncateText :: "string \<Rightarrow> nat \<Rightarrow> string" where
  "truncateText s mx =
     (let s = trim_space s
      in if length s \<le> mx then s else take mx s @ f_truncated)"

definition f_awx_status where [text_defs]: "f_awx_status = ''awx request %s %s: status %d: %s''"
definition f_permanent where [text_defs]: "f_permanent = ''permanent configuration error''"
definition f_not_populated where [text_defs]: "f_not_populated = ''nothing is there yet''"

definition awxStatusError_Error :: "string \<Rightarrow> string \<Rightarrow> int \<Rightarrow> string \<Rightarrow> string" where
  "awxStatusError_Error method path code body =
     sprintf f_awx_status [method, path, itoa code, truncateText body maxErrorBodyChars]"

text \<open>\<open>err.Error()\<close>.\<close>

fun err_text :: "gerr \<Rightarrow> string" where
  "err_text (WrapE m es) = m"
| "err_text PermanentConfigE = f_permanent"
| "err_text NotPopulatedE = f_not_populated"
| "err_text (ApiE r m) = m"
| "err_text (AwxStatusE method path code body) = awxStatusError_Error method path code body"
| "err_text (TerminalE e) = err_text e"
| "err_text (CleanupPendingE e) = err_text e"

text \<open>\<open>fmt.Errorf(f, args...)\<close> with no operand, and with one \<open>%w\<close> operand in last place.\<close>

definition errorf :: "string \<Rightarrow> string list \<Rightarrow> gerr" where
  "errorf f args = WrapE (sprintf f args) []"

definition errorw :: "string \<Rightarrow> string list \<Rightarrow> gerr \<Rightarrow> gerr" where
  "errorw f args e = WrapE (sprintf f (args @ [err_text e])) [e]"

definition terminalf :: "string \<Rightarrow> string list \<Rightarrow> gerr" where
  "terminalf f args = TerminalE (errorf f args)"

section \<open>Walking the chain\<close>

text \<open>\<open>errors.As\<close>: the first error of the chain, depth first, that the test accepts.\<close>

fun err_as :: "(gerr \<Rightarrow> 'a option) \<Rightarrow> gerr \<Rightarrow> 'a option"
and err_as_list :: "(gerr \<Rightarrow> 'a option) \<Rightarrow> gerr list \<Rightarrow> 'a option" where
  "err_as f e = (case f e of Some a \<Rightarrow> Some a | None \<Rightarrow>
     (case e of
        WrapE m es \<Rightarrow> err_as_list f es
      | TerminalE e' \<Rightarrow> err_as f e'
      | CleanupPendingE e' \<Rightarrow> err_as f e'
      | _ \<Rightarrow> None))"
| "err_as_list f [] = None"
| "err_as_list f (e # es) = (case err_as f e of Some a \<Rightarrow> Some a | None \<Rightarrow> err_as_list f es)"

declare err_as.simps [simp del]

definition err_is :: "(gerr \<Rightarrow> bool) \<Rightarrow> gerr \<Rightarrow> bool" where
  "err_is p e \<longleftrightarrow> err_as (\<lambda>x. if p x then Some () else None) e \<noteq> None"

fun api_reason_of :: "gerr \<Rightarrow> api_reason option" where
  "api_reason_of (ApiE r m) = Some r"
| "api_reason_of e = None"

text \<open>\<open>apierrors.IsNotFound\<close> and its kin: the reason of the first API status error in the chain.\<close>

definition isNotFound :: "gerr \<Rightarrow> bool" where
  "isNotFound e \<longleftrightarrow> err_as api_reason_of e = Some NotFoundR"

definition isConflict :: "gerr \<Rightarrow> bool" where
  "isConflict e \<longleftrightarrow> err_as api_reason_of e = Some ConflictR"

definition isAlreadyExists :: "gerr \<Rightarrow> bool" where
  "isAlreadyExists e \<longleftrightarrow> err_as api_reason_of e = Some AlreadyExistsR"

definition isPermanent :: "gerr \<Rightarrow> bool" where
  "isPermanent e \<longleftrightarrow> isNotFound e \<or> err_is (\<lambda>x. x = PermanentConfigE) e"

fun is_TerminalE :: "gerr \<Rightarrow> bool" where
  "is_TerminalE (TerminalE e) = True"
| "is_TerminalE e = False"

definition isTerminalError :: "gerr \<Rightarrow> bool" where
  "isTerminalError e \<longleftrightarrow> err_is is_TerminalE e"

fun is_CleanupPendingE :: "gerr \<Rightarrow> bool" where
  "is_CleanupPendingE (CleanupPendingE e) = True"
| "is_CleanupPendingE e = False"

definition isCleanupPending :: "gerr \<Rightarrow> bool" where
  "isCleanupPending e \<longleftrightarrow> err_is is_CleanupPendingE e"

fun awx_code_of :: "gerr \<Rightarrow> int option" where
  "awx_code_of (AwxStatusE m p c b) = Some c"
| "awx_code_of e = None"

text \<open>\<open>awxStatusCode\<close>: the HTTP status AWX answered with, \<open>None\<close> when it did not answer.\<close>

definition awxStatusCode :: "gerr \<Rightarrow> int option" where
  "awxStatusCode e = err_as awx_code_of e"

text \<open>
  \<open>launchRefused\<close> (ansiblerun.go): AWX turned the launch down, the only case in which nothing
  can have started.
\<close>

definition launchRefused :: "gerr \<Rightarrow> bool" where
  "launchRefused e =
     (case awxStatusCode e of
        None \<Rightarrow> False
      | Some code \<Rightarrow>
          if code = HTTP_REQUEST_TIMEOUT \<or> code = HTTP_TOO_MANY_REQUESTS then False
          else 400 \<le> code \<and> code < 500)"

section \<open>How classification passes through wrapping\<close>

lemma err_as_errorw [simp]:
  "f (WrapE (sprintf s (args @ [err_text e])) [e]) = None \<Longrightarrow> err_as f (errorw s args e) = err_as f e"
  by (simp add: errorw_def err_as.simps [of _ "WrapE _ _"] split: option.splits)

lemma err_as_errorf [simp]: "f (errorf s args) = None \<Longrightarrow> err_as f (errorf s args) = None"
  by (simp add: errorf_def err_as.simps [of _ "WrapE _ _"])

lemma isNotFound_errorw [simp]: "isNotFound (errorw s args e) = isNotFound e"
  and isConflict_errorw [simp]: "isConflict (errorw s args e) = isConflict e"
  and isAlreadyExists_errorw [simp]: "isAlreadyExists (errorw s args e) = isAlreadyExists e"
  and awxStatusCode_errorw [simp]: "awxStatusCode (errorw s args e) = awxStatusCode e"
  by (simp_all add: isNotFound_def isConflict_def isAlreadyExists_def awxStatusCode_def)

lemma isTerminalError_errorw [simp]: "isTerminalError (errorw s args e) = isTerminalError e"
  and isCleanupPending_errorw [simp]: "isCleanupPending (errorw s args e) = isCleanupPending e"
  and isPermanent_errorw [simp]: "isPermanent (errorw s args e) = isPermanent e"
  by (simp_all add: isTerminalError_def isCleanupPending_def isPermanent_def err_is_def)

lemma errorf_classes [simp]:
  "\<not> isTerminalError (errorf s args)" "\<not> isCleanupPending (errorf s args)"
  "\<not> isPermanent (errorf s args)" "\<not> isNotFound (errorf s args)"
  "awxStatusCode (errorf s args) = None"
  by (simp_all add: isTerminalError_def isCleanupPending_def isPermanent_def err_is_def isNotFound_def
      awxStatusCode_def errorf_def err_as.simps [of _ "WrapE _ _"])

lemma api_classes [simp]:
  "isNotFound (ApiE r m) = (r = NotFoundR)" "isConflict (ApiE r m) = (r = ConflictR)"
  "isAlreadyExists (ApiE r m) = (r = AlreadyExistsR)"
  "isPermanent (ApiE r m) = (r = NotFoundR)" "\<not> isTerminalError (ApiE r m)"
  "\<not> isCleanupPending (ApiE r m)"
  by (simp_all add: isNotFound_def isConflict_def isAlreadyExists_def isPermanent_def err_is_def
      isTerminalError_def isCleanupPending_def err_as.simps)

lemma isTerminalError_TerminalE [simp]: "isTerminalError (TerminalE e)"
  by (simp add: isTerminalError_def err_is_def err_as.simps)

lemma isTerminalError_terminalf [simp]: "isTerminalError (terminalf s args)"
  by (simp add: terminalf_def)

lemma isCleanupPending_CleanupPendingE [simp]: "isCleanupPending (CleanupPendingE e)"
  by (simp add: isCleanupPending_def err_is_def err_as.simps)

lemma awxStatusCode_AwxStatusE [simp]: "awxStatusCode (AwxStatusE m p c b) = Some c"
  by (simp add: awxStatusCode_def err_as.simps)

lemma awxStatusCode_PermanentConfigE [simp]: "awxStatusCode PermanentConfigE = None"
  by (simp add: awxStatusCode_def err_as.simps)

lemma launchRefused_errorw [simp]: "launchRefused (errorw s args e) = launchRefused e"
  by (simp add: launchRefused_def)

lemma launchRefused_code: "launchRefused e \<Longrightarrow> \<exists>c. awxStatusCode e = Some c \<and> 400 \<le> c \<and> c < 500"
  by (auto simp: launchRefused_def split: option.splits if_splits)

end
