(* ===== verification/Types.thy ===== *)
theory Types
  imports GoErrors
begin

text \<open>
  The custom resources of controller/types.go as records, field by field, and the API
  server's objects as this program sees them (\<open>unstructured.Unstructured\<close>): metadata, the four
  generic status fields with a flag saying whether each is present, and the decoded rest.
  A timestamp string is \<open>NoStamp\<close> when empty, \<open>BadStamp\<close> when \<open>time.Parse(time.RFC3339, _)\<close>
  refuses it, and \<open>Stamp t\<close> when it denotes the instant \<open>t\<close> (nanoseconds). Go's nil pointers
  are \<open>None\<close>, nil slices and maps are the empty list.
\<close>

section \<open>Timestamps\<close>

datatype stamp = NoStamp | BadStamp string | Stamp int

fun parse_time :: "stamp \<Rightarrow> int option" where
  "parse_time (Stamp t) = Some t"
| "parse_time _ = None"

text \<open>\<open>t.UTC().Format(time.RFC3339)\<close> keeps whole seconds.\<close>

definition format_time :: "int \<Rightarrow> stamp" where
  "format_time t = Stamp (t - t mod nanos_per_second)"

text \<open>
  The text of a timestamp, for messages: \<open>2006-01-02T15:04:05Z\<close>, the UTC form every timestamp the
  program writes has.
\<close>

definition civil_date :: "int \<Rightarrow> int \<times> int \<times> int" where
  "civil_date days =
     (let z = days + 719468; era = z div 146097; doe = z mod 146097;
          yoe = (doe - doe div 1460 + doe div 36524 - doe div 146096) div 365;
          doy = doe - (365 * yoe + yoe div 4 - yoe div 100);
          mp = (5 * doy + 2) div 153;
          m = (if mp < 10 then mp + 3 else mp - 9)
      in (yoe + era * 400 + (if m \<le> 2 then 1 else 0), m, doy - (153 * mp + 2) div 5 + 1))"

definition pad_digits :: "nat \<Rightarrow> int \<Rightarrow> string" where
  "pad_digits n x = (let s = itoa x in replicate (n - length s) (CHR ''0'') @ s)"

definition rfc3339_text :: "int \<Rightarrow> string" where
  "rfc3339_text t =
     (let secs = t div nanos_per_second; days = secs div 86400; r = secs mod 86400; (y, m, d) = civil_date days
      in pad_digits 4 y @ ''-'' @ pad_digits 2 m @ ''-'' @ pad_digits 2 d @ ''T'' @ pad_digits 2 (r div 3600) @ '':'' @
         pad_digits 2 (r mod 3600 div 60) @ '':'' @ pad_digits 2 (r mod 60) @ ''Z'')"

fun stamp_text :: "stamp \<Rightarrow> string" where
  "stamp_text NoStamp = []"
| "stamp_text (BadStamp s) = s"
| "stamp_text (Stamp t) = rfc3339_text t"

lemma format_time_ne [simp]: "format_time t \<noteq> NoStamp"
  by (simp add: format_time_def)

lemma parse_format_time: "parse_time (format_time t) = Some (t - t mod nanos_per_second)"
  by (simp add: format_time_def)

lemma format_time_before: "parse_time (format_time t) = Some s \<Longrightarrow> s \<le> t \<and> t < s + nanos_per_second"
  using pos_mod_bound [of nanos_per_second t] pos_mod_sign [of nanos_per_second t]
  by (auto simp: parse_format_time)

section \<open>Constants\<close>

definition TemplateTypeJob where "TemplateTypeJob = ''JobTemplate''"
definition TemplateTypeWorkflow where "TemplateTypeWorkflow = ''WorkflowTemplate''"
definition TargetingManagedHost where "TargetingManagedHost = ''ManagedHost''"
definition TargetingTemplate where "TargetingTemplate = ''Template''"
definition CleanupPolicyDelete where "CleanupPolicyDelete = ''Delete''"
definition CleanupPolicyRetain where "CleanupPolicyRetain = ''Retain''"

definition PhasePending where "PhasePending = ''Pending''"
definition PhaseRunning where "PhaseRunning = ''Running''"
definition PhaseSucceeded where "PhaseSucceeded = ''Succeeded''"
definition PhaseFailed where "PhaseFailed = ''Failed''"
definition PhaseLaunching where "PhaseLaunching = ''Launching''"
definition PhaseTimedOut where "PhaseTimedOut = ''TimedOut''"
definition PhaseSkipped where "PhaseSkipped = ''Skipped''"

definition defaultHookTimeoutSeconds :: int where "defaultHookTimeoutSeconds = 900"
definition historyLimit :: nat where "historyLimit = 10"
definition BindingLabel where "BindingLabel = ''field.vmware.com/binding''"

lemmas phase_defs = PhasePending_def PhaseRunning_def PhaseSucceeded_def PhaseFailed_def
  PhaseLaunching_def PhaseTimedOut_def PhaseSkipped_def

lemma phase_ne [simp]:
  "PhasePending \<noteq> []" "PhasePending \<noteq> PhaseRunning" "PhasePending \<noteq> PhaseSucceeded"
  "PhasePending \<noteq> PhaseFailed" "PhasePending \<noteq> PhaseLaunching"
  "PhasePending \<noteq> PhaseTimedOut" "PhasePending \<noteq> PhaseSkipped" "PhaseRunning \<noteq> []"
  "PhaseRunning \<noteq> PhasePending" "PhaseRunning \<noteq> PhaseSucceeded"
  "PhaseRunning \<noteq> PhaseFailed" "PhaseRunning \<noteq> PhaseLaunching"
  "PhaseRunning \<noteq> PhaseTimedOut" "PhaseRunning \<noteq> PhaseSkipped" "PhaseSucceeded \<noteq> []"
  "PhaseSucceeded \<noteq> PhasePending" "PhaseSucceeded \<noteq> PhaseRunning"
  "PhaseSucceeded \<noteq> PhaseFailed" "PhaseSucceeded \<noteq> PhaseLaunching"
  "PhaseSucceeded \<noteq> PhaseTimedOut" "PhaseSucceeded \<noteq> PhaseSkipped" "PhaseFailed \<noteq> []"
  "PhaseFailed \<noteq> PhasePending" "PhaseFailed \<noteq> PhaseRunning"
  "PhaseFailed \<noteq> PhaseSucceeded" "PhaseFailed \<noteq> PhaseLaunching"
  "PhaseFailed \<noteq> PhaseTimedOut" "PhaseFailed \<noteq> PhaseSkipped" "PhaseLaunching \<noteq> []"
  "PhaseLaunching \<noteq> PhasePending" "PhaseLaunching \<noteq> PhaseRunning"
  "PhaseLaunching \<noteq> PhaseSucceeded" "PhaseLaunching \<noteq> PhaseFailed"
  "PhaseLaunching \<noteq> PhaseTimedOut" "PhaseLaunching \<noteq> PhaseSkipped" "PhaseTimedOut \<noteq> []"
  "PhaseTimedOut \<noteq> PhasePending" "PhaseTimedOut \<noteq> PhaseRunning"
  "PhaseTimedOut \<noteq> PhaseSucceeded" "PhaseTimedOut \<noteq> PhaseFailed"
  "PhaseTimedOut \<noteq> PhaseLaunching" "PhaseTimedOut \<noteq> PhaseSkipped" "PhaseSkipped \<noteq> []"
  "PhaseSkipped \<noteq> PhasePending" "PhaseSkipped \<noteq> PhaseRunning"
  "PhaseSkipped \<noteq> PhaseSucceeded" "PhaseSkipped \<noteq> PhaseFailed"
  "PhaseSkipped \<noteq> PhaseLaunching" "PhaseSkipped \<noteq> PhaseTimedOut"
  by (simp_all add: phase_defs)

lemma template_types_ne [simp]:
  "TemplateTypeJob \<noteq> TemplateTypeWorkflow" "TemplateTypeWorkflow \<noteq> TemplateTypeJob"
  "TemplateTypeJob \<noteq> []" "TemplateTypeWorkflow \<noteq> []"
  by (simp_all add: TemplateTypeJob_def TemplateTypeWorkflow_def)

lemma policies_ne [simp]:
  "CleanupPolicyDelete \<noteq> CleanupPolicyRetain" "CleanupPolicyRetain \<noteq> CleanupPolicyDelete"
  "CleanupPolicyRetain \<noteq> []" "CleanupPolicyDelete \<noteq> []"
  by (simp_all add: CleanupPolicyDelete_def CleanupPolicyRetain_def)

lemma targetings_ne [simp]:
  "TargetingManagedHost \<noteq> TargetingTemplate" "TargetingTemplate \<noteq> TargetingManagedHost"
  "TargetingManagedHost \<noteq> []" "TargetingTemplate \<noteq> []"
  by (simp_all add: TargetingManagedHost_def TargetingTemplate_def)

section \<open>The generic status every kind carries\<close>

record gstatus =
  gs_State :: string
  gs_Message :: string
  gs_Ready :: bool
  gs_LastUpdated :: stamp

text \<open>The same four fields as a status object holds them: \<open>None\<close> is an absent key.\<close>

record gfound =
  gf_state :: "string option"
  gf_message :: "string option"
  gf_ready :: "bool option"
  gf_lastUpdated :: "stamp option"

definition gf_none :: gfound where
  "gf_none = \<lparr>gf_state = None, gf_message = None, gf_ready = None, gf_lastUpdated = None\<rparr>"

definition with_generic :: "gfound \<Rightarrow> 'a gstatus_scheme \<Rightarrow> 'a gstatus_scheme" where
  "with_generic g s = s\<lparr>gs_State := case_option [] id (gf_state g), gs_Message := case_option [] id (gf_message g),
     gs_Ready := case_option False id (gf_ready g), gs_LastUpdated := case_option NoStamp id (gf_lastUpdated g)\<rparr>"

definition strip_generic :: "'a gstatus_scheme \<Rightarrow> 'a gstatus_scheme" where
  "strip_generic s = s\<lparr>gs_State := [], gs_Message := [], gs_Ready := False, gs_LastUpdated := NoStamp\<rparr>"

lemma strip_generic_idem [simp]: "strip_generic (strip_generic s) = strip_generic s"
  by (simp add: strip_generic_def)

lemma strip_with_generic [simp]: "strip_generic (with_generic g s) = strip_generic s"
  by (simp add: strip_generic_def with_generic_def)

text \<open>
  \<open>structToMap\<close> on the generic fields: \<open>json:"...,omitempty"\<close> leaves out empty strings and
  \<open>false\<close>.
\<close>

definition omit_generic :: "'a gstatus_scheme \<Rightarrow> gfound" where
  "omit_generic s = \<lparr>gf_state = (if gs_State s = [] then None else Some (gs_State s)),
     gf_message = (if gs_Message s = [] then None else Some (gs_Message s)),
     gf_ready = (if gs_Ready s then Some True else None),
     gf_lastUpdated = (if gs_LastUpdated s = NoStamp then None else Some (gs_LastUpdated s))\<rparr>"

section \<open>AWXConnection\<close>

record SecretKeyRef =
  skr_Name :: string
  skr_Key :: string

record AWXConnectionSpec =
  cs_URL :: string
  cs_SecretRef :: string
  cs_InsecureSkipVerify :: bool
  cs_CABundleSecretRef :: "SecretKeyRef option"
  cs_APIBasePath :: string
  cs_HostNamePrefix :: string

record AWXConnectionStatus = gstatus +
  ct_APIBasePath :: string

record TemplateRef =
  tr_Name :: string
  tr_Type :: string

section \<open>AnsibleBinding\<close>

record DeprovisionHook =
  hk_Targeting :: string
  hk_Template :: TemplateRef
  hk_TimeoutSeconds :: int

record AnsibleBindingSpec =
  bs_VMSelector :: "string smap"
  bs_AWXConnectionRef :: string
  bs_Template :: TemplateRef
  bs_HostName :: string
  bs_HostVariables :: "string smap"
  bs_UseDefaultLimit :: bool
  bs_ExtraVars :: "string smap"
  bs_CleanupPolicy :: string
  bs_OnDeleted :: "DeprovisionHook option"

record BindingSummary =
  sm_Total :: int
  sm_Succeeded :: int
  sm_Running :: int
  sm_Pending :: int
  sm_Failed :: int
  sm_Conflicted :: int
  sm_ConflictedVMs :: "string list"
  sm_FailedVMs :: "string list"
  sm_FirstFailure :: string
  sm_Terminating :: int

record AnsibleBindingStatus = gstatus +
  bt_ObservedGeneration :: int
  bt_LastAppliedTrigger :: string
  bt_Summary :: "BindingSummary option"
  bt_LastOrphanScan :: stamp

section \<open>AnsibleBindingVM\<close>

record VMRunHistoryEntry =
  he_JobID :: int
  he_Status :: string
  he_StartedAt :: stamp
  he_FinishedAt :: stamp

record AnsibleBindingVMSpec =
  vs_VMName :: string
  vs_BindingName :: string
  vs_BindingUID :: string
  vs_AWXConnectionRef :: string
  vs_Template :: TemplateRef
  vs_HostName :: string
  vs_HostVariables :: "string smap"
  vs_UseDefaultLimit :: bool
  vs_ExtraVars :: "string smap"
  vs_CleanupPolicy :: string
  vs_OnDeleted :: "DeprovisionHook option"
  vs_BindingGeneration :: int
  vs_BindingTrigger :: string

record DeprovisionStatus =
  dp_Phase :: string
  dp_Targeting :: string
  dp_Message :: string
  dp_StartedAt :: stamp
  dp_Deadline :: stamp
  dp_JobID :: int
  dp_JobURL :: string
  dp_JobStatus :: string
  dp_JobType :: string
  dp_Endpoint :: string
  dp_LaunchError :: string
  dp_HostPinned :: bool
  dp_PriorConnection :: "string option"
  dp_PinnedHostID :: int
  dp_PinnedHostEndpoint :: string

record AnsibleBindingVMStatus = gstatus +
  vt_ObservedIP :: string
  vt_Phase :: string
  vt_AWXHostID :: int
  vt_AWXInventoryID :: int
  vt_AWXHostName :: string
  vt_AWXHostCreated :: bool
  vt_AWXEndpoint :: string
  vt_LastJobID :: int
  vt_LastJobURL :: string
  vt_LastJobStatus :: string
  vt_LastJobType :: string
  vt_LastJobConnection :: "AWXConnectionSpec option"
  vt_LastHostCheck :: stamp
  vt_AppliedGeneration :: int
  vt_AppliedTrigger :: string
  vt_History :: "VMRunHistoryEntry list"
  vt_Deprovision :: "DeprovisionStatus option"

section \<open>AnsibleRun\<close>

record RunHost =
  rh_Name :: string
  rh_Address :: string
  rh_Variables :: "string smap"

record ResourceRef =
  rr_APIVersion :: string
  rr_Kind :: string
  rr_Name :: string

record VarsFromSource =
  vf_Resource :: ResourceRef
  vf_Vars :: "string smap"

record AnsibleRunSpec =
  rs_AWXConnectionRef :: string
  rs_Template :: TemplateRef
  rs_VMRef :: "string option"
  rs_HostName :: string
  rs_HostVariables :: "string smap"
  rs_Hosts :: "RunHost list"
  rs_ExtraVars :: "string smap"
  rs_VarsFrom :: "VarsFromSource list"
  rs_CleanupPolicy :: string
  rs_ActiveDeadlineSeconds :: int
  rs_TTLSecondsAfterFinished :: "int option"

record RunHostStatus =
  rhs_Name :: string
  rhs_Address :: string
  rhs_AWXHostID :: int
  rhs_AWXInventoryID :: int
  rhs_AWXHostCreated :: bool

record AnsibleRunStatus = gstatus +
  rt_JobID :: int
  rt_JobURL :: string
  rt_JobStatus :: string
  rt_StartedAt :: stamp
  rt_FinishedAt :: stamp
  rt_LaunchAttemptedAt :: stamp
  rt_CancelRequestedAt :: stamp
  rt_AWXEndpoint :: string
  rt_FailureReason :: string
  rt_ResolvedVars :: "string list"
  rt_Hosts :: "RunHostStatus list"

text \<open>Go's zero values of the status structs.\<close>

definition zero_conn_status :: AWXConnectionStatus where
  "zero_conn_status = \<lparr>gs_State = [], gs_Message = [], gs_Ready = False, gs_LastUpdated = NoStamp, ct_APIBasePath = []\<rparr>"

definition zero_binding_status :: AnsibleBindingStatus where
  "zero_binding_status = \<lparr>gs_State = [], gs_Message = [], gs_Ready = False, gs_LastUpdated = NoStamp,
     bt_ObservedGeneration = 0, bt_LastAppliedTrigger = [], bt_Summary = None, bt_LastOrphanScan = NoStamp\<rparr>"

definition zero_dep :: DeprovisionStatus where
  "zero_dep = \<lparr>dp_Phase = [], dp_Targeting = [], dp_Message = [], dp_StartedAt = NoStamp, dp_Deadline = NoStamp,
     dp_JobID = 0, dp_JobURL = [], dp_JobStatus = [], dp_JobType = [], dp_Endpoint = [], dp_LaunchError = [],
     dp_HostPinned = False, dp_PriorConnection = None, dp_PinnedHostID = 0, dp_PinnedHostEndpoint = []\<rparr>"

definition zero_vm_status :: AnsibleBindingVMStatus where
  "zero_vm_status = \<lparr>gs_State = [], gs_Message = [], gs_Ready = False, gs_LastUpdated = NoStamp,
     vt_ObservedIP = [], vt_Phase = [], vt_AWXHostID = 0, vt_AWXInventoryID = 0, vt_AWXHostName = [],
     vt_AWXHostCreated = False, vt_AWXEndpoint = [], vt_LastJobID = 0, vt_LastJobURL = [], vt_LastJobStatus = [],
     vt_LastJobType = [], vt_LastJobConnection = None, vt_LastHostCheck = NoStamp, vt_AppliedGeneration = 0,
     vt_AppliedTrigger = [], vt_History = [], vt_Deprovision = None\<rparr>"

definition zero_run_status :: AnsibleRunStatus where
  "zero_run_status = \<lparr>gs_State = [], gs_Message = [], gs_Ready = False, gs_LastUpdated = NoStamp,
     rt_JobID = 0, rt_JobURL = [], rt_JobStatus = [], rt_StartedAt = NoStamp, rt_FinishedAt = NoStamp,
     rt_LaunchAttemptedAt = NoStamp, rt_CancelRequestedAt = NoStamp, rt_AWXEndpoint = [], rt_FailureReason = [],
     rt_ResolvedVars = [], rt_Hosts = []\<rparr>"

section \<open>Objects of the API server\<close>

record OwnerReference =
  or_APIVersion :: string
  or_Kind :: string
  or_Name :: string
  or_UID :: string

record ObjectMeta =
  md_Namespace :: string
  md_Name :: string
  md_UID :: string
  md_ResourceVersion :: string
  md_Generation :: int
  md_DeletionTimestamp :: "int option"
  md_CreationTimestamp :: "int option"
  md_Labels :: "string smap"
  md_Annotations :: "string smap"
  md_Finalizers :: "string list"
  md_OwnerReferences :: "OwnerReference list"

text \<open>What \<open>vmReady\<close> reads of a VirtualMachine; \<open>None\<close> is a key that is absent.\<close>

record vm_view =
  vm_powerState :: "string option"
  vm_primaryIP4 :: "string option"
  vm_primaryIP6 :: "string option"
  vm_vmIp :: "string option"

text \<open>The Event of events.go; its \<open>generateName\<close> is \<open>ev_GenerateName\<close>.\<close>

record EventBody =
  ev_GenerateName :: string
  ev_InvolvedAPIVersion :: string
  ev_InvolvedKind :: string
  ev_InvolvedName :: string
  ev_InvolvedNamespace :: string
  ev_InvolvedUID :: string
  ev_Reason :: string
  ev_Message :: string
  ev_Type :: string
  ev_Timestamp :: stamp
  ev_Count :: int
  ev_Component :: string

datatype content =
    CConn "AWXConnectionSpec option" "AWXConnectionStatus option"
  | CBinding "AnsibleBindingSpec option" "AnsibleBindingStatus option"
  | CChild "AnsibleBindingVMSpec option" "AnsibleBindingVMStatus option"
  | CRun "AnsibleRunSpec option" "AnsibleRunStatus option"
  | CVM vm_view
  | CSecret "string smap"
  | CEvent EventBody
  | COther

record unstr =
  u_apiVersion :: string
  u_kind :: string
  u_meta :: ObjectMeta
  u_generic :: gfound
  u_content :: content

datatype gvr = SecretGVR | NsGVR | VMGVR | AWXConnGVR | AnsBindGVR | AnsRunGVR | AnsBindVMGVR | EventGVR
  | OtherGVR string string

text \<open>The typed objects the converters return.\<close>

record AWXConnection =
  conn_meta :: ObjectMeta
  conn_Spec :: "AWXConnectionSpec option"
  conn_Status :: "AWXConnectionStatus option"

record AnsibleBinding =
  ab_meta :: ObjectMeta
  ab_Spec :: "AnsibleBindingSpec option"
  ab_Status :: "AnsibleBindingStatus option"

record AnsibleBindingVM =
  ch_meta :: ObjectMeta
  ch_Spec :: "AnsibleBindingVMSpec option"
  ch_Status :: "AnsibleBindingVMStatus option"

record AnsibleRun =
  run_meta :: ObjectMeta
  run_Spec :: "AnsibleRunSpec option"
  run_Status :: "AnsibleRunStatus option"

text \<open>
  A status pointer is nil only when the object has no status at all: the generic fields are
  part of the struct, so they alone make it non-nil.
\<close>

definition typed_status :: "'a gstatus_scheme \<Rightarrow> gfound \<Rightarrow> 'a gstatus_scheme option \<Rightarrow> 'a gstatus_scheme option" where
  "typed_status zero g st = (case st of
      None \<Rightarrow> if g = gf_none then None else Some (with_generic g zero)
    | Some s \<Rightarrow> Some (with_generic g s))"

definition f_convert where [text_defs]: "f_convert = ''cannot convert the object''"

definition convertAWXConnection :: "unstr \<Rightarrow> gerr + AWXConnection" where
  "convertAWXConnection u = (case u_content u of
      CConn sp st \<Rightarrow> Inr \<lparr>conn_meta = u_meta u, conn_Spec = sp,
        conn_Status = typed_status zero_conn_status (u_generic u) st\<rparr>
    | _ \<Rightarrow> Inl (errorf f_convert []))"

definition convertAnsibleBinding :: "unstr \<Rightarrow> gerr + AnsibleBinding" where
  "convertAnsibleBinding u = (case u_content u of
      CBinding sp st \<Rightarrow> Inr \<lparr>ab_meta = u_meta u, ab_Spec = sp,
        ab_Status = typed_status zero_binding_status (u_generic u) st\<rparr>
    | _ \<Rightarrow> Inl (errorf f_convert []))"

definition convertAnsibleRun :: "unstr \<Rightarrow> gerr + AnsibleRun" where
  "convertAnsibleRun u = (case u_content u of
      CRun sp st \<Rightarrow> Inr \<lparr>run_meta = u_meta u, run_Spec = sp,
        run_Status = typed_status zero_run_status (u_generic u) st\<rparr>
    | _ \<Rightarrow> Inl (errorf f_convert []))"

definition convertAnsibleBindingVM :: "unstr \<Rightarrow> gerr + AnsibleBindingVM" where
  "convertAnsibleBindingVM u = (case u_content u of
      CChild sp st \<Rightarrow> Inr \<lparr>ch_meta = u_meta u, ch_Spec = sp,
        ch_Status = typed_status zero_vm_status (u_generic u) st\<rparr>
    | _ \<Rightarrow> Inl (errorf f_convert []))"

definition is_deleting :: "ObjectMeta \<Rightarrow> bool" where
  "is_deleting m \<longleftrightarrow> md_DeletionTimestamp m \<noteq> None"

definition key :: "string \<Rightarrow> string \<Rightarrow> string" where
  "key ns name = ns @ ''/'' @ name"

definition obj_key :: "unstr \<Rightarrow> string" where
  "obj_key u = key (md_Namespace (u_meta u)) (md_Name (u_meta u))"

end
