(* ===== verification/World.thy ===== *)
theory World
  imports Types
begin

text \<open>
  The world the controller runs in. AWX, the Kubernetes API server, the informer stores and the
  clock are not code of this repository: they are the parameter \<open>env\<close>, whose answer to a call
  may depend on everything that happened before (the \<open>trace\<close>), so a statement for every \<open>env\<close>
  covers every behaviour of theirs, other writers and lost replies included. A
  computation of the program is a value of \<open>'a prog\<close>, a state monad over the trace and the two
  process-wide caches of caches.go. Each external call appends one \<open>event\<close> with its answer.

  The last section is the effect judgement \<open>emits m R\<close> (every run of \<open>m\<close> appends events \<open>es\<close>
  and returns \<open>a\<close> with \<open>R a es\<close>), with the rules all component proofs are built from.
\<close>

section \<open>Requests to AWX\<close>

record AWXTemplate =
  tp_ID :: int
  tp_Inventory :: "int option"
  tp_AskLimitOnLaunch :: bool
  tp_AskVariablesOnLaunch :: bool

record templateResult =
  tq_ID :: int
  tq_Name :: string
  tq_Inventory :: "int option"
  tq_AskLimitOnLaunch :: bool
  tq_AskVariablesOnLaunch :: bool

record hostResult =
  hr_ID :: int
  hr_Name :: string
  hr_Variables :: string
  hr_Description :: string

record launchResponse =
  lr_ID :: int
  lr_Job :: int
  lr_WorkflowJob :: int
  lr_IgnoredFields :: "string list"

record jobListResult =
  jl_ID :: int
  jl_Created :: stamp
  jl_Limit :: string
  jl_Status :: string

record TLSOptions =
  tls_InsecureSkipVerify :: bool
  tls_CABundlePEM :: string

record AWXClient =
  cl_baseURL :: string
  cl_basePath :: string
  cl_token :: string
  cl_tls :: TLSOptions

text \<open>
  The body of a launch: the \<open>limit\<close> key when there is one, and \<open>extra_vars\<close>, whose value
  is the JSON text of this map.
\<close>

record launchBody =
  lb_limit :: "string option"
  lb_extra_vars :: "string smap option"

text \<open>One constructor per endpoint the client calls; \<open>req_method\<close> and \<open>req_path\<close> render it.\<close>

datatype awx_req =
    RqMe
  | RqPing string
  | RqTemplates bool string
  | RqHostsByName int string
  | RqHostsPage string
  | RqCreateHost int string string string
  | RqPatchHost int string
  | RqGetHost int
  | RqDeleteHost int
  | RqLaunch bool int launchBody
  | RqJob bool int
  | RqCancelJob bool int
  | RqRecentJobs bool int

text \<open>
  A response body is given as what \<open>json.Unmarshal\<close> makes of it: one of the documents the client
  knows, an empty body, or one that does not decode. A document of another shape decodes to the
  zero value of the struct asked for.
\<close>

datatype http_body =
    EmptyBody
  | BadBody string
  | BTemplates "templateResult list"
  | BHosts "hostResult list" string
  | BHost hostResult
  | BLaunch launchResponse
  | BJobStatus string
  | BJobs "jobListResult list"

record http_resp =
  rs_StatusCode :: int
  rs_Text :: string
  rs_Body :: http_body

section \<open>Events\<close>

datatype payload =
    PConn string
  | PBinding BindingSummary int string stamp
  | PChild AnsibleBindingVMStatus
  | PRun AnsibleRunStatus
  | PGeneric string string bool stamp

text \<open>
  What a JSONPath can resolve to (\<open>reflect.Kind\<close> of the value): \<open>JpOther\<close> is a map or a slice, with
  the name of its kind. A float carries the text \<open>json.Marshal\<close> gives it.
\<close>

datatype jp_value = JpNil | JpString string | JpBool bool | JpInt int | JpFloat string | JpOther string

type_synonym api_err = "api_reason \<times> string"

text \<open>
  \<open>EHttp\<close> is a request of the AWX client with its answer (\<open>Inl\<close> a transport error). The
  \<open>E\<dots>\<close> of the API server carry what was asked and what came back. \<open>EAddAfter\<close>, \<open>EAdd\<close>,
  \<open>EAddRateLimited\<close>, \<open>EForget\<close> and \<open>EDone\<close> are calls of the workqueue.
\<close>

datatype event =
    ENow int
  | ERand int int
  | EHttp AWXClient awx_req "string + http_resp"
  | EGet gvr string string "api_err + unstr"
  | EList gvr string "string smap" "api_err + unstr list"
  | ECreate gvr unstr "api_err option"
  | EApplyStatus gvr string string payload string "api_err option"
  | EUpdateStatus gvr unstr string "api_err + string"
  | EPatchFinalizers gvr string string "string list" string "api_err option"
  | EPatchSpec gvr string string string string AnsibleBindingVMSpec "api_err option"
  | EDelete gvr string string "string option" "api_err option"
  | ERestMapping string string string "bool \<times> string + string \<times> bool"
  | EMapperReset
  | EAddAfter gvr string int
  | EAdd gvr string
  | EAddRateLimited gvr string
  | EForget gvr string
  | EDone gvr string

type_synonym trace = "event list"

record env =
  e_now :: "trace \<Rightarrow> int"
  e_rand :: "trace \<Rightarrow> int \<Rightarrow> int"
  e_http :: "trace \<Rightarrow> AWXClient \<Rightarrow> awx_req \<Rightarrow> string + http_resp"
  e_get :: "trace \<Rightarrow> gvr \<Rightarrow> string \<Rightarrow> string \<Rightarrow> api_err + unstr"
  e_list :: "trace \<Rightarrow> gvr \<Rightarrow> string \<Rightarrow> string smap \<Rightarrow> api_err + unstr list"
  e_create :: "trace \<Rightarrow> gvr \<Rightarrow> unstr \<Rightarrow> api_err option"
  e_applyStatus :: "trace \<Rightarrow> gvr \<Rightarrow> string \<Rightarrow> string \<Rightarrow> payload \<Rightarrow> string \<Rightarrow> api_err option"
  e_updateStatus :: "trace \<Rightarrow> gvr \<Rightarrow> unstr \<Rightarrow> string \<Rightarrow> api_err + string"
  e_patchFinalizers :: "trace \<Rightarrow> gvr \<Rightarrow> string \<Rightarrow> string \<Rightarrow> string list \<Rightarrow> string \<Rightarrow> api_err option"
  e_patchSpec :: "trace \<Rightarrow> gvr \<Rightarrow> string \<Rightarrow> string \<Rightarrow> string \<Rightarrow> string \<Rightarrow> AnsibleBindingVMSpec \<Rightarrow> api_err option"
  e_delete :: "trace \<Rightarrow> gvr \<Rightarrow> string \<Rightarrow> string \<Rightarrow> string option \<Rightarrow> api_err option"
  e_restMapping :: "trace \<Rightarrow> string \<Rightarrow> string \<Rightarrow> string \<Rightarrow> bool \<times> string + string \<times> bool"
  e_splitKey :: "string \<Rightarrow> (string \<times> string) option"
  e_parseGroupVersion :: "string \<Rightarrow> string + string \<times> string"
  e_jsonPathParse :: "string \<Rightarrow> string option"
  e_jsonPathFind :: "unstr \<Rightarrow> string \<Rightarrow> string + jp_value list list"
  e_store :: "trace \<Rightarrow> gvr \<Rightarrow> string \<Rightarrow> unstr option"
  e_childIndex :: "trace \<Rightarrow> string \<Rightarrow> unstr list option"
  e_numRequeues :: "trace \<Rightarrow> gvr \<Rightarrow> string \<Rightarrow> int"
  e_order :: "trace \<Rightarrow> nat \<Rightarrow> nat list"
  e_sha256 :: "string \<Rightarrow> string"
  e_certsOK :: "string \<Rightarrow> bool"
  e_floatText :: "string \<Rightarrow> string"
  e_supervisorID :: string
  e_hostCheckPeriod :: int
  e_varsFromResources :: "(string \<times> string) list"

section \<open>Computations\<close>

record clientCacheEntry =
  cce_client :: AWXClient
  cce_basePath :: string
  cce_expires :: int

record templateCacheEntry =
  tce_tmpl :: AWXTemplate
  tce_expires :: int

record world =
  w_trace :: trace
  w_clients :: "clientCacheEntry smap"
  w_templates :: "templateCacheEntry smap"

type_synonym 'a prog = "(world, 'a) state"

abbreviation ret :: "'a \<Rightarrow> 'a prog" where
  "ret \<equiv> State_Monad.return"

definition ask :: "(trace \<Rightarrow> 'a) \<Rightarrow> ('a \<Rightarrow> event) \<Rightarrow> 'a prog" where
  "ask f ev = State (\<lambda>w. let a = f (w_trace w) in (a, w\<lparr>w_trace := w_trace w @ [ev a]\<rparr>))"

text \<open>A read of an informer store or of the queue's own counters costs no call: no event.\<close>

definition peek :: "(trace \<Rightarrow> 'a) \<Rightarrow> 'a prog" where
  "peek f = State (\<lambda>w. (f (w_trace w), w))"

definition read_world :: "(world \<Rightarrow> 'a) \<Rightarrow> 'a prog" where
  "read_world f = State (\<lambda>w. (f w, w))"

definition set_clients :: "(clientCacheEntry smap \<Rightarrow> clientCacheEntry smap) \<Rightarrow> unit prog" where
  "set_clients f = State (\<lambda>w. ((), w\<lparr>w_clients := f (w_clients w)\<rparr>))"

definition set_templates :: "(templateCacheEntry smap \<Rightarrow> templateCacheEntry smap) \<Rightarrow> unit prog" where
  "set_templates f = State (\<lambda>w. ((), w\<lparr>w_templates := f (w_templates w)\<rparr>))"

definition api_error :: "api_err \<Rightarrow> gerr" where
  "api_error a = ApiE (fst a) (snd a)"

fun api_result :: "api_err + 'a \<Rightarrow> gerr + 'a" where
  "api_result (Inl a) = Inl (api_error a)"
| "api_result (Inr x) = Inr x"

definition api_opt :: "api_err option \<Rightarrow> gerr option" where
  "api_opt = map_option api_error"

definition time_Now :: "env \<Rightarrow> int prog" where
  "time_Now E = ask (e_now E) ENow"

text \<open>\<open>rand.Int63n(n)\<close>: a value in \<open>[0, n)\<close>.\<close>

definition rand_Int63n :: "env \<Rightarrow> int \<Rightarrow> int prog" where
  "rand_Int63n E n = ask (\<lambda>t. e_rand E t n mod n) (ERand n)"

definition nowRFC3339 :: "env \<Rightarrow> stamp prog" where
  "nowRFC3339 E = do { t \<leftarrow> time_Now E; ret (format_time t) }"

definition time_Since :: "env \<Rightarrow> int \<Rightarrow> int prog" where
  "time_Since E t = do { now \<leftarrow> time_Now E; ret (time_sub now t) }"

definition http_Do :: "env \<Rightarrow> AWXClient \<Rightarrow> awx_req \<Rightarrow> (string + http_resp) prog" where
  "http_Do E c r = ask (\<lambda>t. e_http E t c r) (EHttp c r)"

definition k8s_Get :: "env \<Rightarrow> gvr \<Rightarrow> string \<Rightarrow> string \<Rightarrow> (gerr + unstr) prog" where
  "k8s_Get E g ns name = do { r \<leftarrow> ask (\<lambda>t. e_get E t g ns name) (EGet g ns name); ret (api_result r) }"

definition k8s_List :: "env \<Rightarrow> gvr \<Rightarrow> string \<Rightarrow> string smap \<Rightarrow> (gerr + unstr list) prog" where
  "k8s_List E g ns sel = do { r \<leftarrow> ask (\<lambda>t. e_list E t g ns sel) (EList g ns sel); ret (api_result r) }"

definition k8s_Create :: "env \<Rightarrow> gvr \<Rightarrow> unstr \<Rightarrow> gerr option prog" where
  "k8s_Create E g u = do { r \<leftarrow> ask (\<lambda>t. e_create E t g u) (ECreate g u); ret (api_opt r) }"

definition k8s_ApplyStatus :: "env \<Rightarrow> gvr \<Rightarrow> string \<Rightarrow> string \<Rightarrow> payload \<Rightarrow> string \<Rightarrow> gerr option prog" where
  "k8s_ApplyStatus E g ns name p fm = do {
     r \<leftarrow> ask (\<lambda>t. e_applyStatus E t g ns name p fm) (EApplyStatus g ns name p fm); ret (api_opt r) }"

definition k8s_UpdateStatus :: "env \<Rightarrow> gvr \<Rightarrow> unstr \<Rightarrow> string \<Rightarrow> (gerr + string) prog" where
  "k8s_UpdateStatus E g u fm = do {
     r \<leftarrow> ask (\<lambda>t. e_updateStatus E t g u fm) (EUpdateStatus g u fm); ret (api_result r) }"

definition k8s_PatchFinalizers :: "env \<Rightarrow> gvr \<Rightarrow> string \<Rightarrow> string \<Rightarrow> string list \<Rightarrow> string \<Rightarrow> gerr option prog" where
  "k8s_PatchFinalizers E g ns name fs rv = do {
     r \<leftarrow> ask (\<lambda>t. e_patchFinalizers E t g ns name fs rv) (EPatchFinalizers g ns name fs rv); ret (api_opt r) }"

definition k8s_PatchSpec ::
    "env \<Rightarrow> gvr \<Rightarrow> string \<Rightarrow> string \<Rightarrow> string \<Rightarrow> string \<Rightarrow> AnsibleBindingVMSpec \<Rightarrow> gerr option prog" where
  "k8s_PatchSpec E g ns name uid rv sp = do {
     r \<leftarrow> ask (\<lambda>t. e_patchSpec E t g ns name uid rv sp) (EPatchSpec g ns name uid rv sp); ret (api_opt r) }"

definition k8s_Delete :: "env \<Rightarrow> gvr \<Rightarrow> string \<Rightarrow> string \<Rightarrow> string option \<Rightarrow> gerr option prog" where
  "k8s_Delete E g ns name uid = do {
     r \<leftarrow> ask (\<lambda>t. e_delete E t g ns name uid) (EDelete g ns name uid); ret (api_opt r) }"

text \<open>
  \<open>RESTMapping\<close> answers \<open>Inl (noMatch, message)\<close>, or the resource and whether it is namespaced.
\<close>

definition rest_Mapping :: "env \<Rightarrow> string \<Rightarrow> string \<Rightarrow> string \<Rightarrow> (bool \<times> string + string \<times> bool) prog" where
  "rest_Mapping E grp kind version =
     ask (\<lambda>t. e_restMapping E t grp kind version) (ERestMapping grp kind version)"

definition mapper_Reset :: "unit prog" where
  "mapper_Reset = ask (\<lambda>_. ()) (\<lambda>_. EMapperReset)"

definition queue_AddAfter :: "gvr \<Rightarrow> string \<Rightarrow> int \<Rightarrow> unit prog" where
  "queue_AddAfter g k d = ask (\<lambda>_. ()) (\<lambda>_. EAddAfter g k d)"

definition queue_Add :: "gvr \<Rightarrow> string \<Rightarrow> unit prog" where
  "queue_Add g k = ask (\<lambda>_. ()) (\<lambda>_. EAdd g k)"

definition queue_AddRateLimited :: "gvr \<Rightarrow> string \<Rightarrow> unit prog" where
  "queue_AddRateLimited g k = ask (\<lambda>_. ()) (\<lambda>_. EAddRateLimited g k)"

definition queue_Forget :: "gvr \<Rightarrow> string \<Rightarrow> unit prog" where
  "queue_Forget g k = ask (\<lambda>_. ()) (\<lambda>_. EForget g k)"

definition queue_Done :: "gvr \<Rightarrow> string \<Rightarrow> unit prog" where
  "queue_Done g k = ask (\<lambda>_. ()) (\<lambda>_. EDone g k)"

section \<open>The effect judgement\<close>

definition emits :: "'a prog \<Rightarrow> ('a \<Rightarrow> event list \<Rightarrow> bool) \<Rightarrow> bool" where
  "emits m R \<longleftrightarrow> (\<forall>w. \<exists>es. w_trace (snd (run_state m w)) = w_trace w @ es \<and> R (fst (run_state m w)) es)"

lemma emits_return [only_intros]: "R a [] \<Longrightarrow> emits (ret a) R"
  by (simp add: emits_def State_Monad.return_def)

lemma run_state_bind: "run_state (m \<bind> f) w = run_state (f (fst (run_state m w))) (snd (run_state m w))"
  by (cases m) (simp add: split_beta)

lemma emits_bind:
  assumes m: "emits m S" and f: "\<And>a es. S a es \<Longrightarrow> emits (f a) (\<lambda>b es'. R b (es @ es'))"
  shows "emits (m \<bind> f) R"
  unfolding emits_def
proof
  fix w
  obtain es where es: "w_trace (snd (run_state m w)) = w_trace w @ es" "S (fst (run_state m w)) es"
    using m unfolding emits_def by blast
  from f [OF es(2)] obtain es' where
    "w_trace (snd (run_state (f (fst (run_state m w))) (snd (run_state m w)))) = (w_trace w @ es) @ es'"
    "R (fst (run_state (f (fst (run_state m w))) (snd (run_state m w)))) (es @ es')"
    unfolding emits_def using es(1) by metis
  then show "\<exists>es. w_trace (snd (run_state (m \<bind> f) w)) = w_trace w @ es \<and> R (fst (run_state (m \<bind> f) w)) es"
    by (auto simp: run_state_bind split_beta)
qed

lemma emits_conseq: "emits m S \<Longrightarrow> (\<And>a es. S a es \<Longrightarrow> R a es) \<Longrightarrow> emits m R"
  unfolding emits_def by meson

lemma emits_conj: "emits m S \<Longrightarrow> emits m R \<Longrightarrow> emits m (\<lambda>a es. S a es \<and> R a es)"
  unfolding emits_def by (metis same_append_eq)

lemma emits_ask: "(\<And>a. R a [ev a]) \<Longrightarrow> emits (ask f ev) R"
  by (simp add: emits_def ask_def Let_def)

lemma emits_peek [only_intros]: "(\<And>a. R a []) \<Longrightarrow> emits (peek f) R"
  by (simp add: emits_def peek_def)

lemma emits_read_world [only_intros]: "(\<And>a. R a []) \<Longrightarrow> emits (read_world f) R"
  by (simp add: emits_def read_world_def)

lemma emits_set_clients [only_intros]: "R () [] \<Longrightarrow> emits (set_clients f) R"
  by (simp add: emits_def set_clients_def)

lemma emits_set_templates [only_intros]: "R () [] \<Longrightarrow> emits (set_templates f) R"
  by (simp add: emits_def set_templates_def)

lemma emits_if [only_intros]:
  "(c \<Longrightarrow> emits m R) \<Longrightarrow> (\<not> c \<Longrightarrow> emits n R) \<Longrightarrow> emits (if c then m else n) R"
  by simp

lemma emits_option [only_intros]:
  "(x = None \<Longrightarrow> emits m R) \<Longrightarrow> (\<And>y. x = Some y \<Longrightarrow> emits (f y) R) \<Longrightarrow>
   emits (case x of None \<Rightarrow> m | Some y \<Rightarrow> f y) R"
  by (cases x) auto

lemma emits_sum [only_intros]:
  "(\<And>y. x = Inl y \<Longrightarrow> emits (f y) R) \<Longrightarrow> (\<And>y. x = Inr y \<Longrightarrow> emits (g y) R) \<Longrightarrow>
   emits (case x of Inl y \<Rightarrow> f y | Inr y \<Rightarrow> g y) R"
  by (cases x) auto

lemma emits_prod [only_intros]:
  "(\<And>y z. x = (y, z) \<Longrightarrow> emits (f y z) R) \<Longrightarrow> emits (case x of (y, z) \<Rightarrow> f y z) R"
  by (cases x) auto

lemma emits_list [only_intros]:
  "(x = [] \<Longrightarrow> emits m R) \<Longrightarrow> (\<And>y z. x = y # z \<Longrightarrow> emits (f y z) R) \<Longrightarrow>
   emits (case x of [] \<Rightarrow> m | y # z \<Rightarrow> f y z) R"
  by (cases x) auto

lemma emits_Let [only_intros]: "(\<And>y. y = x \<Longrightarrow> emits (f y) R) \<Longrightarrow> emits (let y = x in f y) R"
  by simp

text \<open>\<open>only K m\<close>: every event of every run of \<open>m\<close> satisfies \<open>K\<close>.\<close>

definition only :: "(event \<Rightarrow> bool) \<Rightarrow> 'a prog \<Rightarrow> bool" where
  "only K m \<longleftrightarrow> emits m (\<lambda>a es. list_all K es)"

lemma only_return [only_intros]: "only K (ret a)"
  by (simp add: only_def emits_return)

lemma only_bind [only_intros]: "only K m \<Longrightarrow> (\<And>a. only K (f a)) \<Longrightarrow> only K (m \<bind> f)"
  unfolding only_def by (erule emits_bind) (auto intro: emits_conseq)

lemma only_ask: "(\<And>a. K (ev a)) \<Longrightarrow> only K (ask f ev)"
  by (simp add: only_def emits_ask)

lemma only_peek [only_intros]: "only K (peek f)"
  and only_read_world [only_intros]: "only K (read_world g)"
  and only_set_clients [only_intros]: "only K (set_clients h)"
  and only_set_templates [only_intros]: "only K (set_templates h')"
  by (simp_all add: only_def emits_peek emits_read_world emits_set_clients emits_set_templates)

lemma only_mono: "only K m \<Longrightarrow> (\<And>e. K e \<Longrightarrow> L e) \<Longrightarrow> only L m"
  unfolding only_def by (erule emits_conseq) (auto simp: list_all_iff)

lemma only_if [only_intros]:
  "(c \<Longrightarrow> only K m) \<Longrightarrow> (\<not> c \<Longrightarrow> only K n) \<Longrightarrow> only K (if c then m else n)"
  by simp

lemma only_option [only_intros]:
  "(x = None \<Longrightarrow> only K m) \<Longrightarrow> (\<And>y. x = Some y \<Longrightarrow> only K (f y)) \<Longrightarrow>
   only K (case x of None \<Rightarrow> m | Some y \<Rightarrow> f y)"
  by (cases x) auto

lemma only_sum [only_intros]:
  "(\<And>y. x = Inl y \<Longrightarrow> only K (f y)) \<Longrightarrow> (\<And>y. x = Inr y \<Longrightarrow> only K (g y)) \<Longrightarrow>
   only K (case x of Inl y \<Rightarrow> f y | Inr y \<Rightarrow> g y)"
  by (cases x) auto

lemma only_prod [only_intros]:
  "(\<And>y z. x = (y, z) \<Longrightarrow> only K (f y z)) \<Longrightarrow> only K (case x of (y, z) \<Rightarrow> f y z)"
  by (cases x) auto

lemma only_list [only_intros]:
  "(x = [] \<Longrightarrow> only K m) \<Longrightarrow> (\<And>y z. x = y # z \<Longrightarrow> only K (f y z)) \<Longrightarrow>
   only K (case x of [] \<Rightarrow> m | y # z \<Rightarrow> f y z)"
  by (cases x) auto

lemma only_Let [only_intros]: "(\<And>y. y = x \<Longrightarrow> only K (f y)) \<Longrightarrow> only K (let y = x in f y)"
  by simp

text \<open>The events of one run, read off the trace.\<close>

definition events_of :: "'a prog \<Rightarrow> world \<Rightarrow> event list" where
  "events_of m w = drop (length (w_trace w)) (w_trace (snd (run_state m w)))"

definition result_of :: "'a prog \<Rightarrow> world \<Rightarrow> 'a" where
  "result_of m w = fst (run_state m w)"

lemma emitsD: "emits m R \<Longrightarrow> R (result_of m w) (events_of m w)"
  unfolding emits_def events_of_def result_of_def by (metis append_eq_conv_conj)

lemma onlyD: "only K m \<Longrightarrow> e \<in> set (events_of m w) \<Longrightarrow> K e"
  unfolding only_def using emitsD list_all_iff by metis

text \<open>Two judgements on one computation, and an effect bound carried into a specification.\<close>

lemma emits_only: "only K m \<Longrightarrow> emits m (\<lambda>a es. list_all K es)"
  by (simp add: only_def)

lemma emits_and_only: "emits m R \<Longrightarrow> only K m \<Longrightarrow> emits m (\<lambda>a es. R a es \<and> list_all K es)"
  unfolding only_def by (rule emits_conj)

section \<open>What each call emits\<close>

lemma emits_Now: "(\<And>t. R t [ENow t]) \<Longrightarrow> emits (time_Now E) R"
  by (simp add: time_Now_def emits_ask)

lemma emits_nowRFC3339: "(\<And>t. R (format_time t) [ENow t]) \<Longrightarrow> emits (nowRFC3339 E) R"
  unfolding nowRFC3339_def by (rule emits_bind [OF emits_Now [where R = "\<lambda>t es. es = [ENow t]"]])
    (auto intro!: emits_return)

lemma emits_Since: "(\<And>now. R (time_sub now t) [ENow now]) \<Longrightarrow> emits (time_Since E t) R"
  unfolding time_Since_def by (rule emits_bind [OF emits_Now [where R = "\<lambda>t es. es = [ENow t]"]])
    (auto intro!: emits_return)

lemma emits_http: "(\<And>a. R a [EHttp c r a]) \<Longrightarrow> emits (http_Do E c r) R"
  by (simp add: http_Do_def emits_ask)

lemma emits_wrapped:
  "(\<And>r. R (g r) [ev r]) \<Longrightarrow> emits (ask f ev \<bind> (\<lambda>r. ret (g r))) R"
  by (rule emits_bind [OF emits_ask [where R = "\<lambda>r es. es = [ev r]"]]) (auto intro!: emits_return)

lemma emits_k8s_Get: "(\<And>r. R (api_result r) [EGet g ns name r]) \<Longrightarrow> emits (k8s_Get E g ns name) R"
  and emits_k8s_List: "(\<And>r. Rl (api_result r) [EList g ns sel r]) \<Longrightarrow> emits (k8s_List E g ns sel) Rl"
  and emits_k8s_Create: "(\<And>r. Ro (api_opt r) [ECreate g u r]) \<Longrightarrow> emits (k8s_Create E g u) Ro"
  and emits_k8s_ApplyStatus: "(\<And>r. Ro (api_opt r) [EApplyStatus g ns name p fm r]) \<Longrightarrow>
     emits (k8s_ApplyStatus E g ns name p fm) Ro"
  and emits_k8s_UpdateStatus: "(\<And>r. Ru (api_result r) [EUpdateStatus g u fm r]) \<Longrightarrow>
     emits (k8s_UpdateStatus E g u fm) Ru"
  and emits_k8s_PatchFinalizers: "(\<And>r. Ro (api_opt r) [EPatchFinalizers g ns name fs rv r]) \<Longrightarrow>
     emits (k8s_PatchFinalizers E g ns name fs rv) Ro"
  and emits_k8s_PatchSpec: "(\<And>r. Ro (api_opt r) [EPatchSpec g ns name uid rv sp r]) \<Longrightarrow>
     emits (k8s_PatchSpec E g ns name uid rv sp) Ro"
  and emits_k8s_Delete: "(\<And>r. Ro (api_opt r) [EDelete g ns name uo r]) \<Longrightarrow>
     emits (k8s_Delete E g ns name uo) Ro"
  unfolding k8s_Get_def k8s_List_def k8s_Create_def k8s_ApplyStatus_def k8s_UpdateStatus_def
    k8s_PatchFinalizers_def k8s_PatchSpec_def k8s_Delete_def
  by (rule emits_wrapped; assumption)+

text \<open>The same as exact specifications: the one event and the answer it carries.\<close>

lemma does_Now: "emits (time_Now E) (\<lambda>t es. es = [ENow t])"
  and does_nowRFC3339: "emits (nowRFC3339 E) (\<lambda>r es. \<exists>t. r = format_time t \<and> es = [ENow t])"
  and does_Since: "emits (time_Since E t') (\<lambda>r es. \<exists>now. r = time_sub now t' \<and> es = [ENow now])"
  and does_http: "emits (http_Do E c rq) (\<lambda>a es. es = [EHttp c rq a])"
  and does_Get: "emits (k8s_Get E g ns name) (\<lambda>r es. \<exists>a. r = api_result a \<and> es = [EGet g ns name a])"
  and does_List: "emits (k8s_List E g ns sel) (\<lambda>r es. \<exists>a. r = api_result a \<and> es = [EList g ns sel a])"
  and does_Create: "emits (k8s_Create E g u) (\<lambda>r es. \<exists>a. r = api_opt a \<and> es = [ECreate g u a])"
  and does_ApplyStatus: "emits (k8s_ApplyStatus E g ns name p fm) (\<lambda>r es. \<exists>a. r = api_opt a \<and> es = [EApplyStatus g ns name p fm a])"
  and does_UpdateStatus: "emits (k8s_UpdateStatus E g u fm) (\<lambda>r es. \<exists>a. r = api_result a \<and> es = [EUpdateStatus g u fm a])"
  and does_PatchFinalizers: "emits (k8s_PatchFinalizers E g ns name fs rv) (\<lambda>r es. \<exists>a. r = api_opt a \<and> es = [EPatchFinalizers g ns name fs rv a])"
  and does_PatchSpec: "emits (k8s_PatchSpec E g ns name uid rv sp) (\<lambda>r es. \<exists>a. r = api_opt a \<and> es = [EPatchSpec g ns name uid rv sp a])"
  and does_Delete: "emits (k8s_Delete E g ns name uo) (\<lambda>r es. \<exists>a. r = api_opt a \<and> es = [EDelete g ns name uo a])"
  by (rule emits_Now emits_nowRFC3339 emits_Since emits_http emits_k8s_Get emits_k8s_List emits_k8s_Create
      emits_k8s_ApplyStatus emits_k8s_UpdateStatus emits_k8s_PatchFinalizers emits_k8s_PatchSpec emits_k8s_Delete; blast)+

lemma api_opt_simps [simp]: "api_opt a = None \<longleftrightarrow> a = None" "api_opt None = None"
  by (simp_all add: api_opt_def)

lemma api_result_Inr [simp]: "api_result a = Inr x \<longleftrightarrow> a = Inr x" "Inr x = api_result a \<longleftrightarrow> a = Inr x"
  by (cases a; auto)+

lemma only_prims [only_intros]:
  "(\<And>t. K (ENow t)) \<Longrightarrow> only K (time_Now E)"
  "(\<And>t. K (ENow t)) \<Longrightarrow> only K (nowRFC3339 E)"
  "(\<And>t. K (ENow t)) \<Longrightarrow> only K (time_Since E t')"
  "(\<And>x. K (ERand n x)) \<Longrightarrow> only K (rand_Int63n E n)"
  "(\<And>a. K (EHttp c r a)) \<Longrightarrow> only K (http_Do E c r)"
  "(\<And>a. K (EGet g ns name a)) \<Longrightarrow> only K (k8s_Get E g ns name)"
  "(\<And>a. K (EList g ns sel a)) \<Longrightarrow> only K (k8s_List E g ns sel)"
  "(\<And>a. K (ECreate g u a)) \<Longrightarrow> only K (k8s_Create E g u)"
  "(\<And>a. K (EApplyStatus g ns name p fm a)) \<Longrightarrow> only K (k8s_ApplyStatus E g ns name p fm)"
  "(\<And>a. K (EUpdateStatus g u fm a)) \<Longrightarrow> only K (k8s_UpdateStatus E g u fm)"
  "(\<And>a. K (EPatchFinalizers g ns name fs rv a)) \<Longrightarrow> only K (k8s_PatchFinalizers E g ns name fs rv)"
  "(\<And>a. K (EPatchSpec g ns name uid rv sp a)) \<Longrightarrow> only K (k8s_PatchSpec E g ns name uid rv sp)"
  "(\<And>a. K (EDelete g ns name uo a)) \<Longrightarrow> only K (k8s_Delete E g ns name uo)"
  "(\<And>a. K (ERestMapping gr ki ve a)) \<Longrightarrow> only K (rest_Mapping E gr ki ve)"
  "K EMapperReset \<Longrightarrow> only K mapper_Reset"
  "K (EAddAfter g k d) \<Longrightarrow> only K (queue_AddAfter g k d)"
  "K (EAdd g k) \<Longrightarrow> only K (queue_Add g k)"
  "K (EAddRateLimited g k) \<Longrightarrow> only K (queue_AddRateLimited g k)"
  "K (EForget g k) \<Longrightarrow> only K (queue_Forget g k)"
  "K (EDone g k) \<Longrightarrow> only K (queue_Done g k)"
  unfolding only_def
  by (auto intro!: emits_Now emits_nowRFC3339 emits_Since emits_http emits_k8s_Get emits_k8s_List emits_k8s_Create
      emits_k8s_ApplyStatus emits_k8s_UpdateStatus emits_k8s_PatchFinalizers emits_k8s_PatchSpec emits_k8s_Delete
      emits_ask simp: rand_Int63n_def rest_Mapping_def mapper_Reset_def queue_AddAfter_def queue_Add_def queue_AddRateLimited_def queue_Forget_def
      queue_Done_def)

section \<open>Order and number of events\<close>

text \<open>\<open>guarded P Q es\<close>: every event of \<open>es\<close> satisfying \<open>Q\<close> comes after one satisfying \<open>P\<close>.\<close>

fun guarded :: "(event \<Rightarrow> bool) \<Rightarrow> (event \<Rightarrow> bool) \<Rightarrow> event list \<Rightarrow> bool" where
  "guarded P Q [] = True"
| "guarded P Q (e # es) = (\<not> Q e \<and> (P e \<or> guarded P Q es))"

lemma guarded_append:
  "guarded P Q (xs @ ys) \<longleftrightarrow> guarded P Q xs \<and> (list_ex P xs \<or> guarded P Q ys)"
  by (induction xs) auto

lemma guarded_none: "list_all (\<lambda>e. \<not> Q e) es \<Longrightarrow> guarded P Q es"
  by (induction es) auto

lemma guarded_iff:
  "guarded P Q es \<longleftrightarrow> (\<forall>i < length es. Q (es ! i) \<longrightarrow> (\<exists>j < i. P (es ! j)))"
proof (induction es)
  case (Cons e es)
  have "(\<forall>i < length (e # es). Q ((e # es) ! i) \<longrightarrow> (\<exists>j < i. P ((e # es) ! j))) \<longleftrightarrow>
      \<not> Q e \<and> (\<forall>i < length es. Q (es ! i) \<longrightarrow> P e \<or> (\<exists>j < i. P (es ! j)))"
    by (auto simp: All_less_Suc2 Ex_less_Suc2)
  with Cons show ?case by auto
qed simp

definition guards :: "(event \<Rightarrow> bool) \<Rightarrow> (event \<Rightarrow> bool) \<Rightarrow> 'a prog \<Rightarrow> bool" where
  "guards P Q m \<longleftrightarrow> emits m (\<lambda>a es. guarded P Q es)"

lemma guards_only: "only (\<lambda>e. \<not> Q e) m \<Longrightarrow> guards P Q m"
  unfolding guards_def only_def by (erule emits_conseq) (rule guarded_none)

definition extends :: "'a prog \<Rightarrow> bool" where
  "extends m \<longleftrightarrow> emits m (\<lambda>a es. True)"

text \<open>The events of a sequence, when both parts only append.\<close>

lemma events_of_bind:
  assumes "extends m" and "\<And>a. extends (f a)"
  shows "events_of (m \<bind> f) w = events_of m w @ events_of (f (result_of m w)) (snd (run_state m w))"
proof -
  obtain es where es: "w_trace (snd (run_state m w)) = w_trace w @ es"
    using assms(1) unfolding extends_def emits_def by blast
  obtain es' where es': "w_trace (snd (run_state (f (result_of m w)) (snd (run_state m w)))) = w_trace (snd (run_state m w)) @ es'"
    using assms(2) [of "result_of m w"] unfolding extends_def emits_def by blast
  from es es' show ?thesis by (simp add: events_of_def result_of_def run_state_bind split_beta)
qed

lemma extends_emits: "emits m R \<Longrightarrow> extends m"
  unfolding extends_def by (erule emits_conseq) simp

lemma guards_bind:
  assumes m: "emits m R"
    and f: "\<And>a es. R a es \<Longrightarrow> guarded P Q es \<and> (list_ex P es \<and> extends (f a) \<or> guards P Q (f a))"
  shows "guards P Q (m \<bind> f)"
  unfolding guards_def
proof (rule emits_bind [OF m])
  fix a es
  assume "R a es"
  from f [OF this] show "emits (f a) (\<lambda>b es'. guarded P Q (es @ es'))"
    by (auto simp: guards_def extends_def guarded_append intro: emits_conseq)
qed

lemma guards_quiet_bind: "only (\<lambda>e. \<not> Q e) m \<Longrightarrow> (\<And>a. guards P Q (f a)) \<Longrightarrow> guards P Q (m \<bind> f)"
  unfolding only_def by (erule guards_bind) (auto intro: guarded_none)

lemma guards_bind_quiet: "guards P Q m \<Longrightarrow> (\<And>a. only (\<lambda>e. \<not> Q e) (f a)) \<Longrightarrow> guards P Q (m \<bind> f)"
  by (subst (asm) guards_def, erule guards_bind) (auto intro: guards_only)

text \<open>\<open>once Q m\<close>: no run of \<open>m\<close> has two events satisfying \<open>Q\<close>.\<close>

definition once :: "(event \<Rightarrow> bool) \<Rightarrow> 'a prog \<Rightarrow> bool" where
  "once Q m \<longleftrightarrow> emits m (\<lambda>a es. length (filter Q es) \<le> 1)"

lemma filter_none: "list_all (\<lambda>e. \<not> Q e) es \<Longrightarrow> filter Q es = []"
  by (induction es) auto

lemma once_only: "only (\<lambda>e. \<not> Q e) m \<Longrightarrow> once Q m"
  unfolding once_def only_def by (erule emits_conseq) (simp add: filter_none)

lemma once_quiet_bind: "only (\<lambda>e. \<not> Q e) m \<Longrightarrow> (\<And>a. once Q (f a)) \<Longrightarrow> once Q (m \<bind> f)"
  unfolding only_def once_def by (erule emits_bind) (auto simp: filter_none)

lemma once_bind_quiet: "once Q m \<Longrightarrow> (\<And>a. only (\<lambda>e. \<not> Q e) (f a)) \<Longrightarrow> once Q (m \<bind> f)"
  unfolding only_def once_def
  by (erule emits_bind, rule emits_conseq, assumption) (simp add: filter_none)

text \<open>A specification whose first part sends nothing of interest.\<close>

lemma emits_quiet_bind:
  assumes "only (\<lambda>e. \<not> Q e) m" and "\<And>a. emits (f a) R"
    and "\<And>b es es'. list_all (\<lambda>e. \<not> Q e) es \<Longrightarrow> R b es' \<Longrightarrow> R b (es @ es')"
  shows "emits (m \<bind> f) R"
  by (rule emits_bind [OF emits_only [OF assms(1)]]) (auto intro: emits_conseq [OF assms(2)] assms(3))

lemma emits_top: "only (\<lambda>_. True) m \<Longrightarrow> emits m (\<lambda>_ _. True)"
  unfolding only_def by (erule emits_conseq) simp

text \<open>
  \<open>preceded R es\<close>: whenever \<open>R\<close> has something to say of an event (\<open>R e = Some P\<close>), the event just before
  it satisfies \<open>P\<close>.
\<close>

definition preceded :: "(event \<Rightarrow> (event \<Rightarrow> bool) option) \<Rightarrow> event list \<Rightarrow> bool" where
  "preceded R es \<longleftrightarrow> (\<forall>pre e post P. es = pre @ e # post \<longrightarrow> R e = Some P \<longrightarrow> (\<exists>pre' d. pre = pre' @ [d] \<and> P d))"

lemma preceded_none: "list_all (\<lambda>e. R e = None) es \<Longrightarrow> preceded R es"
  by (auto simp: preceded_def list_all_iff)

lemma preceded_append:
  assumes x: "preceded R xs" and y: "preceded R ys"
  shows "preceded R (xs @ ys)"
  unfolding preceded_def
proof (intro allI impI)
  fix pre e post P
  assume "xs @ ys = pre @ e # post" and R: "R e = Some P"
  then consider zs where "xs = pre @ e # zs" | zs where "pre = xs @ zs" "ys = zs @ e # post"
    unfolding append_eq_append_conv2 by (metis append.right_neutral append_eq_Cons_conv append_Nil)
  then show "\<exists>pre' d. pre = pre' @ [d] \<and> P d"
  proof cases
    case 1
    with x R show ?thesis unfolding preceded_def by blast
  next
    case (2 zs)
    with y R obtain pre' d where "zs = pre' @ [d]" "P d" unfolding preceded_def by blast
    with 2 show ?thesis by auto
  qed
qed

lemma preceded_mono:
  "preceded R es \<Longrightarrow> (\<And>e P. R' e = Some P \<Longrightarrow> \<exists>Q. R e = Some Q \<and> (\<forall>d. Q d \<longrightarrow> P d)) \<Longrightarrow> preceded R' es"
  unfolding preceded_def by metis

lemma preceded_two: "R d = None \<Longrightarrow> (\<And>P. R e = Some P \<Longrightarrow> P d) \<Longrightarrow> preceded R [d, e]"
  unfolding preceded_def by (auto simp: Cons_eq_append_conv)

lemma preceded_quiet: "only (\<lambda>e. R e = None) m \<Longrightarrow> emits m (\<lambda>_. preceded R)"
  unfolding only_def by (erule emits_conseq) (rule preceded_none)

lemma preceded_bind:
  "emits m (\<lambda>_. preceded R) \<Longrightarrow> (\<And>a. emits (f a) (\<lambda>_. preceded R)) \<Longrightarrow> emits (m \<bind> f) (\<lambda>_. preceded R)"
  by (erule emits_bind) (auto intro: emits_conseq preceded_append)

text \<open>The requests that change something in AWX, and the two that matter most.\<close>

fun is_http :: "event \<Rightarrow> bool" where
  "is_http (EHttp c r a) = True"
| "is_http _ = False"

fun is_launch :: "event \<Rightarrow> bool" where
  "is_launch (EHttp c (RqLaunch iw i b) a) = True"
| "is_launch _ = False"

fun is_host_delete :: "event \<Rightarrow> bool" where
  "is_host_delete (EHttp c (RqDeleteHost i) a) = True"
| "is_host_delete _ = False"

fun is_host_write :: "event \<Rightarrow> bool" where
  "is_host_write (EHttp c (RqPatchHost i v) a) = True"
| "is_host_write (EHttp c (RqCreateHost i n d v) a) = True"
| "is_host_write (EHttp c (RqDeleteHost i) a) = True"
| "is_host_write _ = False"

end
