(* ===== verification/Util.thy ===== *)
theory Util
  imports World
begin

text \<open>
  controller/util.go: ownership markers, child names, the host-check clock, Secret values, VM
  readiness, run history, and the mapping of AWX's job statuses to phases. SHA-256 in hex is
  the parameter \<open>e_sha256\<close> of the environment.
\<close>

section \<open>Ownership markers and fingerprints\<close>

definition hostMarkerPrefix where "hostMarkerPrefix = ''ansible-supervisor:''"

definition hostOwnerMarker :: "env \<Rightarrow> string \<Rightarrow> string \<Rightarrow> string" where
  "hostOwnerMarker E namespace name =
     hostMarkerPrefix @ e_supervisorID E @ '':'' @ namespace @ ''/'' @ name"

definition runHostOwnerMarker :: "env \<Rightarrow> string \<Rightarrow> string \<Rightarrow> string" where
  "runHostOwnerMarker E namespace name =
     hostMarkerPrefix @ e_supervisorID E @ '':'' @ namespace @ ''/'' @ ''ansibleruns'' @ ''/'' @ name"

definition awxEndpointFingerprint :: "env \<Rightarrow> string \<Rightarrow> string \<Rightarrow> string" where
  "awxEndpointFingerprint E url basePath = take 16 (e_sha256 E (trim_right url ''/'' @ ''|'' @ basePath))"

section \<open>Due times\<close>

definition orphanScanPeriod :: "env \<Rightarrow> int" where
  "orphanScanPeriod E = wrap64 (4 * e_hostCheckPeriod E)"

definition dueFor :: "env \<Rightarrow> stamp \<Rightarrow> int \<Rightarrow> (bool \<times> int) prog" where
  "dueFor E ts period =
     (if ts = NoStamp then ret (True, 0)
      else case parse_time ts of
        None \<Rightarrow> ret (True, 0)
      | Some at \<Rightarrow> do {
          elapsed \<leftarrow> time_Since E at;
          if elapsed \<ge> period then ret (True, 0)
          else if elapsed < 0 then ret (True, 0)
          else ret (False, period - elapsed)
        })"

section \<open>Child names\<close>

definition childNameHalfLimit :: nat where "childNameHalfLimit = 110"
definition childNameHashLen :: nat where "childNameHashLen = 10"
definition maxLabelValue :: nat where "maxLabelValue = 63"

definition clipNameSegment :: "string \<Rightarrow> string" where
  "clipNameSegment s =
     trim_right (if length s > childNameHalfLimit then take childNameHalfLimit s else s) ''-.''"

definition bindingLabelValue :: "env \<Rightarrow> string \<Rightarrow> string" where
  "bindingLabelValue E name =
     (if length name \<le> maxLabelValue then name
      else clipNameSegment (take (maxLabelValue - childNameHashLen - 1) name) @ ''-'' @
        take childNameHashLen (e_sha256 E name))"

definition childName :: "env \<Rightarrow> string \<Rightarrow> string" where
  "childName E vmName =
     (let suffix = take childNameHashLen (e_sha256 E vmName)
      in ''vm-'' @ clipNameSegment vmName @ ''-'' @ suffix)"

section \<open>Secrets\<close>

text \<open>\<open>base64.StdEncoding.DecodeString\<close>: line breaks are skipped, padding is required.\<close>

definition b64_val :: "char \<Rightarrow> nat option" where
  "b64_val c = (if CHR ''A'' \<le> c \<and> c \<le> CHR ''Z'' then Some (of_char c - 65)
     else if CHR ''a'' \<le> c \<and> c \<le> CHR ''z'' then Some (of_char c - 71)
     else if CHR ''0'' \<le> c \<and> c \<le> CHR ''9'' then Some (of_char c + 4)
     else if c = CHR ''+'' then Some 62 else if c = CHR ''/'' then Some 63 else None)"

fun b64_groups :: "string \<Rightarrow> string option" where
  "b64_groups [] = Some []"
| "b64_groups (a # b # c # d # r) =
     (case (b64_val a, b64_val b) of
        (Some w, Some x) \<Rightarrow>
          if c = CHR ''='' then (if d = CHR ''='' \<and> r = [] then Some [char_of (w * 4 + x div 16)] else None)
          else (case b64_val c of
              None \<Rightarrow> None
            | Some y \<Rightarrow>
                if d = CHR ''='' then
                  (if r = [] then Some [char_of (w * 4 + x div 16), char_of (x mod 16 * 16 + y div 4)] else None)
                else (case b64_val d of
                    None \<Rightarrow> None
                  | Some z \<Rightarrow> map_option (\<lambda>s. char_of (w * 4 + x div 16) # char_of (x mod 16 * 16 + y div 4)
                      # char_of (y mod 4 * 64 + z) # s) (b64_groups r)))
      | _ \<Rightarrow> None)"
| "b64_groups _ = None"

definition base64_decode :: "string \<Rightarrow> string option" where
  "base64_decode s = b64_groups (filter (\<lambda>c. c \<noteq> CHR 0x0A \<and> c \<noteq> CHR 0x0D) s)"

definition f_secret_fetch where [text_defs]: "f_secret_fetch = ''fetching secret %q: %w''"
definition f_secret_nokey where [text_defs]: "f_secret_nokey = ''secret %q has no data key %q: %w''"
definition f_secret_decode where [text_defs]: "f_secret_decode = ''decoding secret %q key %q: %w: %w''"
definition f_secret_empty where [text_defs]: "f_secret_empty = ''secret %q key %q is empty: %w''"
definition f_base64 where [text_defs]: "f_base64 = ''illegal base64 data''"

definition getSecretValue :: "env \<Rightarrow> string \<Rightarrow> string \<Rightarrow> string \<Rightarrow> (gerr + string) prog" where
  "getSecretValue E namespace name k = do {
     r \<leftarrow> k8s_Get E SecretGVR namespace name;
     ret (case r of
        Inl err \<Rightarrow> Inl (errorw f_secret_fetch [name] err)
      | Inr secret \<Rightarrow>
          (let encoded = (case u_content secret of CSecret d \<Rightarrow> smap_get d k | _ \<Rightarrow> None) in
           if encoded = None \<or> encoded = Some [] then Inl (errorw f_secret_nokey [name, k] PermanentConfigE)
           else (case base64_decode (the encoded) of
               None \<Rightarrow> Inl (WrapE (sprintf f_secret_decode [name, k, f_base64, f_permanent])
                        [errorf f_base64 [], PermanentConfigE])
             | Some decoded \<Rightarrow>
                 (let trimmed = trim_space decoded in
                  if trimmed = [] then Inl (errorw f_secret_empty [name, k] PermanentConfigE)
                  else Inr trimmed))))
   }"

section \<open>Virtual machines\<close>

definition listVirtualMachines :: "env \<Rightarrow> string \<Rightarrow> string smap \<Rightarrow> (gerr + unstr list) prog" where
  "listVirtualMachines E namespace selector = k8s_List E VMGVR namespace selector"

definition no_vm :: vm_view where
  "no_vm = \<lparr>vm_powerState = None, vm_primaryIP4 = None, vm_primaryIP6 = None, vm_vmIp = None\<rparr>"

definition vm_view_of :: "unstr \<Rightarrow> vm_view" where
  "vm_view_of u = (case u_content u of CVM v \<Rightarrow> v | _ \<Rightarrow> no_vm)"

definition nonempty :: "string option \<Rightarrow> bool" where
  "nonempty x \<longleftrightarrow> x \<noteq> None \<and> x \<noteq> Some []"

definition vmReady :: "unstr \<Rightarrow> string \<times> bool" where
  "vmReady vm =
     (let v = vm_view_of vm in
      if \<not> equal_fold (case_option [] id (vm_powerState v)) ''PoweredOn'' then ([], False)
      else if nonempty (vm_primaryIP4 v) then (the (vm_primaryIP4 v), True)
      else if nonempty (vm_primaryIP6 v) then (the (vm_primaryIP6 v), True)
      else if nonempty (vm_vmIp v) then (the (vm_vmIp v), True)
      else ([], False))"

section \<open>Run history\<close>

fun update_entry :: "VMRunHistoryEntry \<Rightarrow> VMRunHistoryEntry list \<Rightarrow> VMRunHistoryEntry list option" where
  "update_entry entry [] = None"
| "update_entry entry (h # hs) =
     (if he_JobID h = he_JobID entry then
        Some (h\<lparr>he_Status := (if he_Status entry \<noteq> [] then he_Status entry else he_Status h),
          he_StartedAt := (if he_StartedAt entry \<noteq> NoStamp then he_StartedAt entry else he_StartedAt h),
          he_FinishedAt := (if he_FinishedAt entry \<noteq> NoStamp then he_FinishedAt entry else he_FinishedAt h)\<rparr> # hs)
      else map_option ((#) h) (update_entry entry hs))"

definition upsertHistory :: "VMRunHistoryEntry list \<Rightarrow> VMRunHistoryEntry \<Rightarrow> VMRunHistoryEntry list" where
  "upsertHistory existing entry =
     (case update_entry entry existing of
        Some updated \<Rightarrow> updated
      | None \<Rightarrow>
          (let updated = entry # existing
           in if length updated > historyLimit then take historyLimit updated else updated))"

section \<open>AWX job statuses\<close>

definition st_successful where "st_successful = ''successful''"
definition st_failed where "st_failed = ''failed''"
definition st_error where "st_error = ''error''"
definition st_canceled where "st_canceled = ''canceled''"
definition st_pending where "st_pending = ''pending''"

lemmas awx_status_defs = st_successful_def st_failed_def st_error_def st_canceled_def st_pending_def

definition mapAWXStatus :: "string \<Rightarrow> string" where
  "mapAWXStatus status =
     (if status = st_successful then PhaseSucceeded
      else if status \<in> {st_failed, st_error, st_canceled} then PhaseFailed
      else PhaseRunning)"

definition isTerminalAWXStatus :: "string \<Rightarrow> bool" where
  "isTerminalAWXStatus status \<longleftrightarrow> status \<in> {st_successful, st_failed, st_error, st_canceled}"

definition f_no_limit where [text_defs]: "f_no_limit =
  ''template %q does not accept a limit at launch time (ask_limit_on_launch is false), so AWX would ignore the limit and run against the whole inventory: enable Prompt on Launch for Limit in AWX, or %s''"
definition f_no_vars where [text_defs]: "f_no_vars =
  ''template %q does not accept extra variables at launch time (ask_variables_on_launch is false), so AWX would ignore spec.extraVars: enable Prompt on Launch for Variables in AWX, or remove spec.extraVars''"

definition checkTemplateAcceptsLaunchFields ::
    "AWXTemplate \<Rightarrow> string \<Rightarrow> bool \<Rightarrow> bool \<Rightarrow> string \<Rightarrow> gerr option" where
  "checkTemplateAcceptsLaunchFields tmpl templateName wantLimit wantExtraVars limitRemedy =
     (if wantLimit \<and> \<not> tp_AskLimitOnLaunch tmpl then Some (errorf f_no_limit [templateName, limitRemedy])
      else if wantExtraVars \<and> \<not> tp_AskVariablesOnLaunch tmpl then Some (errorf f_no_vars [templateName])
      else None)"

section \<open>Lemmas\<close>

lemma awx_status_ne [simp]:
  "st_successful \<noteq> st_failed" "st_successful \<noteq> st_error" "st_successful \<noteq> st_canceled"
  "st_failed \<noteq> st_successful" "st_error \<noteq> st_successful" "st_canceled \<noteq> st_successful"
  "st_pending \<noteq> st_successful" "st_pending \<noteq> []" "st_successful \<noteq> []"
  by (simp_all add: awx_status_defs)

lemma mapAWXStatus_running_iff: "mapAWXStatus s = PhaseRunning \<longleftrightarrow> \<not> isTerminalAWXStatus s"
  by (auto simp: mapAWXStatus_def isTerminalAWXStatus_def)

lemma mapAWXStatus_succeeded_iff: "mapAWXStatus s = PhaseSucceeded \<longleftrightarrow> s = st_successful"
  by (auto simp: mapAWXStatus_def)

lemma not_terminal_pending [simp]: "\<not> isTerminalAWXStatus st_pending" "\<not> isTerminalAWXStatus []"
  by (simp_all add: isTerminalAWXStatus_def awx_status_defs)

lemma check_None_iff:
  "checkTemplateAcceptsLaunchFields tmpl n wl wv r = None \<longleftrightarrow>
     (wl \<longrightarrow> tp_AskLimitOnLaunch tmpl) \<and> (wv \<longrightarrow> tp_AskVariablesOnLaunch tmpl)"
  by (auto simp: checkTemplateAcceptsLaunchFields_def)

lemma update_entry_None: "update_entry e hs = None \<longleftrightarrow> he_JobID e \<notin> he_JobID ` set hs"
  by (induction hs) auto

lemma update_entry_ids: "update_entry e hs = Some hs' \<Longrightarrow> map he_JobID hs' = map he_JobID hs"
  by (induction hs arbitrary: hs') (auto split: if_splits)

lemma upsertHistory_length: "length hs \<le> historyLimit \<Longrightarrow> length (upsertHistory hs e) \<le> historyLimit"
  by (auto simp: upsertHistory_def Let_def split: option.splits dest!: update_entry_ids dest: map_eq_imp_length_eq)

lemma upsertHistory_distinct:
  "distinct (map he_JobID hs) \<Longrightarrow> distinct (map he_JobID (upsertHistory hs e))"
proof (cases "update_entry e hs")
  case None
  assume d: "distinct (map he_JobID hs)"
  from None have "distinct (map he_JobID (e # hs))" using d by (simp add: update_entry_None)
  then have "distinct (map he_JobID (take historyLimit (e # hs)))"
    by (simp only: take_map [symmetric] distinct_take)
  with None \<open>distinct (map he_JobID (e # hs))\<close> show ?thesis by (simp add: upsertHistory_def Let_def)
next
  case (Some hs')
  assume "distinct (map he_JobID hs)"
  with Some show ?thesis by (simp add: upsertHistory_def update_entry_ids)
qed

lemma upsertHistory_records: "he_JobID e \<in> he_JobID ` set (upsertHistory hs e)"
proof (cases "update_entry e hs")
  case None
  then show ?thesis by (simp add: upsertHistory_def historyLimit_def Let_def)
next
  case (Some hs')
  then have "he_JobID ` set hs' = he_JobID ` set hs"
    by (metis update_entry_ids image_set)
  with Some update_entry_None [of e hs] show ?thesis by (auto simp: upsertHistory_def)
qed

definition history_of :: "VMRunHistoryEntry list \<Rightarrow> VMRunHistoryEntry list" where
  "history_of es = foldl upsertHistory [] es"

lemma history_of_ok:
  "length (history_of es) \<le> historyLimit \<and> distinct (map he_JobID (history_of es)) \<and>
   (es = [] \<or> he_JobID (last es) \<in> he_JobID ` set (history_of es))"
proof (induction es rule: rev_induct)
  case (snoc e es)
  have "history_of (es @ [e]) = upsertHistory (history_of es) e" by (simp add: history_of_def)
  with snoc upsertHistory_length [of "history_of es" e] upsertHistory_distinct [of "history_of es" e]
    upsertHistory_records [of e "history_of es"] show ?case by simp
qed (simp add: history_of_def)

lemma emits_dueFor:
  assumes "ts = NoStamp \<or> parse_time ts = None \<Longrightarrow> R (True, 0) []"
    and "\<And>at now d. parse_time ts = Some at \<Longrightarrow> d = time_sub now at \<Longrightarrow>
      R (if d \<ge> period \<or> d < 0 then (True, 0) else (False, period - d)) [ENow now]"
  shows "emits (dueFor E ts period) R"
proof (cases "parse_time ts")
  case None
  then show ?thesis
    using assms(1) by (auto simp: dueFor_def intro!: emits_return)
next
  case (Some at)
  then have ne: "ts \<noteq> NoStamp" by auto
  have *: "emits (time_Since E at) (\<lambda>d es. \<exists>now. d = time_sub now at \<and> es = [ENow now])"
    by (rule emits_Since) blast
  have r: "R (if time_sub now at \<ge> period \<or> time_sub now at < 0 then (True, 0)
      else (False, period - time_sub now at)) [ENow now]" for now
    by (rule assms(2) [OF Some refl])
  have "emits (time_Since E at \<bind> (\<lambda>elapsed. if elapsed \<ge> period then ret (True, 0)
      else if elapsed < 0 then ret (True, 0) else ret (False, period - elapsed))) R"
  proof (rule emits_bind [OF *])
    fix d es
    assume "\<exists>now. d = time_sub now at \<and> es = [ENow now]"
    then obtain now where "d = time_sub now at" "es = [ENow now]" by blast
    with r [of now] show "emits (if d \<ge> period then ret (True, 0) else if d < 0 then ret (True, 0)
        else ret (False, period - d)) (\<lambda>b es'. R b (es @ es'))"
      by (cases "d \<ge> period"; cases "d < 0") (simp_all add: emits_return)
  qed
  with Some ne show ?thesis by (simp add: dueFor_def)
qed

lemma only_dueFor [only_intros]: "(\<And>t. K (ENow t)) \<Longrightarrow> only K (dueFor E ts p)"
  unfolding dueFor_def by (auto intro!: only_intros split: option.splits)

lemma only_getSecretValue [only_intros]:
  "(\<And>a. K (EGet SecretGVR ns name a)) \<Longrightarrow> only K (getSecretValue E ns name k)"
  unfolding getSecretValue_def by (auto intro!: only_intros)

lemma only_listVirtualMachines [only_intros]:
  "(\<And>a. K (EList VMGVR ns sel a)) \<Longrightarrow> only K (listVirtualMachines E ns sel)"
  unfolding listVirtualMachines_def by (auto intro!: only_intros)

end
