(* ===== verification/Json.thy ===== *)
theory Json
  imports Prelude
begin

text \<open>
  The part of \<open>encoding/json\<close> the AWX client applies to an inventory host's variables, which AWX
  keeps as a text: \<open>json.Unmarshal\<close> into a \<open>map[string]interface{}\<close> and \<open>json.Marshal\<close> of
  such a map (keys sorted, HTML characters escaped). Text is UTF-8 bytes, valid as both JSON
  decoders before it guarantee. Numbers keep their literal text, which \<open>json_marshal\<close> passes
  through the parameter \<open>fl\<close>: strconv's shortest form of the float64 the literal denotes.
  The recursive parsers carry fuel, one unit per value, member or character; \<open>json_unmarshal\<close>
  gives them one more than the length of the text.
\<close>

text \<open>An object is a Go map: key-sorted, a later member winning over an earlier one of its name.\<close>

datatype json =
    JNull
  | JBool bool
  | JNum string
  | JStr string
  | JArr "json list"
  | JObj "(string \<times> json) list"

definition members_map :: "(string \<times> json) list \<Rightarrow> (string \<times> json) list" where
  "members_map ms = foldl (\<lambda>m (k, v). smap_put k v m) [] ms"

section \<open>Decoding\<close>

abbreviation "c_quote \<equiv> CHR 0x22"
abbreviation "c_backslash \<equiv> CHR 0x5C"

definition json_ws :: "char \<Rightarrow> bool" where
  "json_ws c \<longleftrightarrow> c = CHR '' '' \<or> c = CHR 0x09 \<or> c = CHR 0x0A \<or> c = CHR 0x0D"

definition skip_ws :: "string \<Rightarrow> string" where
  "skip_ws s = dropWhile json_ws s"

definition between :: "char \<Rightarrow> char \<Rightarrow> char \<Rightarrow> bool" where
  "between lo hi c \<longleftrightarrow> of_char lo \<le> (of_char c :: nat) \<and> (of_char c :: nat) \<le> of_char hi"

definition hex_val :: "char \<Rightarrow> nat option" where
  "hex_val c = (if between (CHR ''0'') (CHR ''9'') c then Some (of_char c - 48)
     else if between (CHR ''a'') (CHR ''f'') c then Some (of_char c - 87)
     else if between (CHR ''A'') (CHR ''F'') c then Some (of_char c - 55) else None)"

fun hex4 :: "string \<Rightarrow> (nat \<times> string) option" where
  "hex4 (a # b # c # d # r) =
     (case (hex_val a, hex_val b, hex_val c, hex_val d) of
        (Some w, Some x, Some y, Some z) \<Rightarrow> Some (((w * 16 + x) * 16 + y) * 16 + z, r)
      | _ \<Rightarrow> None)"
| "hex4 _ = None"

definition byte :: "nat \<Rightarrow> char" where "byte n = char_of n"

definition utf8 :: "nat \<Rightarrow> string" where
  "utf8 n = (if n < 128 then [byte n]
     else if n < 2048 then [byte (192 + n div 64), byte (128 + n mod 64)]
     else if n < 65536 then [byte (224 + n div 4096), byte (128 + n div 64 mod 64), byte (128 + n mod 64)]
     else [byte (240 + n div 262144), byte (128 + n div 4096 mod 64), byte (128 + n div 64 mod 64), byte (128 + n mod 64)])"

text \<open>A \<open>\u\<close> escape, surrogate pairs joined and lone surrogates replaced by U+FFFD.\<close>

fun starts_u :: "string \<Rightarrow> string option" where
  "starts_u (a # b # r) = (if a = c_backslash \<and> b = CHR ''u'' then Some r else None)"
| "starts_u _ = None"

definition unicode_escape :: "string \<Rightarrow> (string \<times> string) option" where
  "unicode_escape s = (case hex4 s of
      None \<Rightarrow> None
    | Some (n, r) \<Rightarrow>
        if 55296 \<le> n \<and> n < 56320 then
          (case Option.bind (starts_u r) hex4 of
             Some (m, r') \<Rightarrow> if 56320 \<le> m \<and> m < 57344
               then Some (utf8 (65536 + (n - 55296) * 1024 + (m - 56320)), r') else Some (utf8 65533, r)
           | None \<Rightarrow> Some (utf8 65533, r))
        else if 56320 \<le> n \<and> n < 57344 then Some (utf8 65533, r)
        else Some (utf8 n, r))"

definition simple_escape :: "char \<Rightarrow> char option" where
  "simple_escape c = (if c = c_quote \<or> c = c_backslash \<or> c = CHR ''/'' then Some c
     else if c = CHR ''b'' then Some (CHR 0x08) else if c = CHR ''f'' then Some (CHR 0x0C)
     else if c = CHR ''n'' then Some (CHR 0x0A) else if c = CHR ''r'' then Some (CHR 0x0D)
     else if c = CHR ''t'' then Some (CHR 0x09) else None)"

text \<open>After the opening quote: the decoded string and what follows the closing quote.\<close>

fun parse_chars :: "nat \<Rightarrow> string \<Rightarrow> (string \<times> string) option" where
  "parse_chars 0 s = None"
| "parse_chars (Suc n) [] = None"
| "parse_chars (Suc n) (c # cs) =
     (if c = c_quote then Some ([], cs)
      else if c < CHR '' '' then None
      else if c \<noteq> c_backslash then map_option (apfst ((#) c)) (parse_chars n cs)
      else (case cs of
              [] \<Rightarrow> None
            | e # ds \<Rightarrow>
                if e = CHR ''u'' then
                  (case unicode_escape ds of
                     None \<Rightarrow> None
                   | Some (u, r) \<Rightarrow> map_option (apfst ((@) u)) (parse_chars n r))
                else (case simple_escape e of
                        None \<Rightarrow> None
                      | Some x \<Rightarrow> map_option (apfst ((#) x)) (parse_chars n ds))))"

definition is_digit :: "char \<Rightarrow> bool" where
  "is_digit c \<longleftrightarrow> between (CHR ''0'') (CHR ''9'') c"

text \<open>The number grammar: sign, integer part without leading zeros, fraction, exponent.\<close>

definition num_int :: "string \<Rightarrow> (string \<times> string) option" where
  "num_int s = (let d = takeWhile is_digit s; r = dropWhile is_digit s in
     if d = [] then None
     else if hd d = CHR ''0'' then Some ([hd d], tl d @ r) else Some (d, r))"

definition num_frac :: "string \<Rightarrow> (string \<times> string) option" where
  "num_frac s = (case s of
      c # cs \<Rightarrow> if c = CHR ''.'' then
          (let d = takeWhile is_digit cs in if d = [] then None else Some (c # d, dropWhile is_digit cs))
        else Some ([], s)
    | [] \<Rightarrow> Some ([], s))"

definition num_sign :: "string \<Rightarrow> string \<times> string" where
  "num_sign s = (case s of c # cs \<Rightarrow> if c = CHR ''+'' \<or> c = CHR ''-'' then ([c], cs) else ([], s) | [] \<Rightarrow> ([], s))"

definition num_exp :: "string \<Rightarrow> (string \<times> string) option" where
  "num_exp s = (case s of
      c # cs \<Rightarrow> if c = CHR ''e'' \<or> c = CHR ''E'' then
          (let (sg, r) = num_sign cs; d = takeWhile is_digit r
           in if d = [] then None else Some (c # sg @ d, dropWhile is_digit r))
        else Some ([], s)
    | [] \<Rightarrow> Some ([], s))"

definition parse_number :: "string \<Rightarrow> (string \<times> string) option" where
  "parse_number s =
     (let (sg, s0) = (case s of c # cs \<Rightarrow> if c = CHR ''-'' then ([c], cs) else ([], s) | [] \<Rightarrow> ([], s)) in
      case num_int s0 of None \<Rightarrow> None | Some (i, s1) \<Rightarrow>
      (case num_frac s1 of None \<Rightarrow> None | Some (f, s2) \<Rightarrow>
       (case num_exp s2 of None \<Rightarrow> None | Some (e, s3) \<Rightarrow> Some (sg @ i @ f @ e, s3))))"

definition literal :: "string \<Rightarrow> json \<Rightarrow> string \<Rightarrow> (json \<times> string) option" where
  "literal w v s = (if has_prefix s w then Some (v, drop (length w) s) else None)"

fun parse_value :: "nat \<Rightarrow> string \<Rightarrow> (json \<times> string) option"
and parse_elems :: "nat \<Rightarrow> string \<Rightarrow> (json list \<times> string) option"
and parse_members :: "nat \<Rightarrow> string \<Rightarrow> ((string \<times> json) list \<times> string) option" where
  "parse_value 0 s = None"
| "parse_value (Suc n) s = (case skip_ws s of
      [] \<Rightarrow> None
    | c # cs \<Rightarrow>
        if c = CHR ''{'' then
          (case skip_ws cs of
             d # ds \<Rightarrow> if d = CHR ''}'' then Some (JObj [], ds)
               else map_option (apfst (\<lambda>ms. JObj (members_map ms))) (parse_members n (d # ds))
           | [] \<Rightarrow> None)
        else if c = CHR ''['' then
          (case skip_ws cs of
             d # ds \<Rightarrow> if d = CHR '']'' then Some (JArr [], ds)
               else map_option (apfst JArr) (parse_elems n (d # ds))
           | [] \<Rightarrow> None)
        else if c = c_quote then map_option (apfst JStr) (parse_chars (Suc (length cs)) cs)
        else if c = CHR ''t'' then literal ''true'' (JBool True) (c # cs)
        else if c = CHR ''f'' then literal ''false'' (JBool False) (c # cs)
        else if c = CHR ''n'' then literal ''null'' JNull (c # cs)
        else map_option (apfst JNum) (parse_number (c # cs)))"
| "parse_elems 0 s = None"
| "parse_elems (Suc n) s = (case parse_value n s of
      None \<Rightarrow> None
    | Some (v, r) \<Rightarrow> (case skip_ws r of
          c # cs \<Rightarrow> if c = CHR '']'' then Some ([v], cs)
            else if c = CHR '','' then map_option (apfst ((#) v)) (parse_elems n cs) else None
        | [] \<Rightarrow> None))"
| "parse_members 0 s = None"
| "parse_members (Suc n) s = (case skip_ws s of
      [] \<Rightarrow> None
    | q # qs \<Rightarrow> if q \<noteq> c_quote then None else
        (case parse_chars (Suc (length qs)) qs of
           None \<Rightarrow> None
         | Some (k, r) \<Rightarrow> (case skip_ws r of
             [] \<Rightarrow> None
           | c # cs \<Rightarrow> if c \<noteq> CHR '':'' then None else
               (case parse_value n cs of
                  None \<Rightarrow> None
                | Some (v, r2) \<Rightarrow> (case skip_ws r2 of
                    [] \<Rightarrow> None
                  | d # ds \<Rightarrow> if d = CHR ''}'' then Some ([(k, v)], ds)
                      else if d = CHR '','' then map_option (apfst ((#) (k, v))) (parse_members n ds)
                      else None)))))"

text \<open>
  \<open>json.Unmarshal(text, &m)\<close> with \<open>m\<close> a \<open>map[string]interface{}\<close>: \<open>None\<close> is an error,
  \<open>Some None\<close> the nil map a JSON null leaves, \<open>Some (Some m)\<close> the map of an object, a later
  member winning over an earlier one of the same name.
\<close>

definition json_unmarshal :: "string \<Rightarrow> json smap option option" where
  "json_unmarshal s = (case parse_value (Suc (length s)) s of
      Some (v, r) \<Rightarrow> if skip_ws r \<noteq> [] then None else
        (case v of JObj ms \<Rightarrow> Some (Some ms) | JNull \<Rightarrow> Some None | _ \<Rightarrow> None)
    | None \<Rightarrow> None)"

section \<open>Encoding\<close>

definition hex_digit :: "nat \<Rightarrow> char" where
  "hex_digit n = (if n < 10 then char_of (48 + n) else char_of (87 + n))"

definition u_escape :: "char \<Rightarrow> string" where
  "u_escape c = [c_backslash, CHR ''u'', CHR ''0'', CHR ''0'',
     hex_digit (of_char c div 16), hex_digit (of_char c mod 16)]"

definition escape_char :: "char \<Rightarrow> string" where
  "escape_char c = (if c = c_quote \<or> c = c_backslash then [c_backslash, c]
     else if c = CHR 0x08 then [c_backslash, CHR ''b''] else if c = CHR 0x0C then [c_backslash, CHR ''f'']
     else if c = CHR 0x0A then [c_backslash, CHR ''n''] else if c = CHR 0x0D then [c_backslash, CHR ''r'']
     else if c = CHR 0x09 then [c_backslash, CHR ''t'']
     else if c < CHR '' '' \<or> c = CHR ''<'' \<or> c = CHR ''>'' \<or> c = CHR ''&'' then u_escape c
     else [c])"

text \<open>U+2028 and U+2029 are escaped as well; every other multi-byte character passes through.\<close>

fun escape :: "string \<Rightarrow> string" where
  "escape (a # b # c # s) =
     (if a = CHR 0xE2 \<and> b = CHR 0x80 \<and> (c = CHR 0xA8 \<or> c = CHR 0xA9)
      then [c_backslash, CHR ''u'', CHR ''2'', CHR ''0'', CHR ''2'', hex_digit (of_char c mod 16)] @ escape s
      else escape_char a @ escape (b # c # s))"
| "escape (a # s) = escape_char a @ escape s"
| "escape [] = []"

definition json_string :: "string \<Rightarrow> string" where
  "json_string s = c_quote # escape s @ [c_quote]"

fun json_text :: "(string \<Rightarrow> string) \<Rightarrow> json \<Rightarrow> string"
and json_members :: "(string \<Rightarrow> string) \<Rightarrow> (string \<times> json) list \<Rightarrow> string list" where
  "json_text fl JNull = ''null''"
| "json_text fl (JBool b) = (if b then ''true'' else ''false'')"
| "json_text fl (JNum s) = fl s"
| "json_text fl (JStr s) = json_string s"
| "json_text fl (JArr vs) = CHR ''['' # join '','' (map (json_text fl) vs) @ '']''"
| "json_text fl (JObj ms) = CHR ''{'' # join '','' (json_members fl ms) @ ''}''"
| "json_members fl [] = []"
| "json_members fl ((k, v) # ms) = (json_string k @ '':'' @ json_text fl v) # json_members fl ms"

text \<open>\<open>json.Marshal\<close> of a \<open>map[string]interface{}\<close>, and of a \<open>map[string]string\<close>.\<close>

definition json_marshal :: "(string \<Rightarrow> string) \<Rightarrow> json smap \<Rightarrow> string" where
  "json_marshal fl m = json_text fl (JObj m)"

definition str_map :: "string smap \<Rightarrow> json smap" where
  "str_map m = map (apsnd JStr) m"

lemma json_example:
  "json_unmarshal ''{\"ansible_host\": \"10.0.0.5\", \"n\": 5, \"a\": [true,null]}''
     = Some (Some [(''a'', JArr [JBool True, JNull]), (''ansible_host'', JStr ''10.0.0.5''), (''n'', JNum ''5'')])"
  by code_simp

end
