(* ===== verification/AwxClient.thy ===== *)
theory AwxClient
  imports Util Json
begin

text \<open>
  controller/awx_client.go: the REST client for AWX. Every operation is the source's: one request
  (\<open>awx_do\<close>), the status code turned into an error, the decoded body, and the checks the
  client makes because AWX's filters cannot be trusted (\<open>findTemplate\<close>, \<open>findHostByName\<close>,
  \<open>ListOwnedHosts\<close>), its ownership rules (\<open>UpsertHost\<close>) and its reading of a launch
  (\<open>jobIDFrom\<close>, \<open>ignoredFieldsError\<close>). \<open>httpClientFor\<close> is what \<open>transportFor\<close> and
  \<open>certPoolWith\<close> (Transport) come to without the process-wide cache of transports: an error or none.
\<close>

section \<open>Building requests\<close>

definition hex_upper :: "nat \<Rightarrow> char" where
  "hex_upper n = (if n < 10 then char_of (48 + n) else char_of (55 + n))"

definition query_char :: "char \<Rightarrow> string" where
  "query_char c = (if is_digit c \<or> between (CHR ''a'') (CHR ''z'') c \<or> between (CHR ''A'') (CHR ''Z'') c
       \<or> c \<in> set ''-_.~'' then [c]
     else if c = CHR '' '' then ''+''
     else [CHR ''%'', hex_upper (of_char c div 16), hex_upper (of_char c mod 16)])"

definition QueryEscape :: "string \<Rightarrow> string" where
  "QueryEscape s = concat (map query_char s)"

fun req_method :: "awx_req \<Rightarrow> string" where
  "req_method (RqCreateHost iv n d v) = ''POST''"
| "req_method (RqPatchHost i v) = ''PATCH''"
| "req_method (RqDeleteHost i) = ''DELETE''"
| "req_method (RqLaunch iw i b) = ''POST''"
| "req_method (RqCancelJob iw i) = ''POST''"
| "req_method _ = ''GET''"

definition recentJobsPageSize :: int where "recentJobsPageSize = 50"

definition jobResourcePath :: "string \<Rightarrow> int \<Rightarrow> bool \<Rightarrow> string" where
  "jobResourcePath basePath i isWorkflow =
     basePath @ (if isWorkflow then ''/workflow_jobs/'' else ''/jobs/'') @ itoa i @ ''/''"

fun req_path :: "string \<Rightarrow> awx_req \<Rightarrow> string" where
  "req_path bp RqMe = bp @ ''/me/''"
| "req_path bp (RqPing candidate) = candidate @ ''/ping/''"
| "req_path bp (RqTemplates iw name) =
     bp @ (if iw then ''/workflow_job_templates/'' else ''/job_templates/'') @ ''?name='' @ QueryEscape name"
| "req_path bp (RqHostsByName iv name) = bp @ ''/inventories/'' @ itoa iv @ ''/hosts/?name='' @ QueryEscape name"
| "req_path bp (RqHostsPage path) = path"
| "req_path bp (RqCreateHost iv n d v) = bp @ ''/inventories/'' @ itoa iv @ ''/hosts/''"
| "req_path bp (RqPatchHost i v) = bp @ ''/hosts/'' @ itoa i @ ''/''"
| "req_path bp (RqGetHost i) = bp @ ''/hosts/'' @ itoa i @ ''/''"
| "req_path bp (RqDeleteHost i) = bp @ ''/hosts/'' @ itoa i @ ''/''"
| "req_path bp (RqLaunch iw i b) =
     bp @ (if iw then ''/workflow_job_templates/'' else ''/job_templates/'') @ itoa i @ ''/launch/''"
| "req_path bp (RqJob iw i) = jobResourcePath bp i iw"
| "req_path bp (RqCancelJob iw i) = jobResourcePath bp i iw @ ''cancel/''"
| "req_path bp (RqRecentJobs iw i) =
     bp @ (if iw then ''/workflow_job_templates/'' @ itoa i @ ''/workflow_jobs/'' else ''/job_templates/'' @ itoa i @ ''/jobs/'')
       @ ''?order_by=-created&page_size='' @ itoa recentJobsPageSize"

definition normalizeAPIBasePath :: "string \<Rightarrow> string" where
  "normalizeAPIBasePath path =
     (let path = trim_space path in
      if path = [] then []
      else (let path = (if has_prefix path ''/'' then path else ''/'' @ path)
            in trim_right path ''/''))"

definition APIBasePathGateway where "APIBasePathGateway = ''/api/controller/v2''"
definition APIBasePathLegacy where "APIBasePathLegacy = ''/api/v2''"
definition apiBasePathCandidates where "apiBasePathCandidates = [APIBasePathGateway, APIBasePathLegacy]"

section \<open>The client and its one request primitive\<close>

definition f_no_certs where [text_defs]: "f_no_certs = ''the CA bundle contains no PEM certificates: %w''"

definition httpClientFor :: "env \<Rightarrow> TLSOptions \<Rightarrow> gerr option" where
  "httpClientFor E opts =
     (if tls_InsecureSkipVerify opts then None
      else if tls_CABundlePEM opts \<noteq> [] \<and> \<not> e_certsOK E (tls_CABundlePEM opts)
      then Some (errorw f_no_certs [] PermanentConfigE) else None)"

definition NewAWXClient :: "env \<Rightarrow> string \<Rightarrow> string \<Rightarrow> string \<Rightarrow> TLSOptions \<Rightarrow> gerr + AWXClient" where
  "NewAWXClient E baseURL basePath token opts =
     (let basePath = (if basePath = [] then APIBasePathLegacy else basePath) in
      case httpClientFor E opts of
        Some err \<Rightarrow> Inl err
      | None \<Rightarrow> Inr \<lparr>cl_baseURL = trim_right baseURL ''/'', cl_basePath = normalizeAPIBasePath basePath,
          cl_token = token, cl_tls = opts\<rparr>)"

definition f_awx_request where [text_defs]: "f_awx_request = ''awx request %s %s: %w''"
definition f_awx_decode where [text_defs]: "f_awx_decode = ''awx request %s %s: decoding response: %w''"

definition ok_code :: "int \<Rightarrow> bool" where
  "ok_code c \<longleftrightarrow> 200 \<le> c \<and> c < 300"

definition awx_do :: "env \<Rightarrow> AWXClient \<Rightarrow> awx_req \<Rightarrow> bool \<Rightarrow> (gerr + http_body) prog" where
  "awx_do E c rq wantOut = do {
     r \<leftarrow> http_Do E c rq;
     (let method = req_method rq; path = req_path (cl_basePath c) rq in
      ret (case r of
         Inl msg \<Rightarrow> Inl (errorw f_awx_request [method, path] (errorf msg []))
       | Inr resp \<Rightarrow>
           if \<not> ok_code (rs_StatusCode resp) then Inl (AwxStatusE method path (rs_StatusCode resp) (rs_Text resp))
           else if wantOut then
             (case rs_Body resp of
                BadBody m \<Rightarrow> Inl (errorw f_awx_decode [method, path] (errorf m []))
              | b \<Rightarrow> Inr b)
           else Inr EmptyBody))
   }"

definition Ping :: "env \<Rightarrow> AWXClient \<Rightarrow> gerr option prog" where
  "Ping E c = do { r \<leftarrow> awx_do E c RqMe False; ret (case r of Inl e \<Rightarrow> Some e | Inr _ \<Rightarrow> None) }"

definition f_probing where [text_defs]: "f_probing = ''probing %s: %w''"
definition f_no_base_path where [text_defs]: "f_no_base_path =
  ''could not determine the AWX/AAP API base path at %s (tried %s); set spec.apiBasePath on the AWXConnection if this instance serves the API somewhere else''"

fun detect_loop :: "env \<Rightarrow> string \<Rightarrow> TLSOptions \<Rightarrow> string list \<Rightarrow> string list \<Rightarrow> (gerr + string) prog" where
  "detect_loop E trimmed opts attempts [] = ret (Inl (errorf f_no_base_path [trimmed, join '', '' attempts]))"
| "detect_loop E trimmed opts attempts (candidate # cands) = do {
     r \<leftarrow> http_Do E \<lparr>cl_baseURL = trimmed, cl_basePath = [], cl_token = [], cl_tls = opts\<rparr> (RqPing candidate);
     (case r of
        Inl msg \<Rightarrow> ret (Inl (errorw f_probing [trimmed @ candidate @ ''/ping/''] (errorf msg [])))
      | Inr resp \<Rightarrow>
          if ok_code (rs_StatusCode resp) then ret (Inr candidate)
          else detect_loop E trimmed opts (attempts @ [candidate @ '' -> '' @ itoa (rs_StatusCode resp)]) cands)
   }"

definition DetectAPIBasePath :: "env \<Rightarrow> string \<Rightarrow> TLSOptions \<Rightarrow> (gerr + string) prog" where
  "DetectAPIBasePath E baseURL opts =
     (case httpClientFor E opts of
        Some err \<Rightarrow> ret (Inl err)
      | None \<Rightarrow> detect_loop E (trim_right baseURL ''/'') opts [] apiBasePathCandidates)"

section \<open>Templates\<close>

fun templates_of :: "http_body \<Rightarrow> templateResult list" where
  "templates_of (BTemplates ts) = ts"
| "templates_of _ = []"

definition f_tmpl_missing where [text_defs]: "f_tmpl_missing = ''%s %q not found: %w''"
definition f_tmpl_ambiguous where [text_defs]: "f_tmpl_ambiguous =
  ''%s %q is ambiguous: %d templates share that name (IDs %s), most likely in different AWX organizations. Rename one, or point this binding at an instance where the name is unique: %w''"

definition kind_text :: "bool \<Rightarrow> string" where
  "kind_text iw = (if iw then ''workflow job template'' else ''job template'')"

definition findTemplate :: "env \<Rightarrow> AWXClient \<Rightarrow> bool \<Rightarrow> string \<Rightarrow> (gerr + AWXTemplate) prog" where
  "findTemplate E c iw name = do {
     r \<leftarrow> awx_do E c (RqTemplates iw name) True;
     ret (case r of
        Inl err \<Rightarrow> Inl err
      | Inr body \<Rightarrow>
          (let exact = filter (\<lambda>t. tq_Name t = name) (templates_of body) in
           case exact of
             [] \<Rightarrow> Inl (errorw f_tmpl_missing [kind_text iw, name] PermanentConfigE)
           | [t] \<Rightarrow> Inr \<lparr>tp_ID = tq_ID t, tp_Inventory = tq_Inventory t,
               tp_AskLimitOnLaunch = tq_AskLimitOnLaunch t, tp_AskVariablesOnLaunch = tq_AskVariablesOnLaunch t\<rparr>
           | _ \<Rightarrow> Inl (errorw f_tmpl_ambiguous [kind_text iw, name, itoa (int (length exact)),
               join '', '' (map (\<lambda>t. itoa (tq_ID t)) exact)] PermanentConfigE)))
   }"

definition FindJobTemplate where "FindJobTemplate E c name = findTemplate E c False name"
definition FindWorkflowJobTemplate where "FindWorkflowJobTemplate E c name = findTemplate E c True name"

section \<open>Inventory hosts\<close>

fun hosts_of :: "http_body \<Rightarrow> hostResult list" where
  "hosts_of (BHosts hs nxt) = hs"
| "hosts_of _ = []"

fun next_of :: "http_body \<Rightarrow> string" where
  "next_of (BHosts hs nxt) = nxt"
| "next_of _ = []"

definition zero_host :: hostResult where
  "zero_host = \<lparr>hr_ID = 0, hr_Name = [], hr_Variables = [], hr_Description = []\<rparr>"

fun host_of :: "http_body \<Rightarrow> hostResult" where
  "host_of (BHost h) = h"
| "host_of _ = zero_host"

fun findHostByName :: "hostResult list \<Rightarrow> string \<Rightarrow> hostResult option" where
  "findHostByName [] hostname = None"
| "findHostByName (h # hs) hostname = (if hr_Name h = hostname then Some h else findHostByName hs hostname)"

definition maxHostListPages :: nat where "maxHostListPages = 100"
definition f_list_owned where [text_defs]: "f_list_owned = ''listing AWX hosts owned by %q: %w''"

definition keep_owned :: "string \<Rightarrow> hostResult list \<Rightarrow> hostResult smap \<Rightarrow> hostResult smap" where
  "keep_owned ownerMarker hs owned =
     foldl (\<lambda>m h. if trim_space (hr_Description h) = ownerMarker then smap_put (hr_Name h) h m else m) owned hs"

text \<open>The pagination loop; the first argument is how many pages may still be read.\<close>

fun owned_pages :: "nat \<Rightarrow> env \<Rightarrow> AWXClient \<Rightarrow> string \<Rightarrow> string \<Rightarrow> hostResult smap \<Rightarrow> (gerr + hostResult smap) prog" where
  "owned_pages 0 E c ownerMarker path owned = ret (Inr owned)"
| "owned_pages (Suc pages) E c ownerMarker path owned =
     (if path = [] then ret (Inr owned)
      else do {
        r \<leftarrow> awx_do E c (RqHostsPage path) True;
        (case r of
           Inl err \<Rightarrow> ret (Inl (errorw f_list_owned [ownerMarker] err))
         | Inr body \<Rightarrow>
             (let owned = keep_owned ownerMarker (hosts_of body) owned in
              if \<not> has_prefix (next_of body) ''/'' then ret (Inr owned)
              else owned_pages pages E c ownerMarker (next_of body) owned))
      })"

definition ListOwnedHosts :: "env \<Rightarrow> AWXClient \<Rightarrow> int \<Rightarrow> string \<Rightarrow> (gerr + hostResult smap) prog" where
  "ListOwnedHosts E c inventoryID ownerMarker =
     owned_pages maxHostListPages E c ownerMarker
       (cl_basePath c @ ''/inventories/'' @ itoa inventoryID @ ''/hosts/?description='' @ QueryEscape ownerMarker
          @ ''&page_size=200'') []"

definition f_merge where [text_defs]: "f_merge =
  ''existing host variables are not a JSON object this controller can merge into; remove the conflicting host in AWX or point spec.hostName elsewhere: %w''"
definition f_json where [text_defs]: "f_json = ''json: cannot unmarshal into a map''"

definition mergeHostVariables :: "env \<Rightarrow> string \<Rightarrow> string smap \<Rightarrow> gerr + string" where
  "mergeHostVariables E existing ours =
     (let trimmed = trim_space existing in
      if trimmed = [] \<or> trimmed = ''---'' \<or> trimmed = ''{}'' then Inr (json_marshal (e_floatText E) (str_map ours))
      else (case json_unmarshal trimmed of
          None \<Rightarrow> Inl (errorw f_merge [] (errorf f_json []))
        | Some current \<Rightarrow>
            Inr (json_marshal (e_floatText E) (smap_merge (case_option [] id current) (str_map ours)))))"

definition f_find_host where [text_defs]: "f_find_host = ''looking up host %q: %w''"

definition FindHost :: "env \<Rightarrow> AWXClient \<Rightarrow> int \<Rightarrow> string \<Rightarrow> (gerr + hostResult option) prog" where
  "FindHost E c inventoryID hostname = do {
     r \<leftarrow> awx_do E c (RqHostsByName inventoryID hostname) True;
     ret (case r of
        Inl err \<Rightarrow> Inl (errorw f_find_host [hostname] err)
      | Inr body \<Rightarrow> Inr (findHostByName (hosts_of body) hostname))
   }"

definition f_foreign_host where [text_defs]: "f_foreign_host =
  ''inventory host %q is already owned by another ansible-supervisor binding (%s); refusing to take it over - set spec.hostNamePrefix on the AWXConnection (or spec.hostName) so this binding uses a distinct inventory host name''"
definition f_update_host where [text_defs]: "f_update_host = ''updating host %q: %w''"
definition f_create_host where [text_defs]: "f_create_host = ''creating host %q: %w''"

definition UpsertHost :: "env \<Rightarrow> AWXClient \<Rightarrow> int \<Rightarrow> string \<Rightarrow> string \<Rightarrow> string smap \<Rightarrow> (gerr + int \<times> bool) prog" where
  "UpsertHost E c inventoryID hostname ownerMarker vars = do {
     found \<leftarrow> FindHost E c inventoryID hostname;
     (case found of
        Inl err \<Rightarrow> ret (Inl err)
      | Inr (Some existing) \<Rightarrow>
          (let existingMarker = trim_space (hr_Description existing) in
           if existingMarker \<noteq> ownerMarker \<and> has_prefix existingMarker hostMarkerPrefix
           then ret (Inl (errorf f_foreign_host [hostname, existingMarker]))
           else (case mergeHostVariables E (hr_Variables existing) vars of
               Inl mErr \<Rightarrow> ret (Inl (errorw f_update_host [hostname] mErr))
             | Inr merged \<Rightarrow>
                 if merged \<noteq> trim_space (hr_Variables existing) then do {
                   r \<leftarrow> awx_do E c (RqPatchHost (hr_ID existing) merged) False;
                   ret (case r of
                      Inl err \<Rightarrow> Inl (errorw f_update_host [hostname] err)
                    | Inr _ \<Rightarrow> Inr (hr_ID existing, existingMarker = ownerMarker))
                 }
                 else ret (Inr (hr_ID existing, existingMarker = ownerMarker))))
      | Inr None \<Rightarrow> do {
          r \<leftarrow> awx_do E c (RqCreateHost inventoryID hostname ownerMarker (json_marshal (e_floatText E) (str_map vars))) True;
          ret (case r of
             Inl err \<Rightarrow> Inl (errorw f_create_host [hostname] err)
           | Inr body \<Rightarrow> Inr (hr_ID (host_of body), True))
        })
   }"

definition f_set_vars where [text_defs]: "f_set_vars = ''updating variables on host %q: %w''"

text \<open>\<open>SetHostVariables\<close> also updates the caller's copy, which is the host returned.\<close>

definition SetHostVariables :: "env \<Rightarrow> AWXClient \<Rightarrow> hostResult option \<Rightarrow> string smap \<Rightarrow> (gerr + hostResult option) prog" where
  "SetHostVariables E c host vars =
     (case host of
        None \<Rightarrow> ret (Inr None)
      | Some h \<Rightarrow>
          if vars = [] then ret (Inr (Some h))
          else (case mergeHostVariables E (hr_Variables h) vars of
              Inl err \<Rightarrow> ret (Inl (errorw f_set_vars [hr_Name h] err))
            | Inr merged \<Rightarrow>
                if merged = trim_space (hr_Variables h) then ret (Inr (Some h))
                else do {
                  r \<leftarrow> awx_do E c (RqPatchHost (hr_ID h) merged) False;
                  ret (case r of
                     Inl err \<Rightarrow> Inl (errorw f_set_vars [hr_Name h] err)
                   | Inr _ \<Rightarrow> Inr (Some (h\<lparr>hr_Variables := merged\<rparr>)))
                }))"

definition hostVariable :: "hostResult option \<Rightarrow> string \<Rightarrow> string option" where
  "hostVariable host k =
     (case host of
        None \<Rightarrow> None
      | Some h \<Rightarrow>
          (let trimmed = trim_space (hr_Variables h) in
           if trimmed = [] \<or> trimmed = ''---'' then None
           else (case json_unmarshal trimmed of
               Some (Some current) \<Rightarrow> (case smap_get current k of Some (JStr s) \<Rightarrow> Some s | _ \<Rightarrow> None)
             | _ \<Rightarrow> None)))"

definition f_restore_parse where [text_defs]: "f_restore_parse =
  ''restoring %s on host %q: existing variables are not a JSON object: %w''"
definition f_restore where [text_defs]: "f_restore = ''restoring %s on host %q: %w''"

definition restored_vars :: "json smap \<Rightarrow> string \<Rightarrow> string option \<Rightarrow> json smap option" where
  "restored_vars current k prior =
     (case prior of
        None \<Rightarrow> if smap_get current k = None then None else Some (smap_remove k current)
      | Some p \<Rightarrow> if smap_get current k = Some (JStr p) then None else Some (smap_put k (JStr p) current))"

definition RestoreHostVariable ::
    "env \<Rightarrow> AWXClient \<Rightarrow> hostResult option \<Rightarrow> string \<Rightarrow> string option \<Rightarrow> gerr option prog" where
  "RestoreHostVariable E c host k prior =
     (case host of
        None \<Rightarrow> ret None
      | Some h \<Rightarrow>
          (let trimmed = trim_space (hr_Variables h);
               parsed = (if trimmed \<noteq> [] \<and> trimmed \<noteq> ''---'' then map_option (case_option [] id) (json_unmarshal trimmed)
                         else Some [])
           in case parsed of
                None \<Rightarrow> ret (Some (errorw f_restore_parse [k, hr_Name h] (errorf f_json [])))
              | Some current \<Rightarrow> (case restored_vars current k prior of
                    None \<Rightarrow> ret None
                  | Some m \<Rightarrow> do {
                      r \<leftarrow> awx_do E c (RqPatchHost (hr_ID h) (json_marshal (e_floatText E) m)) False;
                      ret (case r of Inl err \<Rightarrow> Some (errorw f_restore [k, hr_Name h] err) | Inr _ \<Rightarrow> None)
                    })))"

definition f_read_host where [text_defs]: "f_read_host = ''reading host %d: %w''"

definition GetHostByID :: "env \<Rightarrow> AWXClient \<Rightarrow> int \<Rightarrow> (gerr + hostResult option) prog" where
  "GetHostByID E c i = do {
     r \<leftarrow> awx_do E c (RqGetHost i) True;
     ret (case r of
        Inl err \<Rightarrow> if awxStatusCode err = Some HTTP_NOT_FOUND then Inr None else Inl (errorw f_read_host [itoa i] err)
      | Inr body \<Rightarrow> Inr (Some (host_of body)))
   }"

definition f_delete_host where [text_defs]: "f_delete_host = ''awx request DELETE %s/hosts/%d/: %w''"
definition f_delete_status where [text_defs]: "f_delete_status = ''awx request DELETE %s/hosts/%d/: status %d: %s''"

definition DeleteHost :: "env \<Rightarrow> AWXClient \<Rightarrow> int \<Rightarrow> gerr option prog" where
  "DeleteHost E c i = do {
     r \<leftarrow> http_Do E c (RqDeleteHost i);
     ret (case r of
        Inl msg \<Rightarrow> Some (errorw f_delete_host [cl_basePath c, itoa i] (errorf msg []))
      | Inr resp \<Rightarrow>
          if rs_StatusCode resp = HTTP_NOT_FOUND \<or> ok_code (rs_StatusCode resp) then None
          else Some (errorf f_delete_status [cl_basePath c, itoa i, itoa (rs_StatusCode resp),
                 truncateText (rs_Text resp) maxErrorBodyChars]))
   }"

section \<open>Launching\<close>

definition launch_body :: "string \<Rightarrow> string smap \<Rightarrow> launchBody" where
  "launch_body limit extraVars =
     \<lparr>lb_limit = (if limit \<noteq> [] then Some limit else None),
      lb_extra_vars = (if extraVars \<noteq> [] then Some extraVars else None)\<rparr>"

definition zero_launch :: launchResponse where
  "zero_launch = \<lparr>lr_ID = 0, lr_Job = 0, lr_WorkflowJob = 0, lr_IgnoredFields = []\<rparr>"

fun launch_of :: "http_body \<Rightarrow> launchResponse" where
  "launch_of (BLaunch r) = r"
| "launch_of _ = zero_launch"

definition f_no_job_id where [text_defs]: "f_no_job_id =
  ''AWX accepted the launch but its response carried no job id, so the run cannot be tracked and would be launched again on the next pass: %w''"

definition jobIDFrom :: "launchResponse \<Rightarrow> int \<Rightarrow> gerr + int" where
  "jobIDFrom out preferred =
     (if preferred \<noteq> 0 then Inr preferred else if lr_ID out \<noteq> 0 then Inr (lr_ID out)
      else Inl (errorw f_no_job_id [] PermanentConfigE))"

definition f_ignored where [text_defs]: "f_ignored =
  ''AWX ignored launch field(s) %s for job %d: the template does not accept them at launch time (enable Prompt on Launch for them in AWX); the run was NOT scoped as requested''"

definition ignoredFieldsError :: "int \<Rightarrow> string list \<Rightarrow> gerr option" where
  "ignoredFieldsError jobID ignored =
     (if ignored = [] then None else Some (errorf f_ignored [join '', '' (sort ignored), itoa jobID]))"

definition f_launch_job where [text_defs]: "f_launch_job = ''launching job template %d: %w''"
definition f_launch_workflow where [text_defs]: "f_launch_workflow = ''launching workflow job template %d: %w''"

definition launch :: "env \<Rightarrow> AWXClient \<Rightarrow> bool \<Rightarrow> string \<Rightarrow> (launchResponse \<Rightarrow> int) \<Rightarrow> int \<Rightarrow> string \<Rightarrow> string smap \<Rightarrow>
    (int \<times> gerr option) prog" where
  "launch E c iw f pick i limit extraVars = do {
     r \<leftarrow> awx_do E c (RqLaunch iw i (launch_body limit extraVars)) True;
     ret (case r of
        Inl err \<Rightarrow> (0, Some (errorw f [itoa i] err))
      | Inr body \<Rightarrow>
          (let out = launch_of body in
           case jobIDFrom out (pick out) of
             Inl idErr \<Rightarrow> (0, Some (errorw f [itoa i] idErr))
           | Inr jobID \<Rightarrow> (jobID, ignoredFieldsError jobID (lr_IgnoredFields out))))
   }"

definition LaunchJobTemplate :: "env \<Rightarrow> AWXClient \<Rightarrow> int \<Rightarrow> string \<Rightarrow> string smap \<Rightarrow> (int \<times> gerr option) prog" where
  "LaunchJobTemplate E c i limit extraVars = launch E c False f_launch_job lr_Job i limit extraVars"

definition LaunchWorkflowJobTemplate :: "env \<Rightarrow> AWXClient \<Rightarrow> int \<Rightarrow> string \<Rightarrow> string smap \<Rightarrow> (int \<times> gerr option) prog" where
  "LaunchWorkflowJobTemplate E c i limit extraVars = launch E c True f_launch_workflow lr_WorkflowJob i limit extraVars"

section \<open>Jobs\<close>

fun job_status_of :: "http_body \<Rightarrow> string" where
  "job_status_of (BJobStatus s) = s"
| "job_status_of _ = []"

definition f_job_status where [text_defs]: "f_job_status = ''getting job %d status: %w''"
definition f_wjob_status where [text_defs]: "f_wjob_status = ''getting workflow job %d status: %w''"

definition GetJobStatus :: "env \<Rightarrow> AWXClient \<Rightarrow> int \<Rightarrow> (gerr + string) prog" where
  "GetJobStatus E c i = do {
     r \<leftarrow> awx_do E c (RqJob False i) True;
     ret (case r of Inl err \<Rightarrow> Inl (errorw f_job_status [itoa i] err) | Inr b \<Rightarrow> Inr (job_status_of b)) }"

definition GetWorkflowJobStatus :: "env \<Rightarrow> AWXClient \<Rightarrow> int \<Rightarrow> (gerr + string) prog" where
  "GetWorkflowJobStatus E c i = do {
     r \<leftarrow> awx_do E c (RqJob True i) True;
     ret (case r of Inl err \<Rightarrow> Inl (errorw f_wjob_status [itoa i] err) | Inr b \<Rightarrow> Inr (job_status_of b)) }"

text \<open>\<open>pollJobStatus\<close> of util.go.\<close>

definition pollJobStatus :: "env \<Rightarrow> AWXClient \<Rightarrow> string \<Rightarrow> int \<Rightarrow> (gerr + string) prog" where
  "pollJobStatus E c templateType jobID =
     (if templateType = TemplateTypeWorkflow then GetWorkflowJobStatus E c jobID else GetJobStatus E c jobID)"

definition CancelJob :: "env \<Rightarrow> AWXClient \<Rightarrow> int \<Rightarrow> bool \<Rightarrow> gerr option prog" where
  "CancelJob E c i isWorkflow = do {
     r \<leftarrow> awx_do E c (RqCancelJob isWorkflow i) False;
     ret (case r of
        Inr _ \<Rightarrow> None
      | Inl err \<Rightarrow> (case awxStatusCode err of
            Some code \<Rightarrow> if code = HTTP_NOT_FOUND \<or> code = HTTP_METHOD_NOT_ALLOWED then None else Some err
          | None \<Rightarrow> Some err))
   }"

record AWXJob =
  aj_ID :: int
  aj_Created :: int
  aj_Limit :: string
  aj_Status :: string

text \<open>Go's zero \<open>time.Time\<close>: the first of January of year 1.\<close>

definition zero_time :: int where "zero_time = - 62135596800 * nanos_per_second"

fun jobs_of :: "http_body \<Rightarrow> jobListResult list" where
  "jobs_of (BJobs js) = js"
| "jobs_of _ = []"

definition awx_job :: "jobListResult \<Rightarrow> AWXJob" where
  "awx_job r = \<lparr>aj_ID = jl_ID r, aj_Created = (case parse_time (jl_Created r) of Some t \<Rightarrow> t | None \<Rightarrow> zero_time),
     aj_Limit = jl_Limit r, aj_Status = jl_Status r\<rparr>"

definition f_recent_jobs where [text_defs]: "f_recent_jobs = ''listing recent jobs for template %d: %w''"

definition RecentTemplateJobs :: "env \<Rightarrow> AWXClient \<Rightarrow> int \<Rightarrow> bool \<Rightarrow> (gerr + AWXJob list) prog" where
  "RecentTemplateJobs E c templateID isWorkflow = do {
     r \<leftarrow> awx_do E c (RqRecentJobs isWorkflow templateID) True;
     ret (case r of
        Inl err \<Rightarrow> Inl (errorw f_recent_jobs [itoa templateID] err)
      | Inr body \<Rightarrow> Inr (map awx_job (jobs_of body)))
   }"

definition JobURL :: "AWXClient \<Rightarrow> int \<Rightarrow> bool \<Rightarrow> string" where
  "JobURL c i isWorkflow =
     cl_baseURL c @ ''/#/jobs/'' @ (if isWorkflow then ''workflow'' else ''playbook'') @ ''/'' @ itoa i @ ''/output''"

section \<open>What each operation may send\<close>

text \<open>Every operation but \<open>UpsertHost\<close> and the two pagings is one request.\<close>

lemma only_awx_do: "(\<And>a. K (EHttp c r a)) \<Longrightarrow> only K (awx_do E c r w)"
  unfolding awx_do_def by (auto intro!: only_intros simp: Let_def)

lemma only_one_request [only_intros]:
  "(\<And>a. K (EHttp c RqMe a)) \<Longrightarrow> only K (Ping E c)"
  "(\<And>a. K (EHttp c (RqTemplates iw name) a)) \<Longrightarrow> only K (findTemplate E c iw name)"
  "(\<And>a. K (EHttp c (RqHostsByName n name) a)) \<Longrightarrow> only K (FindHost E c n name)"
  "(\<And>a. K (EHttp c (RqGetHost i) a)) \<Longrightarrow> only K (GetHostByID E c i)"
  "(\<And>a. K (EHttp c (RqDeleteHost i) a)) \<Longrightarrow> only K (DeleteHost E c i)"
  "(\<And>b a. K (EHttp c (RqLaunch iw i (launch_body lim vars)) a)) \<Longrightarrow> only K (launch E c iw f pick i lim vars)"
  "(\<And>iw a. K (EHttp c (RqJob iw i) a)) \<Longrightarrow> only K (pollJobStatus E c ty i)"
  "(\<And>a. K (EHttp c (RqCancelJob iw i) a)) \<Longrightarrow> only K (CancelJob E c i iw)"
  "(\<And>a. K (EHttp c (RqRecentJobs iw i) a)) \<Longrightarrow> only K (RecentTemplateJobs E c i iw)"
  unfolding Ping_def findTemplate_def FindHost_def GetHostByID_def DeleteHost_def launch_def pollJobStatus_def
    GetWorkflowJobStatus_def GetJobStatus_def CancelJob_def RecentTemplateJobs_def
  by (auto intro!: only_intros only_awx_do)

lemma only_launches [only_intros]:
  "(\<And>a. K (EHttp c (RqLaunch False i (launch_body lim vars)) a)) \<Longrightarrow> only K (LaunchJobTemplate E c i lim vars)"
  "(\<And>a. K (EHttp c (RqLaunch True i (launch_body lim vars)) a)) \<Longrightarrow> only K (LaunchWorkflowJobTemplate E c i lim vars)"
  unfolding LaunchJobTemplate_def LaunchWorkflowJobTemplate_def by (auto intro!: only_intros)

lemma only_FindTemplates [only_intros]:
  "(\<And>a. K (EHttp c (RqTemplates False name) a)) \<Longrightarrow> only K (FindJobTemplate E c name)"
  "(\<And>a. K (EHttp c (RqTemplates True name) a)) \<Longrightarrow> only K (FindWorkflowJobTemplate E c name)"
  unfolding FindJobTemplate_def FindWorkflowJobTemplate_def by (auto intro!: only_intros)

lemma only_detect_loop:
  "(\<And>c candidate a. K (EHttp c (RqPing candidate) a)) \<Longrightarrow> only K (detect_loop E u opts att cands)"
  by (induction cands arbitrary: att) (auto intro!: only_intros)

lemma only_DetectAPIBasePath [only_intros]:
  "(\<And>c candidate a. K (EHttp c (RqPing candidate) a)) \<Longrightarrow> only K (DetectAPIBasePath E u opts)"
  unfolding DetectAPIBasePath_def by (auto intro!: only_intros only_detect_loop)

lemma only_owned_pages:
  "(\<And>path a. K (EHttp c (RqHostsPage path) a)) \<Longrightarrow> only K (owned_pages n E c mk path owned)"
  by (induction n arbitrary: path owned) (auto intro!: only_intros only_awx_do)

lemma only_ListOwnedHosts [only_intros]:
  "(\<And>path a. K (EHttp c (RqHostsPage path) a)) \<Longrightarrow> only K (ListOwnedHosts E c n mk)"
  unfolding ListOwnedHosts_def by (auto intro!: only_owned_pages)

lemma only_host_writes [only_intros]:
  "(\<And>a. K (EHttp c (RqHostsByName n hn) a)) \<Longrightarrow> (\<And>i v a. K (EHttp c (RqPatchHost i v) a)) \<Longrightarrow>
   (\<And>d v a. K (EHttp c (RqCreateHost n hn d v) a)) \<Longrightarrow> only K (UpsertHost E c n hn mk vars)"
  "(\<And>i v a. K (EHttp c (RqPatchHost i v) a)) \<Longrightarrow> only K (SetHostVariables E c host vars)"
  "(\<And>i v a. K (EHttp c (RqPatchHost i v) a)) \<Longrightarrow> only K (RestoreHostVariable E c host k prior)"
  unfolding UpsertHost_def SetHostVariables_def RestoreHostVariable_def Let_def
  by (auto intro!: only_intros only_awx_do)

section \<open>What the answers mean\<close>

lemma emits_awx_do:
  "(\<And>a. R (case a of
         Inl msg \<Rightarrow> Inl (errorw f_awx_request [req_method r, req_path (cl_basePath c) r] (errorf msg []))
       | Inr resp \<Rightarrow>
           if \<not> ok_code (rs_StatusCode resp)
           then Inl (AwxStatusE (req_method r) (req_path (cl_basePath c) r) (rs_StatusCode resp) (rs_Text resp))
           else if w then
             (case rs_Body resp of
                BadBody m \<Rightarrow> Inl (errorw f_awx_decode [req_method r, req_path (cl_basePath c) r] (errorf m []))
              | b \<Rightarrow> Inr b)
           else Inr EmptyBody) [EHttp c r a]) \<Longrightarrow> emits (awx_do E c r w) R"
  unfolding awx_do_def Let_def
  by (rule emits_bind [OF emits_http [where R = "\<lambda>a es. es = [EHttp c r a]"]]) (auto intro!: emits_return)

text \<open>The facts used of one request: its event, and that a body came with a 2xx answer.\<close>

definition answered :: "AWXClient \<Rightarrow> awx_req \<Rightarrow> bool \<Rightarrow> (gerr + http_body) \<Rightarrow> event list \<Rightarrow> bool" where
  "answered c r w x es \<longleftrightarrow> (\<exists>a. es = [EHttp c r a] \<and>
     (\<forall>b. x = Inr b \<longrightarrow> (\<exists>resp. a = Inr resp \<and> ok_code (rs_StatusCode resp) \<and> b = (if w then rs_Body resp else EmptyBody))) \<and>
     (\<forall>e. x = Inl e \<longrightarrow> (case a of
        Inl m \<Rightarrow> awxStatusCode e = None
      | Inr resp \<Rightarrow> awxStatusCode e = (if ok_code (rs_StatusCode resp) then None else Some (rs_StatusCode resp)))))"

lemma answered_code:
  "answered c r w (Inl e) es \<Longrightarrow> awxStatusCode e = Some code \<Longrightarrow>
   \<exists>resp. es = [EHttp c r (Inr resp)] \<and> rs_StatusCode resp = code"
proof -
  assume "answered c r w (Inl e) es" and code: "awxStatusCode e = Some code"
  then obtain a where a: "es = [EHttp c r a]" and e: "case a of
        Inl m \<Rightarrow> awxStatusCode e = None
      | Inr resp \<Rightarrow> awxStatusCode e = (if ok_code (rs_StatusCode resp) then None else Some (rs_StatusCode resp))"
    by (auto simp: answered_def)
  with code show ?thesis by (cases a) (auto split: if_splits)
qed

lemma answered_event: "answered c r w x es \<Longrightarrow> \<exists>a. es = [EHttp c r a]"
  by (auto simp: answered_def)

lemma answered_awx_do: "emits (awx_do E c r w) (answered c r w)"
  by (rule emits_awx_do) (auto simp: answered_def split: sum.splits http_body.splits)

lemma emits_one_request:
  assumes "\<And>x es. answered c r w x es \<Longrightarrow> R (g x) es"
  shows "emits (awx_do E c r w \<bind> (\<lambda>x. ret (g x))) R"
  by (rule emits_bind [OF answered_awx_do]) (auto intro!: emits_return assms)

text \<open>The launch: exactly one request, whose answer says what the caller gets back.\<close>

lemma emits_launch:
  "emits (launch E c iw f pick i lim vars)
     (\<lambda>r es. \<exists>a. es = [EHttp c (RqLaunch iw i (launch_body lim vars)) a])"
  unfolding launch_def by (rule emits_one_request) (auto simp: answered_def)

lemma jobIDFrom_nonzero: "jobIDFrom out p = Inr j \<Longrightarrow> j \<noteq> 0"
  by (auto simp: jobIDFrom_def split: if_splits)

lemma emits_launch_id:
  "emits (launch E c iw f pick i lim vars) (\<lambda>r es. fst r \<noteq> 0 \<longrightarrow>
     (\<exists>resp. es = [EHttp c (RqLaunch iw i (launch_body lim vars)) (Inr resp)] \<and> ok_code (rs_StatusCode resp)))"
  unfolding launch_def by (rule emits_one_request) (auto simp: answered_def Let_def split: sum.splits)

lemma emits_launch_no_id:
  "emits (launch E c iw f pick i lim vars) (\<lambda>r es. snd r = None \<longrightarrow> fst r \<noteq> 0)"
  unfolding launch_def
  by (rule emits_one_request) (auto simp: Let_def dest: jobIDFrom_nonzero split: sum.splits)

text \<open>The job id a launch response carries; 0 when there is none to be had.\<close>

definition decoded :: "string + http_resp \<Rightarrow> http_body option" where
  "decoded a = (case a of
      Inl m \<Rightarrow> None
    | Inr resp \<Rightarrow> if ok_code (rs_StatusCode resp) then (case rs_Body resp of BadBody m \<Rightarrow> None | b \<Rightarrow> Some b) else None)"

definition id_in :: "(launchResponse \<Rightarrow> int) \<Rightarrow> http_body option \<Rightarrow> int" where
  "id_in pick b = (case b of
      None \<Rightarrow> 0
    | Some body \<Rightarrow> (case jobIDFrom (launch_of body) (pick (launch_of body)) of Inl e \<Rightarrow> 0 | Inr j \<Rightarrow> j))"

definition launched_id :: "(launchResponse \<Rightarrow> int) \<Rightarrow> string + http_resp \<Rightarrow> int" where
  "launched_id pick a = id_in pick (decoded a)"

lemma emits_awx_do_decoded:
  "emits (awx_do E c r True) (\<lambda>x es. \<exists>a. es = [EHttp c r a] \<and> decoded a = (case x of Inl e \<Rightarrow> None | Inr b \<Rightarrow> Some b))"
proof (rule emits_awx_do, goal_cases)
  case (1 a)
  show ?case
  proof (cases a)
    case (Inr resp)
    then show ?thesis by (cases "rs_Body resp") (simp_all add: decoded_def)
  qed (simp add: decoded_def)
qed

lemma emits_launch_result:
  "emits (launch E c iw f pick i lim vars)
     (\<lambda>r es. \<exists>a. es = [EHttp c (RqLaunch iw i (launch_body lim vars)) a] \<and> fst r = launched_id pick a \<and>
        (snd r = None \<longrightarrow> fst r \<noteq> 0))"
  unfolding launch_def
proof (rule emits_bind [OF emits_awx_do_decoded], goal_cases)
  case (1 x es)
  then obtain a where a: "es = [EHttp c (RqLaunch iw i (launch_body lim vars)) a]"
    "decoded a = (case x of Inl e \<Rightarrow> None | Inr b \<Rightarrow> Some b)" by blast
  show ?case
    by (rule emits_return, rule exI [of _ a])
      (use a in \<open>auto simp: launched_id_def id_in_def Let_def dest: jobIDFrom_nonzero split: sum.splits\<close>)
qed

text \<open>A host read by id is the host AWX answered with; a host deletion is its one request.\<close>

lemma emits_GetHostByID:
  "emits (GetHostByID E c i) (\<lambda>r es. \<exists>a. es = [EHttp c (RqGetHost i) a] \<and>
     (\<forall>h. r = Inr (Some h) \<longrightarrow> (\<exists>resp. a = Inr resp \<and> ok_code (rs_StatusCode resp) \<and>
        h = host_of (rs_Body resp))) \<and>
     (r = Inr None \<longrightarrow> (\<exists>resp. a = Inr resp \<and> rs_StatusCode resp = HTTP_NOT_FOUND)))"
  unfolding GetHostByID_def
proof (rule emits_one_request)
  fix x es
  assume x: "answered c (RqGetHost i) True x es"
  show "\<exists>a. es = [EHttp c (RqGetHost i) a] \<and>
     (\<forall>h. (case x of
        Inl err \<Rightarrow> if awxStatusCode err = Some HTTP_NOT_FOUND then Inr None else Inl (errorw f_read_host [itoa i] err)
      | Inr body \<Rightarrow> Inr (Some (host_of body))) = Inr (Some h) \<longrightarrow>
        (\<exists>resp. a = Inr resp \<and> ok_code (rs_StatusCode resp) \<and> h = host_of (rs_Body resp))) \<and>
     ((case x of
        Inl err \<Rightarrow> if awxStatusCode err = Some HTTP_NOT_FOUND then Inr None else Inl (errorw f_read_host [itoa i] err)
      | Inr body \<Rightarrow> Inr (Some (host_of body))) = Inr None \<longrightarrow>
        (\<exists>resp. a = Inr resp \<and> rs_StatusCode resp = HTTP_NOT_FOUND))"
    using x answered_event [OF x] answered_code [of c "RqGetHost i" True _ es HTTP_NOT_FOUND]
    by (cases x) (auto simp: answered_def)
qed

lemma emits_DeleteHost:
  "emits (DeleteHost E c i) (\<lambda>r es. \<exists>a. es = [EHttp c (RqDeleteHost i) a] \<and>
     (r = None \<longrightarrow> (\<exists>resp. a = Inr resp \<and> (rs_StatusCode resp = HTTP_NOT_FOUND \<or> ok_code (rs_StatusCode resp)))))"
  unfolding DeleteHost_def
  by (rule emits_bind [OF emits_http [where R = "\<lambda>a es. es = [EHttp c (RqDeleteHost i) a]"]])
    (auto intro!: emits_return split: sum.splits)

text \<open>A polled status, and the job it was read of.\<close>

definition job_read :: "AWXClient \<Rightarrow> bool \<Rightarrow> int \<Rightarrow> string \<Rightarrow> event \<Rightarrow> bool" where
  "job_read c iw i st e \<longleftrightarrow> (\<exists>resp. e = EHttp c (RqJob iw i) (Inr resp) \<and> ok_code (rs_StatusCode resp) \<and>
     st = job_status_of (rs_Body resp))"

lemma emits_pollJobStatus:
  "emits (pollJobStatus E c ty i) (\<lambda>r es. \<exists>a. es = [EHttp c (RqJob (ty = TemplateTypeWorkflow) i) a] \<and>
     (\<forall>st. r = Inr st \<longrightarrow> job_read c (ty = TemplateTypeWorkflow) i st (EHttp c (RqJob (ty = TemplateTypeWorkflow) i) a)))"
  unfolding pollJobStatus_def GetWorkflowJobStatus_def GetJobStatus_def
  by (auto intro!: emits_one_request simp: answered_def job_read_def split: sum.splits)

end
