(* ===== verification/Transport.thy ===== *)
theory Transport
  imports AwxClient
begin

text \<open>
  controller/awx_client.go, the part below the client: \<open>cacheKey\<close>, \<open>transportFor\<close>, \<open>newTransport\<close>, \<open>certPoolWith\<close> and
  \<open>httpClientFor\<close> with the process-wide cache of transports. A transport is handed out by pointer, so the state
  (\<open>transports\<close>) has a heap of the transports built, the pointer being an index into it, beside the map from keys
  to pointers. \<open>transportMu\<close> is held for the whole of \<open>transportFor\<close>: calls of any number of goroutines are a sequence
  of calls, in some order. \<open>sysRoots\<close> says whether the platform has a bundle of system roots; \<open>e_sha256\<close> and \<open>e_certsOK\<close> are the
  environment's digest and PEM parser.

  AwxClient leaves the cache out and lets a client carry its TLS options. The end of this theory shows that this is
  what the cached code does: the transport of a client is one built from just those options, unless SHA-256 of two CA
  bundles collide; and even then no client that verifies certificates shares a transport with one that does not.
\<close>

section \<open>Certificates, transports, clients\<close>

datatype certSource = SystemRoots | PEMBundle string

type_synonym certPool = "certSource list"

record tlsConfig =
  tc_InsecureSkipVerify :: bool
  tc_RootCAs :: "certPool option"
  tc_MinVersion :: nat

record transport =
  tr_ProxyFromEnvironment :: bool
  tr_MaxIdleConns :: nat
  tr_MaxIdleConnsPerHost :: nat
  tr_IdleConnTimeout :: int
  tr_TLSHandshakeTimeout :: int
  tr_TLSClientConfig :: "tlsConfig option"

record httpClient =
  hc_Timeout :: int
  hc_Transport :: nat

record transports =
  ts_cache :: "nat smap"
  ts_heap :: "transport list"

definition VersionTLS12 :: nat where "VersionTLS12 = 0x0303"

definition no_transports :: transports where
  "no_transports = \<lparr>ts_cache = [], ts_heap = []\<rparr>"

section \<open>Operations\<close>

definition cacheKey :: "env \<Rightarrow> TLSOptions \<Rightarrow> string" where
  "cacheKey E opts =
     (if tls_InsecureSkipVerify opts then ''insecure''
      else if tls_CABundlePEM opts \<noteq> [] then ''ca:'' @ e_sha256 E (tls_CABundlePEM opts)
      else ''system'')"

definition certPoolWith :: "env \<Rightarrow> bool \<Rightarrow> string \<Rightarrow> gerr + certPool" where
  "certPoolWith E sysRoots pemBundle =
     (let pool = (if sysRoots then [SystemRoots] else []) in
      if \<not> e_certsOK E pemBundle then Inl (errorw f_no_certs [] PermanentConfigE)
      else Inr (pool @ [PEMBundle pemBundle]))"

definition plain_transport :: transport where
  "plain_transport = \<lparr>tr_ProxyFromEnvironment = True, tr_MaxIdleConns = 50, tr_MaxIdleConnsPerHost = 5,
     tr_IdleConnTimeout = seconds 90, tr_TLSHandshakeTimeout = seconds 10, tr_TLSClientConfig = None\<rparr>"

definition newTransport :: "env \<Rightarrow> bool \<Rightarrow> TLSOptions \<Rightarrow> gerr + transport" where
  "newTransport E sysRoots opts =
     (if tls_InsecureSkipVerify opts
      then Inr (plain_transport\<lparr>tr_TLSClientConfig :=
        Some \<lparr>tc_InsecureSkipVerify = True, tc_RootCAs = None, tc_MinVersion = 0\<rparr>\<rparr>)
      else if tls_CABundlePEM opts \<noteq> []
      then (case certPoolWith E sysRoots (tls_CABundlePEM opts) of
          Inl err \<Rightarrow> Inl err
        | Inr pool \<Rightarrow> Inr (plain_transport\<lparr>tr_TLSClientConfig :=
            Some \<lparr>tc_InsecureSkipVerify = False, tc_RootCAs = Some pool, tc_MinVersion = VersionTLS12\<rparr>\<rparr>))
      else Inr plain_transport)"

definition transportFor :: "env \<Rightarrow> bool \<Rightarrow> TLSOptions \<Rightarrow> transports \<Rightarrow> (gerr + nat) \<times> transports" where
  "transportFor E sysRoots opts s =
     (let key = cacheKey E opts in
      case smap_get (ts_cache s) key of
        Some t \<Rightarrow> (Inr t, s)
      | None \<Rightarrow>
          (case newTransport E sysRoots opts of
            Inl err \<Rightarrow> (Inl err, s)
          | Inr t \<Rightarrow>
              (let a = length (ts_heap s) in
               (Inr a, \<lparr>ts_cache = smap_put key a (ts_cache s), ts_heap = ts_heap s @ [t]\<rparr>))))"

definition shared_httpClientFor :: "env \<Rightarrow> bool \<Rightarrow> TLSOptions \<Rightarrow> transports \<Rightarrow> (gerr + httpClient) \<times> transports" where
  "shared_httpClientFor E sysRoots opts s =
     (case transportFor E sysRoots opts s of
       (Inl err, s') \<Rightarrow> (Inl err, s')
     | (Inr t, s') \<Rightarrow> (Inr \<lparr>hc_Timeout = seconds 30, hc_Transport = t\<rparr>, s'))"

section \<open>What a pool of shared values promises\<close>

text \<open>
  \<open>key\<close> names the value an option asks for, \<open>build\<close> makes one (or fails), \<open>fetch\<close> gives a pointer to a shared one. \<open>slot\<close> is
  what the pool has under a key and \<open>deref\<close> what a pointer points to. The laws are the three outcomes of a fetch.
\<close>

locale shared_pool =
  fixes key :: "'o \<Rightarrow> 'k" and build :: "'o \<Rightarrow> 'e + 'v" and fetch :: "'o \<Rightarrow> 's \<Rightarrow> ('e + 'p) \<times> 's"
    and slot :: "'s \<Rightarrow> 'k \<Rightarrow> 'p option" and deref :: "'s \<Rightarrow> 'p \<Rightarrow> 'v option" and start :: 's
  assumes start_slot: "slot start k = None" and start_deref: "deref start p = None"
    and fetch_hit: "slot s (key x) = Some p \<Longrightarrow> fetch x s = (Inr p, s)"
    and fetch_fail: "slot s (key x) = None \<Longrightarrow> build x = Inl e \<Longrightarrow> fetch x s = (Inl e, s)"
    and fetch_new: "slot s (key x) = None \<Longrightarrow> build x = Inr v \<Longrightarrow>
      \<exists>p s'. fetch x s = (Inr p, s') \<and> slot s' = (slot s)(key x \<mapsto> p) \<and> deref s p = None \<and> deref s' = (deref s)(p \<mapsto> v)"
begin

definition after :: "'o list \<Rightarrow> 's" where
  "after xs = fold (\<lambda>x s. snd (fetch x s)) xs start"

definition sound :: "'o set \<Rightarrow> 's \<Rightarrow> bool" where
  "sound X s \<longleftrightarrow> (\<forall>k p. slot s k = Some p \<longrightarrow> (\<exists>x \<in> X. key x = k \<and> (\<exists>v. build x = Inr v \<and> deref s p = Some v)))"

definition accounted :: "'o set \<Rightarrow> 's \<Rightarrow> bool" where
  "accounted X s \<longleftrightarrow> (\<forall>p. deref s p \<noteq> None \<longrightarrow> p \<in> ran (slot s)) \<and> dom (slot s) \<subseteq> key ` X"

lemma fetch_cases [case_names hit fail new]:
  obtains p where "slot s (key x) = Some p" "fetch x s = (Inr p, s)"
  | e where "slot s (key x) = None" "build x = Inl e" "fetch x s = (Inl e, s)"
  | v p s' where "slot s (key x) = None" "build x = Inr v" "fetch x s = (Inr p, s')" "slot s' = (slot s)(key x \<mapsto> p)"
      "deref s p = None" "deref s' = (deref s)(p \<mapsto> v)"
proof (cases "slot s (key x)")
  case None
  show thesis
  proof (cases "build x")
    case (Inr v)
    with fetch_new [OF None Inr] that(3) None show thesis by blast
  qed (use None that(2) fetch_fail in blast)
qed (use that(1) fetch_hit in blast)

lemma sound_fetch: "sound X s \<Longrightarrow> sound (insert x X) (snd (fetch x s))"
proof (cases x s rule: fetch_cases)
  case (new v p s')
  assume sound: "sound X s"
  show ?thesis
    unfolding sound_def
  proof (intro allI impI)
    fix k q
    assume slot: "slot (snd (fetch x s)) k = Some q"
    show "\<exists>y \<in> insert x X. key y = k \<and> (\<exists>v. build y = Inr v \<and> deref (snd (fetch x s)) q = Some v)"
    proof (cases "k = key x")
      case False
      with slot new have "slot s k = Some q" by simp
      with sound obtain y u where "y \<in> X" "key y = k" "build y = Inr u" "deref s q = Some u" unfolding sound_def by blast
      moreover from this new have "q \<noteq> p" by auto
      ultimately show ?thesis using new by auto
    qed (use slot new in auto)
  qed
qed (auto simp: sound_def)

lemma accounted_fetch: "accounted X s \<Longrightarrow> accounted (insert x X) (snd (fetch x s))"
proof (cases x s rule: fetch_cases)
  case (new v p s')
  assume acc: "accounted X s"
  have "ran (slot s') = insert p (ran (slot s))" using new(1) by (simp add: new(4) ran_map_upd)
  then show ?thesis using acc new(3,4,6) by (auto simp: accounted_def)
qed (auto simp: accounted_def)

lemma deref_fetch: "deref s p = Some v \<Longrightarrow> deref (snd (fetch x s)) p = Some v"
  by (cases x s rule: fetch_cases) auto

lemma fetch_again: "fetch x s = (Inr p, s') \<Longrightarrow> fetch x s' = (Inr p, s')"
  by (cases x s rule: fetch_cases) (auto intro: fetch_hit)

lemma after_snoc: "after (xs @ [x]) = snd (fetch x (after xs))"
  by (simp add: after_def)

lemma after_ok: "sound (set xs) (after xs) \<and> accounted (set xs) (after xs)"
proof (induction xs rule: rev_induct)
  case Nil
  show ?case by (simp add: sound_def accounted_def after_def start_slot start_deref dom_def)
next
  case (snoc x xs)
  then show ?case using sound_fetch [of "set xs" "after xs" x] accounted_fetch [of "set xs" "after xs" x] by (simp add: after_snoc)
qed

lemma fetch_same_key:
  assumes "fetch x (after xs) = (Inr p, s)"
  shows "\<exists>y v. y \<in> insert x (set xs) \<and> key y = key x \<and> build y = Inr v \<and> deref s p = Some v"
proof (cases x "after xs" rule: fetch_cases)
  case hit
  then show ?thesis using assms after_ok [of xs] unfolding sound_def by (metis insertCI prod.inject sum.inject(2))
next
  case new
  then show ?thesis using assms by auto
qed (use assms in auto)

lemma fetch_exact:
  assumes agree: "\<And>y. y \<in> set xs \<Longrightarrow> key y = key x \<Longrightarrow> build y = build x"
  shows "case fetch x (after xs) of (Inl e, s) \<Rightarrow> build x = Inl e | (Inr p, s) \<Rightarrow> \<exists>v. build x = Inr v \<and> deref s p = Some v"
proof (cases x "after xs" rule: fetch_cases)
  case fail
  then show ?thesis by simp
next
  case (hit p)
  with fetch_same_key [of x xs p "after xs"] obtain y v
    where "y \<in> insert x (set xs)" "key y = key x" "build y = Inr v" "deref (after xs) p = Some v" by blast
  then show ?thesis using hit agree [of y] by auto
next
  case new
  then show ?thesis by simp
qed

lemma pointers_bounded: "finite {p. deref (after xs) p \<noteq> None} \<and> card {p. deref (after xs) p \<noteq> None} \<le> card (key ` set xs)"
proof -
  let ?D = "dom (slot (after xs))"
  have sub: "{p. deref (after xs) p \<noteq> None} \<subseteq> ran (slot (after xs))" and dom: "?D \<subseteq> key ` set xs"
    using after_ok [of xs] by (auto simp: accounted_def)
  have fin: "finite ?D" using dom finite_subset by blast
  have ran: "ran (slot (after xs)) = (\<lambda>k. the (slot (after xs) k)) ` ?D" by (force simp: ran_def dom_def image_def)
  have "card (ran (slot (after xs))) \<le> card ?D" unfolding ran by (rule card_image_le [OF fin])
  moreover have "finite (ran (slot (after xs)))" using fin by (simp add: finite_ran)
  ultimately show ?thesis
    using sub card_mono [of "ran (slot (after xs))", OF _ sub] card_mono [OF _ dom] finite_subset by fastforce
qed

end

definition transport_at :: "transports \<Rightarrow> nat \<Rightarrow> transport option" where
  "transport_at s a = (if a < length (ts_heap s) then Some (ts_heap s ! a) else None)"

interpretation tpool: shared_pool "cacheKey E" "newTransport E sysRoots" "transportFor E sysRoots"
    "\<lambda>s. smap_get (ts_cache s)" transport_at no_transports for E sysRoots
proof (unfold_locales, goal_cases)
  case (5 s x v)
  then show ?case
    by (auto simp: transportFor_def Let_def smap_get_def fun_eq_iff transport_at_def nth_append)
qed (simp_all add: transportFor_def Let_def smap_get_def no_transports_def transport_at_def)

section \<open>The cache is transparent\<close>

definition transports_after :: "env \<Rightarrow> bool \<Rightarrow> TLSOptions list \<Rightarrow> transports" where
  "transports_after E sysRoots os = fold (\<lambda>opts s. snd (transportFor E sysRoots opts s)) os no_transports"

lemma transports_after_pool: "transports_after E sysRoots os = tpool.after E sysRoots os"
  by (simp add: transports_after_def tpool.after_def)

lemma same_mode: "cacheKey E o' = cacheKey E opts \<Longrightarrow> tls_InsecureSkipVerify o' = tls_InsecureSkipVerify opts \<and>
    (\<not> tls_InsecureSkipVerify opts \<longrightarrow> (tls_CABundlePEM o' = [] \<longleftrightarrow> tls_CABundlePEM opts = []))"
  by (auto simp: cacheKey_def split: if_splits)

lemma same_transport:
  assumes "cacheKey E o' = cacheKey E opts" "inj_on (e_sha256 E) (tls_CABundlePEM ` X)" "o' \<in> X" "opts \<in> X"
  shows "newTransport E sysRoots o' = newTransport E sysRoots opts"
proof (cases "tls_InsecureSkipVerify opts \<or> tls_CABundlePEM opts = []")
  case False
  with same_mode [OF assms(1)] have "e_sha256 E (tls_CABundlePEM o') = e_sha256 E (tls_CABundlePEM opts)"
    using assms(1) by (simp add: cacheKey_def)
  then have "tls_CABundlePEM o' = tls_CABundlePEM opts" using assms(2-4) by (auto dest: inj_onD)
  then show ?thesis using same_mode [OF assms(1)] by (simp add: newTransport_def)
qed (use same_mode [OF assms(1)] in \<open>auto simp: newTransport_def\<close>)

definition transport_got :: "(gerr + nat) \<times> transports \<Rightarrow> gerr + transport" where
  "transport_got r = (case fst r of Inl e \<Rightarrow> Inl e | Inr a \<Rightarrow> Inr (ts_heap (snd r) ! a))"

lemma transport_exact:
  assumes "inj_on (e_sha256 E) (tls_CABundlePEM ` set (opts # os))"
  shows "transport_got (transportFor E sysRoots opts (transports_after E sysRoots os)) = newTransport E sysRoots opts"
proof -
  have "newTransport E sysRoots y = newTransport E sysRoots opts" if "y \<in> set os" "cacheKey E y = cacheKey E opts" for y
    using same_transport [OF that(2) assms] that(1) by simp
  from tpool.fetch_exact [where xs = os and x = opts, OF this] show ?thesis
    by (auto simp: transports_after_pool transport_got_def transport_at_def split: prod.splits sum.splits if_splits)
qed

lemma newTransport_error:
  "(case newTransport E sysRoots opts of Inl e \<Rightarrow> Some e | Inr t \<Rightarrow> None) = httpClientFor E opts"
  by (simp add: newTransport_def certPoolWith_def httpClientFor_def Let_def)

lemma shared_httpClientFor_error:
  assumes "inj_on (e_sha256 E) (tls_CABundlePEM ` set (opts # os))"
  shows "(case fst (shared_httpClientFor E sysRoots opts (transports_after E sysRoots os)) of Inl e \<Rightarrow> Some e | Inr c \<Rightarrow> None) = httpClientFor E opts"
  using transport_exact [OF assms, of sysRoots] newTransport_error [of E sysRoots opts]
  by (auto simp: shared_httpClientFor_def transport_got_def split: prod.splits sum.splits)

section \<open>No transport is shared across modes\<close>

definition verifies :: "transport \<Rightarrow> bool" where
  "verifies t \<longleftrightarrow> (case tr_TLSClientConfig t of None \<Rightarrow> True | Some c \<Rightarrow> \<not> tc_InsecureSkipVerify c)"

definition trusts_bundle :: "transport \<Rightarrow> bool" where
  "trusts_bundle t \<longleftrightarrow> (\<exists>c \<in> set_option (tr_TLSClientConfig t). tc_RootCAs c \<noteq> None)"

lemma newTransport_mode: "newTransport E sysRoots opts = Inr t \<Longrightarrow>
    verifies t = (\<not> tls_InsecureSkipVerify opts) \<and>
    trusts_bundle t = (\<not> tls_InsecureSkipVerify opts \<and> tls_CABundlePEM opts \<noteq> [])"
  by (auto simp: newTransport_def verifies_def trusts_bundle_def plain_transport_def split: if_splits sum.splits)

definition transport_apart :: "env \<Rightarrow> bool \<Rightarrow> TLSOptions \<Rightarrow> transports \<Rightarrow> nat \<Rightarrow> bool" where
  "transport_apart E sysRoots opts s a \<longleftrightarrow> a < length (ts_heap s) \<and>
     verifies (ts_heap s ! a) = (\<not> tls_InsecureSkipVerify opts) \<and>
     trusts_bundle (ts_heap s ! a) = (\<not> tls_InsecureSkipVerify opts \<and> tls_CABundlePEM opts \<noteq> []) \<and>
     transportFor E sysRoots opts s = (Inr a, s)"

lemma transport_mode:
  assumes "transportFor E sysRoots opts (transports_after E sysRoots os) = (Inr a, s)"
  shows "transport_apart E sysRoots opts s a"
proof -
  from tpool.fetch_same_key [where E = E and sysRoots = sysRoots and x = opts and xs = os] assms
  obtain y t where y: "cacheKey E y = cacheKey E opts" "newTransport E sysRoots y = Inr t" "transport_at s a = Some t"
    unfolding transports_after_pool by blast
  then have "a < length (ts_heap s)" "ts_heap s ! a = t" by (auto simp: transport_at_def split: if_splits)
  then show ?thesis
    using newTransport_mode [OF y(2)] same_mode [OF y(1)] tpool.fetch_again [OF assms] by (auto simp: transport_apart_def)
qed

lemma transport_refused:
  "transportFor E sysRoots opts s = (Inl e, s') \<Longrightarrow> httpClientFor E opts = Some e \<and> s' = s"
  using newTransport_error [of E sysRoots opts] by (auto simp: transportFor_def Let_def split: option.splits sum.splits)

lemma transports_bounded: "length (ts_heap (transports_after E sysRoots os)) \<le> card (cacheKey E ` set os)"
proof -
  have "{a. transport_at s a \<noteq> None} = {..<length (ts_heap s)}" for s by (auto simp: transport_at_def)
  with tpool.pointers_bounded [of E sysRoots os] show ?thesis by (simp add: transports_after_pool)
qed

lemma transport_kept:
  "transport_at s a = Some t \<Longrightarrow> transport_at (snd (transportFor E sysRoots opts s)) a = Some t"
  by (rule tpool.deref_fetch)

lemma transport_shared:
  "case transportFor E sysRoots opts (transports_after E sysRoots os) of
     (Inl e, s) \<Rightarrow> httpClientFor E opts = Some e \<and> s = transports_after E sysRoots os
   | (Inr a, s) \<Rightarrow> transport_apart E sysRoots opts s a \<and> length (ts_heap s) \<le> card (cacheKey E ` set (opts # os))"
proof -
  have "snd (transportFor E sysRoots opts (transports_after E sysRoots os)) = transports_after E sysRoots (os @ [opts])"
    by (simp add: transports_after_def)
  then show ?thesis
    using transport_mode [of E sysRoots opts os] transport_refused [of E sysRoots opts "transports_after E sysRoots os"]
      transports_bounded [of E sysRoots "os @ [opts]"]
    by (auto split: prod.splits sum.splits)
qed

end
