(* ===== verification/Engine.thy ===== *)
theory Engine
  imports World
begin

text \<open>
  controller/engine.go: the generic reconcile loop. A \<open>controller\<close> is one kind's loop with its
  three functions; \<open>Reconcile\<close> is one pass over one object, its deferred status write
  included. The locale \<open>finalizer_policy\<close> states what the loop relies on of the two list
  functions it patches \<open>metadata.finalizers\<close> with, and \<open>reconciler\<close> what it promises of a
  kind's own functions.
\<close>

section \<open>Results\<close>

record Result =
  res_Object :: "unstr option"
  res_RequeueAfter :: int

record CleanupResult =
  cr_Done :: bool
  cr_RequeueAfter :: int

definition no_result :: Result where
  "no_result = \<lparr>res_Object = None, res_RequeueAfter = 0\<rparr>"

record statusMap =
  st_state :: string
  st_message :: string
  st_ready :: bool
  st_lastUpdated :: stamp

record controller =
  c_gvr :: gvr
  c_finalizerName :: string
  c_staleFinalizers :: "string list"
  c_provisionFunc :: "unstr \<Rightarrow> (gerr + Result) prog"
  c_cleanupFunc :: "(unstr \<Rightarrow> (gerr + CleanupResult) prog) option"
  c_updateStatusFunc :: "unstr \<Rightarrow> bool \<Rightarrow> gerr option \<Rightarrow> statusMap prog"

definition defaultCleanupRequeue :: int where "defaultCleanupRequeue = 10 * nanos_per_second"

definition StatusFieldManager where "StatusFieldManager = ''status-controller''"

section \<open>Reading the informer store\<close>

definition cachedGet :: "env \<Rightarrow> gvr \<Rightarrow> string \<Rightarrow> string \<Rightarrow> unstr option prog" where
  "cachedGet E g namespace name = peek (\<lambda>t. e_store E t g (key namespace name))"

section \<open>The generic status\<close>

definition f_reconcile_failed where [text_defs]: "f_reconcile_failed = ''Reconciliation failed: %s''"
definition f_provisioned where [text_defs]: "f_provisioned = ''Resource provisioned successfully.''"
definition f_not_run where [text_defs]: "f_not_run = ''Provisioning not yet run.''"
definition StateFailed where "StateFailed = ''Failed''"
definition StateReady where "StateReady = ''Ready''"
definition StatePending where "StatePending = ''Pending''"

definition status_map :: "string \<Rightarrow> string \<Rightarrow> bool \<Rightarrow> stamp \<Rightarrow> statusMap" where
  "status_map s m r t = \<lparr>st_state = s, st_message = m, st_ready = r, st_lastUpdated = t\<rparr>"

definition updateGenericStatus :: "env \<Rightarrow> unstr \<Rightarrow> bool \<Rightarrow> gerr option \<Rightarrow> statusMap prog" where
  "updateGenericStatus E u success reconcileErr =
     (case reconcileErr of
        Some e \<Rightarrow> do { t \<leftarrow> nowRFC3339 E; ret (status_map StateFailed (sprintf f_reconcile_failed [err_text e]) False t) }
      | None \<Rightarrow>
          if success then do { t \<leftarrow> nowRFC3339 E; ret (status_map StateReady f_provisioned True t) }
          else do { t \<leftarrow> nowRFC3339 E; ret (status_map StatePending f_not_run False t) })"

definition genericStatusCurrent :: "unstr \<Rightarrow> statusMap \<Rightarrow> bool" where
  "genericStatusCurrent u m \<longleftrightarrow>
     gf_state (u_generic u) = Some (st_state m) \<and> gf_message (u_generic u) = Some (st_message m) \<and>
     (case gf_ready (u_generic u) of None \<Rightarrow> False | Some got \<Rightarrow> got = st_ready m)"

fun generic_payload :: "statusMap \<Rightarrow> payload" where
  "generic_payload m = PGeneric (st_state m) (st_message m) (st_ready m) (st_lastUpdated m)"

section \<open>Patches\<close>

definition f_status_apply where [text_defs]: "f_status_apply = ''failed to apply status for %s/%s: %w''"
definition f_status_attempts where [text_defs]: "f_status_attempts = ''failed to apply status for %s/%s after %d attempts: %w''"

definition maxRetries :: nat where "maxRetries = 5"

text \<open>The loop of \<open>patchStatus\<close>: \<open>n\<close> attempts are left, \<open>lastErr\<close> is the last conflict.\<close>

fun patch_loop :: "nat \<Rightarrow> env \<Rightarrow> gvr \<Rightarrow> unstr \<Rightarrow> payload \<Rightarrow> string \<Rightarrow> gerr \<Rightarrow> gerr option prog" where
  "patch_loop 0 E g obj p fm lastErr =
     ret (Some (errorw f_status_attempts
       [md_Namespace (u_meta obj), md_Name (u_meta obj), itoa (int maxRetries)] lastErr))"
| "patch_loop (Suc n) E g obj p fm lastErr = do {
     r \<leftarrow> k8s_ApplyStatus E g (md_Namespace (u_meta obj)) (md_Name (u_meta obj)) p fm;
     (case r of
        None \<Rightarrow> ret None
      | Some err \<Rightarrow>
          if isNotFound err then ret None
          else if isConflict err \<or> isAlreadyExists err then patch_loop n E g obj p fm err
          else ret (Some (errorw f_status_apply [md_Namespace (u_meta obj), md_Name (u_meta obj)] err)))
   }"

definition patchStatus :: "env \<Rightarrow> gvr \<Rightarrow> unstr \<Rightarrow> payload \<Rightarrow> string \<Rightarrow> gerr option prog" where
  "patchStatus E g obj p fm = patch_loop maxRetries E g obj p fm PermanentConfigE"

definition f_patch_fin where [text_defs]: "f_patch_fin = ''patching finalizers on %s/%s: %w''"
definition f_reread_fin where [text_defs]: "f_reread_fin = ''re-reading %s/%s after a finalizer patch conflict: %w''"

text \<open>\<open>patchFinalizer\<close>: \<open>retry\<close> is \<open>attempt = 0\<close>, so the second conflict is final.\<close>

fun patch_fin_loop :: "nat \<Rightarrow> env \<Rightarrow> gvr \<Rightarrow> unstr \<Rightarrow> (string list \<Rightarrow> string list) \<Rightarrow> gerr option prog" where
  "patch_fin_loop retry E g target mutate = do {
     r \<leftarrow> k8s_PatchFinalizers E g (md_Namespace (u_meta target)) (md_Name (u_meta target))
            (mutate (md_Finalizers (u_meta target))) (md_ResourceVersion (u_meta target));
     (case r of
        None \<Rightarrow> ret None
      | Some err \<Rightarrow>
          (case retry of
             0 \<Rightarrow> ret (Some (errorw f_patch_fin [md_Namespace (u_meta target), md_Name (u_meta target)] err))
           | Suc n \<Rightarrow>
               if \<not> isConflict err
               then ret (Some (errorw f_patch_fin [md_Namespace (u_meta target), md_Name (u_meta target)] err))
               else do {
                 got \<leftarrow> k8s_Get E g (md_Namespace (u_meta target)) (md_Name (u_meta target));
                 (case got of
                    Inl getErr \<Rightarrow>
                      ret (Some (errorw f_reread_fin [md_Namespace (u_meta target), md_Name (u_meta target)] getErr))
                  | Inr fresh \<Rightarrow> patch_fin_loop n E g fresh mutate)
               }))
   }"

declare patch_fin_loop.simps [simp del]

definition patchFinalizer :: "env \<Rightarrow> gvr \<Rightarrow> unstr \<Rightarrow> (string list \<Rightarrow> string list) \<Rightarrow> gerr option prog" where
  "patchFinalizer E g obj mutate = patch_fin_loop 1 E g obj mutate"

section \<open>Finalizers\<close>

definition containsString :: "string list \<Rightarrow> string \<Rightarrow> bool" where
  "containsString slice s \<longleftrightarrow> s \<in> set slice"

definition containsFinalizer :: "unstr \<Rightarrow> string \<Rightarrow> bool" where
  "containsFinalizer u f \<longleftrightarrow> containsString (md_Finalizers (u_meta u)) f"

definition removeString :: "string list \<Rightarrow> string \<Rightarrow> string list" where
  "removeString slice s = filter (\<lambda>item. item \<noteq> s) slice"

definition holdFinalizers :: "controller \<Rightarrow> string list \<Rightarrow> string list" where
  "holdFinalizers c existing =
     (let desired = foldl removeString existing (c_staleFinalizers c) in
      if c_finalizerName c \<noteq> [] \<and> \<not> containsString desired (c_finalizerName c)
      then desired @ [c_finalizerName c] else desired)"

definition releaseFinalizers :: "controller \<Rightarrow> string list \<Rightarrow> string list" where
  "releaseFinalizers c existing =
     (let remaining = (if c_finalizerName c \<noteq> [] then removeString existing (c_finalizerName c) else existing)
      in foldl removeString remaining (c_staleFinalizers c))"

definition needs_update :: "controller \<Rightarrow> string list \<Rightarrow> bool" where
  "needs_update c fs \<longleftrightarrow>
     (c_finalizerName c \<noteq> [] \<and> \<not> containsString fs (c_finalizerName c)) \<or>
     (\<exists>stale \<in> set (c_staleFinalizers c). containsString fs stale)"

definition finalizersNeedUpdate :: "controller \<Rightarrow> unstr \<Rightarrow> bool" where
  "finalizersNeedUpdate c u = needs_update c (md_Finalizers (u_meta u))"

section \<open>One pass\<close>

text \<open>
  How the body of \<open>Reconcile\<close> ends: \<open>Deferred e\<close> set \<open>reconcileErr\<close>, so the deferred function
  records it in the status and returns it; \<open>Returned r\<close> returned without it.
\<close>

datatype pass_end = Deferred gerr | Returned "gerr option"

definition f_cleanup_failed where [text_defs]: "f_cleanup_failed = ''cleanup failed: %w''"
definition f_fin_removal where [text_defs]: "f_fin_removal = ''finalizer removal patch failed: %w''"
definition f_fin_patch where [text_defs]: "f_fin_patch = ''finalizer patch failed: %w''"
definition f_refetch where [text_defs]: "f_refetch = ''re-fetching %s after the finalizer patch: %w''"
definition f_provision where [text_defs]: "f_provision = ''provisioning failed: %w''"

definition stale_present :: "controller \<Rightarrow> unstr \<Rightarrow> bool" where
  "stale_present c u \<longleftrightarrow> (\<exists>stale \<in> set (c_staleFinalizers c). containsFinalizer u stale)"

definition release :: "env \<Rightarrow> controller \<Rightarrow> unstr \<Rightarrow> pass_end prog" where
  "release E c u = do {
     r \<leftarrow> patchFinalizer E (c_gvr c) u (releaseFinalizers c);
     (case r of
        Some err \<Rightarrow> ret (Deferred (CleanupPendingE (errorw f_fin_removal [] err)))
      | None \<Rightarrow> ret (Returned None))
   }"

definition finalize :: "env \<Rightarrow> controller \<Rightarrow> unstr \<Rightarrow> pass_end prog" where
  "finalize E c u =
     (if c_finalizerName c \<noteq> [] \<and> containsFinalizer u (c_finalizerName c) then
        (case c_cleanupFunc c of
           None \<Rightarrow> release E c u
         | Some cleanup \<Rightarrow> do {
             r \<leftarrow> cleanup u;
             (case r of
                Inl cleanupErr \<Rightarrow> ret (Deferred (CleanupPendingE (errorw f_cleanup_failed [] cleanupErr)))
              | Inr cr \<Rightarrow>
                  if \<not> cr_Done cr then do {
                    queue_AddAfter (c_gvr c) (obj_key u)
                      (if cr_RequeueAfter cr \<le> 0 then defaultCleanupRequeue else cr_RequeueAfter cr);
                    ret (Returned None)
                  }
                  else release E c u)
           })
      else if stale_present c u then release E c u
      else ret (Returned None))"

definition provision :: "env \<Rightarrow> controller \<Rightarrow> unstr \<Rightarrow> pass_end prog" where
  "provision E c u = do {
     r \<leftarrow> c_provisionFunc c u;
     (case r of
        Inl provisionErr \<Rightarrow> ret (Deferred (errorw f_provision [] provisionErr))
      | Inr result \<Rightarrow> do {
          (if res_RequeueAfter result > 0 then queue_AddAfter (c_gvr c) (obj_key u) (res_RequeueAfter result)
           else ret ());
          (let latestU = (case res_Object result of None \<Rightarrow> u | Some o' \<Rightarrow> o') in do {
             m \<leftarrow> c_updateStatusFunc c latestU True None;
             if genericStatusCurrent latestU m then ret (Returned None)
             else do {
               e \<leftarrow> patchStatus E (c_gvr c) latestU (generic_payload m) StatusFieldManager;
               ret (Returned e)
             }
           })
        })
   }"

text \<open>What follows the finalizer patch: the first status, and a fresh copy to provision from.\<close>

definition after_hold :: "env \<Rightarrow> controller \<Rightarrow> unstr \<Rightarrow> pass_end prog" where
  "after_hold E c u = do {
     m \<leftarrow> c_updateStatusFunc c u False None;
     _ \<leftarrow> patchStatus E (c_gvr c) u (generic_payload m) StatusFieldManager;
     refreshed \<leftarrow> k8s_Get E (c_gvr c) (md_Namespace (u_meta u)) (md_Name (u_meta u));
     (case refreshed of
        Inl getErr \<Rightarrow>
          if isNotFound getErr then ret (Returned None)
          else ret (Deferred (errorw f_refetch [obj_key u] getErr))
      | Inr u' \<Rightarrow> provision E c u')
   }"

definition hold_then_provision :: "env \<Rightarrow> controller \<Rightarrow> unstr \<Rightarrow> pass_end prog" where
  "hold_then_provision E c u = do {
     r \<leftarrow> patchFinalizer E (c_gvr c) u (holdFinalizers c);
     (case r of
        Some err \<Rightarrow> ret (Deferred (errorw f_fin_patch [] err))
      | None \<Rightarrow> after_hold E c u)
   }"

definition reconcile_body :: "env \<Rightarrow> controller \<Rightarrow> unstr \<Rightarrow> pass_end prog" where
  "reconcile_body E c u =
     (if is_deleting (u_meta u) then finalize E c u
      else if finalizersNeedUpdate c u then hold_then_provision E c u
      else provision E c u)"

text \<open>The deferred function: the status write after an error, best effort.\<close>

definition deferred_status :: "env \<Rightarrow> controller \<Rightarrow> unstr \<Rightarrow> gerr \<Rightarrow> unit prog" where
  "deferred_status E c u err = do {
     latest \<leftarrow> cachedGet E (c_gvr c) (md_Namespace (u_meta u)) (md_Name (u_meta u));
     (case latest of
        None \<Rightarrow> ret ()
      | Some latestU \<Rightarrow> do {
          m \<leftarrow> c_updateStatusFunc c latestU False (Some err);
          if genericStatusCurrent latestU m then ret ()
          else do {
            _ \<leftarrow> patchStatus E (c_gvr c) latestU (generic_payload m) StatusFieldManager;
            ret ()
          }
        })
   }"

definition Reconcile :: "env \<Rightarrow> controller \<Rightarrow> unstr \<Rightarrow> gerr option prog" where
  "Reconcile E c u = do {
     r \<leftarrow> reconcile_body E c u;
     (case r of
        Deferred err \<Rightarrow> do { deferred_status E c u err; ret (Some err) }
      | Returned result \<Rightarrow> ret result)
   }"

section \<open>What wakes a controller\<close>

definition ReconcileRequestedAtAnnotation where
  "ReconcileRequestedAtAnnotation = ''ansible.field.vmware.com/reconcile-requested-at''"

definition annotation :: "ObjectMeta \<Rightarrow> string \<Rightarrow> string" where
  "annotation m k = case_option [] id (smap_get (md_Annotations m) k)"

definition shouldEnqueueOnUpdate :: "unstr \<Rightarrow> unstr \<Rightarrow> bool" where
  "shouldEnqueueOnUpdate oldU newU \<longleftrightarrow>
     md_ResourceVersion (u_meta oldU) = md_ResourceVersion (u_meta newU) \<or>
     md_Generation (u_meta oldU) \<noteq> md_Generation (u_meta newU) \<or>
     (\<not> is_deleting (u_meta oldU) \<and> is_deleting (u_meta newU)) \<or>
     annotation (u_meta oldU) ReconcileRequestedAtAnnotation \<noteq> annotation (u_meta newU) ReconcileRequestedAtAnnotation"

definition parentKeyOf :: "unstr \<Rightarrow> string option" where
  "parentKeyOf u =
     (let named = (case u_content u of CChild (Some sp) st \<Rightarrow> vs_BindingName sp | _ \<Rightarrow> []);
          binding = (if named = [] then case_option [] id (smap_get (md_Labels (u_meta u)) BindingLabel) else named)
      in if binding = [] then None else Some (key (md_Namespace (u_meta u)) binding))"

text \<open>The event handlers: \<open>informerEventHandler\<close> on its own kind and \<open>watchChildren\<close> on the parent.\<close>

datatype watch_event = Added unstr | Updated unstr unstr | Deleted unstr

fun informerEventHandler :: "gvr \<Rightarrow> watch_event \<Rightarrow> unit prog" where
  "informerEventHandler g (Added u) = queue_Add g (obj_key u)"
| "informerEventHandler g (Updated oldU newU) =
     (if shouldEnqueueOnUpdate oldU newU then queue_Add g (obj_key newU) else ret ())"
| "informerEventHandler g (Deleted u) = queue_Add g (obj_key u)"

definition enqueueParent :: "gvr \<Rightarrow> unstr \<Rightarrow> unit prog" where
  "enqueueParent parent u = (case parentKeyOf u of Some k \<Rightarrow> queue_Add parent k | None \<Rightarrow> ret ())"

fun watchChildren :: "gvr \<Rightarrow> watch_event \<Rightarrow> unit prog" where
  "watchChildren parent (Added u) = enqueueParent parent u"
| "watchChildren parent (Updated oldU newU) =
     (if md_ResourceVersion (u_meta oldU) = md_ResourceVersion (u_meta newU) then ret () else enqueueParent parent newU)"
| "watchChildren parent (Deleted u) = enqueueParent parent u"

section \<open>The finalizer policy\<close>

text \<open>
  What the loop relies on: \<open>mine\<close> are the finalizers this controller sets, \<open>stale\<close> those it no longer
  does. Everybody else's are kept, in their order, by both rewrites.
\<close>

locale finalizer_policy =
  fixes hold release :: "string list \<Rightarrow> string list"
    and needs :: "string list \<Rightarrow> bool"
    and mine stale :: "string set"
  assumes hold_set: "set (hold fs) = set fs - stale \<union> mine"
    and hold_foreign: "filter (\<lambda>f. f \<notin> mine \<and> f \<notin> stale) (hold fs) = filter (\<lambda>f. f \<notin> mine \<and> f \<notin> stale) fs"
    and release_eq: "release fs = filter (\<lambda>f. f \<notin> mine \<and> f \<notin> stale) fs"
    and needs_iff: "needs fs \<longleftrightarrow> \<not> mine \<subseteq> set fs \<or> stale \<inter> set fs \<noteq> {}"
begin

lemma hold_mine: "mine \<subseteq> set (hold fs)"
  by (simp add: hold_set)

lemma release_hold: "release (hold fs) = release fs"
  by (simp add: release_eq hold_foreign)

lemma release_keeps: "f \<notin> mine \<union> stale \<Longrightarrow> f \<in> set (release fs) \<longleftrightarrow> f \<in> set fs"
  by (simp add: release_eq)

lemma release_drops: "f \<in> mine \<union> stale \<Longrightarrow> f \<notin> set (release fs)"
  by (simp add: release_eq)

lemma hold_keeps: "f \<notin> mine \<union> stale \<Longrightarrow> f \<in> set (hold fs) \<longleftrightarrow> f \<in> set fs"
  by (auto simp: hold_set)

end

text \<open>When no finalizer is both, one rewrite settles the list.\<close>

locale settled_policy = finalizer_policy +
  assumes disjoint: "mine \<inter> stale = {}"
begin

lemma hold_settles: "\<not> needs (hold fs)"
  using disjoint by (auto simp: needs_iff hold_set)

end

lemma foldl_removeString: "foldl removeString fs st = filter (\<lambda>f. f \<notin> set st) fs"
proof (induction st arbitrary: fs)
  case (Cons s st)
  then show ?case by (auto simp: removeString_def intro: filter_cong)
qed simp

definition own_finalizers :: "controller \<Rightarrow> string set" where
  "own_finalizers c = (if c_finalizerName c = [] then {} else {c_finalizerName c})"

interpretation loop: finalizer_policy "holdFinalizers c" "releaseFinalizers c" "needs_update c"
    "own_finalizers c" "set (c_staleFinalizers c)" for c
  by unfold_locales
    (auto simp: filter_filter holdFinalizers_def releaseFinalizers_def needs_update_def own_finalizers_def foldl_removeString
      containsString_def removeString_def Let_def conj_commute intro: filter_cong)

section \<open>What the patches do\<close>

lemma only_patch_loop:
  "(\<And>a. K (EApplyStatus g (md_Namespace (u_meta u)) (md_Name (u_meta u)) p fm a)) \<Longrightarrow>
   only K (patch_loop n E g u p fm l)"
  by (induction n arbitrary: l) (auto intro!: only_intros)

lemma only_patchStatus [only_intros]:
  "(\<And>a. K (EApplyStatus g (md_Namespace (u_meta u)) (md_Name (u_meta u)) p fm a)) \<Longrightarrow>
   only K (patchStatus E g u p fm)"
  unfolding patchStatus_def by (rule only_patch_loop)

lemma patch_loop_length: "emits (patch_loop n E g u p fm l) (\<lambda>r es. length es \<le> n)"
proof (induction n arbitrary: l)
  case (Suc n)
  show ?case
    by (auto intro!: emits_bind [OF does_ApplyStatus] emits_option
        emits_if emits_return intro: emits_conseq [OF Suc])
qed (simp add: emits_return)

text \<open>The answer of the last attempt decides what \<open>patchStatus\<close> returns.\<close>

definition applied :: "gvr \<Rightarrow> unstr \<Rightarrow> payload \<Rightarrow> string \<Rightarrow> event \<Rightarrow> bool" where
  "applied g u p fm e \<longleftrightarrow> (\<exists>a. e = EApplyStatus g (md_Namespace (u_meta u)) (md_Name (u_meta u)) p fm a \<and>
     (a = None \<or> (\<exists>m. a = Some (NotFoundR, m))))"

lemma patch_loop_None: "emits (patch_loop n E g u p fm l) (\<lambda>r es. r = None \<longrightarrow> es \<noteq> [] \<and> applied g u p fm (last es))"
proof (induction n arbitrary: l)
  case (Suc n)
  let ?e = "EApplyStatus g (md_Namespace (u_meta u)) (md_Name (u_meta u)) p fm"
  show ?case
    unfolding patch_loop.simps
  proof (rule emits_bind [OF does_ApplyStatus])
    fix r es
    assume "\<exists>a. r = api_opt a \<and> es = [?e a]"
    then obtain a where a: "r = api_opt a" "es = [?e a]" by blast
    show "emits (case r of None \<Rightarrow> ret None | Some err \<Rightarrow> if isNotFound err then ret None
          else if isConflict err \<or> isAlreadyExists err then patch_loop n E g u p fm err
          else ret (Some (errorw f_status_apply [md_Namespace (u_meta u), md_Name (u_meta u)] err)))
        (\<lambda>b es'. b = None \<longrightarrow> es @ es' \<noteq> [] \<and> applied g u p fm (last (es @ es')))"
      using a by (auto intro!: emits_option emits_if emits_return emits_conseq [OF Suc] simp: applied_def api_opt_def api_error_def)
  qed
qed (simp add: emits_return)

lemma only_patch_fin_loop:
  "(\<And>ns n fs rv a. K (EPatchFinalizers g ns n fs rv a)) \<Longrightarrow> (\<And>ns n a. K (EGet g ns n a)) \<Longrightarrow>
   only K (patch_fin_loop k E g u mutate)"
proof (induction k arbitrary: u)
  case 0
  then show ?case by (subst patch_fin_loop.simps) (auto intro!: only_intros)
next
  case (Suc k)
  then show ?case by (subst patch_fin_loop.simps) (auto intro!: only_intros)
qed

lemma only_patchFinalizer [only_intros]:
  "(\<And>ns n fs rv a. K (EPatchFinalizers g ns n fs rv a)) \<Longrightarrow> (\<And>ns n a. K (EGet g ns n a)) \<Longrightarrow>
   only K (patchFinalizer E g u mutate)"
  unfolding patchFinalizer_def by (rule only_patch_fin_loop)

text \<open>A list patched in is \<open>mutate\<close> of the list the patched version of the object carries.\<close>

definition patch_of :: "gvr \<Rightarrow> (string list \<Rightarrow> string list) \<Rightarrow> unstr \<Rightarrow> event \<Rightarrow> bool" where
  "patch_of g mutate u e \<longleftrightarrow> (\<exists>a. e = EPatchFinalizers g (md_Namespace (u_meta u)) (md_Name (u_meta u))
     (mutate (md_Finalizers (u_meta u))) (md_ResourceVersion (u_meta u)) a)"

definition patch_succeeded :: "gvr \<Rightarrow> (string list \<Rightarrow> string list) \<Rightarrow> event \<Rightarrow> bool" where
  "patch_succeeded g mutate e \<longleftrightarrow> (\<exists>ns n fs rv. e = EPatchFinalizers g ns n (mutate fs) rv None)"

lemma patch_succeeded_patch [simp]: "patch_succeeded g mutate (EPatchFinalizers g ns n (mutate fs) rv a) \<longleftrightarrow> a = None"
  by (auto simp: patch_succeeded_def)

lemma patch_fin_loop_None:
  "emits (patch_fin_loop k E g u mutate) (\<lambda>r es. r = None \<longrightarrow> list_ex (patch_succeeded g mutate) es)"
proof (induction k arbitrary: u)
  case 0
  show ?case
    by (subst patch_fin_loop.simps)
      (auto intro!: emits_bind [OF does_PatchFinalizers]
         emits_option emits_return)
next
  case (Suc k)
  show ?case
    by (subst patch_fin_loop.simps)
      (auto intro!: emits_bind [OF does_PatchFinalizers]
         emits_bind [OF does_Get] emits_option emits_sum emits_if emits_return emits_conseq [OF Suc])
qed

lemma patchFinalizer_None:
  "emits (patchFinalizer E g u mutate) (\<lambda>r es. r = None \<longrightarrow> list_ex (patch_succeeded g mutate) es)"
  unfolding patchFinalizer_def by (rule patch_fin_loop_None)

fun is_fin_patch :: "event \<Rightarrow> bool" where
  "is_fin_patch (EPatchFinalizers g ns n fs rv a) = True"
| "is_fin_patch _ = False"

lemma patch_of_patch [simp]: "patch_of g mutate u (EPatchFinalizers g (md_Namespace (u_meta u)) (md_Name (u_meta u))
    (mutate (md_Finalizers (u_meta u))) (md_ResourceVersion (u_meta u)) a)"
  by (simp add: patch_of_def)

definition versioned :: "gvr \<Rightarrow> (string list \<Rightarrow> string list) \<Rightarrow> unstr \<Rightarrow> event list \<Rightarrow> bool" where
  "versioned g mutate u es \<longleftrightarrow> (\<forall>e \<in> set es. is_fin_patch e \<longrightarrow>
     (\<exists>v. patch_of g mutate v e \<and> (v = u \<or> (\<exists>ns n. EGet g ns n (Inr v) \<in> set es))))"

abbreviation (input) fin_patch_of :: "gvr \<Rightarrow> (string list \<Rightarrow> string list) \<Rightarrow> unstr \<Rightarrow> api_err option \<Rightarrow> event" where
  "fin_patch_of g mutate u a \<equiv> EPatchFinalizers g (md_Namespace (u_meta u)) (md_Name (u_meta u))
     (mutate (md_Finalizers (u_meta u))) (md_ResourceVersion (u_meta u)) a"

lemma versioned_first: "list_all (\<lambda>e. \<not> is_fin_patch e) es \<Longrightarrow> versioned g mutate u (fin_patch_of g mutate u a # es)"
  unfolding versioned_def list_all_iff by (auto intro: exI [of _ u])

lemma versioned_again:
  assumes "versioned g mutate v es"
  shows "versioned g mutate u (fin_patch_of g mutate u a # EGet g ns n (Inr v) # es)"
  unfolding versioned_def
proof (intro ballI impI)
  fix e
  assume e: "e \<in> set (fin_patch_of g mutate u a # EGet g ns n (Inr v) # es)" and p: "is_fin_patch e"
  from e p consider "e = fin_patch_of g mutate u a" | "e \<in> set es" by auto
  then show "\<exists>x. patch_of g mutate x e \<and> (x = u \<or> (\<exists>ns' n'. EGet g ns' n' (Inr x) \<in>
      set (fin_patch_of g mutate u a # EGet g ns n (Inr v) # es)))"
  proof cases
    case 1
    then show ?thesis by (auto intro: exI [of _ u])
  next
    case 2
    with assms p show ?thesis unfolding versioned_def by (metis list.set_intros)
  qed
qed

lemma patch_fin_loop_versioned:
  "emits (patch_fin_loop k E g u mutate) (\<lambda>r es. versioned g mutate u es \<and> length (filter is_fin_patch es) \<le> Suc k)"
proof (induction k arbitrary: u)
  case 0
  show ?case
    by (subst patch_fin_loop.simps)
      (auto intro!: emits_bind [OF does_PatchFinalizers] emits_option emits_return versioned_first)
next
  case (Suc k)
  have again: "emits (patch_fin_loop k E g v mutate) (\<lambda>r es. versioned g mutate u
       (fin_patch_of g mutate u a # EGet g ns n (Inr v) # es) \<and> length (filter is_fin_patch es) \<le> Suc k)" for v ns n a
    by (rule emits_conseq [OF Suc [of v]]) (simp add: versioned_again)
  show ?case
    by (subst patch_fin_loop.simps)
      (auto intro!: emits_bind [OF does_PatchFinalizers] emits_bind [OF does_Get] emits_option emits_sum emits_if
        emits_return again versioned_first)
qed

section \<open>One kind's functions, and what the loop adds to them\<close>

text \<open>
  The calls the loop makes on its own account. Everything else in a pass is \<open>K\<close>, what the kind's own
  functions do.
\<close>

fun loop_event :: "gvr \<Rightarrow> event \<Rightarrow> bool" where
  "loop_event g (ENow t) = True"
| "loop_event g (EApplyStatus g' ns n (PGeneric s m b t) fm a) = (g' = g \<and> fm = StatusFieldManager)"
| "loop_event g (EPatchFinalizers g' ns n fs rv a) = (g' = g)"
| "loop_event g (EGet g' ns n a) = (g' = g)"
| "loop_event g (EAddAfter g' k d) = (g' = g)"
| "loop_event g _ = False"

fun is_clock :: "event \<Rightarrow> bool" where
  "is_clock (ENow t) = True"
| "is_clock _ = False"

locale reconciler =
  fixes E :: env and c :: controller and K :: "event \<Rightarrow> bool"
  assumes provision_only: "only K (c_provisionFunc c u)"
    and cleanup_only: "c_cleanupFunc c = Some f \<Longrightarrow> only K (f u)"
    and status_only: "only is_clock (c_updateStatusFunc c u ok err)"
begin

abbreviation (input) allowed :: "event \<Rightarrow> bool" where
  "allowed e \<equiv> K e \<or> loop_event (c_gvr c) e"

lemma status_quiet: "(\<And>t. L (ENow t)) \<Longrightarrow> only L (c_updateStatusFunc c u ok err)"
  by (rule only_mono [OF status_only]) (auto elim!: is_clock.elims)

lemma release_quiet: "(\<And>e. loop_event (c_gvr c) e \<Longrightarrow> L e) \<Longrightarrow> only L (release E c u)"
  unfolding release_def by (auto intro!: only_intros)

lemma finalize_only: "only allowed (finalize E c u)"
  unfolding finalize_def
  by (auto intro!: only_intros release_quiet intro: only_mono [OF cleanup_only] split: option.split)

lemma provision_pass_only: "(\<And>e. allowed e \<Longrightarrow> L e) \<Longrightarrow> only L (provision E c u)"
  unfolding provision_def Let_def
  by (auto intro!: only_intros status_quiet intro: only_mono [OF provision_only])

lemma after_hold_only: "(\<And>e. allowed e \<Longrightarrow> L e) \<Longrightarrow> only L (after_hold E c u)"
  unfolding after_hold_def by (auto intro!: only_intros status_quiet provision_pass_only)

lemma hold_only: "only allowed (hold_then_provision E c u)"
  unfolding hold_then_provision_def by (auto intro!: only_intros after_hold_only)

lemma deferred_quiet:
  "(\<And>t. L (ENow t)) \<Longrightarrow> (\<And>ns n s m b t a. L (EApplyStatus (c_gvr c) ns n (PGeneric s m b t) StatusFieldManager a)) \<Longrightarrow>
   only L (deferred_status E c u err)"
  unfolding deferred_status_def cachedGet_def by (auto intro!: only_intros status_quiet)

lemma deferred_only: "(\<And>e. loop_event (c_gvr c) e \<Longrightarrow> L e) \<Longrightarrow> only L (deferred_status E c u err)"
  by (rule deferred_quiet) simp_all

text \<open>A pass does what the kind's functions do and the loop's own calls, nothing else.\<close>

lemma Reconcile_only: "only allowed (Reconcile E c u)"
  unfolding Reconcile_def reconcile_body_def
  by (auto intro!: only_intros finalize_only hold_only provision_pass_only deferred_only split: pass_end.split)

lemma Reconcile_extends: "extends (Reconcile E c u)"
  by (rule extends_emits [OF emits_only [OF Reconcile_only]])

text \<open>
  Before a live object's own function runs at all, the finalizer is on it: nothing the kind does
  (\<open>X\<close>) precedes a successful patch that adds it, unless the object came with it.
\<close>

lemma finalizer_first:
  assumes X: "\<And>e. X e \<Longrightarrow> \<not> loop_event (c_gvr c) e"
    and live: "\<not> is_deleting (u_meta u)" and lacks: "needs_update c (md_Finalizers (u_meta u))"
  shows "guards (patch_succeeded (c_gvr c) (holdFinalizers c)) X (Reconcile E c u)"
proof -
  let ?P = "patch_succeeded (c_gvr c) (holdFinalizers c)"
  have loop: "loop_event (c_gvr c) e \<Longrightarrow> \<not> X e" for e using X by blast
  have q: "only (\<lambda>e. \<not> X e) (deferred_status E c u err)" for err
    by (rule deferred_only) (rule loop)
  have p: "only (\<lambda>e. \<not> X e) (patchFinalizer E (c_gvr c) u (holdFinalizers c))"
    by (rule only_patchFinalizer) (rule loop, simp)+
  have ext: "extends (after_hold E c u)"
    by (rule extends_emits [OF emits_only [OF after_hold_only [where L = "\<lambda>_. True"]]]) simp
  have "guards ?P X (hold_then_provision E c u)"
    unfolding hold_then_provision_def
  proof (rule guards_bind [OF emits_conj [OF patchFinalizer_None emits_only [OF p]]])
    fix r :: "gerr option" and es
    assume r: "(r = None \<longrightarrow> list_ex ?P es) \<and> list_all (\<lambda>e. \<not> X e) es"
    show "guarded ?P X es \<and> (list_ex ?P es \<and> extends (case r of
        Some err \<Rightarrow> ret (Deferred (errorw f_fin_patch [] err)) | None \<Rightarrow> after_hold E c u) \<or>
      guards ?P X (case r of Some err \<Rightarrow> ret (Deferred (errorw f_fin_patch [] err)) | None \<Rightarrow> after_hold E c u))"
      using r by (cases r) (auto intro: guarded_none ext guards_only only_return)
  qed
  then show ?thesis
    unfolding Reconcile_def reconcile_body_def using live lacks
    by (auto simp: finalizersNeedUpdate_def intro!: guards_bind_quiet only_bind only_return q split: pass_end.split)
qed

end

text \<open>
  While the object is being deleted and carries the finalizer, the finalizer is patched only after
  a cleanup that said it was done; \<open>S\<close> is what the cleanup is known to have achieved.
\<close>

definition released_after :: "(gerr + CleanupResult \<Rightarrow> event list \<Rightarrow> bool) \<Rightarrow> event list \<Rightarrow> bool" where
  "released_after S es \<longleftrightarrow> (list_ex is_fin_patch es \<longrightarrow>
     (\<exists>cr es1 es2. es = es1 @ es2 \<and> list_all (\<lambda>e. \<not> is_fin_patch e) es1 \<and> cr_Done cr \<and> S (Inr cr) es1))"

lemma released_after_quiet: "list_all (\<lambda>e. \<not> is_fin_patch e) es \<Longrightarrow> released_after S es"
  by (auto simp: released_after_def list_all_iff list_ex_iff)

lemma released_after_append:
  "released_after S es \<Longrightarrow> list_all (\<lambda>e. \<not> is_fin_patch e) xs \<Longrightarrow> released_after S (es @ xs)"
  by (fastforce simp: released_after_def list_all_iff list_ex_iff)

text \<open>A kind whose own functions leave finalizers alone.\<close>

locale finalizing_reconciler = reconciler +
  assumes no_fin_patch: "K e \<Longrightarrow> \<not> is_fin_patch e"
begin

lemma released_when_done:
  assumes del: "is_deleting (u_meta u)" and fin: "c_finalizerName c \<noteq> []" "containsFinalizer u (c_finalizerName c)"
    and f: "c_cleanupFunc c = Some f" and S: "emits (f u) S"
  shows "emits (Reconcile E c u) (\<lambda>r es. released_after S es)"
proof -
  have q: "only (\<lambda>e. \<not> is_fin_patch e) (deferred_status E c u err)" for err
    by (rule deferred_quiet) simp_all
  have fq: "emits (f u) (\<lambda>a es. list_all (\<lambda>e. \<not> is_fin_patch e) es)"
    by (rule emits_only [OF only_mono [OF cleanup_only [OF f]]]) (rule no_fin_patch)
  have rel: "emits (release E c u) (\<lambda>_ _. True)"
    by (rule emits_top, rule release_quiet) simp
  have add: "only (\<lambda>e. \<not> is_fin_patch e) (queue_AddAfter g k d)" for g k d
    by (rule only_prims) simp
  have "emits (finalize E c u) (\<lambda>_ es. released_after S es)"
    unfolding finalize_def using fin f
  proof (simp del: sum.case_eq_if, rule_tac emits_bind [OF emits_conj [OF S fq]])
    fix a es
    assume a: "S a es \<and> list_all (\<lambda>e. \<not> is_fin_patch e) es"
    show "emits (case a of
         Inl cleanupErr \<Rightarrow> ret (Deferred (CleanupPendingE (errorw f_cleanup_failed [] cleanupErr)))
       | Inr cr \<Rightarrow> if \<not> cr_Done cr then do {
             queue_AddAfter (c_gvr c) (obj_key u)
               (if cr_RequeueAfter cr \<le> 0 then defaultCleanupRequeue else cr_RequeueAfter cr);
             ret (Returned None)
           } else release E c u) (\<lambda>b es'. released_after S (es @ es'))"
    proof (cases "\<exists>cr. a = Inr cr \<and> cr_Done cr")
      case True
      then obtain cr where "a = Inr cr" "cr_Done cr" by blast
      with a show ?thesis by (auto intro!: emits_conseq [OF rel] simp: released_after_def)
    next
      case False
      with a show ?thesis
        by (auto intro!: emits_sum emits_if emits_return emits_conseq [OF emits_only [OF only_bind [OF add only_return]]]
          released_after_quiet)
    qed
  qed
  then have "emits (reconcile_body E c u) (\<lambda>_ es. released_after S es)"
    using del by (simp add: reconcile_body_def)
  then show ?thesis
    unfolding Reconcile_def
  proof (rule emits_bind)
    fix r es
    assume es: "released_after S es"
    have "only (\<lambda>e. \<not> is_fin_patch e) (case r of Deferred err \<Rightarrow> do { deferred_status E c u err; ret (Some err) }
        | Returned result \<Rightarrow> ret result)"
      by (cases r) (auto intro!: only_bind only_return q)
    then show "emits (case r of Deferred err \<Rightarrow> do { deferred_status E c u err; ret (Some err) }
        | Returned result \<Rightarrow> ret result) (\<lambda>b es'. released_after S (es @ es'))"
      by (rule emits_conseq [OF emits_only]) (rule released_after_append [OF es])
  qed
qed

end

end
