(* ===== verification/Connection.thy ===== *)
theory Connection
  imports Engine AwxClient
begin

text \<open>
  controller/awxconnection.go and controller/caches.go: how a client for AWX is built from an
  \<open>AWXConnection\<close>, the two process-wide caches, template resolution, and the reconcile of an
  \<open>AWXConnection\<close> itself; and the two host helpers of util.go. The mutexes around the caches
  make each access atomic, which is what one step on the caches is here.
\<close>

section \<open>TLS options and clients\<close>

definition connectionFieldManager where "connectionFieldManager = ''ansible-supervisor-connection''"
definition defaultCABundleKey where "defaultCABundleKey = ''ca.crt''"
definition secretTokenKey where "secretTokenKey = ''token''"

definition f_tls_exclusive where [text_defs]: "f_tls_exclusive =
  ''spec.insecureSkipVerify and spec.caBundleSecretRef are mutually exclusive: set one or the other: %w''"
definition f_ca_name where [text_defs]: "f_ca_name = ''spec.caBundleSecretRef.name is required: %w''"
definition f_ca_read where [text_defs]: "f_ca_read = ''reading the CA bundle from secret %q key %q: %w''"

definition no_tls :: TLSOptions where
  "no_tls = \<lparr>tls_InsecureSkipVerify = False, tls_CABundlePEM = []\<rparr>"

definition awxTLSOptionsFor :: "env \<Rightarrow> AWXConnection \<Rightarrow> (gerr + TLSOptions) prog" where
  "awxTLSOptionsFor E conn =
     (let sp = the (conn_Spec conn); opts = no_tls\<lparr>tls_InsecureSkipVerify := cs_InsecureSkipVerify sp\<rparr> in
      case cs_CABundleSecretRef sp of
        None \<Rightarrow> ret (Inr opts)
      | Some ref \<Rightarrow>
          if cs_InsecureSkipVerify sp then ret (Inl (errorw f_tls_exclusive [] PermanentConfigE))
          else if skr_Name ref = [] then ret (Inl (errorw f_ca_name [] PermanentConfigE))
          else (let k = (if skr_Key ref = [] then defaultCABundleKey else skr_Key ref) in do {
            r \<leftarrow> getSecretValue E (md_Namespace (conn_meta conn)) (skr_Name ref) k;
            ret (case r of
               Inl err \<Rightarrow> Inl (errorw f_ca_read [skr_Name ref, k] err)
             | Inr bundle \<Rightarrow> Inr (opts\<lparr>tls_CABundlePEM := bundle\<rparr>))
          }))"

text \<open>The API base path already known: the spec's, or else the one detected before.\<close>

definition known_base_path :: "AWXConnection \<Rightarrow> string" where
  "known_base_path conn =
     (let fromSpec = normalizeAPIBasePath (cs_APIBasePath (the (conn_Spec conn))) in
      if fromSpec \<noteq> [] then fromSpec
      else (case conn_Status conn of None \<Rightarrow> [] | Some st \<Rightarrow> normalizeAPIBasePath (ct_APIBasePath st)))"

definition awxClientFor :: "env \<Rightarrow> AWXConnection \<Rightarrow> string \<Rightarrow> (gerr + AWXClient \<times> string) prog" where
  "awxClientFor E conn token = do {
     t \<leftarrow> awxTLSOptionsFor E conn;
     (case t of
        Inl err \<Rightarrow> ret (Inl err)
      | Inr opts \<Rightarrow> do {
          bp \<leftarrow> (if known_base_path conn \<noteq> [] then ret (Inr (known_base_path conn))
                else DetectAPIBasePath E (cs_URL (the (conn_Spec conn))) opts);
          ret (case bp of
             Inl err \<Rightarrow> Inl err
           | Inr basePath \<Rightarrow> (case NewAWXClient E (cs_URL (the (conn_Spec conn))) basePath token opts of
                 Inl err \<Rightarrow> Inl err
               | Inr c \<Rightarrow> Inr (c, basePath)))
        })
   }"

section \<open>The client cache\<close>

definition awxClientCacheTTL :: int where "awxClientCacheTTL = 600 * nanos_per_second"
definition templateCacheTTL :: int where "templateCacheTTL = 300 * nanos_per_second"

definition connectionKey :: "AWXConnection \<Rightarrow> string" where
  "connectionKey conn = md_Namespace (conn_meta conn) @ ''/'' @ md_Name (conn_meta conn) @ ''/'' @
     md_ResourceVersion (conn_meta conn)"

text \<open>The sweep of expired entries both caches do on a write.\<close>

definition sweep_clients :: "int \<Rightarrow> clientCacheEntry smap \<Rightarrow> clientCacheEntry smap" where
  "sweep_clients now m = filter (\<lambda>(k, e). \<not> now > cce_expires e) m"

definition sweep_templates :: "int \<Rightarrow> templateCacheEntry smap \<Rightarrow> templateCacheEntry smap" where
  "sweep_templates now m = filter (\<lambda>(k, e). \<not> now > tce_expires e) m"

definition f_conn_nospec where [text_defs]: "f_conn_nospec = ''AWXConnection %q has no spec: %w''"
definition f_conn_token where [text_defs]: "f_conn_token = ''reading AWX token from secret %q: %w''"

definition build_client :: "env \<Rightarrow> AWXConnection \<Rightarrow> (gerr + AWXClient \<times> string) prog" where
  "build_client E conn = do {
     tk \<leftarrow> getSecretValue E (md_Namespace (conn_meta conn)) (cs_SecretRef (the (conn_Spec conn))) secretTokenKey;
     (case tk of
        Inl err \<Rightarrow> ret (Inl (errorw f_conn_token [cs_SecretRef (the (conn_Spec conn))] err))
      | Inr token \<Rightarrow> do {
          r \<leftarrow> awxClientFor E conn token;
          (case r of
             Inl err \<Rightarrow> ret (Inl err)
           | Inr (c, basePath) \<Rightarrow> do {
               now \<leftarrow> time_Now E;
               set_clients (\<lambda>m. smap_put (connectionKey conn)
                 \<lparr>cce_client = c, cce_basePath = basePath, cce_expires = now + awxClientCacheTTL\<rparr>
                 (sweep_clients now m));
               ret (Inr (c, basePath))
             })
        })
   }"

definition cached_client :: "env \<Rightarrow> string \<Rightarrow> (AWXClient \<times> string) option prog" where
  "cached_client E k = do {
     entry \<leftarrow> read_world (\<lambda>w. smap_get (w_clients w) k);
     (case entry of
        None \<Rightarrow> ret None
      | Some e \<Rightarrow> do {
          now \<leftarrow> time_Now E;
          ret (if now < cce_expires e then Some (cce_client e, cce_basePath e) else None)
        })
   }"

definition awxClientForConnection :: "env \<Rightarrow> AWXConnection \<Rightarrow> (gerr + AWXClient \<times> string) prog" where
  "awxClientForConnection E conn =
     (case conn_Spec conn of
        None \<Rightarrow> ret (Inl (errorw f_conn_nospec [md_Name (conn_meta conn)] PermanentConfigE))
      | Some sp \<Rightarrow> do {
          hit \<leftarrow> cached_client E (connectionKey conn);
          (case hit of Some cb \<Rightarrow> ret (Inr cb) | None \<Rightarrow> build_client E conn)
        })"

definition getAWXConnection :: "env \<Rightarrow> string \<Rightarrow> string \<Rightarrow> (gerr + unstr) prog" where
  "getAWXConnection E namespace name = do {
     cached \<leftarrow> cachedGet E AWXConnGVR namespace name;
     (case cached of Some u \<Rightarrow> ret (Inr u) | None \<Rightarrow> k8s_Get E AWXConnGVR namespace name)
   }"

definition getCachedChild :: "env \<Rightarrow> string \<Rightarrow> string \<Rightarrow> AnsibleBindingVM option prog" where
  "getCachedChild E namespace name = do {
     cached \<leftarrow> cachedGet E AnsBindVMGVR namespace name;
     ret (case cached of
        None \<Rightarrow> None
      | Some u \<Rightarrow> (case convertAnsibleBindingVM u of
            Inl err \<Rightarrow> None
          | Inr child \<Rightarrow> if ch_Spec child = None then None else Some child))
   }"

section \<open>Templates\<close>

definition f_tmpl_type where [text_defs]: "f_tmpl_type = ''spec.template.type must be %q or %q, got %q''"
definition f_tmpl_resolve where [text_defs]: "f_tmpl_resolve = ''resolving template %q: %w''"

definition resolveTemplate :: "env \<Rightarrow> AWXClient \<Rightarrow> TemplateRef \<Rightarrow> (gerr + AWXTemplate) prog" where
  "resolveTemplate E c ref =
     (if tr_Type ref = TemplateTypeJob \<or> tr_Type ref = TemplateTypeWorkflow then do {
        r \<leftarrow> (if tr_Type ref = TemplateTypeJob then FindJobTemplate E c (tr_Name ref)
             else FindWorkflowJobTemplate E c (tr_Name ref));
        ret (case r of Inl err \<Rightarrow> Inl (errorw f_tmpl_resolve [tr_Name ref] err) | Inr t \<Rightarrow> Inr t)
      }
      else ret (Inl (errorf f_tmpl_type [TemplateTypeJob, TemplateTypeWorkflow, tr_Type ref])))"

definition templateCacheKey :: "string \<Rightarrow> TemplateRef \<Rightarrow> string" where
  "templateCacheKey connKey ref = connKey @ ''/'' @ tr_Type ref @ ''/'' @ tr_Name ref"

definition cacheTemplate :: "env \<Rightarrow> string \<Rightarrow> AWXTemplate \<Rightarrow> unit prog" where
  "cacheTemplate E k tmpl = do {
     now \<leftarrow> time_Now E;
     set_templates (\<lambda>m. smap_put k \<lparr>tce_tmpl = tmpl, tce_expires = now + templateCacheTTL\<rparr> (sweep_templates now m))
   }"

definition resolve_and_cache :: "env \<Rightarrow> AWXClient \<Rightarrow> string \<Rightarrow> TemplateRef \<Rightarrow> (gerr + AWXTemplate) prog" where
  "resolve_and_cache E c connKey ref = do {
     r \<leftarrow> resolveTemplate E c ref;
     (case r of
        Inl err \<Rightarrow> ret (Inl err)
      | Inr tmpl \<Rightarrow> do { cacheTemplate E (templateCacheKey connKey ref) tmpl; ret (Inr tmpl) })
   }"

definition resolveTemplateCached :: "env \<Rightarrow> AWXClient \<Rightarrow> string \<Rightarrow> TemplateRef \<Rightarrow> (gerr + AWXTemplate) prog" where
  "resolveTemplateCached E c connKey ref = do {
     entry \<leftarrow> read_world (\<lambda>w. smap_get (w_templates w) (templateCacheKey connKey ref));
     (case entry of
        None \<Rightarrow> resolve_and_cache E c connKey ref
      | Some e \<Rightarrow> do {
          now \<leftarrow> time_Now E;
          if now < tce_expires e then ret (Inr (tce_tmpl e)) else resolve_and_cache E c connKey ref
        })
   }"

definition resolveTemplateForLaunch :: "env \<Rightarrow> AWXClient \<Rightarrow> string \<Rightarrow> TemplateRef \<Rightarrow> (gerr + AWXTemplate) prog" where
  "resolveTemplateForLaunch E c connKey ref = resolve_and_cache E c connKey ref"

section \<open>Reconciling an AWXConnection\<close>

definition f_conn_decode where [text_defs]: "f_conn_decode = ''decoding AWXConnection: %w''"
definition f_spec_required where [text_defs]: "f_spec_required = ''spec is required''"
definition f_url_required where [text_defs]: "f_url_required = ''spec.url is required''"
definition f_secret_required where [text_defs]: "f_secret_required = ''spec.secretRef is required''"
definition f_conn_token2 where [text_defs]: "f_conn_token2 = ''reading token from secret %q: %w''"
definition f_conn_client where [text_defs]: "f_conn_client = ''preparing a client for %s: %w''"
definition f_conn_ping where [text_defs]: "f_conn_ping = ''validating connection to %s (API base path %s): %w''"
definition f_conn_record where [text_defs]: "f_conn_record = ''recording the detected API base path: %w''"

definition writeAWXConnectionDetails :: "env \<Rightarrow> unstr \<Rightarrow> string \<Rightarrow> gerr option prog" where
  "writeAWXConnectionDetails E u basePath = patchStatus E AWXConnGVR u (PConn basePath) connectionFieldManager"

definition validate_connection :: "env \<Rightarrow> unstr \<Rightarrow> AWXConnection \<Rightarrow> AWXConnectionSpec \<Rightarrow> (gerr + Result) prog" where
  "validate_connection E u conn sp = do {
     tk \<leftarrow> getSecretValue E (md_Namespace (conn_meta conn)) (cs_SecretRef sp) secretTokenKey;
     (case tk of
        Inl err \<Rightarrow> ret (Inl (errorw f_conn_token2 [cs_SecretRef sp] err))
      | Inr token \<Rightarrow> do {
          r \<leftarrow> awxClientFor E conn token;
          (case r of
             Inl err \<Rightarrow> ret (Inl (errorw f_conn_client [cs_URL sp] err))
           | Inr (c, basePath) \<Rightarrow> do {
               p \<leftarrow> Ping E c;
               (case p of
                  Some err \<Rightarrow> ret (Inl (errorw f_conn_ping [cs_URL sp, basePath] err))
                | None \<Rightarrow>
                    if (case conn_Status conn of None \<Rightarrow> True | Some st \<Rightarrow> ct_APIBasePath st \<noteq> basePath) then do {
                      e \<leftarrow> writeAWXConnectionDetails E u basePath;
                      ret (case e of Some err \<Rightarrow> Inl (errorw f_conn_record [] err) | None \<Rightarrow> Inr no_result)
                    }
                    else ret (Inr no_result))
             })
        })
   }"

definition applyAWXConnection :: "env \<Rightarrow> unstr \<Rightarrow> (gerr + Result) prog" where
  "applyAWXConnection E u =
     (case convertAWXConnection u of
        Inl err \<Rightarrow> ret (Inl (errorw f_conn_decode [] err))
      | Inr conn \<Rightarrow> (case conn_Spec conn of
            None \<Rightarrow> ret (Inl (errorf f_spec_required []))
          | Some sp \<Rightarrow>
              if cs_URL sp = [] then ret (Inl (errorf f_url_required []))
              else if cs_SecretRef sp = [] then ret (Inl (errorf f_secret_required []))
              else validate_connection E u conn sp))"

definition awxConnectionStaleFinalizer where
  "awxConnectionStaleFinalizer = ''field.vmware.com/awx-connection-cleanup''"

section \<open>The host a pass works on\<close>

definition ansible_host where "ansible_host = ''ansible_host''"

definition upsertInventoryHost ::
    "env \<Rightarrow> AWXClient \<Rightarrow> int \<Rightarrow> string \<Rightarrow> string \<Rightarrow> string \<Rightarrow> string smap \<Rightarrow> (gerr + int \<times> bool) prog" where
  "upsertInventoryHost E c inventoryID hostName ownerMarker address extraVars =
     UpsertHost E c inventoryID hostName ownerMarker
       (smap_merge (if address \<noteq> [] then [(ansible_host, address)] else []) extraVars)"

text \<open>\<open>runTarget\<close> of ansiblerun.go: a host a run works on.\<close>

record runTarget =
  rn_Name :: string
  rn_Address :: string
  rn_RequestedAddress :: string
  rn_Overrides :: "string smap"

definition requestsHostWrites :: "runTarget \<Rightarrow> bool" where
  "requestsHostWrites t \<longleftrightarrow> rn_RequestedAddress t \<noteq> [] \<or> rn_Overrides t \<noteq> []"

definition f_visitor where [text_defs]: "f_visitor =
  ''inventory host %q already exists and is not this run's to change, so the address and host variables this run asked for cannot be written onto it. Pass execution-specific values through spec.extraVars or spec.varsFrom - AWX applies those to the job, which overrides inventory variables for that job alone - or target a host name that does not already exist''"

definition resolveRunHost :: "env \<Rightarrow> AWXClient \<Rightarrow> int \<Rightarrow> runTarget \<Rightarrow> string \<Rightarrow> (gerr + int \<times> bool) prog" where
  "resolveRunHost E c inventoryID t ownerMarker = do {
     found \<leftarrow> FindHost E c inventoryID (rn_Name t);
     (case found of
        Inl err \<Rightarrow> ret (Inl err)
      | Inr existing \<Rightarrow>
          (case existing of
             None \<Rightarrow> upsertInventoryHost E c inventoryID (rn_Name t) ownerMarker (rn_Address t) (rn_Overrides t)
           | Some h \<Rightarrow>
               if trim_space (hr_Description h) = ownerMarker
               then upsertInventoryHost E c inventoryID (rn_Name t) ownerMarker (rn_Address t) (rn_Overrides t)
               else if requestsHostWrites t then ret (Inl (terminalf f_visitor [rn_Name t]))
               else ret (Inr (hr_ID h, False))))
   }"

section \<open>What each may send\<close>

lemma only_cachedGet [only_intros]: "only K (cachedGet E g ns n)"
  unfolding cachedGet_def by (rule only_peek)

lemma only_awxTLSOptionsFor [only_intros]:
  "(\<And>ns n a. K (EGet SecretGVR ns n a)) \<Longrightarrow> only K (awxTLSOptionsFor E conn)"
  unfolding awxTLSOptionsFor_def Let_def by (auto intro!: only_intros)

lemma only_awxClientFor [only_intros]:
  "(\<And>ns n a. K (EGet SecretGVR ns n a)) \<Longrightarrow> (\<And>c p a. K (EHttp c (RqPing p) a)) \<Longrightarrow>
   only K (awxClientFor E conn token)"
  unfolding awxClientFor_def by (auto intro!: only_intros)

lemma only_awxClientForConnection [only_intros]:
  "(\<And>ns n a. K (EGet SecretGVR ns n a)) \<Longrightarrow> (\<And>c p a. K (EHttp c (RqPing p) a)) \<Longrightarrow> (\<And>t. K (ENow t)) \<Longrightarrow>
   only K (awxClientForConnection E conn)"
  unfolding awxClientForConnection_def build_client_def cached_client_def by (auto intro!: only_intros)

lemma only_getAWXConnection [only_intros]:
  "(\<And>a. K (EGet AWXConnGVR ns n a)) \<Longrightarrow> only K (getAWXConnection E ns n)"
  unfolding getAWXConnection_def by (auto intro!: only_intros)

lemma only_getCachedChild [only_intros]: "only K (getCachedChild E ns n)"
  unfolding getCachedChild_def by (auto intro!: only_intros)

lemma only_resolveTemplate [only_intros]:
  "(\<And>iw a. K (EHttp c (RqTemplates iw (tr_Name ref)) a)) \<Longrightarrow> only K (resolveTemplate E c ref)"
  unfolding resolveTemplate_def by (auto intro!: only_intros)

lemma only_resolve_and_cache [only_intros]:
  "(\<And>iw a. K (EHttp c (RqTemplates iw (tr_Name ref)) a)) \<Longrightarrow> (\<And>t. K (ENow t)) \<Longrightarrow>
   only K (resolve_and_cache E c ck ref)"
  unfolding resolve_and_cache_def cacheTemplate_def by (auto intro!: only_intros)

lemma only_resolveTemplates [only_intros]:
  "(\<And>iw a. K (EHttp c (RqTemplates iw (tr_Name ref)) a)) \<Longrightarrow> (\<And>t. K (ENow t)) \<Longrightarrow>
   only K (resolveTemplateCached E c ck ref)"
  "(\<And>iw a. K (EHttp c (RqTemplates iw (tr_Name ref)) a)) \<Longrightarrow> (\<And>t. K (ENow t)) \<Longrightarrow>
   only K (resolveTemplateForLaunch E c ck ref)"
  unfolding resolveTemplateCached_def resolveTemplateForLaunch_def by (auto intro!: only_intros)

lemma only_upsertInventoryHost [only_intros]:
  "(\<And>a. K (EHttp c (RqHostsByName n hn) a)) \<Longrightarrow> (\<And>i v a. K (EHttp c (RqPatchHost i v) a)) \<Longrightarrow>
   (\<And>d v a. K (EHttp c (RqCreateHost n hn d v) a)) \<Longrightarrow> only K (upsertInventoryHost E c n hn mk ad vars)"
  unfolding upsertInventoryHost_def by (auto intro!: only_intros)

lemma only_resolveRunHost [only_intros]:
  "(\<And>hn a. K (EHttp c (RqHostsByName n hn) a)) \<Longrightarrow> (\<And>i v a. K (EHttp c (RqPatchHost i v) a)) \<Longrightarrow>
   (\<And>hn d v a. K (EHttp c (RqCreateHost n hn d v) a)) \<Longrightarrow> only K (resolveRunHost E c n t mk)"
  unfolding resolveRunHost_def by (auto intro!: only_intros)

fun conn_event :: "event \<Rightarrow> bool" where
  "conn_event (EGet SecretGVR ns n a) = True"
| "conn_event (EHttp c (RqPing p) a) = True"
| "conn_event (EHttp c RqMe a) = True"
| "conn_event (EApplyStatus AWXConnGVR ns n (PConn bp) fm a) = (fm = connectionFieldManager)"
| "conn_event _ = False"

lemma only_applyAWXConnection: "only conn_event (applyAWXConnection E u)"
  unfolding applyAWXConnection_def validate_connection_def writeAWXConnectionDetails_def
  by (auto intro!: only_intros)

end
