(* ===== verification/VarsFrom.thy ===== *)
theory VarsFrom
  imports World
begin

text \<open>
  controller/varsfrom.go: reading values of other objects into \<open>extra_vars\<close>. The allowlist comes
  from the environment (\<open>e_varsFromResources\<close>); the RESTMapper, the parser of group versions and
  the JSONPath evaluator are client-go's and are parameters too.
\<close>

section \<open>The allowlist\<close>

definition coreGroupAlias where "coreGroupAlias = ''core''"

text \<open>\<open>strings.Split\<close> at one character and \<open>strings.Cut\<close>.\<close>

fun split_at :: "char \<Rightarrow> string \<Rightarrow> string list" where
  "split_at c [] = [[]]"
| "split_at c (x # xs) = (if x = c then [] # split_at c xs
     else (case split_at c xs of [] \<Rightarrow> [[x]] | y # ys \<Rightarrow> (x # y) # ys))"

definition cut_at :: "char \<Rightarrow> string \<Rightarrow> (string \<times> string) option" where
  "cut_at c s = (case dropWhile (\<lambda>x. x \<noteq> c) s of [] \<Rightarrow> None | y # ys \<Rightarrow> Some (takeWhile (\<lambda>x. x \<noteq> c) s, ys))"

definition parse_entry :: "string \<Rightarrow> (string \<times> string) option" where
  "parse_entry raw =
     (let entry = trim_space raw in
      if entry = [] then None
      else (case cut_at (CHR ''/'') entry of
          None \<Rightarrow> None
        | Some (grp, resource) \<Rightarrow>
            if grp = [] \<or> resource = [] then None
            else Some (if grp = coreGroupAlias then [] else grp, resource)))"

definition parseVarsFromResources :: "string \<Rightarrow> (string \<times> string) list" where
  "parseVarsFromResources csv = List.map_filter parse_entry (split_at (CHR '','') csv)"

definition varsFromResourceAllowed :: "env \<Rightarrow> string \<Rightarrow> string \<Rightarrow> bool" where
  "varsFromResourceAllowed E grp resource \<longleftrightarrow> (grp, resource) \<in> set (e_varsFromResources E)"

definition groupLabel :: "string \<Rightarrow> string" where
  "groupLabel grp = (if grp = [] then coreGroupAlias else grp)"

definition varsFromResourceList :: "env \<Rightarrow> string list" where
  "varsFromResourceList E = map (\<lambda>(grp, resource). groupLabel grp @ ''/'' @ resource) (e_varsFromResources E)"

definition varsFromGroupAllowed :: "env \<Rightarrow> string \<Rightarrow> bool" where
  "varsFromGroupAllowed E grp \<longleftrightarrow> grp \<in> fst ` set (e_varsFromResources E)"

section \<open>Evaluating a path\<close>

definition f_jp_parse where [text_defs]: "f_jp_parse = ''%q is not a valid JSONPath: %w''"
definition f_jp_find where [text_defs]: "f_jp_find = ''%q did not match (%v): %w''"
definition f_jp_nothing where [text_defs]: "f_jp_nothing = ''%q matched nothing: %w''"
definition f_jp_many where [text_defs]: "f_jp_many = ''%q matched %d values; extra variables are single strings''"
definition f_jp_null where [text_defs]: "f_jp_null = ''%q resolved to null: %w''"
definition f_jp_shape where [text_defs]: "f_jp_shape = ''%q resolved to a %s; extra variables must be scalars''"

definition bool_text :: "bool \<Rightarrow> string" where
  "bool_text b = (if b then ''true'' else ''false'')"

fun scalarString :: "string \<Rightarrow> jp_value \<Rightarrow> gerr + string" where
  "scalarString path JpNil = Inl (errorw f_jp_null [path] NotPopulatedE)"
| "scalarString path (JpString s) = Inr s"
| "scalarString path (JpBool b) = Inr (bool_text b)"
| "scalarString path (JpInt i) = Inr (itoa i)"
| "scalarString path (JpFloat t) = Inr t"
| "scalarString path (JpOther k) = Inl (errorf f_jp_shape [path, k])"

definition evalJSONPath :: "env \<Rightarrow> unstr \<Rightarrow> string \<Rightarrow> gerr + string" where
  "evalJSONPath E obj path =
     (case e_jsonPathParse E path of
        Some m \<Rightarrow> Inl (errorw f_jp_parse [path] (errorf m []))
      | None \<Rightarrow> (case e_jsonPathFind E obj path of
            Inl m \<Rightarrow> Inl (errorw f_jp_find [path, m] NotPopulatedE)
          | Inr results \<Rightarrow> (case concat results of
                [] \<Rightarrow> Inl (errorw f_jp_nothing [path] NotPopulatedE)
              | [v] \<Rightarrow> scalarString path v
              | vs \<Rightarrow> Inl (errorf f_jp_many [path, itoa (int (length vs))]))))"

section \<open>Fetching one object\<close>

definition f_vf_resolve where [text_defs]: "f_vf_resolve = ''resolving %s %s: %v''"
definition f_vf_scope where [text_defs]: "f_vf_scope =
  ''%s %s is cluster-scoped: varsFrom only reads objects in the AnsibleRun's own namespace''"
definition f_vf_resource where [text_defs]: "f_vf_resource =
  ''varsFrom reads %s/%s, which this service is not permitted to read (allowed: %s); an operator can widen it with the vars_from_resources package value''"
definition f_vf_read where [text_defs]: "f_vf_read = ''reading %s %q for spec.varsFrom: %w''"

text \<open>The mapping, asked again after a reset when the kind looks missing.\<close>

definition map_kind :: "env \<Rightarrow> string \<Rightarrow> string \<Rightarrow> string \<Rightarrow> (bool \<times> string + string \<times> bool) prog" where
  "map_kind E grp kind version = do {
     m \<leftarrow> rest_Mapping E grp kind version;
     (case m of
        Inl (noMatch, msg) \<Rightarrow> if noMatch then do { mapper_Reset; rest_Mapping E grp kind version } else ret m
      | Inr x \<Rightarrow> ret m)
   }"

definition getVarsFromObject ::
    "env \<Rightarrow> string \<Rightarrow> string \<Rightarrow> string \<Rightarrow> ResourceRef \<Rightarrow> (gerr + unstr) prog" where
  "getVarsFromObject E namespace grp version ref = do {
     m \<leftarrow> map_kind E grp (rr_Kind ref) version;
     (case m of
        Inl (noMatch, msg) \<Rightarrow> ret (Inl (terminalf f_vf_resolve [rr_APIVersion ref, rr_Kind ref, msg]))
      | Inr (resource, namespaced) \<Rightarrow>
          if \<not> namespaced then ret (Inl (terminalf f_vf_scope [rr_APIVersion ref, rr_Kind ref]))
          else if \<not> varsFromResourceAllowed E grp resource
          then ret (Inl (terminalf f_vf_resource [groupLabel grp, resource, join '', '' (varsFromResourceList E)]))
          else do {
            r \<leftarrow> k8s_Get E (OtherGVR grp resource) namespace (rr_Name ref);
            ret (case r of Inl err \<Rightarrow> Inl (errorw f_vf_read [rr_Kind ref, rr_Name ref] err) | Inr obj \<Rightarrow> Inr obj)
          })
   }"

section \<open>All sources\<close>

definition f_vf_ref where [text_defs]: "f_vf_ref = ''spec.varsFrom[%d].resource needs apiVersion, kind and name''"
definition f_vf_empty where [text_defs]: "f_vf_empty = ''spec.varsFrom[%d].vars must not be empty''"
definition f_vf_gv where [text_defs]: "f_vf_gv = ''spec.varsFrom[%d].resource.apiVersion %q is not valid: %v''"
definition f_vf_secret where [text_defs]: "f_vf_secret =
  ''spec.varsFrom[%d] reads a Secret: extra variables are visible in AWX job output and stored launch parameters, so Secrets are never sourced this way - attach an AWX Credential to the template instead''"
definition f_vf_group where [text_defs]: "f_vf_group =
  ''spec.varsFrom[%d] reads API group %q, which this service is not permitted to read anything in (allowed: %s); an operator can widen it with the vars_from_resources package value''"
definition f_vf_clash where [text_defs]: "f_vf_clash =
  ''spec.varsFrom[%d].vars key %q is already set in spec.extraVars: remove one rather than relying on which wins''"
definition f_vf_twice where [text_defs]: "f_vf_twice = ''spec.varsFrom sets %q more than once''"
definition f_vf_value where [text_defs]: "f_vf_value = ''spec.varsFrom[%d].vars[%q] against %s %q: %w''"
definition KindSecret where "KindSecret = ''Secret''"

definition not_populated :: "gerr \<Rightarrow> bool" where
  "not_populated e \<longleftrightarrow> err_is (\<lambda>x. x = NotPopulatedE) e"

fun take_vars :: "env \<Rightarrow> int \<Rightarrow> ResourceRef \<Rightarrow> unstr \<Rightarrow> string smap \<Rightarrow> string smap \<Rightarrow> string smap \<Rightarrow> gerr + string smap" where
  "take_vars E i ref obj extraVars [] resolved = Inr resolved"
| "take_vars E i ref obj extraVars ((k, path) # vars) resolved =
     (if smap_get extraVars k \<noteq> None then Inl (terminalf f_vf_clash [itoa i, k])
      else if smap_get resolved k \<noteq> None then Inl (terminalf f_vf_twice [k])
      else (case evalJSONPath E obj path of
          Inl vErr \<Rightarrow>
            if not_populated vErr then Inl (errorw f_vf_value [itoa i, k, rr_Kind ref, rr_Name ref] vErr)
            else Inl (terminalf f_vf_value [itoa i, k, rr_Kind ref, rr_Name ref, err_text vErr])
        | Inr v \<Rightarrow> take_vars E i ref obj extraVars vars (smap_put k v resolved)))"

text \<open>The checks made before anything is read, in their order.\<close>

definition check_source :: "env \<Rightarrow> int \<Rightarrow> VarsFromSource \<Rightarrow> gerr + string \<times> string" where
  "check_source E i src =
     (let ref = vf_Resource src in
      if rr_APIVersion ref = [] \<or> rr_Kind ref = [] \<or> rr_Name ref = [] then Inl (terminalf f_vf_ref [itoa i])
      else if vf_Vars src = [] then Inl (terminalf f_vf_empty [itoa i])
      else (case e_parseGroupVersion E (rr_APIVersion ref) of
          Inl m \<Rightarrow> Inl (terminalf f_vf_gv [itoa i, rr_APIVersion ref, m])
        | Inr (grp, version) \<Rightarrow>
            if rr_Kind ref = KindSecret then Inl (terminalf f_vf_secret [itoa i])
            else if \<not> varsFromGroupAllowed E grp
            then Inl (terminalf f_vf_group [itoa i, groupLabel grp, join '', '' (varsFromResourceList E)])
            else Inr (grp, version)))"

fun resolve_sources ::
    "env \<Rightarrow> string \<Rightarrow> string smap \<Rightarrow> int \<Rightarrow> VarsFromSource list \<Rightarrow> string smap \<Rightarrow> (gerr + string smap) prog" where
  "resolve_sources E namespace extraVars i [] resolved = ret (Inr resolved)"
| "resolve_sources E namespace extraVars i (src # sources) resolved =
     (case check_source E i src of
        Inl err \<Rightarrow> ret (Inl err)
      | Inr (grp, version) \<Rightarrow> do {
          o' \<leftarrow> getVarsFromObject E namespace grp version (vf_Resource src);
          (case o' of
             Inl fErr \<Rightarrow> ret (Inl fErr)
           | Inr obj \<Rightarrow> (case take_vars E i (vf_Resource src) obj extraVars (vf_Vars src) resolved of
                 Inl err \<Rightarrow> ret (Inl err)
               | Inr resolved' \<Rightarrow> resolve_sources E namespace extraVars (i + 1) sources resolved'))
        })"

definition resolveVarsFrom ::
    "env \<Rightarrow> string \<Rightarrow> VarsFromSource list \<Rightarrow> string smap \<Rightarrow> (gerr + string smap \<times> string list) prog" where
  "resolveVarsFrom E namespace sources extraVars = do {
     r \<leftarrow> resolve_sources E namespace extraVars 0 sources [];
     ret (case r of Inl err \<Rightarrow> Inl err | Inr resolved \<Rightarrow> Inr (resolved, smap_keys resolved))
   }"

section \<open>Lemmas\<close>

text \<open>The only reads: objects of an allowed kind, in the run's own namespace.\<close>

fun vars_event :: "env \<Rightarrow> string \<Rightarrow> event \<Rightarrow> bool" where
  "vars_event E ns (EGet (OtherGVR grp resource) ns' n a) =
     (ns' = ns \<and> varsFromResourceAllowed E grp resource)"
| "vars_event E ns (ERestMapping grp kind version a) = (kind \<noteq> KindSecret \<and> varsFromGroupAllowed E grp)"
| "vars_event E ns EMapperReset = True"
| "vars_event E ns _ = False"

lemma check_source_Inr:
  "check_source E i src = Inr (grp, version) \<Longrightarrow>
   rr_Kind (vf_Resource src) \<noteq> KindSecret \<and> varsFromGroupAllowed E grp"
  by (auto simp: check_source_def Let_def split: if_splits sum.splits)

lemma only_getVarsFromObject:
  "rr_Kind ref \<noteq> KindSecret \<Longrightarrow> varsFromGroupAllowed E grp \<Longrightarrow>
   only (vars_event E ns) (getVarsFromObject E ns grp version ref)"
  unfolding getVarsFromObject_def map_kind_def by (auto intro!: only_intros)

lemma only_resolve_sources: "only (vars_event E ns) (resolve_sources E ns extraVars i sources resolved)"
proof (induction sources arbitrary: i resolved)
  case (Cons src sources)
  then show ?case
    by (auto intro!: only_intros only_getVarsFromObject dest: check_source_Inr)
qed (simp add: only_return)

lemma only_resolveVarsFrom: "only (vars_event E ns) (resolveVarsFrom E ns sources extraVars)"
  unfolding resolveVarsFrom_def by (intro only_bind only_resolve_sources only_return)

text \<open>What the resolved map holds: fresh keys only, each at its path's value.\<close>

lemma take_vars_keys:
  "take_vars E i ref obj extraVars vars resolved = Inr r \<Longrightarrow>
   fst ` set r = fst ` set resolved \<union> fst ` set vars \<and>
   fst ` set vars \<inter> (fst ` set resolved \<union> fst ` set extraVars) = {} \<and> distinct (map fst vars)"
proof (induction vars arbitrary: resolved)
  case (Cons kv vars)
  obtain k path where kv: "kv = (k, path)" by (cases kv)
  from Cons.prems obtain v where v: "k \<notin> fst ` set extraVars" "k \<notin> fst ` set resolved"
    "take_vars E i ref obj extraVars vars (smap_put k v resolved) = Inr r"
    by (auto simp: kv smap_get_def map_of_eq_None_iff split: if_splits sum.splits)
  from Cons.IH [OF v(3)] v(1,2) show ?case by (auto simp: kv)
qed simp

lemma take_vars_ok: "take_vars E i ref obj extraVars vars resolved = Inr r \<Longrightarrow> smap_ok resolved \<Longrightarrow> smap_ok r"
  by (induction E i ref obj extraVars vars resolved rule: take_vars.induct)
    (auto simp: smap_put_ok split: if_splits sum.splits)

lemma resolve_sources_keys:
  "smap_ok resolved \<Longrightarrow> fst ` set resolved \<inter> fst ` set extraVars = {} \<Longrightarrow>
   emits (resolve_sources E ns extraVars i sources resolved) (\<lambda>r es. case r of Inl err \<Rightarrow> True | Inr m \<Rightarrow>
     smap_ok m \<and> fst ` set m \<inter> fst ` set extraVars = {} \<and>
     fst ` set m = fst ` set resolved \<union> (\<Union>src \<in> set sources. fst ` set (vf_Vars src)))"
proof (induction sources arbitrary: i resolved)
  case Nil
  then show ?case by (simp add: emits_return)
next
  case (Cons src sources)
  have g: "emits (getVarsFromObject E ns grp v (vf_Resource src)) (\<lambda>_ _. True)" for grp v
    by (rule emits_top) (auto simp: getVarsFromObject_def map_kind_def intro!: only_intros)
  have step: "emits (resolve_sources E ns extraVars (i + 1) sources resolved')
      (\<lambda>r es. case r of Inl err \<Rightarrow> True | Inr m \<Rightarrow> smap_ok m \<and> fst ` set m \<inter> fst ` set extraVars = {} \<and>
         fst ` set m = fst ` set resolved \<union> (\<Union>src \<in> set (src # sources). fst ` set (vf_Vars src)))"
    if "take_vars E i (vf_Resource src) obj extraVars (vf_Vars src) resolved = Inr resolved'" for resolved' obj
  proof -
    from take_vars_keys [OF that] take_vars_ok [OF that] Cons.prems
    have "smap_ok resolved'" "fst ` set resolved' \<inter> fst ` set extraVars = {}"
      "fst ` set resolved' = fst ` set resolved \<union> fst ` set (vf_Vars src)" by auto
    note keys = this
    show ?thesis
    proof (rule emits_conseq [OF Cons.IH [OF keys(1,2), of "i + 1"]])
      fix a :: "gerr + string smap"
      assume "case a of Inl err \<Rightarrow> True | Inr m \<Rightarrow> smap_ok m \<and> fst ` set m \<inter> fst ` set extraVars = {} \<and>
        fst ` set m = fst ` set resolved' \<union> (\<Union>src \<in> set sources. fst ` set (vf_Vars src))"
      moreover have "fst ` set resolved' \<union> (\<Union>src \<in> set sources. fst ` set (vf_Vars src)) =
          fst ` set resolved \<union> (\<Union>src \<in> set (src # sources). fst ` set (vf_Vars src))"
        using keys(3) by auto
      ultimately show "case a of Inl err \<Rightarrow> True | Inr m \<Rightarrow> smap_ok m \<and> fst ` set m \<inter> fst ` set extraVars = {} \<and>
        fst ` set m = fst ` set resolved \<union> (\<Union>src \<in> set (src # sources). fst ` set (vf_Vars src))"
        by (cases a) metis+
    qed
  qed
  show ?case
    by (auto intro!: emits_sum emits_prod emits_return emits_bind [OF g] step split: sum.split)
qed

text \<open>
  Resolved variables: a well-formed map of exactly the names the sources list, none of them also given in
  \<open>spec.extraVars\<close>.
\<close>

definition vars_sound :: "VarsFromSource list \<Rightarrow> string smap \<Rightarrow> gerr + string smap \<times> string list \<Rightarrow> bool" where
  "vars_sound sources extraVars r \<longleftrightarrow> (case r of
     Inl err \<Rightarrow> True
   | Inr (m, names) \<Rightarrow> smap_ok m \<and> names = smap_keys m \<and> fst ` set m \<inter> fst ` set extraVars = {} \<and>
       fst ` set m = (\<Union>src \<in> set sources. fst ` set (vf_Vars src)))"

lemma emits_resolveVarsFrom: "emits (resolveVarsFrom E ns sources extraVars) (\<lambda>r _. vars_sound sources extraVars r)"
  unfolding resolveVarsFrom_def
proof (rule emits_bind [OF resolve_sources_keys])
  show "smap_ok []" "fst ` set [] \<inter> fst ` set extraVars = {}" by simp_all
next
  fix a :: "gerr + string smap"
  assume "case a of Inl err \<Rightarrow> True | Inr m \<Rightarrow> smap_ok m \<and> fst ` set m \<inter> fst ` set extraVars = {} \<and>
    fst ` set m = fst ` set [] \<union> (\<Union>src \<in> set sources. fst ` set (vf_Vars src))"
  then show "emits (ret (case a of Inl err \<Rightarrow> Inl err | Inr resolved \<Rightarrow> Inr (resolved, smap_keys resolved)))
      (\<lambda>r _. vars_sound sources extraVars r)"
    by (cases a) (auto intro!: emits_return simp only: vars_sound_def sum.case prod.case UN_insert image_empty list.set(1) Un_empty_left)
qed

end
