(* ===== verification/AnsibleRun.thy ===== *)
theory AnsibleRun
  imports Connection VarsFrom
begin

text \<open>
  controller/ansiblerun.go: an \<open>AnsibleRun\<close> is a one-way trip - launch at most one AWX job, poll it to
  a terminal status, stop. The Go functions mutate the object and the status they are handed
  through pointers; here they take both and return both. A pass is \<open>applyAnsibleRun\<close>, the
  finalization \<open>cleanupAnsibleRun\<close>, the aggregate state \<open>updateAnsibleRunStatus\<close>.
\<close>

type_synonym run_out = "(unstr \<times> AnsibleRunStatus) \<times> gerr option"

definition runDetailsFieldManager where "runDetailsFieldManager = ''ansible-supervisor-run''"

record runAWXContext =
  ax_conn :: AWXConnection
  ax_client :: AWXClient
  ax_endpoint :: string
  ax_isWorkflow :: bool

section \<open>Reading and writing the record\<close>

definition f_run_reread where [text_defs]: "f_run_reread = ''re-reading AnsibleRun %q: %w''"

definition readRunLive :: "env \<Rightarrow> unstr \<Rightarrow> (gerr + unstr option) prog" where
  "readRunLive E cached = do {
     r \<leftarrow> k8s_Get E AnsRunGVR (md_Namespace (u_meta cached)) (md_Name (u_meta cached));
     ret (case r of
        Inl err \<Rightarrow> if isNotFound err then Inr None else Inl (errorw f_run_reread [md_Name (u_meta cached)] err)
      | Inr live \<Rightarrow>
          if md_UID (u_meta cached) \<noteq> [] \<and> md_UID (u_meta live) \<noteq> md_UID (u_meta cached) then Inr None
          else Inr (Some live))
   }"

definition runStatusDetails :: "AnsibleRunStatus \<Rightarrow> AnsibleRunStatus" where
  "runStatusDetails status = zero_run_status\<lparr>rt_JobID := rt_JobID status, rt_JobURL := rt_JobURL status,
     rt_JobStatus := rt_JobStatus status, rt_StartedAt := rt_StartedAt status, rt_FinishedAt := rt_FinishedAt status,
     rt_LaunchAttemptedAt := rt_LaunchAttemptedAt status, rt_CancelRequestedAt := rt_CancelRequestedAt status,
     rt_AWXEndpoint := rt_AWXEndpoint status, rt_FailureReason := rt_FailureReason status,
     rt_ResolvedVars := rt_ResolvedVars status, rt_Hosts := rt_Hosts status\<rparr>"

lemma runStatusDetails_idem [simp]: "runStatusDetails (runStatusDetails st) = runStatusDetails st"
  by (simp add: runStatusDetails_def)

definition writeRunDetails :: "env \<Rightarrow> unstr \<Rightarrow> AnsibleRunStatus \<Rightarrow> gerr option prog" where
  "writeRunDetails E u status = patchStatus E AnsRunGVR u (PRun (runStatusDetails status)) runDetailsFieldManager"

text \<open>\<open>obj.Object["status"] = data\<close>: the decoded content of an object with another status.\<close>

definition set_run_status :: "unstr \<Rightarrow> AnsibleRunStatus \<Rightarrow> gfound \<Rightarrow> unstr" where
  "set_run_status u status g = u\<lparr>u_generic := g, u_content :=
     CRun (case u_content u of CRun sp st \<Rightarrow> sp | _ \<Rightarrow> None) (Some (strip_generic status))\<rparr>"

text \<open>
  \<open>claimLaunch\<close>: the conditional write. The object sent carries the resource version it was read
  at, the details, and the engine's four fields as they were.
\<close>

definition claimLaunch :: "env \<Rightarrow> unstr \<Rightarrow> AnsibleRunStatus \<Rightarrow> (gerr + unstr) prog" where
  "claimLaunch E obj status = do {
     r \<leftarrow> k8s_UpdateStatus E AnsRunGVR (set_run_status obj (runStatusDetails status) (u_generic obj)) runDetailsFieldManager;
     ret (case r of
        Inl err \<Rightarrow> Inl err
      | Inr rv \<Rightarrow> Inr (obj\<lparr>u_meta := (u_meta obj)\<lparr>md_ResourceVersion := rv\<rparr>\<rparr>))
   }"

fun recordRunHost :: "RunHostStatus list \<Rightarrow> RunHostStatus \<Rightarrow> RunHostStatus list" where
  "recordRunHost [] h = [h]"
| "recordRunHost (existing # hosts) h =
     (if rhs_Name existing = rhs_Name h \<and> rhs_AWXInventoryID existing = rhs_AWXInventoryID h
      then h\<lparr>rhs_AWXHostCreated := rhs_AWXHostCreated h \<or> rhs_AWXHostCreated existing\<rparr> # hosts
      else existing # recordRunHost hosts h)"

definition runLimit :: "RunHostStatus list \<Rightarrow> string" where
  "runLimit hosts = join '','' (map rhs_Name hosts)"

definition st_unknown where "st_unknown = ''unknown''"

definition failRun :: "env \<Rightarrow> unstr \<Rightarrow> AnsibleRunStatus \<Rightarrow> string \<Rightarrow> run_out prog" where
  "failRun E u status reason = do {
     now \<leftarrow> nowRFC3339 E;
     (let status = status\<lparr>rt_FinishedAt := now, rt_FailureReason := reason,
            rt_JobStatus := (if rt_JobStatus status = [] then st_unknown else rt_JobStatus status)\<rparr> in do {
        w \<leftarrow> writeRunDetails E u status;
        ret ((u, status), w)
      })
   }"

section \<open>Reaching AWX\<close>

definition f_run_connref where [text_defs]: "f_run_connref = ''spec.awxConnectionRef is required''"
definition f_run_noconn where [text_defs]: "f_run_noconn = ''AWXConnection %q does not exist in this namespace''"
definition f_run_fetchconn where [text_defs]: "f_run_fetchconn = ''fetching AWXConnection %q: %w''"
definition f_run_badconn where [text_defs]: "f_run_badconn = ''AWXConnection %q is malformed''"
definition f_run_client where [text_defs]: "f_run_client = ''preparing a client for AWXConnection %q: %w''"

definition run_ns :: "AnsibleRun \<Rightarrow> string" where
  "run_ns run = md_Namespace (run_meta run)"

definition run_spec :: "AnsibleRun \<Rightarrow> AnsibleRunSpec" where
  "run_spec run = the (run_Spec run)"

definition runConnection :: "env \<Rightarrow> AnsibleRun \<Rightarrow> (gerr + AWXConnection) prog" where
  "runConnection E run =
     (let ref = rs_AWXConnectionRef (run_spec run) in
      if ref = [] then ret (Inl (terminalf f_run_connref []))
      else do {
        r \<leftarrow> getAWXConnection E (run_ns run) ref;
        ret (case r of
           Inl err \<Rightarrow>
             if isNotFound err then Inl (terminalf f_run_noconn [ref]) else Inl (errorw f_run_fetchconn [ref] err)
         | Inr connObj \<Rightarrow> (case convertAWXConnection connObj of
               Inl err \<Rightarrow> Inl (terminalf f_run_badconn [ref])
             | Inr conn \<Rightarrow> if conn_Spec conn = None then Inl (terminalf f_run_badconn [ref]) else Inr conn))
      })"

definition run_context :: "env \<Rightarrow> AnsibleRun \<Rightarrow> AWXConnection \<Rightarrow> AWXClient \<Rightarrow> string \<Rightarrow> runAWXContext" where
  "run_context E run conn c basePath =
     \<lparr>ax_conn = conn, ax_client = c,
      ax_endpoint = awxEndpointFingerprint E (cs_URL (the (conn_Spec conn))) basePath,
      ax_isWorkflow = (tr_Type (rs_Template (run_spec run)) = TemplateTypeWorkflow)\<rparr>"

definition awxContextForRun :: "env \<Rightarrow> AnsibleRun \<Rightarrow> (gerr + runAWXContext) prog" where
  "awxContextForRun E run = do {
     r \<leftarrow> runConnection E run;
     (case r of
        Inl err \<Rightarrow> ret (Inl err)
      | Inr conn \<Rightarrow> do {
          cl \<leftarrow> awxClientForConnection E conn;
          ret (case cl of
             Inl err \<Rightarrow>
               if isPermanent err then Inl (terminalf f_run_client [rs_AWXConnectionRef (run_spec run), err_text err])
               else Inl (errorw f_run_client [rs_AWXConnectionRef (run_spec run)] err)
           | Inr (c, basePath) \<Rightarrow> Inr (run_context E run conn c basePath))
        })
   }"

section \<open>A job in flight\<close>

definition f_run_poll where [text_defs]: "f_run_poll = ''polling job %d: %w''"
definition f_run_jobfailed where [text_defs]: "f_run_jobfailed = ''AWX job %d finished %s: see %s''"

definition pollRun :: "env \<Rightarrow> unstr \<Rightarrow> AnsibleRun \<Rightarrow> AnsibleRunStatus \<Rightarrow> AWXClient \<Rightarrow> run_out prog" where
  "pollRun E u run status c = do {
     r \<leftarrow> pollJobStatus E c (tr_Type (rs_Template (run_spec run))) (rt_JobID status);
     (case r of
        Inl err \<Rightarrow> ret ((u, status), Some (errorw f_run_poll [itoa (rt_JobID status)] err))
      | Inr awxStatus \<Rightarrow>
          (let status = status\<lparr>rt_JobStatus := awxStatus\<rparr> in
           if \<not> isTerminalAWXStatus awxStatus then do { w \<leftarrow> writeRunDetails E u status; ret ((u, status), w) }
           else if mapAWXStatus awxStatus = PhaseFailed
           then ret ((u, status), Some (terminalf f_run_jobfailed [itoa (rt_JobID status), awxStatus, rt_JobURL status]))
           else do {
             now \<leftarrow> nowRFC3339 E;
             (let status = status\<lparr>rt_FinishedAt := now\<rparr> in do { w \<leftarrow> writeRunDetails E u status; ret ((u, status), w) })
           }))
   }"

section \<open>A launch whose answer was lost\<close>

definition launchRecoveryGrace :: int where "launchRecoveryGrace = 60 * nanos_per_second"

definition f_lost_lookup where [text_defs]: "f_lost_lookup = ''looking for the job a lost launch may have started: %w''"
definition f_lost_unreadable where [text_defs]: "f_lost_unreadable =
  ''status.launchAttemptedAt %q cannot be read, so it is not possible to tell whether this run's launch reached AWX. Check the template's recent jobs there, and create a new AnsibleRun if it did not run''"
definition f_lost_permanent where [text_defs]: "f_lost_permanent =
  ''a launch was sent at %s and its result was never recorded, and the job it may have started cannot be looked for (%v). Check template %q's recent jobs in AWX, and create a new AnsibleRun if it did not run''"
definition f_lost_waiting where [text_defs]: "f_lost_waiting =
  ''a launch was sent at %s and its result was never recorded; waiting to see whether it started a job in AWX''"
definition f_lost_none where [text_defs]: "f_lost_none =
  ''a launch was sent at %s and its result was never recorded, and no job matching it has appeared in template %q since. AWX may have run it anyway - a trimmed job list, a restricted view or a clock that disagrees all look like this - so this run will not send it again. Check the template's recent jobs in AWX, and create a new AnsibleRun if it did not run''"
definition f_lost_many where [text_defs]: "f_lost_many =
  ''a launch was sent at %s and its result was never recorded, and template %q has more than one job (%s) that could be it, so this run will not guess which. Check them in AWX, and create a new AnsibleRun if none of them did what this one asked for''"

definition lost_launch_matches :: "RunHostStatus list \<Rightarrow> int \<Rightarrow> AWXJob list \<Rightarrow> AWXJob list" where
  "lost_launch_matches hosts attempted jobs =
     filter (\<lambda>job. aj_Limit job = runLimit hosts \<and> \<not> aj_Created job < attempted) jobs"

definition matchLostLaunchJobs ::
    "env \<Rightarrow> runAWXContext \<Rightarrow> AnsibleRun \<Rightarrow> AnsibleRunStatus \<Rightarrow> int \<Rightarrow> (gerr + AWXJob list) prog" where
  "matchLostLaunchJobs E awx run status attempted = do {
     t \<leftarrow> resolveTemplateCached E (ax_client awx) (connectionKey (ax_conn awx)) (rs_Template (run_spec run));
     (case t of
        Inl err \<Rightarrow> ret (Inl err)
      | Inr tmpl \<Rightarrow> do {
          js \<leftarrow> RecentTemplateJobs E (ax_client awx) (tp_ID tmpl) (ax_isWorkflow awx);
          ret (case js of
             Inl err \<Rightarrow> Inl (errorw f_lost_lookup [] err)
           | Inr jobs \<Rightarrow> Inr (lost_launch_matches (rt_Hosts status) attempted jobs))
        })
   }"

definition adopt_job :: "runAWXContext \<Rightarrow> AWXJob \<Rightarrow> AnsibleRunStatus \<Rightarrow> AnsibleRunStatus" where
  "adopt_job awx job status = status\<lparr>rt_JobID := aj_ID job,
     rt_JobURL := JobURL (ax_client awx) (aj_ID job) (ax_isWorkflow awx), rt_JobStatus := aj_Status job\<rparr>"

definition recoverLostLaunch :: "env \<Rightarrow> unstr \<Rightarrow> AnsibleRun \<Rightarrow> AnsibleRunStatus \<Rightarrow> runAWXContext \<Rightarrow> run_out prog" where
  "recoverLostLaunch E u run status awx =
     (let at = stamp_text (rt_LaunchAttemptedAt status); tn = tr_Name (rs_Template (run_spec run)) in
      case parse_time (rt_LaunchAttemptedAt status) of
        None \<Rightarrow> ret ((u, status), Some (terminalf f_lost_unreadable [at]))
      | Some attempted \<Rightarrow> do {
          m \<leftarrow> matchLostLaunchJobs E awx run status attempted;
          (case m of
             Inl err \<Rightarrow>
               if isPermanent err then ret ((u, status), Some (terminalf f_lost_permanent [at, err_text err, tn]))
               else ret ((u, status), Some err)
           | Inr [] \<Rightarrow> do {
               d \<leftarrow> time_Since E attempted;
               if d < launchRecoveryGrace then ret ((u, status), Some (errorf f_lost_waiting [at]))
               else ret ((u, status), Some (terminalf f_lost_none [at, tn]))
             }
           | Inr [job] \<Rightarrow>
               (let status = (adopt_job awx job status)\<lparr>rt_StartedAt := format_time (aj_Created job)\<rparr> in do {
                  w \<leftarrow> writeRunDetails E u status;
                  ret ((u, status), w)
                })
           | Inr jobs \<Rightarrow>
               ret ((u, status), Some (terminalf f_lost_many [at, tn, join '', '' (map (\<lambda>j. itoa (aj_ID j)) jobs)])))
        })"

section \<open>The launch\<close>

definition gatherRunVars :: "env \<Rightarrow> AnsibleRun \<Rightarrow> (gerr + string smap \<times> string list) prog" where
  "gatherRunVars E run =
     (let merged = smap_merge [] (rs_ExtraVars (run_spec run)) in
      if rs_VarsFrom (run_spec run) = [] then ret (Inr (merged, []))
      else do {
        r \<leftarrow> resolveVarsFrom E (run_ns run) (rs_VarsFrom (run_spec run)) (rs_ExtraVars (run_spec run));
        ret (case r of Inl err \<Rightarrow> Inl err | Inr (resolved, names) \<Rightarrow> Inr (smap_merge merged resolved, names))
      })"

definition f_host_name where [text_defs]: "f_host_name = ''spec.hosts[%d].name is required''"
definition f_host_twice where [text_defs]: "f_host_twice = ''spec.hosts names host %q more than once''"
definition f_vmref_name where [text_defs]: "f_vmref_name = ''spec.vmRef.name is required''"
definition f_vm_read where [text_defs]: "f_vm_read = ''reading VirtualMachine %q: %w''"
definition f_vm_notready where [text_defs]: "f_vm_notready = ''VirtualMachine %q is not powered on with a reported IP yet''"

fun host_targets :: "int \<Rightarrow> string list \<Rightarrow> RunHost list \<Rightarrow> gerr + runTarget list" where
  "host_targets i seen [] = Inr []"
| "host_targets i seen (h # hs) =
     (if rh_Name h = [] then Inl (terminalf f_host_name [itoa i])
      else if rh_Name h \<in> set seen then Inl (terminalf f_host_twice [rh_Name h])
      else (case host_targets (i + 1) (rh_Name h # seen) hs of
          Inl err \<Rightarrow> Inl err
        | Inr ts \<Rightarrow> Inr (\<lparr>rn_Name = rh_Name h, rn_Address = rh_Address h, rn_RequestedAddress = rh_Address h,
            rn_Overrides = rh_Variables h\<rparr> # ts)))"

definition vm_target :: "env \<Rightarrow> AnsibleRun \<Rightarrow> AWXConnection \<Rightarrow> string \<Rightarrow> (gerr + runTarget list) prog" where
  "vm_target E run conn vmName = do {
     r \<leftarrow> k8s_Get E VMGVR (run_ns run) vmName;
     ret (case r of
        Inl err \<Rightarrow> Inl (errorw f_vm_read [vmName] err)
      | Inr vm \<Rightarrow>
          (let (ip, ready) = vmReady vm;
               name = (if rs_HostName (run_spec run) \<noteq> [] then rs_HostName (run_spec run) else vmName) in
           if \<not> ready then Inl (errorf f_vm_notready [vmName])
           else Inr [\<lparr>rn_Name = cs_HostNamePrefix (the (conn_Spec conn)) @ name, rn_Address = ip,
             rn_RequestedAddress = [], rn_Overrides = rs_HostVariables (run_spec run)\<rparr>]))
   }"

definition runTargets :: "env \<Rightarrow> AnsibleRun \<Rightarrow> AWXConnection \<Rightarrow> (gerr + runTarget list) prog" where
  "runTargets E run conn =
     (if rs_Hosts (run_spec run) \<noteq> [] then ret (host_targets 0 [] (rs_Hosts (run_spec run)))
      else (case rs_VMRef (run_spec run) of
          None \<Rightarrow> ret (Inr [])
        | Some vmName \<Rightarrow>
            if vmName = [] then ret (Inl (terminalf f_vmref_name [])) else vm_target E run conn vmName))"

definition f_exclusive where [text_defs]: "f_exclusive =
  ''spec.hosts and spec.vmRef are mutually exclusive: a run points at explicit hosts or at one VM, not both''"
definition f_noinventory where [text_defs]: "f_noinventory =
  ''template %q has no inventory, so there is nowhere to create the host(s) this run targets and no inventory for a limit to scope against: point it at a template with an inventory, or drop spec.hosts/spec.vmRef to accept the template's own scope''"
definition f_run_remedy where [text_defs]: "f_run_remedy =
  ''remove spec.hosts/spec.vmRef to accept the template's own scope''"
definition f_upserting where [text_defs]: "f_upserting = ''upserting AWX host %q: %w''"
definition f_recording where [text_defs]: "f_recording = ''recording the launch attempt: %w''"
definition f_launching where [text_defs]: "f_launching = ''launching template %q: %w''"
definition f_v where [text_defs]: "f_v = ''%v''"

record launchPlan =
  pl_Template :: AWXTemplate
  pl_ExtraVars :: "string smap"
  pl_Targets :: "runTarget list"

definition launch_spec_error :: "AnsibleRunSpec \<Rightarrow> gerr option" where
  "launch_spec_error sp =
     (if rs_Hosts sp \<noteq> [] \<and> rs_VMRef sp \<noteq> None then Some (terminalf f_exclusive [])
      else if tr_Type (rs_Template sp) \<noteq> TemplateTypeJob \<and> tr_Type (rs_Template sp) \<noteq> TemplateTypeWorkflow
      then Some (terminalf f_tmpl_type [TemplateTypeJob, TemplateTypeWorkflow, tr_Type (rs_Template sp)])
      else None)"

definition check_plan :: "AnsibleRunSpec \<Rightarrow> launchPlan \<Rightarrow> gerr option" where
  "check_plan sp p =
     (if pl_Targets p \<noteq> [] \<and> tp_Inventory (pl_Template p) = None
      then Some (terminalf f_noinventory [tr_Name (rs_Template sp)])
      else map_option TerminalE (checkTemplateAcceptsLaunchFields (pl_Template p) (tr_Name (rs_Template sp))
             (pl_Targets p \<noteq> []) (pl_ExtraVars p \<noteq> []) f_run_remedy))"

definition make_plan :: "AnsibleRunSpec \<Rightarrow> AWXTemplate \<Rightarrow> string smap \<Rightarrow> gerr + runTarget list \<Rightarrow> gerr + launchPlan" where
  "make_plan sp tmpl extraVars ts = (case ts of
      Inl err \<Rightarrow> Inl err
    | Inr targets \<Rightarrow>
        (let p = \<lparr>pl_Template = tmpl, pl_ExtraVars = extraVars, pl_Targets = targets\<rparr>
         in case check_plan sp p of Some err \<Rightarrow> Inl err | None \<Rightarrow> Inr p))"

text \<open>From the template to the checked plan; the status carries what was resolved on the way.\<close>

definition plan_launch :: "env \<Rightarrow> AnsibleRun \<Rightarrow> AnsibleRunStatus \<Rightarrow> runAWXContext \<Rightarrow>
    (AnsibleRunStatus \<times> (gerr + launchPlan)) prog" where
  "plan_launch E run status awx = do {
     t \<leftarrow> resolveTemplateForLaunch E (ax_client awx) (connectionKey (ax_conn awx)) (rs_Template (run_spec run));
     (case t of
        Inl err \<Rightarrow> ret (status, Inl (if isPermanent err then terminalf f_v [err_text err] else err))
      | Inr tmpl \<Rightarrow> do {
          vs \<leftarrow> gatherRunVars E run;
          (case vs of
             Inl err \<Rightarrow> ret (status, Inl err)
           | Inr (extraVars, names) \<Rightarrow>
               (let status = status\<lparr>rt_ResolvedVars := names\<rparr> in do {
                  ts \<leftarrow> runTargets E run (ax_conn awx);
                  ret (status, make_plan (run_spec run) tmpl extraVars ts)
                }))
        })
   }"

definition run_host_entry :: "runTarget \<Rightarrow> int \<Rightarrow> int \<Rightarrow> bool \<Rightarrow> RunHostStatus" where
  "run_host_entry t hostID inv_id owned = \<lparr>rhs_Name = rn_Name t, rhs_Address = rn_Address t, rhs_AWXHostID = hostID,
     rhs_AWXInventoryID = inv_id, rhs_AWXHostCreated = owned\<rparr>"

fun reconcile_hosts :: "env \<Rightarrow> unstr \<Rightarrow> AnsibleRun \<Rightarrow> AWXClient \<Rightarrow> int \<Rightarrow> runTarget list \<Rightarrow> AnsibleRunStatus \<Rightarrow>
    (AnsibleRunStatus \<times> gerr option) prog" where
  "reconcile_hosts E u run c inv_id [] status = ret (status, None)"
| "reconcile_hosts E u run c inv_id (t # ts) status = do {
     r \<leftarrow> resolveRunHost E c inv_id t (runHostOwnerMarker E (run_ns run) (md_Name (run_meta run)));
     (case r of
        Inl hErr \<Rightarrow> do {
          _ \<leftarrow> writeRunDetails E u status;
          ret (status, Some (errorw f_upserting [rn_Name t] hErr))
        }
      | Inr (hostID, owned) \<Rightarrow>
          reconcile_hosts E u run c inv_id ts
            (status\<lparr>rt_Hosts := recordRunHost (rt_Hosts status) (run_host_entry t hostID inv_id owned)\<rparr>))
   }"

definition submit_launch :: "env \<Rightarrow> runAWXContext \<Rightarrow> launchPlan \<Rightarrow> (int \<times> gerr option) prog" where
  "submit_launch E awx p =
     (let limit = join '','' (map rn_Name (pl_Targets p)) in
      if ax_isWorkflow awx
      then LaunchWorkflowJobTemplate E (ax_client awx) (tp_ID (pl_Template p)) limit (pl_ExtraVars p)
      else LaunchJobTemplate E (ax_client awx) (tp_ID (pl_Template p)) limit (pl_ExtraVars p))"

definition with_launched_job :: "env \<Rightarrow> runAWXContext \<Rightarrow> int \<Rightarrow> AnsibleRunStatus \<Rightarrow> AnsibleRunStatus prog" where
  "with_launched_job E awx jobID status =
     (if jobID \<noteq> 0 then do {
        now \<leftarrow> nowRFC3339 E;
        ret (status\<lparr>rt_JobID := jobID, rt_JobURL := JobURL (ax_client awx) jobID (ax_isWorkflow awx),
          rt_JobStatus := st_pending, rt_StartedAt := now\<rparr>)
      } else ret status)"

text \<open>The answer filed: the attempt marker comes off only when AWX refused the launch.\<close>

definition record_answer :: "env \<Rightarrow> unstr \<Rightarrow> AnsibleRun \<Rightarrow> AnsibleRunStatus \<Rightarrow> int \<times> gerr option \<Rightarrow> run_out prog" where
  "record_answer E u run status res =
     (case snd res of
        None \<Rightarrow> do { w \<leftarrow> writeRunDetails E u status; ret ((u, status), w) }
      | Some lErr \<Rightarrow>
          if fst res = 0 then
            (let status = (if launchRefused lErr then status\<lparr>rt_LaunchAttemptedAt := NoStamp\<rparr> else status) in do {
               w \<leftarrow> writeRunDetails E u status;
               ret ((u, status), Some (case w of
                  Some wErr \<Rightarrow> wErr
                | None \<Rightarrow> errorw f_launching [tr_Name (rs_Template (run_spec run))] lErr))
             })
          else ret ((u, status), Some (TerminalE lErr)))"

definition record_launch ::
    "env \<Rightarrow> unstr \<Rightarrow> AnsibleRun \<Rightarrow> AnsibleRunStatus \<Rightarrow> runAWXContext \<Rightarrow> int \<times> gerr option \<Rightarrow> run_out prog" where
  "record_launch E u run status awx res = do {
     status \<leftarrow> with_launched_job E awx (fst res) status;
     record_answer E u run status res
   }"

text \<open>The claim, the launch and the record of it.\<close>

definition claim_and_launch ::
    "env \<Rightarrow> unstr \<Rightarrow> AnsibleRun \<Rightarrow> AnsibleRunStatus \<Rightarrow> runAWXContext \<Rightarrow> launchPlan \<Rightarrow> run_out prog" where
  "claim_and_launch E u run status awx p = do {
     now \<leftarrow> nowRFC3339 E;
     (let status = status\<lparr>rt_LaunchAttemptedAt := now\<rparr> in do {
        cl \<leftarrow> claimLaunch E u status;
        (case cl of
           Inl err \<Rightarrow> ret ((u, status), Some (errorw f_recording [] err))
         | Inr u' \<Rightarrow> do {
             res \<leftarrow> submit_launch E awx p;
             record_launch E u' run status awx res
           })
      })
   }"

definition launchRun :: "env \<Rightarrow> unstr \<Rightarrow> AnsibleRun \<Rightarrow> AnsibleRunStatus \<Rightarrow> runAWXContext \<Rightarrow> run_out prog" where
  "launchRun E u run status awx =
     (case launch_spec_error (run_spec run) of
        Some err \<Rightarrow> ret ((u, status), Some err)
      | None \<Rightarrow>
          (let status = status\<lparr>rt_AWXEndpoint := ax_endpoint awx\<rparr> in do {
             (status, r) \<leftarrow> plan_launch E run status awx;
             (case r of
                Inl err \<Rightarrow> ret ((u, status), Some err)
              | Inr p \<Rightarrow> do {
                  (status, e) \<leftarrow> reconcile_hosts E u run (ax_client awx) (the (tp_Inventory (pl_Template p)))
                                   (pl_Targets p) status;
                  (case e of
                     Some err \<Rightarrow> ret ((u, status), Some err)
                   | None \<Rightarrow> claim_and_launch E u run status awx p)
                })
           }))"

section \<open>Ending a run\<close>

definition f_cancel_lost where [text_defs]: "f_cancel_lost =
  ''A launch was sent at %s and its result was never recorded, so a job may be running in AWX that could not be canceled from here - check the template's recent jobs there.''"
definition f_cancel_failed where [text_defs]: "f_cancel_failed =
  ''AWX job %d could not be canceled (%v), so it may still be running.''"
definition f_cancel_moved where [text_defs]: "f_cancel_moved =
  ''AWX job %d was not canceled: AWXConnection %q now points at a different AWX instance, and canceling job %d there would stop an unrelated job.''"
definition f_canceled where [text_defs]: "f_canceled = ''AWX job %d was canceled.''"
definition f_expired where [text_defs]: "f_expired = ''Run exceeded spec.activeDeadlineSeconds (%ds) before finishing.''"

text \<open>The endpoint recorded in a status names another instance than the connection now does.\<close>

definition moved :: "AnsibleRunStatus \<Rightarrow> runAWXContext \<Rightarrow> bool" where
  "moved status awx \<longleftrightarrow> rt_AWXEndpoint status \<noteq> [] \<and> rt_AWXEndpoint status \<noteq> ax_endpoint awx"

definition cancelRunJob :: "env \<Rightarrow> AnsibleRun \<Rightarrow> AnsibleRunStatus \<Rightarrow> (string \<times> AnsibleRunStatus) prog" where
  "cancelRunJob E run status =
     (let job = itoa (rt_JobID status) in
      if rt_JobID status = 0 then
        ret (if rt_LaunchAttemptedAt status \<noteq> NoStamp
             then sprintf f_cancel_lost [stamp_text (rt_LaunchAttemptedAt status)] else [], status)
      else if isTerminalAWXStatus (rt_JobStatus status) then ret ([], status)
      else do {
        r \<leftarrow> awxContextForRun E run;
        (case r of
           Inl err \<Rightarrow> ret (sprintf f_cancel_failed [job, err_text err], status)
         | Inr awx \<Rightarrow>
             if moved status awx
             then ret (sprintf f_cancel_moved [job, rs_AWXConnectionRef (run_spec run), job], status)
             else do {
               e \<leftarrow> CancelJob E (ax_client awx) (rt_JobID status) (ax_isWorkflow awx);
               (case e of
                  Some err \<Rightarrow> ret (sprintf f_cancel_failed [job, err_text err], status)
                | None \<Rightarrow> do {
                    now \<leftarrow> nowRFC3339 E;
                    ret (sprintf f_canceled [job], status\<lparr>rt_CancelRequestedAt := now\<rparr>)
                  })
             })
      })"

definition expireRun :: "env \<Rightarrow> unstr \<Rightarrow> AnsibleRun \<Rightarrow> AnsibleRunStatus \<Rightarrow> run_out prog" where
  "expireRun E u run status =
     (let reason = sprintf f_expired [itoa (rs_ActiveDeadlineSeconds (run_spec run))] in do {
        (note, status) \<leftarrow> cancelRunJob E run status;
        failRun E u status (if note \<noteq> [] then reason @ '' '' @ note else reason)
      })"

definition deadlineExceeded :: "env \<Rightarrow> AnsibleRun \<Rightarrow> bool prog" where
  "deadlineExceeded E run =
     (if rs_ActiveDeadlineSeconds (run_spec run) \<le> 0 then ret False
      else (case md_CreationTimestamp (run_meta run) of
          None \<Rightarrow> ret False
        | Some created \<Rightarrow> do {
            d \<leftarrow> time_Since E created;
            ret (d > seconds (rs_ActiveDeadlineSeconds (run_spec run)))
          }))"

definition f_collect where [text_defs]: "f_collect = ''deleting finished AnsibleRun: %w''"

definition collectFinishedRun :: "env \<Rightarrow> AnsibleRun \<Rightarrow> AnsibleRunStatus \<Rightarrow> gerr option prog" where
  "collectFinishedRun E run status =
     (case rs_TTLSecondsAfterFinished (run_spec run) of
        None \<Rightarrow> ret None
      | Some ttl \<Rightarrow> (case parse_time (rt_FinishedAt status) of
            None \<Rightarrow> ret None
          | Some finished \<Rightarrow> do {
              d \<leftarrow> time_Since E finished;
              if d < seconds ttl then ret None
              else do {
                r \<leftarrow> k8s_Delete E AnsRunGVR (run_ns run) (md_Name (run_meta run))
                       (if md_UID (run_meta run) \<noteq> [] then Some (md_UID (run_meta run)) else None);
                ret (case r of
                   None \<Rightarrow> None
                 | Some err \<Rightarrow> if isNotFound err then None else Some (errorw f_collect [] err))
              }
            }))"

section \<open>One pass\<close>

definition f_moved where [text_defs]: "f_moved =
  ''AWXConnection %q now points at a different AWX instance than the one this run went to, so %s. Check the original instance, and create a new AnsibleRun to run against the new one''"
definition f_moved_job where [text_defs]: "f_moved_job =
  ''job %d cannot be tracked there, and neither can the inventory host(s) this run made''"
definition f_moved_hosts where [text_defs]: "f_moved_hosts =
  ''the inventory host(s) this run made cannot be identified there''"

definition moved_error :: "AnsibleRun \<Rightarrow> AnsibleRunStatus \<Rightarrow> gerr" where
  "moved_error run status = terminalf f_moved [rs_AWXConnectionRef (run_spec run),
     (if rt_JobID status \<noteq> 0 then sprintf f_moved_job [itoa (rt_JobID status)] else f_moved_hosts)]"

definition reconcileRun :: "env \<Rightarrow> unstr \<Rightarrow> AnsibleRun \<Rightarrow> AnsibleRunStatus \<Rightarrow> run_out prog" where
  "reconcileRun E u run status = do {
     r \<leftarrow> awxContextForRun E run;
     (case r of
        Inl err \<Rightarrow> ret ((u, status), Some err)
      | Inr awx \<Rightarrow>
          if moved status awx then ret ((u, status), Some (moved_error run status))
          else if rt_JobID status \<noteq> 0 then pollRun E u run status (ax_client awx)
          else if rt_LaunchAttemptedAt status \<noteq> NoStamp then recoverLostLaunch E u run status awx
          else launchRun E u run status awx)
   }"

definition f_run_decode where [text_defs]: "f_run_decode = ''decoding AnsibleRun: %w''"

text \<open>
  \<open>finish\<close>: the object handed back carries the status of this pass, encoded by \<open>structToMap\<close>. The
  engine reads it only when there is no error.
\<close>

definition finish_run :: "run_out \<Rightarrow> gerr + Result" where
  "finish_run out' = (case out' of
      ((u, status), Some err) \<Rightarrow> Inl err
    | ((u, status), None) \<Rightarrow> Inr (no_result\<lparr>res_Object := Some (set_run_status u status (omit_generic status))\<rparr>))"

text \<open>The classification of the pass's error: a terminal one ends the run, once and here.\<close>

definition settle_run :: "env \<Rightarrow> run_out \<Rightarrow> run_out prog" where
  "settle_run E out' = (case out' of ((u, status), rErr) \<Rightarrow>
     (case rErr of
        Some err \<Rightarrow> if isTerminalError err then failRun E u status (err_text err) else ret ((u, status), Some err)
      | None \<Rightarrow> ret ((u, status), None)))"

definition run_pass :: "env \<Rightarrow> unstr \<Rightarrow> AnsibleRun \<Rightarrow> AnsibleRunStatus \<Rightarrow> run_out prog" where
  "run_pass E u run status =
     (if rt_FinishedAt status \<noteq> NoStamp then do {
        e \<leftarrow> collectFinishedRun E run status;
        ret ((u, status), e)
      }
      else do {
        expired \<leftarrow> deadlineExceeded E run;
        if expired then expireRun E u run status
        else do { out' \<leftarrow> reconcileRun E u run status; settle_run E out' }
      })"

definition run_status_of :: "AnsibleRun \<Rightarrow> AnsibleRunStatus" where
  "run_status_of run = (case run_Status run of None \<Rightarrow> zero_run_status | Some st \<Rightarrow> st)"

definition apply_live_run :: "env \<Rightarrow> unstr \<Rightarrow> (gerr + Result) prog" where
  "apply_live_run E u =
     (case convertAnsibleRun u of
        Inl err \<Rightarrow> ret (Inl (errorw f_run_decode [] err))
      | Inr run \<Rightarrow>
          if run_Spec run = None then ret (Inl (errorf f_spec_required []))
          else do {
            out' \<leftarrow> run_pass E u run (run_status_of run);
            ret (finish_run out')
          })"

definition applyAnsibleRun :: "env \<Rightarrow> unstr \<Rightarrow> (gerr + Result) prog" where
  "applyAnsibleRun E cached = do {
     l \<leftarrow> readRunLive E cached;
     (case l of
        Inl err \<Rightarrow> ret (Inl err)
      | Inr None \<Rightarrow> ret (Inr no_result)
      | Inr (Some u) \<Rightarrow> apply_live_run E u)
   }"

section \<open>Finalization\<close>

definition cancelConfirmPoll :: int where "cancelConfirmPoll = 5 * nanos_per_second"
definition cancelConfirmTimeout :: int where "cancelConfirmTimeout = 120 * nanos_per_second"

definition f_final_lookup where [text_defs]: "f_final_lookup =
  ''looking for the job an unrecorded launch may have started, before releasing this run: %w''"
definition f_final_cancel where [text_defs]: "f_final_cancel =
  ''canceling AWX job %d (spec.cleanupPolicy: Retain will not skip this; cancel it in AWX to release this run): %w''"
definition f_final_check where [text_defs]: "f_final_check = ''checking whether AWX job %d has stopped: %w''"
definition f_final_conn where [text_defs]: "f_final_conn = ''fetching AWXConnection %q to clean up after this run: %w''"
definition f_final_client where [text_defs]: "f_final_client =
  ''preparing a client to clean up after this run (set spec.cleanupPolicy: Retain to release it and leave its AWX hosts in place): %w''"
definition f_final_readhost where [text_defs]: "f_final_readhost = ''reading AWX host %d (%q) before deleting it: %w''"
definition f_final_delhost where [text_defs]: "f_final_delhost = ''deleting AWX host %d (%q): %w''"

definition cleanup_done :: CleanupResult where
  "cleanup_done = \<lparr>cr_Done = True, cr_RequeueAfter = 0\<rparr>"

definition cleanup_later :: "int \<Rightarrow> CleanupResult" where
  "cleanup_later d = \<lparr>cr_Done = False, cr_RequeueAfter = d\<rparr>"

text \<open>One last look for the job of an unrecorded launch: the status, and whether it was found.\<close>

definition resolveLostJobForCleanup :: "env \<Rightarrow> unstr \<Rightarrow> AnsibleRun \<Rightarrow> AnsibleRunStatus \<Rightarrow> runAWXContext \<Rightarrow>
    (AnsibleRunStatus \<times> (gerr + bool)) prog" where
  "resolveLostJobForCleanup E obj run status awx =
     (case parse_time (rt_LaunchAttemptedAt status) of
        None \<Rightarrow> ret (status, Inr False)
      | Some attempted \<Rightarrow> do {
          m \<leftarrow> matchLostLaunchJobs E awx run status attempted;
          (case m of
             Inl err \<Rightarrow> ret (status, if isPermanent err then Inr False else Inl (errorw f_final_lookup [] err))
           | Inr [job] \<Rightarrow>
               (let status = adopt_job awx job status;
                    status = (if rt_StartedAt status = NoStamp
                              then status\<lparr>rt_StartedAt := format_time (aj_Created job)\<rparr> else status) in do {
                  w \<leftarrow> writeRunDetails E obj status;
                  ret (status, case w of Some err \<Rightarrow> Inl err | None \<Rightarrow> Inr True)
                })
           | Inr _ \<Rightarrow> ret (status, Inr False))
        })"

definition request_cancel ::
    "env \<Rightarrow> unstr \<Rightarrow> AnsibleRunStatus \<Rightarrow> runAWXContext \<Rightarrow> (AnsibleRunStatus \<times> gerr option) prog" where
  "request_cancel E obj status awx =
     (if rt_CancelRequestedAt status \<noteq> NoStamp then ret (status, None)
      else do {
        e \<leftarrow> CancelJob E (ax_client awx) (rt_JobID status) (ax_isWorkflow awx);
        (case e of
           Some err \<Rightarrow> ret (status, Some (errorw f_final_cancel [itoa (rt_JobID status)] err))
         | None \<Rightarrow> do {
             now \<leftarrow> nowRFC3339 E;
             (let status = status\<lparr>rt_CancelRequestedAt := now\<rparr> in do {
                w \<leftarrow> writeRunDetails E obj status;
                ret (status, w)
              })
           })
      })"

text \<open>Whether a job that is not terminal has been waited for long enough.\<close>

definition cancel_waited :: "env \<Rightarrow> AnsibleRunStatus \<Rightarrow> bool prog" where
  "cancel_waited E status =
     (case parse_time (rt_CancelRequestedAt status) of
        None \<Rightarrow> ret False
      | Some requested \<Rightarrow> do { d \<leftarrow> time_Since E requested; ret (d > cancelConfirmTimeout) })"

definition judge_stopped ::
    "env \<Rightarrow> unstr \<Rightarrow> AnsibleRunStatus \<Rightarrow> string \<Rightarrow> (AnsibleRunStatus \<times> (gerr + CleanupResult)) prog" where
  "judge_stopped E obj status awxStatus =
     (let status' = status\<lparr>rt_JobStatus := awxStatus\<rparr> in do {
        w \<leftarrow> (if awxStatus \<noteq> rt_JobStatus status then writeRunDetails E obj status' else ret None);
        (case w of
           Some wErr \<Rightarrow> ret (status', Inl wErr)
         | None \<Rightarrow>
             if isTerminalAWXStatus awxStatus then ret (status', Inr cleanup_done)
             else do {
               waited \<leftarrow> cancel_waited E status';
               ret (status', Inr (if waited then cleanup_done else cleanup_later cancelConfirmPoll))
             })
      })"

definition confirm_stopped ::
    "env \<Rightarrow> unstr \<Rightarrow> AnsibleRun \<Rightarrow> AnsibleRunStatus \<Rightarrow> runAWXContext \<Rightarrow> (AnsibleRunStatus \<times> (gerr + CleanupResult)) prog" where
  "confirm_stopped E obj run status awx = do {
     r \<leftarrow> pollJobStatus E (ax_client awx) (tr_Type (rs_Template (run_spec run))) (rt_JobID status);
     (case r of
        Inl err \<Rightarrow> ret (status, Inl (errorw f_final_check [itoa (rt_JobID status)] err))
      | Inr awxStatus \<Rightarrow> judge_stopped E obj status awxStatus)
   }"

definition cancelAndConfirm ::
    "env \<Rightarrow> unstr \<Rightarrow> AnsibleRun \<Rightarrow> AnsibleRunStatus \<Rightarrow> runAWXContext \<Rightarrow> (AnsibleRunStatus \<times> (gerr + CleanupResult)) prog" where
  "cancelAndConfirm E obj run status awx = do {
     (status, e) \<leftarrow> request_cancel E obj status awx;
     (case e of
        Some err \<Rightarrow> ret (status, Inl err)
      | None \<Rightarrow> confirm_stopped E obj run status awx)
   }"

text \<open>One host of the list: read it, compare its marker, delete it.\<close>

definition delete_run_host :: "env \<Rightarrow> AWXClient \<Rightarrow> string \<Rightarrow> RunHostStatus \<Rightarrow> gerr option prog" where
  "delete_run_host E c marker h = do {
     r \<leftarrow> GetHostByID E c (rhs_AWXHostID h);
     (case r of
        Inl hErr \<Rightarrow> ret (Some (errorw f_final_readhost [itoa (rhs_AWXHostID h), rhs_Name h] hErr))
      | Inr None \<Rightarrow> ret None
      | Inr (Some host) \<Rightarrow>
          if trim_space (hr_Description host) \<noteq> marker then ret None
          else do {
            e \<leftarrow> DeleteHost E c (rhs_AWXHostID h);
            ret (map_option (errorw f_final_delhost [itoa (rhs_AWXHostID h), rhs_Name h]) e)
          })
   }"

text \<open>The loop keeps the first error and goes on.\<close>

fun delete_run_hosts :: "env \<Rightarrow> AWXClient \<Rightarrow> string \<Rightarrow> RunHostStatus list \<Rightarrow> gerr option \<Rightarrow> gerr option prog" where
  "delete_run_hosts E c marker [] firstErr = ret firstErr"
| "delete_run_hosts E c marker (h # hs) firstErr = do {
     e \<leftarrow> delete_run_host E c marker h;
     delete_run_hosts E c marker hs (case firstErr of None \<Rightarrow> e | Some x \<Rightarrow> Some x)
   }"

definition hosts_to_delete :: "AnsibleRunSpec \<Rightarrow> AnsibleRunStatus \<Rightarrow> RunHostStatus list" where
  "hosts_to_delete sp status =
     (if rs_CleanupPolicy sp = CleanupPolicyRetain then []
      else filter (\<lambda>h. rhs_AWXHostID h \<noteq> 0 \<and> rhs_AWXHostCreated h) (rt_Hosts status))"

definition run_cancelling :: "AnsibleRunStatus \<Rightarrow> bool" where
  "run_cancelling status \<longleftrightarrow> rt_JobID status \<noteq> 0 \<and> \<not> isTerminalAWXStatus (rt_JobStatus status)"

definition run_unresolved :: "AnsibleRunStatus \<Rightarrow> bool" where
  "run_unresolved status \<longleftrightarrow> rt_JobID status = 0 \<and> rt_LaunchAttemptedAt status \<noteq> NoStamp"

definition delete_hosts_step :: "env \<Rightarrow> AnsibleRun \<Rightarrow> runAWXContext \<Rightarrow> RunHostStatus list \<Rightarrow> (gerr + CleanupResult) prog" where
  "delete_hosts_step E run awx toDelete = do {
     e \<leftarrow> delete_run_hosts E (ax_client awx) (runHostOwnerMarker E (run_ns run) (md_Name (run_meta run))) toDelete None;
     ret (case e of None \<Rightarrow> Inr cleanup_done | Some err \<Rightarrow> Inl err)
   }"

text \<open>The job, if it may still be going, and then the hosts.\<close>

definition cancel_then_delete :: "env \<Rightarrow> unstr \<Rightarrow> AnsibleRun \<Rightarrow> AnsibleRunStatus \<Rightarrow> runAWXContext \<Rightarrow> bool \<Rightarrow>
    RunHostStatus list \<Rightarrow> (gerr + CleanupResult) prog" where
  "cancel_then_delete E live run status awx cancelling toDelete =
     (if cancelling then do {
        (status, r) \<leftarrow> cancelAndConfirm E live run status awx;
        (case r of
           Inl cErr \<Rightarrow> ret (Inl cErr)
         | Inr result \<Rightarrow>
             if \<not> cr_Done result then ret (Inr result) else delete_hosts_step E run awx toDelete)
      }
      else delete_hosts_step E run awx toDelete)"

definition cleanup_in_awx :: "env \<Rightarrow> unstr \<Rightarrow> AnsibleRun \<Rightarrow> AnsibleRunStatus \<Rightarrow> runAWXContext \<Rightarrow>
    RunHostStatus list \<Rightarrow> (gerr + CleanupResult) prog" where
  "cleanup_in_awx E live run status awx toDelete =
     (if moved status awx then ret (Inr cleanup_done)
      else if run_unresolved status then do {
        (status, f) \<leftarrow> resolveLostJobForCleanup E live run status awx;
        (case f of
           Inl fErr \<Rightarrow> ret (Inl fErr)
         | Inr found \<Rightarrow> cancel_then_delete E live run status awx
             (found \<and> \<not> isTerminalAWXStatus (rt_JobStatus status)) toDelete)
      }
      else cancel_then_delete E live run status awx (run_cancelling status) toDelete)"

definition cleanup_live_run :: "env \<Rightarrow> unstr \<Rightarrow> AnsibleRun \<Rightarrow> AnsibleRunStatus \<Rightarrow> (gerr + CleanupResult) prog" where
  "cleanup_live_run E live run status =
     (let toDelete = hosts_to_delete (run_spec run) status in
      if toDelete = [] \<and> \<not> run_cancelling status \<and> \<not> run_unresolved status then ret (Inr cleanup_done)
      else do {
        r \<leftarrow> runConnection E run;
        (case r of
           Inl err \<Rightarrow>
             if \<not> isTerminalError err
             then ret (Inl (errorw f_final_conn [rs_AWXConnectionRef (run_spec run)] err))
             else ret (Inr cleanup_done)
         | Inr conn \<Rightarrow> do {
             cl \<leftarrow> awxClientForConnection E conn;
             (case cl of
                Inl err \<Rightarrow> if isPermanent err then ret (Inr cleanup_done) else ret (Inl (errorw f_final_client [] err))
              | Inr (c, basePath) \<Rightarrow> cleanup_in_awx E live run status (run_context E run conn c basePath) toDelete)
           })
      })"

definition cleanupAnsibleRun :: "env \<Rightarrow> unstr \<Rightarrow> (gerr + CleanupResult) prog" where
  "cleanupAnsibleRun E cached = do {
     l \<leftarrow> readRunLive E cached;
     (case l of
        Inl err \<Rightarrow> ret (Inl err)
      | Inr None \<Rightarrow> ret (Inr cleanup_done)
      | Inr (Some live) \<Rightarrow> (case convertAnsibleRun live of
            Inl err \<Rightarrow> ret (Inr cleanup_done)
          | Inr run \<Rightarrow>
              if run_Spec run = None then ret (Inr cleanup_done)
              else cleanup_live_run E live run (run_status_of run)))
   }"

section \<open>The aggregate state\<close>

definition StateRunning where "StateRunning = ''Running''"
definition f_run_ok where [text_defs]: "f_run_ok = ''AWX job %d completed successfully.''"
definition f_run_finished where [text_defs]: "f_run_finished = ''AWX job %d finished %s.''"
definition f_run_failed where [text_defs]: "f_run_failed = ''Run failed.''"
definition f_run_is where [text_defs]: "f_run_is = ''AWX job %d is %s.''"
definition f_run_is_err where [text_defs]: "f_run_is_err = ''AWX job %d is %s; last error: %s''"
definition f_run_retry where [text_defs]: "f_run_retry = ''Not launched yet, retrying: %s''"
definition f_run_waiting where [text_defs]: "f_run_waiting = ''Waiting to launch.''"

definition run_state :: "AnsibleRunStatus \<Rightarrow> gerr option \<Rightarrow> string \<times> string \<times> bool" where
  "run_state status reconcileErr =
     (let job = itoa (rt_JobID status); js = rt_JobStatus status in
      if rt_FinishedAt status \<noteq> NoStamp then
        (if js = st_successful then (StateReady, sprintf f_run_ok [job], True)
         else if rt_FailureReason status \<noteq> [] then (StateFailed, rt_FailureReason status, False)
         else if rt_JobID status \<noteq> 0 then (StateFailed, sprintf f_run_finished [job, js], False)
         else (StateFailed, f_run_failed, False))
      else if rt_JobID status \<noteq> 0 then
        (case reconcileErr of
           Some e \<Rightarrow> (StateRunning, sprintf f_run_is_err [job, js, err_text e], False)
         | None \<Rightarrow> (StateRunning, sprintf f_run_is [job, js], False))
      else (case reconcileErr of
           Some e \<Rightarrow> (StatePending, sprintf f_run_retry [err_text e], False)
         | None \<Rightarrow> (StatePending, f_run_waiting, False)))"

definition updateAnsibleRunStatus :: "env \<Rightarrow> unstr \<Rightarrow> bool \<Rightarrow> gerr option \<Rightarrow> statusMap prog" where
  "updateAnsibleRunStatus E u success reconcileErr =
     (case convertAnsibleRun u of
        Inl err \<Rightarrow> updateGenericStatus E u success reconcileErr
      | Inr run \<Rightarrow> do {
          now \<leftarrow> nowRFC3339 E;
          (let (s, m, r) = run_state (run_status_of run) reconcileErr in ret (status_map s m r now))
        })"

definition ansibleRunController :: "env \<Rightarrow> controller" where
  "ansibleRunController E = \<lparr>c_gvr = AnsRunGVR, c_finalizerName = ''field.vmware.com/ansible-run-cleanup'',
     c_staleFinalizers = [], c_provisionFunc = applyAnsibleRun E, c_cleanupFunc = Some (cleanupAnsibleRun E),
     c_updateStatusFunc = updateAnsibleRunStatus E\<rparr>"

end
