(* ===== verification/RunProofs.thy ===== *)
theory RunProofs
  imports AnsibleRun
begin

text \<open>
  What an \<open>AnsibleRun\<close>'s passes do to the world: the effect of each operation, the launch protocol
  of one pass (claim first, one launch, only spent records afterwards), and the history of a run over
  any number of passes, each of which may be cut short at any event.
\<close>

section \<open>Effects of the operations\<close>

lemma only_readRunLive [only_intros]:
  "(\<And>a. K (EGet AnsRunGVR (md_Namespace (u_meta u)) (md_Name (u_meta u)) a)) \<Longrightarrow> only K (readRunLive E u)"
  unfolding readRunLive_def by (auto intro!: only_intros)

lemma only_writeRunDetails [only_intros]:
  "(\<And>a. K (EApplyStatus AnsRunGVR (md_Namespace (u_meta u)) (md_Name (u_meta u)) (PRun (runStatusDetails st))
      runDetailsFieldManager a)) \<Longrightarrow> only K (writeRunDetails E u st)"
  unfolding writeRunDetails_def by (auto intro!: only_intros)

lemma only_failRun [only_intros]:
  "(\<And>t. K (ENow t)) \<Longrightarrow>
   (\<And>st a. rt_FinishedAt st \<noteq> NoStamp \<Longrightarrow> K (EApplyStatus AnsRunGVR (md_Namespace (u_meta u)) (md_Name (u_meta u))
      (PRun (runStatusDetails st)) runDetailsFieldManager a)) \<Longrightarrow> only K (failRun E u st reason)"
  unfolding failRun_def nowRFC3339_def Let_def by (auto intro!: only_intros)

text \<open>The calls that build a client: Secrets, the probe, the clock and the connection itself.\<close>

fun context_event :: "event \<Rightarrow> bool" where
  "context_event (EGet g ns n a) = (g = SecretGVR \<or> g = AWXConnGVR)"
| "context_event (EHttp c (RqPing p) a) = True"
| "context_event (ENow t) = True"
| "context_event _ = False"

lemma only_runConnection: "only context_event (runConnection E run)"
  unfolding runConnection_def Let_def by (auto intro!: only_intros)

lemma only_awxContextForRun: "only context_event (awxContextForRun E run)"
  unfolding awxContextForRun_def by (auto intro!: only_intros only_runConnection)

lemma only_matchLostLaunchJobs [only_intros]:
  "(\<And>c iw n a. K (EHttp c (RqTemplates iw n) a)) \<Longrightarrow> (\<And>c iw i a. K (EHttp c (RqRecentJobs iw i) a)) \<Longrightarrow>
   (\<And>t. K (ENow t)) \<Longrightarrow> only K (matchLostLaunchJobs E awx run st at)"
  unfolding matchLostLaunchJobs_def by (auto intro!: only_intros)

text \<open>Planning reads templates, objects and the clock; it writes nothing anywhere.\<close>

fun plan_event :: "event \<Rightarrow> bool" where
  "plan_event (EHttp c (RqTemplates iw n) a) = True"
| "plan_event (EGet (OtherGVR g r) ns n a) = True"
| "plan_event (EGet VMGVR ns n a) = True"
| "plan_event (ERestMapping g k v a) = True"
| "plan_event EMapperReset = True"
| "plan_event (ENow t) = True"
| "plan_event _ = False"

lemma vars_plan_event: "vars_event E ns e \<Longrightarrow> plan_event e"
  by (cases "(E, ns, e)" rule: vars_event.cases) auto

lemma only_gatherRunVars: "only plan_event (gatherRunVars E run)"
  unfolding gatherRunVars_def Let_def
  by (auto intro!: only_intros only_mono [OF only_resolveVarsFrom vars_plan_event])

lemma only_runTargets: "only plan_event (runTargets E run conn)"
  unfolding runTargets_def vm_target_def Let_def by (auto intro!: only_intros)

lemma only_plan_launch: "only plan_event (plan_launch E run st awx)"
  unfolding plan_launch_def Let_def by (auto intro!: only_intros only_gatherRunVars only_runTargets)

lemma only_reconcile_hosts:
  "(\<And>c n hn a. K (EHttp c (RqHostsByName n hn) a)) \<Longrightarrow> (\<And>c i v a. K (EHttp c (RqPatchHost i v) a)) \<Longrightarrow>
   (\<And>c n hn d v a. K (EHttp c (RqCreateHost n hn d v) a)) \<Longrightarrow>
   (\<And>st a. K (EApplyStatus AnsRunGVR (md_Namespace (u_meta u)) (md_Name (u_meta u)) (PRun (runStatusDetails st))
      runDetailsFieldManager a)) \<Longrightarrow> only K (reconcile_hosts E u run c i ts st)"
  by (induction ts arbitrary: st) (auto intro!: only_intros)

lemma only_submit_launch:
  "(\<And>c iw i b a. K (EHttp c (RqLaunch iw i b) a)) \<Longrightarrow> only K (submit_launch E awx p)"
  unfolding submit_launch_def Let_def by (auto intro!: only_intros)

lemma only_with_launched_job [only_intros]: "(\<And>t. K (ENow t)) \<Longrightarrow> only K (with_launched_job E awx j st)"
  unfolding with_launched_job_def by (auto intro!: only_intros)

lemma only_cancelRunJob:
  "(\<And>e. context_event e \<Longrightarrow> K e) \<Longrightarrow> (\<And>c iw i a. K (EHttp c (RqCancelJob iw i) a)) \<Longrightarrow>
   only K (cancelRunJob E run st)"
  unfolding cancelRunJob_def Let_def
  by (auto intro!: only_intros intro: only_mono [OF only_awxContextForRun])

lemma only_deadlineExceeded [only_intros]: "(\<And>t. K (ENow t)) \<Longrightarrow> only K (deadlineExceeded E run)"
  unfolding deadlineExceeded_def by (auto intro!: only_intros)

lemma only_collectFinishedRun:
  "(\<And>t. K (ENow t)) \<Longrightarrow>
   (\<And>a. K (EDelete AnsRunGVR (run_ns run) (md_Name (run_meta run))
      (if md_UID (run_meta run) \<noteq> [] then Some (md_UID (run_meta run)) else None) a)) \<Longrightarrow>
   only K (collectFinishedRun E run st)"
  unfolding collectFinishedRun_def by (auto intro!: only_intros)

section \<open>The launch protocol of one pass\<close>

text \<open>A record that authorizes no launch any more.\<close>

definition spent :: "AnsibleRunStatus \<Rightarrow> bool" where
  "spent st \<longleftrightarrow> rt_JobID st \<noteq> 0 \<or> rt_LaunchAttemptedAt st \<noteq> NoStamp \<or> rt_FinishedAt st \<noteq> NoStamp"

lemma details_fields [simp]:
  "rt_JobID (runStatusDetails st) = rt_JobID st" "rt_FinishedAt (runStatusDetails st) = rt_FinishedAt st"
  "rt_LaunchAttemptedAt (runStatusDetails st) = rt_LaunchAttemptedAt st"
  "rt_Hosts (runStatusDetails st) = rt_Hosts st"
  by (simp_all add: runStatusDetails_def)

lemma spent_details [simp]: "spent (runStatusDetails st) = spent st"
  by (simp add: spent_def runStatusDetails_def)

text \<open>The details a call would leave in the record, if it is a write of them.\<close>

fun written :: "event \<Rightarrow> AnsibleRunStatus option" where
  "written (EApplyStatus g ns n (PRun d) fm a) = Some d"
| "written (EUpdateStatus g u fm a) = (case u_content u of CRun sp st \<Rightarrow> st | _ \<Rightarrow> None)"
| "written _ = None"

fun is_update :: "event \<Rightarrow> bool" where
  "is_update (EUpdateStatus g u fm a) = True"
| "is_update _ = False"

fun refused_launch :: "event \<Rightarrow> bool" where
  "refused_launch (EHttp c (RqLaunch iw i b) (Inr resp)) =
     (400 \<le> rs_StatusCode resp \<and> rs_StatusCode resp < 500 \<and> rs_StatusCode resp \<noteq> HTTP_REQUEST_TIMEOUT \<and>
      rs_StatusCode resp \<noteq> HTTP_TOO_MANY_REQUESTS)"
| "refused_launch _ = False"

definition spent_event :: "event \<Rightarrow> bool" where
  "spent_event e \<longleftrightarrow> \<not> is_launch e \<and> \<not> is_update e \<and> (\<forall>d. written e = Some d \<longrightarrow> spent d)"

lemma spent_event_simps [simp]:
  "spent_event (ENow t)" "spent_event (EGet g ns n r)" "spent_event (EDelete g ns n uo ao)"
  "spent_event (EApplyStatus g ns n (PRun d) fm ao) = spent d"
  "spent_event (EHttp c rq x) = (\<not> is_launch (EHttp c rq x))"
  by (auto simp: spent_event_def)

definition claim_of :: "unstr \<Rightarrow> unstr \<Rightarrow> bool" where
  "claim_of u cl \<longleftrightarrow> md_ResourceVersion (u_meta cl) = md_ResourceVersion (u_meta u) \<and>
     md_UID (u_meta cl) = md_UID (u_meta u) \<and>
     (\<exists>sp st. u_content cl = CRun sp (Some st) \<and> rt_LaunchAttemptedAt st \<noteq> NoStamp)"

definition after_launch :: "event \<Rightarrow> event \<Rightarrow> bool" where
  "after_launch e x \<longleftrightarrow> \<not> is_launch x \<and> \<not> is_update x \<and> (\<forall>d. written x = Some d \<longrightarrow> spent d \<or> refused_launch e)"

definition launch_protocol :: "unstr \<Rightarrow> event list \<Rightarrow> bool" where
  "launch_protocol u es \<longleftrightarrow> list_all (\<lambda>e. \<not> is_launch e) es \<or>
     (\<exists>pre cl rv e post. es = pre @ EUpdateStatus AnsRunGVR cl runDetailsFieldManager (Inr rv) # e # post \<and>
        list_all (\<lambda>e. \<not> is_launch e) pre \<and> is_launch e \<and> claim_of u cl \<and> list_all (after_launch e) post)"

lemma launch_protocol_quiet: "list_all (\<lambda>e. \<not> is_launch e) es \<Longrightarrow> launch_protocol u es"
  by (simp add: launch_protocol_def)

lemma launch_protocol_prefix:
  "list_all (\<lambda>e. \<not> is_launch e) xs \<Longrightarrow> launch_protocol u es \<Longrightarrow> launch_protocol u (xs @ es)"
  unfolding launch_protocol_def by (metis append_assoc list_all_append)

lemma spent_after_launch: "spent_event x \<Longrightarrow> after_launch e x"
  by (auto simp: spent_event_def after_launch_def)

lemma launch_protocol_suffix:
  "launch_protocol u es \<Longrightarrow> list_all spent_event xs \<Longrightarrow> launch_protocol u (es @ xs)"
proof -
  assume p: "launch_protocol u es" and x: "list_all spent_event xs"
  have q: "list_all (\<lambda>e. \<not> is_launch e) xs" using x by (auto simp: list_all_iff spent_event_def)
  from p consider "list_all (\<lambda>e. \<not> is_launch e) es"
    | pre cl rv e post where "es = pre @ EUpdateStatus AnsRunGVR cl runDetailsFieldManager (Inr rv) # e # post"
      "list_all (\<lambda>e. \<not> is_launch e) pre" "is_launch e" "claim_of u cl" "list_all (after_launch e) post"
    unfolding launch_protocol_def by blast
  then show ?thesis
  proof cases
    case 1
    with q show ?thesis by (simp add: launch_protocol_def)
  next
    case (2 pre cl rv e post)
    have "list_all (after_launch e) (post @ xs)"
      using 2(5) x by (auto simp: list_all_iff spent_after_launch)
    with 2 show ?thesis unfolding launch_protocol_def by (metis append_Cons append_assoc)
  qed
qed

lemma protocol_after_quiet:
  "only (\<lambda>e. \<not> is_launch e) m \<Longrightarrow> (\<And>a. emits (f a) (\<lambda>_. launch_protocol u)) \<Longrightarrow>
   emits (m \<bind> f) (\<lambda>_. launch_protocol u)"
  by (rule emits_quiet_bind) (auto intro: launch_protocol_prefix)

lemma protocol_of_quiet: "only (\<lambda>e. \<not> is_launch e) m \<Longrightarrow> emits m (\<lambda>_. launch_protocol u)"
  by (rule emits_conseq [OF emits_only]) (auto intro: launch_protocol_quiet)

text \<open>The answer to a launch: what the client makes of it tells a refusal from everything else.\<close>

lemma emits_launch_refused:
  "emits (launch E c iw f pick i lim vars) (\<lambda>r es. \<exists>a. es = [EHttp c (RqLaunch iw i (launch_body lim vars)) a] \<and>
     (\<forall>err. snd r = Some err \<and> launchRefused err \<longrightarrow> refused_launch (EHttp c (RqLaunch iw i (launch_body lim vars)) a)))"
proof -
  have ig: "ignoredFieldsError j xs = Some e \<Longrightarrow> awxStatusCode e = None" for j xs e
    by (auto simp: ignoredFieldsError_def split: if_splits)
  have id: "jobIDFrom out p = Inl e \<Longrightarrow> awxStatusCode e = None" for out p e
    by (auto simp: jobIDFrom_def split: if_splits)
  show ?thesis
    unfolding launch_def
  proof (rule emits_one_request)
    fix x es
    assume x: "answered c (RqLaunch iw i (launch_body lim vars)) True x es"
    then obtain a where a: "es = [EHttp c (RqLaunch iw i (launch_body lim vars)) a]" using answered_event by blast
    have "refused_launch (EHttp c (RqLaunch iw i (launch_body lim vars)) a)" if "x = Inl e" "launchRefused e" for e
    proof -
      from that(2) obtain code where code: "awxStatusCode e = Some code" "400 \<le> code" "code < 500"
        "code \<noteq> HTTP_REQUEST_TIMEOUT" "code \<noteq> HTTP_TOO_MANY_REQUESTS"
        by (auto simp: launchRefused_def split: option.splits if_splits)
      with answered_code [OF x [unfolded that(1)] code(1)] a show ?thesis by auto
    qed
    with a show "\<exists>a. es = [EHttp c (RqLaunch iw i (launch_body lim vars)) a] \<and>
        (\<forall>err. snd (case x of
            Inl err \<Rightarrow> (0, Some (errorw f [itoa i] err))
          | Inr body \<Rightarrow>
              (let out = launch_of body in
               case jobIDFrom out (pick out) of
                 Inl idErr \<Rightarrow> (0, Some (errorw f [itoa i] idErr))
               | Inr jobID \<Rightarrow> (jobID, ignoredFieldsError jobID (lr_IgnoredFields out)))) = Some err \<and> launchRefused err \<longrightarrow>
          refused_launch (EHttp c (RqLaunch iw i (launch_body lim vars)) a))"
      by (auto simp: Let_def launchRefused_def dest!: ig id split: sum.splits option.splits if_splits)
  qed
qed

lemma submit_launch_refused:
  "emits (submit_launch E awx p) (\<lambda>r es. \<exists>e. es = [e] \<and> is_launch e \<and>
     (\<forall>err. snd r = Some err \<and> launchRefused err \<longrightarrow> refused_launch e))"
  unfolding submit_launch_def LaunchWorkflowJobTemplate_def LaunchJobTemplate_def Let_def
  by (auto intro!: emits_if intro: emits_conseq [OF emits_launch_refused])

text \<open>What is recorded after the launch: spent, unless AWX refused it.\<close>

lemma only_record_launch:
  assumes "rt_LaunchAttemptedAt st \<noteq> NoStamp" and "\<And>err. snd r = Some err \<Longrightarrow> launchRefused err \<Longrightarrow> refused_launch e"
  shows "only (after_launch e) (record_launch E u run st awx r)"
proof -
  have w: "only (after_launch e) (writeRunDetails E u' st')" if "spent st' \<or> refused_launch e" for u' st'
    using that by (auto intro!: only_intros simp: after_launch_def)
  have j: "emits (with_launched_job E awx (fst r) st)
      (\<lambda>st' es. rt_LaunchAttemptedAt st' = rt_LaunchAttemptedAt st \<and> list_all (after_launch e) es)"
    unfolding with_launched_job_def
    by (auto intro!: emits_if emits_return emits_bind [OF does_nowRFC3339] simp: after_launch_def)
  show ?thesis
    unfolding record_launch_def only_def
  proof (rule emits_bind [OF j])
    fix st' :: AnsibleRunStatus and es
    assume st': "rt_LaunchAttemptedAt st' = rt_LaunchAttemptedAt st \<and> list_all (after_launch e) es"
    then have sp: "spent st'" using assms(1) by (simp add: spent_def)
    have "only (after_launch e) (record_answer E u run st' r)"
      unfolding record_answer_def Let_def using sp assms(2)
      by (auto intro!: only_option only_if only_bind only_return w)
    then show "emits (record_answer E u run st' r) (\<lambda>b es'. list_all (after_launch e) (es @ es'))"
      using st' by (auto intro: emits_conseq [OF emits_only])
  qed
qed

text \<open>The claim and the launch: nothing between the two, and the claim is conditional.\<close>

lemma emits_claimLaunch:
  assumes "rt_LaunchAttemptedAt st \<noteq> NoStamp"
  shows "emits (claimLaunch E u st) (\<lambda>r es. \<exists>cl a. es = [EUpdateStatus AnsRunGVR cl runDetailsFieldManager a] \<and>
     claim_of u cl \<and> (\<forall>u'. r = Inr u' \<longrightarrow> (\<exists>rv. a = Inr rv)))"
proof -
  have c: "claim_of u (set_run_status u (runStatusDetails st) (u_generic u))"
    using assms by (simp add: claim_of_def set_run_status_def strip_generic_def runStatusDetails_def)
  show ?thesis
    unfolding claimLaunch_def
    by (rule emits_bind [OF does_UpdateStatus]) (auto intro!: emits_return c split: sum.splits)
qed

lemma protocol_claim_and_launch: "emits (claim_and_launch E u run st awx p) (\<lambda>_. launch_protocol u)"
proof -
  have body: "emits (do {
        cl \<leftarrow> claimLaunch E u st;
        (case cl of
           Inl err \<Rightarrow> ret ((u, st), Some (errorw f_recording [] err))
         | Inr u' \<Rightarrow> do { res \<leftarrow> submit_launch E awx p; record_launch E u' run st awx res })
      }) (\<lambda>_. launch_protocol u)" if st: "rt_LaunchAttemptedAt st \<noteq> NoStamp" for st :: AnsibleRunStatus
  proof (rule emits_bind [OF emits_claimLaunch [OF st]])
    fix r :: "gerr + unstr" and es
    assume "\<exists>cl a. es = [EUpdateStatus AnsRunGVR cl runDetailsFieldManager a] \<and> claim_of u cl \<and>
      (\<forall>u'. r = Inr u' \<longrightarrow> (\<exists>rv. a = Inr rv))"
    then obtain cl a where es: "es = [EUpdateStatus AnsRunGVR cl runDetailsFieldManager a]" "claim_of u cl"
      "\<And>u'. r = Inr u' \<Longrightarrow> \<exists>rv. a = Inr rv" by blast
    show "emits (case r of
           Inl err \<Rightarrow> ret ((u, st), Some (errorw f_recording [] err))
         | Inr u' \<Rightarrow> do { res \<leftarrow> submit_launch E awx p; record_launch E u' run st awx res })
        (\<lambda>_ es'. launch_protocol u (es @ es'))"
    proof (cases r)
      case (Inl err)
      then show ?thesis using es(1) by (auto intro!: emits_return launch_protocol_quiet)
    next
      case (Inr u')
      from es(3) [OF this] obtain rv where rv: "a = Inr rv" by blast
      have "emits (do { res \<leftarrow> submit_launch E awx p; record_launch E u' run st awx res })
          (\<lambda>_ es'. \<exists>e post. es' = e # post \<and> is_launch e \<and> list_all (after_launch e) post)"
      proof (rule emits_bind [OF submit_launch_refused])
        fix res :: "int \<times> gerr option" and es'
        assume "\<exists>e. es' = [e] \<and> is_launch e \<and> (\<forall>err. snd res = Some err \<and> launchRefused err \<longrightarrow> refused_launch e)"
        then obtain e where e: "es' = [e]" "is_launch e"
          "\<And>err. snd res = Some err \<Longrightarrow> launchRefused err \<Longrightarrow> refused_launch e" by blast
        show "emits (record_launch E u' run st awx res)
          (\<lambda>_ es''. \<exists>x post. es' @ es'' = x # post \<and> is_launch x \<and> list_all (after_launch x) post)"
          by (rule emits_conseq [OF emits_only [OF only_record_launch [where e = e, OF st e(3)]]]) (use e in auto)
      qed
      then have "emits (do { res \<leftarrow> submit_launch E awx p; record_launch E u' run st awx res })
          (\<lambda>_ es'. launch_protocol u (es @ es'))"
        by (rule emits_conseq)
          (use es(1,2) rv in \<open>auto simp: launch_protocol_def intro!: exI [of _ "[]"]\<close>)
      with Inr show ?thesis by simp
    qed
  qed
  show ?thesis
    unfolding claim_and_launch_def Let_def nowRFC3339_def
    by (simp only: State_Monad.bind_assoc State_Monad.bind_left_identity)
      (rule protocol_after_quiet, (rule only_prims; simp), rule body, simp)
qed

lemma protocol_launchRun: "emits (launchRun E u run st awx) (\<lambda>_. launch_protocol u)"
proof -
  have plan: "only (\<lambda>e. \<not> is_launch e) (plan_launch E run st' awx)" for st'
    by (rule only_mono [OF only_plan_launch]) (auto elim!: plan_event.elims)
  have hosts: "only (\<lambda>e. \<not> is_launch e) (reconcile_hosts E u run c i ts st')" for c i ts st'
    by (rule only_reconcile_hosts) simp_all
  have quiet: "emits (ret x) (\<lambda>_. launch_protocol u)" for x :: run_out
    by (rule emits_return) (simp add: launch_protocol_quiet)
  show ?thesis
    unfolding launchRun_def Let_def
    by (intro emits_option emits_sum emits_prod quiet protocol_after_quiet [OF plan]
        protocol_after_quiet [OF hosts] protocol_claim_and_launch)
qed

text \<open>A pass from a spent record launches nothing and leaves the record spent.\<close>

lemma spent_context: "context_event e \<Longrightarrow> spent_event e"
  by (cases e rule: context_event.cases) auto

lemma spent_writeRunDetails: "spent st \<Longrightarrow> only spent_event (writeRunDetails E u st)"
  by (auto intro!: only_intros)

lemma spent_failRun: "only spent_event (failRun E u st reason)"
  by (rule only_failRun) (simp, simp add: spent_def)

lemma spent_pollRun: "rt_JobID st \<noteq> 0 \<Longrightarrow> only spent_event (pollRun E u run st c)"
  unfolding pollRun_def Let_def
  by (auto intro!: only_intros only_bind spent_writeRunDetails simp: spent_def)

lemma spent_recoverLostLaunch:
  "rt_LaunchAttemptedAt st \<noteq> NoStamp \<Longrightarrow> only spent_event (recoverLostLaunch E u run st awx)"
  unfolding recoverLostLaunch_def Let_def
  by (auto intro!: only_intros spent_writeRunDetails simp: spent_def adopt_job_def)

lemma spent_reconcileRun:
  assumes "rt_JobID st \<noteq> 0 \<or> rt_LaunchAttemptedAt st \<noteq> NoStamp"
  shows "only spent_event (reconcileRun E u run st)"
proof -
  have c: "only spent_event (awxContextForRun E run)"
    by (rule only_mono [OF only_awxContextForRun spent_context])
  show ?thesis
    unfolding reconcileRun_def
    by (intro only_bind c only_sum only_if only_return) (use assms in \<open>auto intro!: spent_pollRun spent_recoverLostLaunch\<close>)
qed

lemma spent_expireRun: "only spent_event (expireRun E u run st)"
  unfolding expireRun_def Let_def
  by (intro only_bind only_prod spent_failRun only_cancelRunJob) (auto intro: spent_context)

lemma spent_settle_run: "only spent_event (settle_run E out')"
  unfolding settle_run_def by (intro only_prod only_option only_if only_return spent_failRun)

lemma spent_run_pass: "spent st \<Longrightarrow> only spent_event (run_pass E u run st)"
  unfolding run_pass_def spent_def
  by (intro only_if only_bind only_collectFinishedRun only_return only_deadlineExceeded spent_expireRun
      spent_reconcileRun spent_settle_run) auto

lemma protocol_run_pass:
  assumes "\<not> spent st" shows "emits (run_pass E u run st) (\<lambda>_. launch_protocol u)"
proof -
  have ctx: "only (\<lambda>e. \<not> is_launch e) (awxContextForRun E run)"
    by (rule only_mono [OF only_awxContextForRun]) (auto elim!: context_event.elims)
  have rec: "emits (reconcileRun E u run st) (\<lambda>_. launch_protocol u)"
    unfolding reconcileRun_def
    using assms by (auto simp: spent_def intro!: protocol_after_quiet [OF ctx] emits_sum emits_if emits_return
      launch_protocol_quiet protocol_launchRun)
  have pass: "emits (reconcileRun E u run st \<bind> settle_run E) (\<lambda>_. launch_protocol u)"
    by (rule emits_bind [OF rec], rule emits_conseq [OF emits_only [OF spent_settle_run]])
      (rule launch_protocol_suffix)
  have expire: "emits (expireRun E u run st) (\<lambda>_. launch_protocol u)"
    by (rule protocol_of_quiet, rule only_mono [OF spent_expireRun]) (simp add: spent_event_def)
  have dl: "only (\<lambda>e. \<not> is_launch e) (deadlineExceeded E run)" by (rule only_deadlineExceeded) simp
  show ?thesis
    unfolding run_pass_def using assms pass expire
    by (auto simp: spent_def intro!: protocol_after_quiet [OF dl] emits_if)
qed

section \<open>One whole pass\<close>

definition live_status :: "unstr \<Rightarrow> AnsibleRunStatus" where
  "live_status u = (case convertAnsibleRun u of Inl err \<Rightarrow> zero_run_status | Inr run \<Rightarrow> run_status_of run)"

lemma emits_readRunLive:
  "emits (readRunLive E cached) (\<lambda>r es. \<exists>a. es = [EGet AnsRunGVR (md_Namespace (u_meta cached)) (md_Name (u_meta cached)) a] \<and>
     (case a of
        Inl e \<Rightarrow> (\<forall>live. r \<noteq> Inr (Some live))
      | Inr live \<Rightarrow> r = Inr (if md_UID (u_meta cached) \<noteq> [] \<and> md_UID (u_meta live) \<noteq> md_UID (u_meta cached)
          then None else Some live)))"
  unfolding readRunLive_def
  by (rule emits_bind [OF does_Get]) (auto intro!: emits_return split: sum.splits if_splits)

lemma protocol_of_live:
  "emits (apply_live_run E u)
     (\<lambda>_ es. if spent (live_status u) then list_all spent_event es else launch_protocol u es)"
proof (cases "convertAnsibleRun u")
  case (Inl err)
  then show ?thesis by (simp add: apply_live_run_def emits_return launch_protocol_quiet)
next
  case (Inr run)
  then have st: "live_status u = run_status_of run" by (simp add: live_status_def)
  show ?thesis
  proof (cases "spent (run_status_of run)")
    case True
    with Inr st show ?thesis
      by (auto intro!: only_if only_return only_bind spent_run_pass simp: apply_live_run_def only_def [symmetric])
  next
    case False
    have fin: "emits (ret (finish_run out')) (\<lambda>_ es'. launch_protocol u (es @ es'))"
      if "launch_protocol u es" for out' es using that by (simp add: emits_return)
    from False Inr st show ?thesis
      by (auto intro!: emits_if emits_return launch_protocol_quiet emits_bind [OF protocol_run_pass [OF False]] fin
        simp: apply_live_run_def)
  qed
qed

text \<open>
  A pass is the read of the live run and then what \<open>apply_live_run\<close> does with it; nothing when there is
  none, or when another object has taken its name.
\<close>

definition of_live :: "unstr \<Rightarrow> (unstr \<Rightarrow> event list \<Rightarrow> bool) \<Rightarrow> event list \<Rightarrow> bool" where
  "of_live cached Q es \<longleftrightarrow> (\<exists>a rest. es = EGet AnsRunGVR (md_Namespace (u_meta cached)) (md_Name (u_meta cached)) a # rest \<and>
     (case a of
        Inl e \<Rightarrow> rest = []
      | Inr live \<Rightarrow>
          if md_UID (u_meta cached) \<noteq> [] \<and> md_UID (u_meta live) \<noteq> md_UID (u_meta cached) then rest = [] else Q live rest))"

lemma emits_of_live:
  assumes f: "\<And>u. emits (f u) (\<lambda>_. Q u)"
  shows "emits (readRunLive E cached \<bind> (\<lambda>l. case l of
      Inl err \<Rightarrow> ret (g err) | Inr None \<Rightarrow> ret h | Inr (Some u) \<Rightarrow> f u)) (\<lambda>_. of_live cached Q)"
proof (rule emits_bind [OF emits_readRunLive])
  fix r :: "gerr + unstr option" and es
  let ?get = "EGet AnsRunGVR (md_Namespace (u_meta cached)) (md_Name (u_meta cached))"
  assume "\<exists>a. es = [?get a] \<and> (case a of
        Inl e \<Rightarrow> (\<forall>live. r \<noteq> Inr (Some live))
      | Inr live \<Rightarrow> r = Inr (if md_UID (u_meta cached) \<noteq> [] \<and> md_UID (u_meta live) \<noteq> md_UID (u_meta cached)
          then None else Some live))"
  then obtain a where es: "es = [?get a]" and a: "case a of
        Inl e \<Rightarrow> (\<forall>live. r \<noteq> Inr (Some live))
      | Inr live \<Rightarrow> r = Inr (if md_UID (u_meta cached) \<noteq> [] \<and> md_UID (u_meta live) \<noteq> md_UID (u_meta cached)
          then None else Some live)" by blast
  show "emits (case r of Inl err \<Rightarrow> ret (g err) | Inr None \<Rightarrow> ret h | Inr (Some u) \<Rightarrow> f u) (\<lambda>_ es'. of_live cached Q (es @ es'))"
  proof (cases "\<exists>u. r = Inr (Some u)")
    case True
    then obtain u where r: "r = Inr (Some u)" by blast
    with a obtain "a = Inr u" "\<not> (md_UID (u_meta cached) \<noteq> [] \<and> md_UID (u_meta u) \<noteq> md_UID (u_meta cached))"
      by (cases a) (auto split: if_splits)
    then show ?thesis unfolding r sum.case option.case
      by (intro emits_conseq [OF f]) (auto simp: of_live_def es)
  next
    case False
    with a es show ?thesis
      by (auto intro!: emits_return simp: of_live_def split: sum.splits option.splits if_splits)
  qed
qed

lemma emits_pass: "(\<And>u. emits (apply_live_run E u) (\<lambda>_. Q u)) \<Longrightarrow> emits (applyAnsibleRun E cached) (\<lambda>_. of_live cached Q)"
  unfolding applyAnsibleRun_def by (rule emits_of_live)

text \<open>
  What a pass over \<open>cached\<close> may do, from the record \<open>live\<close> it read: nothing when it read none;
  nothing that spends again when the record is spent; the protocol otherwise.
\<close>

definition pass_protocol :: "unstr \<Rightarrow> event list \<Rightarrow> bool" where
  "pass_protocol cached = of_live cached
     (\<lambda>live es. if spent (live_status live) then list_all spent_event es else launch_protocol live es)"

lemma emits_applyAnsibleRun: "emits (applyAnsibleRun E cached) (\<lambda>_. pass_protocol cached)"
  unfolding pass_protocol_def by (rule emits_pass [OF protocol_of_live])

end
