(* ===== verification/RunHistory.thy ===== *)
theory RunHistory
  imports RunProofs
begin

text \<open>
  A run over its whole life: any number of reconcile and cleanup passes, each over any informer copy,
  each cut short at any event (the process may die anywhere), with writes whose reply is an error
  left open (the API server may have applied them or not). The counter is the number of launches AWX
  was sent and did not refuse.
\<close>

section \<open>How the record evolves\<close>

text \<open>
  What the record may say after a call, from what it said before. A details write that leaves the attempt marker out
  may or may not take it off: the claim put it there with an Update, and a server-side apply only removes the fields
  that no other write owns.
\<close>

definition keep_marker :: "AnsibleRunStatus \<Rightarrow> AnsibleRunStatus \<Rightarrow> AnsibleRunStatus" where
  "keep_marker s d = (if rt_LaunchAttemptedAt d = NoStamp then d\<lparr>rt_LaunchAttemptedAt := rt_LaunchAttemptedAt s\<rparr> else d)"

lemma spent_keep_marker: "spent d \<Longrightarrow> spent (keep_marker s d)"
  by (auto simp: spent_def keep_marker_def)

fun may_become :: "AnsibleRunStatus \<Rightarrow> event \<Rightarrow> AnsibleRunStatus set" where
  "may_become s (EApplyStatus g ns n (PRun d) fm a) = {d, keep_marker s d} \<union> (if a = None then {} else {s})"
| "may_become s (EUpdateStatus g u fm a) =
     (case u_content u of
        CRun sp (Some d) \<Rightarrow> (case a of Inr rv \<Rightarrow> {d} | Inl err \<Rightarrow> {s, d})
      | _ \<Rightarrow> {s})"
| "may_become s _ = {s}"

fun evolves :: "AnsibleRunStatus \<Rightarrow> event list \<Rightarrow> AnsibleRunStatus \<Rightarrow> bool" where
  "evolves s [] s' = (s' = s)"
| "evolves s (e # es) s' = (\<exists>m \<in> may_become s e. evolves m es s')"

definition accepted :: "event list \<Rightarrow> nat" where
  "accepted es = length (filter (\<lambda>e. is_launch e \<and> \<not> refused_launch e) es)"

text \<open>Every read of the run in the pass answered what the record says.\<close>

definition reads :: "AnsibleRunStatus \<Rightarrow> event list \<Rightarrow> bool" where
  "reads s es \<longleftrightarrow> (\<forall>e \<in> set es. case e of
     EGet AnsRunGVR ns n (Inr live) \<Rightarrow> runStatusDetails (live_status live) = runStatusDetails s
   | _ \<Rightarrow> True)"

inductive history :: "env \<Rightarrow> AnsibleRunStatus \<Rightarrow> nat \<Rightarrow> bool" for E :: env where
  start: "history E s 0"
| reconciled: "history E s n \<Longrightarrow> es = take k (events_of (applyAnsibleRun E cached) w) \<Longrightarrow> reads s es \<Longrightarrow>
    evolves s es s' \<Longrightarrow> history E s' (n + accepted es)"
| cleaned: "history E s n \<Longrightarrow> es = take k (events_of (cleanupAnsibleRun E cached) w) \<Longrightarrow> reads s es \<Longrightarrow>
    evolves s es s' \<Longrightarrow> history E s' (n + accepted es)"

inductive_cases history_cases: "history E s n"

section \<open>Spent records stay spent\<close>

lemma evolves_append: "evolves s (xs @ ys) s' \<longleftrightarrow> (\<exists>m. evolves s xs m \<and> evolves m ys s')"
  by (induction xs arbitrary: s) auto

lemma may_become_spent: "spent_event e \<Longrightarrow> spent s \<Longrightarrow> m \<in> may_become s e \<Longrightarrow> spent m"
  by (cases "(s, e)" rule: may_become.cases) (auto simp: spent_event_def spent_keep_marker split: if_splits)

lemma evolves_spent: "list_all spent_event es \<Longrightarrow> spent s \<Longrightarrow> evolves s es s' \<Longrightarrow> spent s'"
  by (induction es arbitrary: s) (auto dest: may_become_spent)

lemma accepted_none: "list_all (\<lambda>e. \<not> is_launch e) es \<Longrightarrow> accepted es = 0"
  by (auto simp: accepted_def filter_empty_conv list_all_iff)

lemma accepted_append: "accepted (xs @ ys) = accepted xs + accepted ys"
  by (simp add: accepted_def)

lemma spent_quiet: "list_all spent_event es \<Longrightarrow> list_all (\<lambda>e. \<not> is_launch e) es"
  by (auto simp: list_all_iff spent_event_def)

lemma may_become_after:
  "after_launch e x \<Longrightarrow> \<not> refused_launch e \<Longrightarrow> spent s \<Longrightarrow> m \<in> may_become s x \<Longrightarrow> spent m"
  by (cases "(s, x)" rule: may_become.cases) (auto simp: after_launch_def spent_keep_marker split: if_splits)

lemma evolves_after:
  "list_all (after_launch e) es \<Longrightarrow> \<not> refused_launch e \<Longrightarrow> spent s \<Longrightarrow> evolves s es s' \<Longrightarrow> spent s'"
  by (induction es arbitrary: s) (auto dest: may_become_after)

lemma may_become_launch: "is_launch e \<Longrightarrow> may_become s e = {s}"
  by (cases e rule: is_launch.cases) auto

text \<open>A pass cut at any point: at most one accepted launch, and then the record is spent.\<close>

lemma protocol_cut:
  assumes "launch_protocol u es" and "evolves s (take k es) s'"
  shows "accepted (take k es) \<le> 1 \<and> (accepted (take k es) = 1 \<longrightarrow> spent s')"
proof -
  from assms(1) consider "list_all (\<lambda>e. \<not> is_launch e) es"
    | pre cl rv e post where "es = pre @ EUpdateStatus AnsRunGVR cl runDetailsFieldManager (Inr rv) # e # post"
      "list_all (\<lambda>e. \<not> is_launch e) pre" "is_launch e" "claim_of u cl" "list_all (after_launch e) post"
    unfolding launch_protocol_def by blast
  then show ?thesis
  proof cases
    case 1
    then show ?thesis using accepted_none [OF list_all_take] by simp
  next
    case (2 pre cl rv e post)
    define j where "j = k - (length pre + 2)"
    have pre0: "accepted (take i pre) = 0" for i
      using accepted_none [OF list_all_take [OF 2(2)]] .
    show ?thesis
    proof (cases "k \<le> length pre + 1")
      case True
      then have "k - length pre = 0 \<or> k - length pre = 1" by arith
      then have "accepted (take k es) = 0"
        using 2(1) pre0 [of k] by (cases "k - length pre") (auto simp: accepted_append accepted_def)
      then show ?thesis by simp
    next
      case False
      then obtain i where i: "k = length pre + 2 + i" by (metis add.commute add_Suc le_iff_add not_less_eq_eq numeral_2_eq_2 plus_1_eq_Suc One_nat_def)
      have tk: "take k es = pre @ EUpdateStatus AnsRunGVR cl runDetailsFieldManager (Inr rv) # e # take i post"
        using 2(1) i by simp
      have post: "list_all (after_launch e) (take i post)" by (rule list_all_take [OF 2(5)])
      then have q: "accepted (take i post) = 0"
        by (intro accepted_none) (auto simp: list_all_iff after_launch_def)
      have ac: "accepted (take k es) = (if refused_launch e then 0 else 1)"
        using 2(2,3) q pre0 [of "length pre"] unfolding tk accepted_append
        by (simp add: accepted_def)
      from assms(2) obtain m where m: "evolves m (EUpdateStatus AnsRunGVR cl runDetailsFieldManager (Inr rv) # e # take i post) s'"
        unfolding tk evolves_append by blast
      from 2(4) obtain sp st where st: "u_content cl = CRun sp (Some st)" "rt_LaunchAttemptedAt st \<noteq> NoStamp"
        unfolding claim_of_def by blast
      then have "spent st" by (simp add: spent_def)
      moreover from m st(1) have "evolves st (take i post) s'" by (simp add: may_become_launch [OF 2(3)])
      ultimately have "\<not> refused_launch e \<Longrightarrow> spent s'"
        using evolves_after [OF post] by blast
      with ac show ?thesis by simp
    qed
  qed
qed

section \<open>Cleanup passes\<close>

lemma spent_resolveLost:
  "rt_LaunchAttemptedAt st \<noteq> NoStamp \<Longrightarrow> only spent_event (resolveLostJobForCleanup E u run st awx)"
  unfolding resolveLostJobForCleanup_def Let_def
  by (auto intro!: only_intros spent_writeRunDetails simp: spent_def adopt_job_def)

lemma emits_request_cancel:
  "spent st \<Longrightarrow> emits (request_cancel E u st awx) (\<lambda>r es. spent (fst r) \<and> rt_JobID (fst r) = rt_JobID st \<and> list_all spent_event es)"
proof -
  assume sp: "spent st"
  have c: "emits (CancelJob E c i iw) (\<lambda>_ es. list_all spent_event es)" for c i iw
    using emits_only [OF only_one_request(8) [where K = spent_event]] by simp
  have w: "emits (writeRunDetails E u st') (\<lambda>_ es. list_all spent_event es)" if "spent st'" for st'
    by (rule emits_only [OF spent_writeRunDetails [OF that]])
  show ?thesis
    unfolding request_cancel_def Let_def using sp
    by (auto intro!: emits_if emits_return emits_bind [OF c] emits_option emits_bind [OF does_nowRFC3339]
        emits_bind [OF w] simp: spent_def)
qed

lemma spent_confirm_stopped: "spent st \<Longrightarrow> only spent_event (confirm_stopped E u run st awx)"
  unfolding confirm_stopped_def judge_stopped_def cancel_waited_def Let_def
  by (auto intro!: only_intros simp: spent_def)

lemma spent_cancelAndConfirm: "spent st \<Longrightarrow> only spent_event (cancelAndConfirm E u run st awx)"
  unfolding cancelAndConfirm_def only_def
proof (erule emits_bind [OF emits_request_cancel])
  fix r :: "AnsibleRunStatus \<times> gerr option" and es
  assume r: "spent (fst r) \<and> rt_JobID (fst r) = rt_JobID st \<and> list_all spent_event es"
  then have "only spent_event (case r of (st, e) \<Rightarrow> (case e of Some err \<Rightarrow> ret (st, Inl err)
      | None \<Rightarrow> confirm_stopped E u run st awx))"
    by (cases r) (auto intro!: only_option only_return spent_confirm_stopped)
  with r show "emits (case r of (st, e) \<Rightarrow> (case e of Some err \<Rightarrow> ret (st, Inl err)
      | None \<Rightarrow> confirm_stopped E u run st awx)) (\<lambda>a esa. list_all spent_event (es @ esa))"
    by (auto intro: emits_conseq [OF emits_only])
qed

lemma spent_delete_run_hosts: "only spent_event (delete_run_hosts E c m hs e)"
  by (induction hs arbitrary: e) (auto intro!: only_intros simp: delete_run_host_def)

lemma spent_delete_hosts_step: "only spent_event (delete_hosts_step E run awx hs)"
  unfolding delete_hosts_step_def by (intro only_bind only_return spent_delete_run_hosts)

lemma spent_cancel_then_delete:
  "(cc \<Longrightarrow> spent st) \<Longrightarrow> only spent_event (cancel_then_delete E u run st awx cc hs)"
  unfolding cancel_then_delete_def
  by (intro only_if only_bind only_prod only_sum only_return spent_cancelAndConfirm spent_delete_hosts_step)

lemma emits_resolveLost:
  "rt_LaunchAttemptedAt st \<noteq> NoStamp \<Longrightarrow>
   emits (resolveLostJobForCleanup E u run st awx) (\<lambda>r es. spent (fst r) \<and> list_all spent_event es)"
proof -
  assume at: "rt_LaunchAttemptedAt st \<noteq> NoStamp"
  have m: "emits (matchLostLaunchJobs E awx run st a) (\<lambda>_ es. list_all spent_event es)" for a
    by (rule emits_only [OF only_matchLostLaunchJobs]) simp_all
  have w: "emits (writeRunDetails E u st') (\<lambda>_ es. list_all spent_event es)" if "spent st'" for st'
    by (rule emits_only [OF spent_writeRunDetails [OF that]])
  have ad: "rt_LaunchAttemptedAt (adopt_job awx job st) \<noteq> NoStamp" for job
    using at by (simp add: adopt_job_def)
  show ?thesis
    unfolding resolveLostJobForCleanup_def Let_def using at
    by (auto intro!: emits_option emits_sum emits_list emits_return emits_bind [OF m] emits_bind [OF w]
        simp: spent_def ad if_distrib [where f = rt_LaunchAttemptedAt] split: if_splits)
qed

lemma spent_cleanup_in_awx: "only spent_event (cleanup_in_awx E u run st awx hs)"
proof -
  have un: "only spent_event (do {
        (st, f) \<leftarrow> resolveLostJobForCleanup E u run st awx;
        (case f of
           Inl fErr \<Rightarrow> ret (Inl fErr)
         | Inr found \<Rightarrow> cancel_then_delete E u run st awx (found \<and> \<not> isTerminalAWXStatus (rt_JobStatus st)) hs)
      })" if "run_unresolved st"
    unfolding only_def
  proof (rule emits_bind [OF emits_resolveLost])
    show "rt_LaunchAttemptedAt st \<noteq> NoStamp" using that by (simp add: run_unresolved_def)
  next
    fix r :: "AnsibleRunStatus \<times> (gerr + bool)" and es
    assume "spent (fst r) \<and> list_all spent_event es"
    then show "emits (case r of (st, f) \<Rightarrow> (case f of
           Inl fErr \<Rightarrow> ret (Inl fErr)
         | Inr found \<Rightarrow> cancel_then_delete E u run st awx (found \<and> \<not> isTerminalAWXStatus (rt_JobStatus st)) hs))
        (\<lambda>b es'. list_all spent_event (es @ es'))"
      by (cases r) (auto intro!: emits_sum emits_return emits_conseq [OF emits_only [OF spent_cancel_then_delete]])
  qed
  show ?thesis
    unfolding cleanup_in_awx_def
    by (intro only_if only_return un spent_cancel_then_delete) (simp_all add: run_cancelling_def spent_def)
qed

lemma spent_cleanupAnsibleRun: "only spent_event (cleanupAnsibleRun E cached)"
proof -
  have conn: "only spent_event (runConnection E run)" for run
    by (rule only_mono [OF only_runConnection spent_context])
  have cl: "only spent_event (awxClientForConnection E conn)" for conn
    by (rule only_awxClientForConnection) simp_all
  show ?thesis
    unfolding cleanupAnsibleRun_def cleanup_live_run_def Let_def
    by (intro only_bind only_sum only_option only_prod only_if only_return conn cl spent_cleanup_in_awx
        only_readRunLive) simp_all
qed

section \<open>The history\<close>

lemma reads_live:
  "reads s es \<Longrightarrow> EGet AnsRunGVR ns n (Inr live) \<in> set es \<Longrightarrow> spent (live_status live) = spent s"
  by (auto simp: reads_def spent_def dest!: bspec) (metis details_fields)+

text \<open>One reconcile pass, cut anywhere.\<close>

lemma pass_cut:
  assumes p: "pass_protocol cached es" and r: "reads s (take k es)" and ev: "evolves s (take k es) s'"
  shows "if spent s then spent s' \<and> accepted (take k es) = 0
         else accepted (take k es) \<le> 1 \<and> (accepted (take k es) = 1 \<longrightarrow> spent s')"
proof -
  let ?get = "EGet AnsRunGVR (md_Namespace (u_meta cached)) (md_Name (u_meta cached))"
  from p obtain a rest where es: "es = ?get a # rest" and a: "case a of
        Inl e \<Rightarrow> rest = []
      | Inr live \<Rightarrow>
          if md_UID (u_meta cached) \<noteq> [] \<and> md_UID (u_meta live) \<noteq> md_UID (u_meta cached) then rest = []
          else if spent (live_status live) then list_all spent_event rest else launch_protocol live rest"
    unfolding pass_protocol_def of_live_def by blast
  show ?thesis
  proof (cases k)
    case 0
    with ev show ?thesis by (simp add: accepted_def)
  next
    case (Suc j)
    then have tk: "take k es = ?get a # take j rest" using es by simp
    have ev': "evolves s (take j rest) s'" using ev tk by simp
    have ac: "accepted (take k es) = accepted (take j rest)" by (simp add: tk accepted_def)
    show ?thesis
    proof (cases "rest = []")
      case True
      with ev' ac show ?thesis by (simp add: accepted_def)
    next
      case False
      with a obtain live where live: "a = Inr live" and body: "if spent (live_status live) then list_all spent_event rest
          else launch_protocol live rest"
        by (cases a) (auto split: if_splits)
      have sp: "spent (live_status live) = spent s"
        by (rule reads_live [OF r, of "md_Namespace (u_meta cached)" "md_Name (u_meta cached)"]) (simp add: tk live)
      show ?thesis
      proof (cases "spent s")
        case True
        with body sp have "list_all spent_event (take j rest)" using list_all_take by auto
        with True ev' ac show ?thesis using evolves_spent accepted_none [OF spent_quiet] by simp
      next
        case False
        with body sp have "launch_protocol live rest" by simp
        from protocol_cut [OF this ev'] False ac show ?thesis by simp
      qed
    qed
  qed
qed

lemma history_invariant: "history E s n \<Longrightarrow> n \<le> 1 \<and> (n = 1 \<longrightarrow> spent s)"
proof (induction rule: history.induct)
  case (start s)
  then show ?case by simp
next
  case (reconciled s n es k cached w s')
  have p: "pass_protocol cached (events_of (applyAnsibleRun E cached) w)"
    by (rule emitsD [OF emits_applyAnsibleRun])
  from pass_cut [OF p] reconciled show ?case by (cases "spent s") fastforce+
next
  case (cleaned s n es k cached w s')
  have "list_all spent_event (events_of (cleanupAnsibleRun E cached) w)"
    by (rule emitsD [OF emits_only [OF spent_cleanupAnsibleRun]])
  then have q: "list_all spent_event es" using cleaned by (auto intro: list_all_take)
  then have "accepted es = 0" by (intro accepted_none spent_quiet)
  moreover have "spent s \<Longrightarrow> spent s'" using evolves_spent [OF q] cleaned by blast
  ultimately show ?case using cleaned by auto
qed

end
