(* ===== verification/RunLife.thy ===== *)
theory RunLife
  imports RunHistory
begin

text \<open>
  The life of a run as an abstract machine, and that every write of every pass is a step of it: a job is only
  ever recorded on a run whose launch was claimed, a recorded job is never replaced, and a run that is over stays
  over - one given up before it was claimed, or whose launch AWX refused, without ever getting a job.
\<close>

section \<open>The abstract machine\<close>

text \<open>
  \<open>Unstarted\<close> is a run that is over and has neither a job nor a claim; \<open>Over 0\<close> one that is over with a claim whose
  job is not known, which is the one a finalizing pass still looks for.
\<close>

datatype life = Fresh | Claimed | Launched int | Unstarted | Over int

text \<open>The state a record stands for.\<close>

definition life_of :: "AnsibleRunStatus \<Rightarrow> life" where
  "life_of st = (if rt_FinishedAt st \<noteq> NoStamp
     then (if rt_JobID st = 0 \<and> rt_LaunchAttemptedAt st = NoStamp then Unstarted else Over (rt_JobID st))
     else if rt_JobID st \<noteq> 0 then Launched (rt_JobID st)
     else if rt_LaunchAttemptedAt st \<noteq> NoStamp then Claimed else Fresh)"

text \<open>Only a claim leads from a fresh run towards a job: \<open>job_needs_claim\<close> below.\<close>

inductive life_step :: "life \<Rightarrow> life \<Rightarrow> bool" where
  stay [simp, intro]: "life_step l l"
| claim: "life_step Fresh Claimed"
| refused: "life_step Claimed Fresh"
| started: "j \<noteq> 0 \<Longrightarrow> life_step Claimed (Launched j)"
| given_up: "life_step Fresh Unstarted"
| refused_for_good: "life_step Claimed Unstarted"
| failed: "life_step Claimed (Over j)"
| ended: "life_step (Launched j) (Over j)"
| found_late: "life_step (Over 0) (Over j)"
| marker_off: "life_step (Over 0) Unstarted"

inductive_simps life_step_simps [simp]:
  "life_step Fresh l" "life_step Claimed l" "life_step (Launched j) l" "life_step Unstarted l" "life_step (Over j) l"

text \<open>On every path of the machine the first job is preceded by a claim, and a job once there stays.\<close>

fun job_of :: "life \<Rightarrow> int" where
  "job_of (Launched j) = j"
| "job_of (Over j) = j"
| "job_of _ = 0"

lemma job_needs_claim:
  assumes "life_step\<^sup>*\<^sup>* Fresh l" "job_of l \<noteq> 0"
  shows "life_step\<^sup>*\<^sup>* Claimed l"
proof -
  have "l = Fresh \<or> l = Unstarted \<or> life_step\<^sup>*\<^sup>* Claimed l"
    using assms(1) by (induction rule: rtranclp_induct) (auto intro: rtranclp.rtrancl_into_rtrancl)
  with assms(2) show ?thesis by auto
qed

lemma unstarted_is_final: "life_step\<^sup>*\<^sup>* Unstarted l \<Longrightarrow> l = Unstarted"
  by (induction rule: rtranclp_induct) auto

lemma job_is_kept: "life_step\<^sup>*\<^sup>* l m \<Longrightarrow> job_of l \<noteq> 0 \<Longrightarrow> job_of m = job_of l"
  by (induction rule: rtranclp_induct) (auto elim: life_step.cases)

lemma life_of_simps [simp]:
  "life_of (runStatusDetails st) = life_of st" "life_of (strip_generic st) = life_of st"
  "life_of (st\<lparr>rt_CancelRequestedAt := x\<rparr>) = life_of st" "life_of (st\<lparr>rt_JobStatus := s\<rparr>) = life_of st"
  by (simp_all add: life_of_def strip_generic_def)

text \<open>The state in which a run with this record ends.\<close>

definition ended_as :: "AnsibleRunStatus \<Rightarrow> life" where
  "ended_as st = (if rt_JobID st = 0 \<and> rt_LaunchAttemptedAt st = NoStamp then Unstarted else Over (rt_JobID st))"

lemma life_may_end: "life_step (life_of st) (ended_as st)"
  by (simp add: life_of_def ended_as_def)

lemma life_of_ended: "rt_FinishedAt st \<noteq> NoStamp \<Longrightarrow> life_of st = ended_as st"
  by (simp add: life_of_def ended_as_def)

lemma ended_as_simps [simp]:
  "ended_as (st\<lparr>rt_FinishedAt := x\<rparr>) = ended_as st" "ended_as (st\<lparr>rt_CancelRequestedAt := x\<rparr>) = ended_as st"
  "ended_as (st\<lparr>rt_JobStatus := s\<rparr>) = ended_as st" "ended_as (st\<lparr>rt_FailureReason := s\<rparr>) = ended_as st"
  by (simp_all add: ended_as_def)

section \<open>Steps of a pass\<close>

text \<open>Every path of the record through the events is a path of the machine.\<close>

fun lives :: "AnsibleRunStatus \<Rightarrow> event list \<Rightarrow> bool" where
  "lives s [] = True"
| "lives s (e # es) = (\<forall>m \<in> may_become s e. life_step (life_of s) (life_of m) \<and> lives m es)"

lemma lives_append: "lives s (xs @ ys) \<longleftrightarrow> lives s xs \<and> (\<forall>m. evolves s xs m \<longrightarrow> lives m ys)"
  by (induction xs arbitrary: s) auto

definition steers :: "(life \<Rightarrow> bool) \<Rightarrow> 'a prog \<Rightarrow> ('a \<Rightarrow> life \<Rightarrow> bool) \<Rightarrow> bool" where
  "steers A m B \<longleftrightarrow> emits m (\<lambda>r es. \<forall>s. A (life_of s) \<longrightarrow> lives s es \<and> (\<forall>s'. evolves s es s' \<longrightarrow> B r (life_of s')))"

lemma steersD: "steers A m B \<Longrightarrow> A (life_of s) \<Longrightarrow> lives s (events_of m w)"
  unfolding steers_def using emitsD by blast

lemma steers_return: "(\<And>l. A l \<Longrightarrow> B a l) \<Longrightarrow> steers A (ret a) B"
  by (simp add: steers_def emits_return)

lemma steers_bind:
  assumes "steers A m B" and "\<And>a. steers (B a) (f a) C"
  shows "steers A (m \<bind> f) C"
  unfolding steers_def
proof (rule emits_bind [OF assms(1) [unfolded steers_def]])
  fix a es
  assume a: "\<forall>s. A (life_of s) \<longrightarrow> lives s es \<and> (\<forall>s'. evolves s es s' \<longrightarrow> B a (life_of s'))"
  show "emits (f a) (\<lambda>r es'. \<forall>s. A (life_of s) \<longrightarrow> lives s (es @ es') \<and> (\<forall>s'. evolves s (es @ es') s' \<longrightarrow> C r (life_of s')))"
    by (rule emits_conseq [OF assms(2) [unfolded steers_def]])
      (use a in \<open>auto simp: lives_append evolves_append\<close>)
qed

text \<open>The same with a fact about the result.\<close>

lemma steers_bind_with:
  assumes "steers A m B" "emits m R" and "\<And>a es. R a es \<Longrightarrow> steers (B a) (f a) C"
  shows "steers A (m \<bind> f) C"
  unfolding steers_def
proof (rule emits_bind [OF emits_conj [OF assms(1) [unfolded steers_def] assms(2)]])
  fix a es
  assume a: "(\<forall>s. A (life_of s) \<longrightarrow> lives s es \<and> (\<forall>s'. evolves s es s' \<longrightarrow> B a (life_of s'))) \<and> R a es"
  show "emits (f a) (\<lambda>r es'. \<forall>s. A (life_of s) \<longrightarrow> lives s (es @ es') \<and> (\<forall>s'. evolves s (es @ es') s' \<longrightarrow> C r (life_of s')))"
    by (rule emits_conseq [OF assms(3) [OF conjunct2 [OF a], unfolded steers_def]])
      (use a in \<open>auto simp: lives_append evolves_append\<close>)
qed

lemma steers_conseq: "steers A m B \<Longrightarrow> (\<And>l. A' l \<Longrightarrow> A l) \<Longrightarrow> (\<And>r l. B r l \<Longrightarrow> B' r l) \<Longrightarrow> steers A' m B'"
  unfolding steers_def by (erule emits_conseq) blast

lemma steers_if: "(b \<Longrightarrow> steers A m B) \<Longrightarrow> (\<not> b \<Longrightarrow> steers A n B) \<Longrightarrow> steers A (if b then m else n) B"
  by simp

lemma steers_option:
  "(x = None \<Longrightarrow> steers A m B) \<Longrightarrow> (\<And>y. x = Some y \<Longrightarrow> steers A (f y) B) \<Longrightarrow> steers A (case x of None \<Rightarrow> m | Some y \<Rightarrow> f y) B"
  by (cases x) auto

lemma steers_sum:
  "(\<And>y. x = Inl y \<Longrightarrow> steers A (f y) B) \<Longrightarrow> (\<And>y. x = Inr y \<Longrightarrow> steers A (g y) B) \<Longrightarrow>
   steers A (case x of Inl y \<Rightarrow> f y | Inr y \<Rightarrow> g y) B"
  by (cases x) auto

lemma steers_prod: "(\<And>y z. x = (y, z) \<Longrightarrow> steers A (f y z) B) \<Longrightarrow> steers A (case x of (y, z) \<Rightarrow> f y z) B"
  by (cases x) auto

lemma steers_list:
  "(xs = [] \<Longrightarrow> steers A m B) \<Longrightarrow> (\<And>y ys. xs = y # ys \<Longrightarrow> steers A (f y ys) B) \<Longrightarrow>
   steers A (case xs of [] \<Rightarrow> m | y # ys \<Rightarrow> f y ys) B"
  by (cases xs) auto

lemmas steers_intros = steers_return steers_if steers_option steers_sum steers_prod steers_list

text \<open>Calls that leave the record alone.\<close>

definition still :: "event \<Rightarrow> bool" where
  "still e \<longleftrightarrow> (\<forall>s. may_become s e = {s})"

lemma still_simps [simp]:
  "still (EHttp c r a)" "still (ENow t)" "still (EGet g ns n a')" "still (ERestMapping gr k v x)" "still EMapperReset"
  "still (EDelete g ns n uid y)"
  by (simp_all add: still_def)

lemma still_lives: "list_all still es \<Longrightarrow> lives s es \<and> (evolves s es s' \<longleftrightarrow> s' = s)"
  by (induction es) (auto simp: still_def)

lemma still_context: "context_event e \<Longrightarrow> still e"
  by (cases e rule: context_event.cases) auto

lemma still_plan: "plan_event e \<Longrightarrow> still e"
  by (cases e rule: plan_event.cases) auto

lemma steers_still: "only still m \<Longrightarrow> emits m R \<Longrightarrow> (\<And>r es l. R r es \<Longrightarrow> A l \<Longrightarrow> B r l) \<Longrightarrow> steers A m B"
  unfolding steers_def by (rule emits_conseq [OF emits_and_only]) (auto simp: still_lives)

lemma steers_quiet: "only still m \<Longrightarrow> (\<And>r l. A l \<Longrightarrow> B r l) \<Longrightarrow> steers A m B"
  by (rule steers_still [OF _ emits_top]) (auto elim: only_mono)

text \<open>The two writes.\<close>

definition record_write :: "AnsibleRunStatus \<Rightarrow> event \<Rightarrow> bool" where
  "record_write d e \<longleftrightarrow> (\<exists>g ns n fm a. e = EApplyStatus g ns n (PRun d) fm a)"

text \<open>
  A marker that a write leaves out and the server keeps makes no third state, except that a run given up with it
  still counts as claimed.
\<close>

definition written_as :: "life \<Rightarrow> life \<Rightarrow> life \<Rightarrow> bool" where
  "written_as l d m \<longleftrightarrow> m = l \<or> m = d \<or> d = Unstarted \<and> m = Over 0"

lemma life_keep_marker:
  "life_step (life_of s) (life_of d) \<Longrightarrow>
   written_as (life_of s) (life_of d) (life_of (keep_marker s d)) \<and> life_step (life_of s) (life_of (keep_marker s d))"
  by (auto simp: keep_marker_def life_of_def written_as_def split: if_splits)

lemma record_write_step:
  assumes "record_write d e" "life_step (life_of s) (life_of d)" "m \<in> may_become s e"
  shows "written_as (life_of s) (life_of d) (life_of m) \<and> life_step (life_of s) (life_of m)"
  using assms life_keep_marker [OF assms(2)] by (auto simp: record_write_def written_as_def split: if_splits)

lemma written_as_step: "written_as l d m \<Longrightarrow> life_step l d \<Longrightarrow> life_step m d"
  by (auto simp: written_as_def)

lemma written_as_trans: "written_as l d m \<Longrightarrow> written_as m d x \<Longrightarrow> written_as l d x"
  by (auto simp: written_as_def)

lemma record_write_lives:
  "list_all (record_write d) es \<Longrightarrow> life_step (life_of s) (life_of d) \<Longrightarrow>
   lives s es \<and> (\<forall>s'. evolves s es s' \<longrightarrow> written_as (life_of s) (life_of d) (life_of s'))"
proof (induction es arbitrary: s)
  case Nil
  then show ?case by (simp add: written_as_def)
next
  case (Cons e es)
  have w: "record_write d e" "list_all (record_write d) es" using Cons.prems(1) by simp_all
  note step = record_write_step [OF w(1) Cons.prems(2)]
  have IH: "lives m es \<and> (\<forall>s'. evolves m es s' \<longrightarrow> written_as (life_of m) (life_of d) (life_of s'))"
    if "m \<in> may_become s e" for m
    using Cons.IH [OF w(2)] written_as_step [OF conjunct1 [OF step [OF that]] Cons.prems(2)] by blast
  show ?case
  proof (intro conjI allI impI)
    show "lives s (e # es)" using step IH by auto
  next
    fix s'
    assume "evolves s (e # es) s'"
    then obtain m where m: "m \<in> may_become s e" "evolves m es s'" by auto
    with step [OF m(1)] IH [OF m(1)] show "written_as (life_of s) (life_of d) (life_of s')"
      by (blast intro: written_as_trans)
  qed
qed

lemma steers_write:
  assumes "\<And>l. A l \<Longrightarrow> life_step l (life_of st)" and "\<And>r l. A l \<Longrightarrow> B r l" and "\<And>r. B r (life_of st)"
    and "\<And>r. life_of st = Unstarted \<Longrightarrow> B r (Over 0)"
  shows "steers A (writeRunDetails E u st) B"
proof -
  have "only (record_write (runStatusDetails st)) (writeRunDetails E u st)"
    by (rule only_writeRunDetails) (auto simp: record_write_def)
  then show ?thesis
    unfolding steers_def
  proof (rule emits_conseq [OF emits_only], intro allI impI)
    fix r es s
    assume w: "list_all (record_write (runStatusDetails st)) es" and s: "A (life_of s)"
    have "life_step (life_of s) (life_of (runStatusDetails st))" using assms(1) [OF s] by simp
    from record_write_lives [OF w this] show "lives s es \<and> (\<forall>s'. evolves s es s' \<longrightarrow> B r (life_of s'))"
      using assms(2) [OF s, of r] assms(3) [of r] assms(4) [of r] unfolding written_as_def by (metis life_of_simps(1))
  qed
qed

lemma api_error_not_terminal [simp]: "\<not> isTerminalError (api_error a)"
  by (simp add: api_error_def)

lemma steers_claim:
  assumes "\<And>l. A l \<Longrightarrow> life_step l (life_of st)" and "\<And>err l. \<not> isTerminalError err \<Longrightarrow> B (Inl err) l"
    and "\<And>u'. B (Inr u') (life_of st)"
  shows "steers A (claimLaunch E obj st) B"
  unfolding steers_def claimLaunch_def
  by (rule emits_bind [OF does_UpdateStatus], rule emits_return)
    (use assms in \<open>auto simp: set_run_status_def split: sum.splits\<close>)

section \<open>The operations of a pass\<close>

text \<open>
  What every operation keeps between the record and the status in hand: the record may still end as the status
  in hand would. It matters where the pass goes on to end the run, which is after a terminal error.
\<close>

abbreviation in_hand :: "AnsibleRunStatus \<Rightarrow> life \<Rightarrow> bool" where
  "in_hand st l \<equiv> life_step l (ended_as st)"

definition run_result :: "run_out \<Rightarrow> life \<Rightarrow> bool" where
  "run_result out' l \<longleftrightarrow> (\<forall>err. snd out' = Some err \<and> isTerminalError err \<longrightarrow> in_hand (snd (fst out')) l)"

lemma run_resultI: "in_hand st l \<Longrightarrow> run_result ((u, st), e) l"
  by (simp add: run_result_def)

lemma run_result_simps [simp]:
  "run_result ((u, st), None) l" "\<not> isTerminalError err \<Longrightarrow> run_result ((u, st), Some err) l"
  by (simp_all add: run_result_def)

lemma steers_now: "steers A (nowRFC3339 E) (\<lambda>now l. A l \<and> now \<noteq> NoStamp)"
  by (rule steers_still [OF only_prims(2) does_nowRFC3339]) auto

lemma steers_write_hand:
  "life_of st \<noteq> Unstarted \<Longrightarrow> (\<And>l. A l \<Longrightarrow> life_step l (life_of st)) \<Longrightarrow> (\<And>l. A l \<Longrightarrow> in_hand st l) \<Longrightarrow>
   steers A (writeRunDetails E u st) (\<lambda>_. in_hand st)"
  by (rule steers_write) (simp_all add: life_may_end)

lemma steers_failRun: "(\<And>l. A l \<Longrightarrow> in_hand st l) \<Longrightarrow> steers A (failRun E u st reason) (\<lambda>_ _. True)"
  unfolding failRun_def Let_def
  by (rule steers_bind [OF steers_now], rule steers_bind [OF steers_write])
    (auto intro!: steers_return simp: life_of_ended)

lemma emits_cancelRunJob: "emits (cancelRunJob E run st) (\<lambda>r _. ended_as (snd r) = ended_as st)"
proof -
  have c: "emits (awxContextForRun E run) (\<lambda>_ _. True)"
    by (rule emits_top [OF only_mono [OF only_awxContextForRun]]) simp
  have j: "emits (CancelJob E c i iw) (\<lambda>_ _. True)" for c i iw
    by (rule emits_top) (auto intro!: only_intros)
  show ?thesis
    unfolding cancelRunJob_def Let_def
    by (auto intro!: emits_if emits_return emits_bind [OF c] emits_sum emits_bind [OF j] emits_option emits_bind [OF does_nowRFC3339])
qed

lemma steers_expireRun: "(\<And>l. A l \<Longrightarrow> in_hand st l) \<Longrightarrow> steers A (expireRun E u run st) (\<lambda>_ _. True)"
  unfolding expireRun_def Let_def
  by (rule steers_bind [OF steers_still [OF only_cancelRunJob emits_cancelRunJob, where B = "\<lambda>r l. in_hand (snd r) l"]])
    (auto intro!: steers_prod steers_failRun still_context)

lemma steers_settle: "steers (run_result out') (settle_run E out') (\<lambda>_ _. True)"
  unfolding settle_run_def
  by (intro steers_prod steers_option steers_if steers_failRun steers_return) (auto simp: run_result_def)

lemma steers_pollRun:
  assumes "rt_JobID st \<noteq> 0"
  shows "steers (\<lambda>l. l = life_of st) (pollRun E u run st c) run_result"
proof -
  have q: "only still (pollJobStatus E c ty j)" for ty j by (auto intro!: only_intros)
  show ?thesis
    unfolding pollRun_def Let_def
    by (intro steers_bind [OF steers_quiet [OF q, where B = "\<lambda>_ l. l = life_of st"]] steers_sum steers_if
        steers_bind [OF steers_write_hand] steers_return steers_bind [OF steers_now])
      (use assms in \<open>auto intro!: run_resultI simp: life_of_def ended_as_def\<close>)
qed

lemma steers_recover:
  assumes "life_of st = Claimed"
  shows "steers (\<lambda>l. l = life_of st) (recoverLostLaunch E u run st awx) run_result"
proof -
  have q: "only still (matchLostLaunchJobs E awx run st at)" for at by (rule only_matchLostLaunchJobs) simp_all
  have d: "only still (time_Since E t)" for t by (rule only_prims) simp
  show ?thesis
    unfolding recoverLostLaunch_def Let_def assms
    by (intro steers_option steers_return steers_bind [OF steers_quiet [OF q, where B = "\<lambda>_ l. l = Claimed"]] steers_sum
        steers_if steers_list steers_bind [OF steers_quiet [OF d, where B = "\<lambda>_ l. l = Claimed"]]
        steers_bind [OF steers_write_hand])
      (use assms in \<open>auto intro!: run_resultI simp: life_of_def ended_as_def adopt_job_def split: if_splits\<close>)
qed

section \<open>Launching\<close>

lemma life_of_Fresh: "life_of st = Fresh \<longleftrightarrow> rt_FinishedAt st = NoStamp \<and> rt_JobID st = 0 \<and> rt_LaunchAttemptedAt st = NoStamp"
  by (simp add: life_of_def)

lemma emits_plan_same: "emits (plan_launch E run st awx) (\<lambda>x _. life_of (fst x) = life_of st)"
proof -
  have v: "emits (gatherRunVars E run) (\<lambda>_ _. True)"
    by (rule emits_top [OF only_mono [OF only_gatherRunVars]]) simp
  have t: "emits (runTargets E run c) (\<lambda>_ _. True)" for c
    by (rule emits_top [OF only_mono [OF only_runTargets]]) simp
  have r: "emits (resolveTemplateForLaunch E c k t') (\<lambda>_ _. True)" for c k t'
    by (rule emits_top) (auto intro!: only_intros)
  show ?thesis
    unfolding plan_launch_def Let_def
    by (intro emits_bind [OF r] emits_bind [OF v] emits_bind [OF t] emits_sum emits_prod emits_return) (simp_all add: life_of_def)
qed

lemma steers_reconcile_hosts:
  "life_of st = Fresh \<Longrightarrow> steers (\<lambda>l. l = Fresh) (reconcile_hosts E u run c i ts st) (\<lambda>_ l. l = Fresh)"
proof (induction ts arbitrary: st)
  case (Cons t ts)
  have q: "only still (resolveRunHost E c i t m)" for m by (rule only_resolveRunHost) simp_all
  show ?case
    unfolding reconcile_hosts.simps
    by (intro steers_bind [OF steers_quiet [OF q, where B = "\<lambda>_ l. l = Fresh"]] steers_sum steers_prod
        steers_bind [OF steers_write [where B = "\<lambda>_ l. l = Fresh"]] steers_return Cons.IH)
      (use Cons.prems in \<open>simp_all add: life_of_Fresh\<close>)
qed (simp add: steers_return)

lemma emits_reconcile_same: "emits (reconcile_hosts E u run c i ts st) (\<lambda>x _. life_of (fst x) = life_of st)"
proof (induction ts arbitrary: st)
  case (Cons t ts)
  have q: "emits (resolveRunHost E c i t m) (\<lambda>_ _. True)" for m by (rule emits_top [OF only_resolveRunHost]) simp_all
  have w: "emits (writeRunDetails E u st') (\<lambda>_ _. True)" for st' by (rule emits_top) (auto intro!: only_intros)
  show ?case
    unfolding reconcile_hosts.simps
    by (intro emits_bind [OF q] emits_sum emits_prod emits_bind [OF w] emits_return emits_conseq [OF Cons.IH])
      (simp_all add: life_of_def)
qed (simp add: emits_return)

lemma steers_record_answer:
  assumes "rt_FinishedAt st = NoStamp" "rt_LaunchAttemptedAt st \<noteq> NoStamp" "fst res = 0 \<Longrightarrow> rt_JobID st = 0"
  shows "steers (\<lambda>l. l = Claimed) (record_answer E u run st res) run_result"
proof -
  have w: "steers (\<lambda>l. l = Claimed) (writeRunDetails E u st') (\<lambda>_. in_hand st')"
    if "life_of st' \<noteq> Unstarted" "life_step Claimed (life_of st')" "life_step Claimed (ended_as st')" for st'
    by (rule steers_write_hand) (use that in auto)
  have o: "life_of st \<noteq> Unstarted" "life_step Claimed (life_of st)" "life_step Claimed (ended_as st)"
    using assms(1,2) by (auto simp: life_of_def ended_as_def)
  have f: "life_of (st\<lparr>rt_LaunchAttemptedAt := NoStamp\<rparr>) = Fresh" "ended_as (st\<lparr>rt_LaunchAttemptedAt := NoStamp\<rparr>) = Unstarted"
    if "fst res = 0"
    using assms(1) assms(3) [OF that] by (simp_all add: life_of_def ended_as_def)
  show ?thesis
    unfolding record_answer_def Let_def
    by (intro steers_option steers_if steers_bind [OF w] steers_return) (use o f in \<open>auto intro!: run_resultI\<close>)
qed

lemma steers_record_launch:
  assumes "life_of st = Claimed"
  shows "steers (\<lambda>l. l = Claimed) (record_launch E u run st awx res) run_result"
proof -
  have st: "rt_FinishedAt st = NoStamp" "rt_LaunchAttemptedAt st \<noteq> NoStamp" "rt_JobID st = 0"
    using assms by (auto simp: life_of_def split: if_splits)
  have q: "only still (with_launched_job E awx j st)" for j by (auto intro!: only_intros)
  have r: "emits (with_launched_job E awx j st) (\<lambda>a _. rt_FinishedAt a = NoStamp \<and> rt_LaunchAttemptedAt a \<noteq> NoStamp \<and>
      (j = 0 \<longrightarrow> rt_JobID a = 0))" for j
    unfolding with_launched_job_def by (intro emits_if emits_bind [OF does_nowRFC3339] emits_return) (simp_all add: st)
  show ?thesis
    unfolding record_launch_def
    by (rule steers_bind_with [OF steers_quiet [OF q, where B = "\<lambda>_ l. l = Claimed"] r]) (auto intro: steers_record_answer)
qed

lemma steers_claim_and_launch:
  assumes "life_of st = Fresh"
  shows "steers (\<lambda>l. l = Fresh) (claim_and_launch E u run st awx p) run_result"
  unfolding claim_and_launch_def Let_def
proof (rule steers_bind_with [OF steers_quiet [OF only_prims(2), where B = "\<lambda>_ l. l = Fresh"] does_nowRFC3339])
  fix now :: stamp and es
  assume "\<exists>t. now = format_time t \<and> es = [ENow t]"
  with assms have cl: "life_of (st\<lparr>rt_LaunchAttemptedAt := now\<rparr>) = Claimed" by (auto simp: life_of_def split: if_splits)
  have q: "only still (submit_launch E awx p)" by (rule only_submit_launch) simp
  have c: "steers (\<lambda>l. l = Fresh) (claimLaunch E u (st\<lparr>rt_LaunchAttemptedAt := now\<rparr>))
      (\<lambda>r l. case r of Inl err \<Rightarrow> \<not> isTerminalError err | Inr u' \<Rightarrow> l = Claimed)"
    by (rule steers_claim) (auto simp: cl split: sum.split)
  show "steers (\<lambda>l. l = Fresh) (claimLaunch E u (st\<lparr>rt_LaunchAttemptedAt := now\<rparr>) \<bind> (\<lambda>cl. case cl of
      Inl err \<Rightarrow> ret ((u, st\<lparr>rt_LaunchAttemptedAt := now\<rparr>), Some (errorw f_recording [] err))
    | Inr u' \<Rightarrow> submit_launch E awx p \<bind> record_launch E u' run (st\<lparr>rt_LaunchAttemptedAt := now\<rparr>) awx)) run_result"
    by (intro steers_bind [OF c] steers_sum steers_return
        steers_bind [OF steers_quiet [OF q, where B = "\<lambda>_ l. l = Claimed"]] steers_record_launch)
      (use assms cl in \<open>auto simp: life_of_Fresh\<close>)
qed simp_all

lemma steers_launchRun:
  assumes "life_of st = Fresh"
  shows "steers (\<lambda>l. l = Fresh) (launchRun E u run st awx) run_result"
proof -
  have f: "life_of (st\<lparr>rt_AWXEndpoint := e\<rparr>) = Fresh" for e using assms by (simp add: life_of_Fresh)
  have j: "life_of st' = Fresh \<Longrightarrow> rt_JobID st' = 0" for st' by (simp add: life_of_Fresh)
  have q: "steers (\<lambda>l. l = Fresh) (plan_launch E run st' awx) (\<lambda>_ l. l = Fresh)" for st'
    by (rule steers_quiet [OF only_mono [OF only_plan_launch still_plan]])
  have go: "steers (\<lambda>l. l = Fresh) (do {
      (status, e) \<leftarrow> reconcile_hosts E u run c i ts st';
      (case e of Some err \<Rightarrow> ret ((u, status), Some err) | None \<Rightarrow> claim_and_launch E u run status awx p)}) run_result"
    if "life_of st' = Fresh" for st' c i ts p
    by (rule steers_bind_with [OF steers_reconcile_hosts [OF that] emits_reconcile_same], intro steers_prod steers_option steers_return)
      (use that j in \<open>auto intro: steers_claim_and_launch intro!: run_resultI simp: life_of_Fresh ended_as_def\<close>)
  show ?thesis
    unfolding launchRun_def Let_def
    by (intro steers_option steers_return steers_bind_with [OF q emits_plan_same] steers_prod steers_sum go)
      (use f j assms in \<open>auto intro!: run_resultI simp: life_of_Fresh ended_as_def\<close>)
qed

section \<open>The passes\<close>

lemma steers_reconcileRun:
  assumes "rt_FinishedAt st = NoStamp"
  shows "steers (\<lambda>l. l = life_of st) (reconcileRun E u run st) run_result"
proof -
  have q: "only still (awxContextForRun E run)" by (rule only_mono [OF only_awxContextForRun still_context])
  have c: "rt_JobID st = 0 \<Longrightarrow> rt_LaunchAttemptedAt st \<noteq> NoStamp \<Longrightarrow> life_of st = Claimed"
    "rt_JobID st = 0 \<Longrightarrow> rt_LaunchAttemptedAt st = NoStamp \<Longrightarrow> life_of st = Fresh"
    using assms by (simp_all add: life_of_def)
  show ?thesis
    unfolding reconcileRun_def
    by (intro steers_bind [OF steers_quiet [OF q, where B = "\<lambda>_ l. l = life_of st"]] steers_sum steers_if steers_return
        steers_pollRun steers_recover) (use c steers_launchRun in \<open>auto intro!: run_resultI life_may_end\<close>)
qed

lemma steers_run_pass: "steers (\<lambda>l. l = life_of st) (run_pass E u run st) (\<lambda>_ _. True)"
proof -
  have q: "only still (collectFinishedRun E run st)" "only still (deadlineExceeded E run)"
    by (rule only_collectFinishedRun; simp) (rule only_deadlineExceeded; simp)
  show ?thesis
    unfolding run_pass_def
    by (intro steers_if steers_bind [OF steers_quiet [OF q(1), where B = "\<lambda>_ l. l = life_of st"]] steers_return
        steers_bind [OF steers_quiet [OF q(2), where B = "\<lambda>_ l. l = life_of st"]] steers_expireRun
        steers_bind [OF steers_reconcileRun steers_settle]) (simp_all add: life_may_end)
qed

text \<open>A reconcile pass refines the machine, from the record it read on.\<close>

lemma emits_applyAnsibleRun_lives: "emits (applyAnsibleRun E cached) (\<lambda>_. of_live cached (\<lambda>live. lives (live_status live)))"
proof (rule emits_pass)
  fix u
  show "emits (apply_live_run E u) (\<lambda>_. lives (live_status u))"
  proof (cases "convertAnsibleRun u")
    case (Inl err)
    then show ?thesis by (simp add: apply_live_run_def emits_return)
  next
    case (Inr run)
    then have st: "live_status u = run_status_of run" by (simp add: live_status_def)
    have "emits (run_pass E u run (run_status_of run) \<bind> (\<lambda>out'. ret (finish_run out'))) (\<lambda>_. lives (run_status_of run))"
      by (rule emits_conseq [OF steers_bind [OF steers_run_pass steers_return [where B = "\<lambda>_ _. True"], unfolded steers_def]]) auto
    with Inr st show ?thesis by (simp add: apply_live_run_def emits_return)
  qed
qed

section \<open>Finalization\<close>

text \<open>A finalizing pass writes records of one state only, the one it resolved the run to be in.\<close>

abbreviation heads :: "life \<Rightarrow> life \<Rightarrow> bool" where
  "heads l' l \<equiv> life_step l l'"

lemma steers_write_heads: "life_of st = L \<Longrightarrow> steers (heads L) (writeRunDetails E u st) (\<lambda>_. heads L)"
  by (rule steers_write) simp_all

lemma emits_request_cancel_same: "emits (request_cancel E u st awx) (\<lambda>x _. life_of (fst x) = life_of st)"
proof -
  have c: "emits (CancelJob E c i iw) (\<lambda>_ _. True)" for c i iw
    by (rule emits_top) (auto intro!: only_intros)
  have w: "emits (writeRunDetails E u st') (\<lambda>_ _. True)" for st' by (rule emits_top) (auto intro!: only_intros)
  show ?thesis
    unfolding request_cancel_def Let_def
    by (intro emits_if emits_return emits_bind [OF c] emits_option emits_bind [OF does_nowRFC3339] emits_bind [OF w])
      (simp_all add: life_of_def)
qed

lemma steers_request_cancel: "life_of st = L \<Longrightarrow> steers (heads L) (request_cancel E u st awx) (\<lambda>_. heads L)"
proof -
  have c: "only still (CancelJob E c i iw)" "only still (nowRFC3339 E)" for c i iw by (auto intro!: only_intros)
  assume "life_of st = L"
  then show ?thesis
    unfolding request_cancel_def Let_def
    by (intro steers_if steers_return steers_bind [OF steers_quiet [OF c(1), where B = "\<lambda>_. heads L"]] steers_option
        steers_bind [OF steers_quiet [OF c(2), where B = "\<lambda>_. heads L"]] steers_bind [OF steers_write_heads])
      simp_all
qed

lemma steers_confirm: "life_of st = L \<Longrightarrow> steers (heads L) (confirm_stopped E u run st awx) (\<lambda>_. heads L)"
proof -
  have q: "only still (pollJobStatus E c ty j)" "only still (cancel_waited E st')" for c ty j st'
    by (auto simp: cancel_waited_def intro!: only_intros)
  assume L: "life_of st = L"
  have w: "steers (heads L) (if b then writeRunDetails E u st' else ret None) (\<lambda>_. heads L)" if "life_of st' = L" for b st'
    using that by (auto intro: steers_write_heads steers_return)
  from L show ?thesis
    unfolding confirm_stopped_def judge_stopped_def Let_def
    by (intro steers_bind [OF steers_quiet [OF q(1), where B = "\<lambda>_. heads L"]] steers_sum steers_return steers_bind [OF w]
        steers_option steers_if steers_bind [OF steers_quiet [OF q(2), where B = "\<lambda>_. heads L"]]) simp_all
qed

lemma steers_cancel_then_delete:
  assumes "life_of st = L"
  shows "steers (heads L) (cancel_then_delete E u run st awx c hs) (\<lambda>_ _. True)"
proof -
  have h: "only still (delete_run_hosts E c m hs e)" for c m e
    by (induction hs arbitrary: e) (auto intro!: only_intros simp: delete_run_host_def)
  have d: "steers (heads L) (delete_hosts_step E run awx hs) (\<lambda>_ _. True)"
    unfolding delete_hosts_step_def by (intro steers_quiet only_bind only_return h) simp
  have c: "steers (heads L) (cancelAndConfirm E u run st awx) (\<lambda>_. heads L)"
    unfolding cancelAndConfirm_def
    by (rule steers_bind_with [OF steers_request_cancel [OF assms] emits_request_cancel_same], intro steers_prod steers_option
        steers_return) (use assms in \<open>auto intro: steers_confirm\<close>)
  show ?thesis
    unfolding cancel_then_delete_def
    by (intro steers_if steers_bind [OF c] steers_prod steers_sum steers_return d) simp_all
qed

lemma steers_resolveLost:
  assumes "run_unresolved st"
  shows "steers (\<lambda>l. l = life_of st) (resolveLostJobForCleanup E u run st awx) (\<lambda>x. heads (life_of (fst x)))"
proof -
  have q: "only still (matchLostLaunchJobs E awx run st at)" for at by (rule only_matchLostLaunchJobs) simp_all
  have a: "life_step (life_of st) (life_of (adopt_job awx job st))" "life_of (s\<lparr>rt_StartedAt := t\<rparr>) = life_of s" for job s t
    using assms by (auto simp: life_of_def run_unresolved_def adopt_job_def)
  have w: "steers (\<lambda>l. l = life_of st) (writeRunDetails E u st') (\<lambda>_. heads (life_of st'))"
    if "life_step (life_of st) (life_of st')" for st'
    by (rule steers_write) (use that in auto)
  show ?thesis
    unfolding resolveLostJobForCleanup_def Let_def
    by (intro steers_option steers_return steers_bind [OF steers_quiet [OF q, where B = "\<lambda>_ l. l = life_of st"]] steers_sum
        steers_list steers_bind [OF w]) (simp_all add: a split: if_splits)
qed

lemma steers_cleanup_in_awx: "steers (\<lambda>l. l = life_of st) (cleanup_in_awx E u run st awx hs) (\<lambda>_ _. True)"
  unfolding cleanup_in_awx_def
proof (intro steers_if steers_return steers_bind [OF steers_resolveLost] steers_prod steers_sum, simp_all)
  show "steers (heads (life_of st')) (cancel_then_delete E u run st' awx c hs) (\<lambda>_ _. True)" for st' c
    by (rule steers_cancel_then_delete) simp
  show "steers (\<lambda>l. l = life_of st) (cancel_then_delete E u run st awx (run_cancelling st) hs) (\<lambda>_ _. True)"
    by (rule steers_conseq [OF steers_cancel_then_delete [OF refl]]) simp_all
qed

lemma emits_cleanupAnsibleRun_lives:
  "emits (cleanupAnsibleRun E cached) (\<lambda>_. of_live cached (\<lambda>live. lives (live_status live)))"
  unfolding cleanupAnsibleRun_def
proof (rule emits_of_live, intro emits_sum emits_if emits_return)
  fix u run
  assume "convertAnsibleRun u = Inr run"
  then have st: "live_status u = run_status_of run" by (simp add: live_status_def)
  have q: "only still (runConnection E run)" "only still (awxClientForConnection E c)" for c
    by (rule only_mono [OF only_runConnection still_context], assumption) (rule only_awxClientForConnection; simp)
  let ?A = "\<lambda>l. l = life_of (run_status_of run)"
  have "steers ?A (cleanup_live_run E u run (run_status_of run)) (\<lambda>_ _. True)"
    unfolding cleanup_live_run_def Let_def
    by (intro steers_if steers_return steers_bind [OF steers_quiet [OF q(1), where B = "\<lambda>_. ?A"]] steers_sum steers_prod
        steers_bind [OF steers_quiet [OF q(2), where B = "\<lambda>_. ?A"]] steers_cleanup_in_awx) simp_all
  then show "emits (cleanup_live_run E u run (run_status_of run)) (\<lambda>_. lives (live_status u))"
    unfolding steers_def st by (rule emits_conseq) auto
qed simp_all

end
