(* ===== verification/Workqueue.thy ===== *)
theory Workqueue
  imports Engine
begin

text \<open>
  controller/workqueue.go: one worker on the work queue. \<open>processNextWorkItem\<close> takes the item \<open>Get\<close>
  returned (\<open>None\<close> when the queue is shut down) and records its own calls on the queue; \<open>runWorker\<close> is the
  loop over it, given the keys the queue hands this worker until it shuts down. The
  queue's requeue counter and the split of a key are the environment's. \<open>Run\<close> starts several such workers
  at once; their interleaving is not modelled.
\<close>

definition maxReconcileRetries :: int where "maxReconcileRetries = 10"

definition f_invalid_key where [text_defs]: "f_invalid_key = ''invalid resource key: %s''"

definition reconcileByKey :: "env \<Rightarrow> controller \<Rightarrow> string \<Rightarrow> gerr option prog" where
  "reconcileByKey E c k =
     (case e_splitKey E k of
        None \<Rightarrow> ret (Some (errorf f_invalid_key [k]))
      | Some (namespace, name) \<Rightarrow> do {
          u \<leftarrow> cachedGet E (c_gvr c) namespace name;
          (case u of None \<Rightarrow> ret None | Some obj \<Rightarrow> Reconcile E c obj)
        })"

definition NumRequeues :: "env \<Rightarrow> gvr \<Rightarrow> string \<Rightarrow> int prog" where
  "NumRequeues E g k = peek (\<lambda>t. e_numRequeues E t g k)"

text \<open>What is done with the outcome of the pass: the retry rules.\<close>

definition handle_outcome :: "env \<Rightarrow> controller \<Rightarrow> string \<Rightarrow> gerr option \<Rightarrow> unit prog" where
  "handle_outcome E c k r =
     (case r of
        None \<Rightarrow> queue_Forget (c_gvr c) k
      | Some err \<Rightarrow> do {
          n \<leftarrow> NumRequeues E (c_gvr c) k;
          if isCleanupPending err \<or> n < maxReconcileRetries then queue_AddRateLimited (c_gvr c) k
          else queue_Forget (c_gvr c) k
        })"

definition processNextWorkItem :: "env \<Rightarrow> controller \<Rightarrow> string option \<Rightarrow> bool prog" where
  "processNextWorkItem E c item =
     (case item of
        None \<Rightarrow> ret False
      | Some k \<Rightarrow> do {
          r \<leftarrow> reconcileByKey E c k;
          handle_outcome E c k r;
          queue_Done (c_gvr c) k;
          ret True
        })"

fun runWorker :: "env \<Rightarrow> controller \<Rightarrow> string list \<Rightarrow> unit prog" where
  "runWorker E c [] = do { _ \<leftarrow> processNextWorkItem E c None; ret () }"
| "runWorker E c (k # handed) = do {
     more \<leftarrow> processNextWorkItem E c (Some k);
     (if more then runWorker E c handed else ret ())
   }"

section \<open>Lemmas\<close>

fun is_requeue :: "gvr \<Rightarrow> string \<Rightarrow> event \<Rightarrow> bool" where
  "is_requeue g k (EAddRateLimited g' k') = (g' = g \<and> k' = k)"
| "is_requeue g k _ = False"

fun is_forget :: "gvr \<Rightarrow> string \<Rightarrow> event \<Rightarrow> bool" where
  "is_forget g k (EForget g' k') = (g' = g \<and> k' = k)"
| "is_forget g k _ = False"

lemma emits_queue:
  "R () [EAddRateLimited g k] \<Longrightarrow> emits (queue_AddRateLimited g k) R"
  "R () [EForget g k] \<Longrightarrow> emits (queue_Forget g k) R"
  "R () [EDone g k] \<Longrightarrow> emits (queue_Done g k) R"
  by (simp_all add: queue_AddRateLimited_def queue_Forget_def queue_Done_def emits_ask)

text \<open>The three outcomes: success and exhaustion forget the key, everything else retries it.\<close>

lemma handle_outcome_spec:
  "emits (handle_outcome E c k r) (\<lambda>_ es. case r of
      None \<Rightarrow> es = [EForget (c_gvr c) k]
    | Some err \<Rightarrow> es = [EAddRateLimited (c_gvr c) k] \<or> (\<not> isCleanupPending err \<and> es = [EForget (c_gvr c) k]))"
proof (cases r)
  case None
  then show ?thesis by (simp add: handle_outcome_def emits_queue)
next
  case (Some err)
  have "emits (NumRequeues E (c_gvr c) k) (\<lambda>_ es. es = [])"
    by (simp add: NumRequeues_def emits_peek)
  then show ?thesis unfolding handle_outcome_def Some option.case
    by (rule emits_bind) (auto intro!: emits_if emits_queue)
qed

text \<open>One item: the pass, what its outcome asks for, and the end of the item.\<close>

definition queue_answer :: "env \<Rightarrow> controller \<Rightarrow> string \<Rightarrow> trace \<Rightarrow> gerr option \<Rightarrow> event" where
  "queue_answer E c k t r = (case r of
      None \<Rightarrow> EForget (c_gvr c) k
    | Some err \<Rightarrow> if isCleanupPending err \<or> e_numRequeues E t (c_gvr c) k < maxReconcileRetries
        then EAddRateLimited (c_gvr c) k else EForget (c_gvr c) k)"

lemma events_handle_outcome: "events_of (handle_outcome E c k r) w = [queue_answer E c k (w_trace w) r]"
  by (simp add: handle_outcome_def queue_answer_def NumRequeues_def queue_Forget_def queue_AddRateLimited_def
      events_of_def ask_def peek_def split: option.split)

lemma process_exact:
  assumes "extends (reconcileByKey E c k)"
  shows "events_of (processNextWorkItem E c (Some k)) w = events_of (reconcileByKey E c k) w @
    [queue_answer E c k (w_trace w @ events_of (reconcileByKey E c k) w) (result_of (reconcileByKey E c k) w), EDone (c_gvr c) k]"
proof -
  have q: "extends (handle_outcome E c k r)" for r
    by (rule extends_emits [OF handle_outcome_spec])
  have d: "extends (queue_Done (c_gvr c) k \<bind> (\<lambda>_. ret True))"
    by (simp add: extends_def emits_def queue_Done_def ask_def)
  have rest: "extends (handle_outcome E c k r \<bind> (\<lambda>_. queue_Done (c_gvr c) k \<bind> (\<lambda>_. ret True)))" for r
    unfolding extends_def
    by (rule emits_bind [OF q [unfolded extends_def]]) (use d in \<open>simp add: extends_def\<close>)
  have e: "events_of (queue_Done (c_gvr c) k \<bind> (\<lambda>_. ret True)) v = [EDone (c_gvr c) k]" for v
    by (simp add: events_of_def queue_Done_def ask_def)
  obtain es where "w_trace (snd (run_state (reconcileByKey E c k) w)) = w_trace w @ es"
    using assms unfolding extends_def emits_def by blast
  then have t: "w_trace (snd (run_state (reconcileByKey E c k) w)) = w_trace w @ events_of (reconcileByKey E c k) w"
    by (simp add: events_of_def)
  show ?thesis
    unfolding processNextWorkItem_def option.case events_of_bind [OF assms rest] events_of_bind [OF q d] e
    by (simp add: events_handle_outcome t)
qed

text \<open>And the world it leaves: the pass's, with the two calls on the queue on record.\<close>

definition world_after :: "env \<Rightarrow> controller \<Rightarrow> string \<Rightarrow> world \<Rightarrow> world" where
  "world_after E c k w = (let v = snd (run_state (reconcileByKey E c k) w); r = result_of (reconcileByKey E c k) w in
     v\<lparr>w_trace := w_trace v @ [queue_answer E c k (w_trace v) r, EDone (c_gvr c) k]\<rparr>)"

lemma handle_world: "snd (run_state (handle_outcome E c k r) w) = w\<lparr>w_trace := w_trace w @ [queue_answer E c k (w_trace w) r]\<rparr>"
  by (simp add: handle_outcome_def queue_answer_def NumRequeues_def queue_Forget_def queue_AddRateLimited_def
      ask_def peek_def split: option.split)

lemma process_world: "snd (run_state (processNextWorkItem E c (Some k)) w) = world_after E c k w"
  by (simp add: processNextWorkItem_def world_after_def result_of_def run_state_bind handle_world queue_Done_def ask_def Let_def
      split_beta State_Monad.return_def)

text \<open>An object whose pass ends with a cleanup failure is always queued again.\<close>

lemma finalize_errors_pending:
  assumes "\<And>f. c_cleanupFunc c = Some f \<Longrightarrow> extends (f u)"
  shows "emits (finalize E c u) (\<lambda>r es. case r of Deferred err \<Rightarrow> isCleanupPending err | Returned x \<Rightarrow> x = None)"
proof -
  have rel: "emits (release E c u) (\<lambda>r es. case r of Deferred err \<Rightarrow> isCleanupPending err | Returned x \<Rightarrow> x = None)"
    unfolding release_def
    by (rule emits_bind [OF patchFinalizer_None]) (auto intro!: emits_option emits_return)
  have add: "emits (queue_AddAfter g k d \<bind> (\<lambda>_. ret (Returned None)))
      (\<lambda>r es. case r of Deferred err \<Rightarrow> isCleanupPending err | Returned x \<Rightarrow> x = None)" for g k d
    unfolding queue_AddAfter_def
    by (rule emits_bind [OF emits_ask [where R = "\<lambda>_ _. True"]]) (auto intro!: emits_return)
  show ?thesis
    unfolding finalize_def
    by (intro emits_if emits_option rel emits_return
        emits_bind [OF assms [unfolded extends_def]]) (auto intro!: emits_sum emits_if emits_return add rel)
qed

context reconciler
begin

lemma extends_reconcileByKey: "extends (reconcileByKey E c k)"
  unfolding reconcileByKey_def extends_def cachedGet_def
  by (auto intro!: emits_option emits_prod emits_return emits_bind [OF emits_peek [where R = "\<lambda>_ _. True"]]
      Reconcile_extends [unfolded extends_def])

lemma cleanup_extends: "c_cleanupFunc c = Some f \<Longrightarrow> extends (f u)"
  by (rule extends_emits [OF emits_only [OF cleanup_only]])

text \<open>A pass over an object being deleted succeeds or says its cleanup is pending.\<close>

lemma deleting_pending:
  assumes "is_deleting (u_meta u)"
  shows "emits (Reconcile E c u) (\<lambda>r es. \<forall>err. r = Some err \<longrightarrow> isCleanupPending err)"
proof -
  have ds: "emits (deferred_status E c u err) (\<lambda>_ _. True)" for err
    by (rule emits_top, rule deferred_quiet) simp_all
  show ?thesis
    unfolding Reconcile_def reconcile_body_def using assms
    by (simp, intro emits_bind [OF finalize_errors_pending [OF cleanup_extends]])
      (auto intro!: emits_bind [OF ds] emits_return split: pass_end.split)
qed

lemma deleting_requeued:
  assumes "e_splitKey E k = Some (ns, n)" and "e_store E (w_trace w) (c_gvr c) (key ns n) = Some u"
    and "is_deleting (u_meta u)"
  shows "events_of (processNextWorkItem E c (Some k)) w = events_of (Reconcile E c u) w @
      [if result_of (Reconcile E c u) w = None then EForget (c_gvr c) k else EAddRateLimited (c_gvr c) k, EDone (c_gvr c) k]"
proof -
  have "run_state (reconcileByKey E c k) w = run_state (Reconcile E c u) w"
    using assms(1,2) by (simp add: reconcileByKey_def cachedGet_def peek_def)
  then have r: "events_of (reconcileByKey E c k) w = events_of (Reconcile E c u) w"
      "result_of (reconcileByKey E c k) w = result_of (Reconcile E c u) w"
    by (simp_all add: events_of_def result_of_def)
  have "\<forall>err. result_of (Reconcile E c u) w = Some err \<longrightarrow> isCleanupPending err"
    using emitsD [OF deleting_pending [OF assms(3)]] .
  then show ?thesis
    by (cases "result_of (Reconcile E c u) w") (simp_all add: process_exact [OF extends_reconcileByKey] r queue_answer_def)
qed

end

section \<open>A worker\<close>

text \<open>The calls that settle an item with the queue.\<close>

fun settles_item :: "event \<Rightarrow> bool" where
  "settles_item (EForget g k) = True"
| "settles_item (EAddRateLimited g k) = True"
| "settles_item (EDone g k) = True"
| "settles_item _ = False"

text \<open>
  What a worker does: for each key in turn exactly the calls of one pass over it, in the world as it then is, which settle
  nothing with the queue; the answer that pass's outcome asks for (\<open>queue_answer\<close>: forgotten after a success, queued
  again after an error, forgotten when an error that no cleanup waits for has had its retries); the end of the item. And
  nothing else.
\<close>

fun worked_off :: "env \<Rightarrow> controller \<Rightarrow> string list \<Rightarrow> world \<Rightarrow> event list \<Rightarrow> bool" where
  "worked_off E c [] w es = (es = [])"
| "worked_off E c (k # ks) w es =
     (let pass = events_of (reconcileByKey E c k) w; r = result_of (reconcileByKey E c k) w in
      \<not> list_ex settles_item pass \<and>
      (\<exists>rest. es = pass @ queue_answer E c k (w_trace w @ pass) r # EDone (c_gvr c) k # rest \<and>
         worked_off E c ks (world_after E c k w) rest))"

locale worker = reconciler +
  assumes settles_nothing: "K e \<Longrightarrow> \<not> settles_item e"
begin

lemma pass_settles_nothing: "only (\<lambda>e. \<not> settles_item e) (reconcileByKey E c k)"
proof -
  have "only (\<lambda>e. \<not> settles_item e) (Reconcile E c u)" for u
    by (rule only_mono [OF Reconcile_only]) (auto dest: settles_nothing elim: loop_event.elims settles_item.elims)
  then show ?thesis unfolding reconcileByKey_def cachedGet_def by (auto intro!: only_intros)
qed

lemma process_extends: "extends (processNextWorkItem E c (Some k))"
  unfolding processNextWorkItem_def option.case extends_def
  by (intro emits_bind [OF extends_reconcileByKey [unfolded extends_def]] emits_bind [OF emits_conseq [OF handle_outcome_spec]]
      emits_bind [OF emits_queue(3)] emits_return TrueI)

lemma process_more: "result_of (processNextWorkItem E c (Some k)) w"
  by (simp add: processNextWorkItem_def result_of_def State_Monad.return_def split_beta)

lemma runWorker_extends: "extends (runWorker E c ks)"
proof (induction ks)
  case Nil
  then show ?case by (auto simp: processNextWorkItem_def extends_def intro!: emits_bind emits_return)
next
  case (Cons k ks)
  then show ?case unfolding extends_def runWorker.simps
    by (intro emits_bind [OF process_extends [unfolded extends_def]]) (simp add: emits_return)
qed

lemma runWorker_works_off: "worked_off E c ks w (events_of (runWorker E c ks) w)"
proof (induction ks arbitrary: w)
  case Nil
  then show ?case by (simp add: processNextWorkItem_def events_of_def State_Monad.return_def run_state_bind)
next
  case (Cons k ks)
  have next_ext: "extends (if more then runWorker E c ks else ret ())" for more
    using runWorker_extends by (simp add: extends_def emits_return)
  have "\<not> list_ex settles_item (events_of (reconcileByKey E c k) w)"
    using emitsD [OF emits_only [OF pass_settles_nothing]] by (auto simp: list_all_iff list_ex_iff)
  moreover have "events_of (runWorker E c (k # ks)) w = events_of (processNextWorkItem E c (Some k)) w @
      events_of (runWorker E c ks) (world_after E c k w)"
    using process_more [of k w] process_world [of E c k w] by (simp add: events_of_bind [OF process_extends next_ext] result_of_def)
  ultimately show ?case
    unfolding worked_off.simps Let_def process_exact [OF extends_reconcileByKey]
    using Cons.IH by simp
qed

end

end
