(* ===== verification/HostProofs.thy ===== *)
theory HostProofs
  imports Connection
begin

text \<open>
  Whose inventory hosts are written: the lookup every patch and every creation follows, what the
  ownership flag of \<open>UpsertHost\<close> stands for, and the markers that say whose a host is; and the answer of
  AWX that a resolved template rests on.
\<close>

section \<open>Markers\<close>

lemma marker_prefix: "has_prefix (hostOwnerMarker E ns n) hostMarkerPrefix" "has_prefix (runHostOwnerMarker E ns n) hostMarkerPrefix"
  by (simp_all add: hostOwnerMarker_def runHostOwnerMarker_def hostMarkerPrefix_def)

lemma slash_split:
  "CHR ''/'' \<notin> set a \<Longrightarrow> CHR ''/'' \<notin> set b \<Longrightarrow> a @ ''/'' @ x = b @ ''/'' @ y \<longleftrightarrow> a = b \<and> x = y"
proof (induction a arbitrary: b)
  case Nil
  then show ?case by (cases b) auto
next
  case (Cons c a)
  then show ?case by (cases b) auto
qed

text \<open>
  Names of Kubernetes objects hold no slash, so two objects share a marker only if they are the same
  object of the same kind.
\<close>

lemma binding_marker_inj:
  "CHR ''/'' \<notin> set ns \<Longrightarrow> CHR ''/'' \<notin> set ns' \<Longrightarrow>
   hostOwnerMarker E ns n = hostOwnerMarker E ns' n' \<longleftrightarrow> ns = ns' \<and> n = n'"
  using slash_split [of ns ns' n n'] by (simp add: hostOwnerMarker_def)

lemma run_marker_inj:
  "CHR ''/'' \<notin> set ns \<Longrightarrow> CHR ''/'' \<notin> set ns' \<Longrightarrow>
   runHostOwnerMarker E ns n = runHostOwnerMarker E ns' n' \<longleftrightarrow> ns = ns' \<and> n = n'"
  using slash_split [of ns ns' "''ansibleruns/'' @ n" "''ansibleruns/'' @ n'"]
  by (simp add: runHostOwnerMarker_def)

lemma run_binding_marker:
  "CHR ''/'' \<notin> set ns \<Longrightarrow> CHR ''/'' \<notin> set ns' \<Longrightarrow> CHR ''/'' \<notin> set n' \<Longrightarrow>
   runHostOwnerMarker E ns n \<noteq> hostOwnerMarker E ns' n'"
proof
  assume c: "CHR ''/'' \<notin> set ns" "CHR ''/'' \<notin> set ns'" "CHR ''/'' \<notin> set n'"
    and "runHostOwnerMarker E ns n = hostOwnerMarker E ns' n'"
  then have "ns @ ''/'' @ (''ansibleruns/'' @ n) = ns' @ ''/'' @ n'"
    by (simp add: runHostOwnerMarker_def hostOwnerMarker_def)
  with slash_split [OF c(1,2)] have "n' = ''ansibleruns/'' @ n" by blast
  with c(3) show False by simp
qed

section \<open>Looking before writing\<close>

text \<open>A host the owner of \<open>marker\<close> may write to: its own, or one that carries nobody's marker.\<close>

definition writable :: "string \<Rightarrow> hostResult \<Rightarrow> bool" where
  "writable marker h \<longleftrightarrow> trim_space (hr_Description h) = marker \<or> \<not> has_prefix (trim_space (hr_Description h)) hostMarkerPrefix"

definition found_writable :: "string \<Rightarrow> AWXClient \<Rightarrow> int \<Rightarrow> event \<Rightarrow> bool" where
  "found_writable marker c i e \<longleftrightarrow> (\<exists>n name resp h. e = EHttp c (RqHostsByName n name) (Inr resp) \<and>
     ok_code (rs_StatusCode resp) \<and> findHostByName (hosts_of (rs_Body resp)) name = Some h \<and> hr_ID h = i \<and> writable marker h)"

definition found_none :: "AWXClient \<Rightarrow> int \<Rightarrow> string \<Rightarrow> event \<Rightarrow> bool" where
  "found_none c n name e \<longleftrightarrow> (\<exists>resp. e = EHttp c (RqHostsByName n name) (Inr resp) \<and>
     ok_code (rs_StatusCode resp) \<and> findHostByName (hosts_of (rs_Body resp)) name = None)"

text \<open>
  A patch of a host comes right after the lookup that found it writable; a creation right after the
  lookup that found no host of that name, and with \<open>marker\<close> on it.
\<close>

definition write_check :: "string \<Rightarrow> event \<Rightarrow> (event \<Rightarrow> bool) option" where
  "write_check marker e = (case e of
     EHttp c (RqPatchHost i v) a \<Rightarrow> Some (found_writable marker c i)
   | EHttp c (RqCreateHost n name d v) a \<Rightarrow> Some (\<lambda>p. d = marker \<and> found_none c n name p)
   | _ \<Rightarrow> None)"

fun is_host_put :: "event \<Rightarrow> bool" where
  "is_host_put (EHttp c (RqPatchHost i v) a) = True"
| "is_host_put (EHttp c (RqCreateHost n name d v) a) = True"
| "is_host_put _ = False"

lemma write_check_None [simp]: "write_check marker e = None \<longleftrightarrow> \<not> is_host_put e"
  by (auto simp: write_check_def split: event.split awx_req.split)

lemma write_check_puts [simp]:
  "write_check marker (EHttp c (RqPatchHost i v) a) = Some (found_writable marker c i)"
  "write_check marker (EHttp c (RqCreateHost n name d v) a) = Some (\<lambda>p. d = marker \<and> found_none c n name p)"
  by (simp_all add: write_check_def)

abbreviation writes_checked :: "string \<Rightarrow> event list \<Rightarrow> bool" where
  "writes_checked marker \<equiv> preceded (write_check marker)"

lemma writes_none: "list_all (\<lambda>e. \<not> is_host_put e) es \<Longrightarrow> writes_checked marker es"
  by (rule preceded_none) simp

lemma writes_quiet: "only (\<lambda>e. \<not> is_host_put e) m \<Longrightarrow> emits m (\<lambda>_. writes_checked marker)"
  by (rule preceded_quiet) simp

text \<open>What \<open>owned\<close> stands for: the host carries the marker, or was created with it.\<close>

definition owned_host :: "string \<Rightarrow> AWXClient \<Rightarrow> int \<Rightarrow> string \<Rightarrow> int \<Rightarrow> event \<Rightarrow> bool" where
  "owned_host marker c n name i e \<longleftrightarrow>
     (\<exists>resp h. e = EHttp c (RqHostsByName n name) (Inr resp) \<and> findHostByName (hosts_of (rs_Body resp)) name = Some h \<and>
        hr_ID h = i \<and> trim_space (hr_Description h) = marker) \<or>
     (\<exists>v resp. e = EHttp c (RqCreateHost n name marker v) (Inr resp) \<and> ok_code (rs_StatusCode resp) \<and>
        i = hr_ID (host_of (rs_Body resp)))"

lemma emits_FindHost:
  "emits (FindHost E c n name) (\<lambda>r es. \<exists>a. es = [EHttp c (RqHostsByName n name) a] \<and>
     (\<forall>x. r = Inr x \<longrightarrow> (\<exists>resp. a = Inr resp \<and> ok_code (rs_StatusCode resp) \<and>
        x = findHostByName (hosts_of (rs_Body resp)) name)))"
  unfolding FindHost_def by (rule emits_one_request) (auto simp: answered_def split: sum.splits)

definition upsert_ok :: "string \<Rightarrow> AWXClient \<Rightarrow> int \<Rightarrow> string \<Rightarrow> gerr + int \<times> bool \<Rightarrow> event list \<Rightarrow> bool" where
  "upsert_ok marker c n name r es \<longleftrightarrow> writes_checked marker es \<and>
     (\<forall>i. r = Inr (i, True) \<longrightarrow> list_ex (owned_host marker c n name i) es)"

lemma emits_UpsertHost: "emits (UpsertHost E c n name marker vars) (upsert_ok marker c n name)"
  unfolding UpsertHost_def
proof (rule emits_bind [OF emits_FindHost], intro emits_sum emits_option)
  fix r es and x :: gerr
  assume "\<exists>a. es = [EHttp c (RqHostsByName n name) a] \<and>
     (\<forall>x. r = Inr x \<longrightarrow> (\<exists>resp. a = Inr resp \<and> ok_code (rs_StatusCode resp) \<and>
        x = findHostByName (hosts_of (rs_Body resp)) name))"
  then obtain a where es: "es = [EHttp c (RqHostsByName n name) a]"
    and a: "\<And>x. r = Inr x \<Longrightarrow> \<exists>resp. a = Inr resp \<and> ok_code (rs_StatusCode resp) \<and>
        x = findHostByName (hosts_of (rs_Body resp)) name" by blast
  have q: "upsert_ok marker c n name r' (es @ [])" if "\<And>i. r' \<noteq> Inr (i, True)" for r'
    using that by (auto simp: es upsert_ok_def intro: writes_none)
  show "emits (ret (Inl x)) (\<lambda>r' es'. upsert_ok marker c n name r' (es @ es'))"
    by (rule emits_return, rule q) simp
  fix y
  assume r: "r = Inr y"
  from a [OF r] obtain resp where resp: "a = Inr resp" "ok_code (rs_StatusCode resp)"
    "findHostByName (hosts_of (rs_Body resp)) name = y" by blast
  show "emits (awx_do E c (RqCreateHost n name marker (json_marshal (e_floatText E) (str_map vars))) True \<bind> (\<lambda>r. ret (case r of
           Inl err \<Rightarrow> Inl (errorw f_create_host [name] err) | Inr body \<Rightarrow> Inr (hr_ID (host_of body), True))))
      (\<lambda>r' es'. upsert_ok marker c n name r' (es @ es'))" if "y = None"
    by (rule emits_one_request)
      (use resp that in \<open>auto simp: answered_def es upsert_ok_def found_none_def owned_host_def split: sum.splits
        intro!: preceded_two\<close>)
  fix h
  assume h: "y = Some h"
  have own: "upsert_ok marker c n name (Inr (hr_ID h, trim_space (hr_Description h) = marker)) (es @ [])"
    using resp h by (auto simp: es upsert_ok_def owned_host_def intro: writes_none)
  have p: "upsert_ok marker c n name r' (es @ [EHttp c (RqPatchHost (hr_ID h) v) a'])"
    if "writable marker h" "\<And>i. r' = Inr (i, True) \<Longrightarrow> i = hr_ID h \<and> trim_space (hr_Description h) = marker" for r' v a'
  proof -
    have "writes_checked marker [EHttp c (RqHostsByName n name) a, EHttp c (RqPatchHost (hr_ID h) v) a']"
      using resp h that(1) by (intro preceded_two) (auto simp: found_writable_def)
    with resp h that(2) show ?thesis by (auto simp: es upsert_ok_def owned_host_def)
  qed
  show "emits (let existingMarker = trim_space (hr_Description h) in
           if existingMarker \<noteq> marker \<and> has_prefix existingMarker hostMarkerPrefix
           then ret (Inl (errorf f_foreign_host [name, existingMarker]))
           else (case mergeHostVariables E (hr_Variables h) vars of
               Inl mErr \<Rightarrow> ret (Inl (errorw f_update_host [name] mErr))
             | Inr merged \<Rightarrow>
                 if merged \<noteq> trim_space (hr_Variables h) then do {
                   r \<leftarrow> awx_do E c (RqPatchHost (hr_ID h) merged) False;
                   ret (case r of
                      Inl err \<Rightarrow> Inl (errorw f_update_host [name] err)
                    | Inr _ \<Rightarrow> Inr (hr_ID h, existingMarker = marker))
                 }
                 else ret (Inr (hr_ID h, existingMarker = marker))))
      (\<lambda>r' es'. upsert_ok marker c n name r' (es @ es'))"
    unfolding Let_def
  proof (intro emits_if emits_sum emits_one_request emits_return, goal_cases)
    case (3 v x es')
    then obtain a' where e: "es' = [EHttp c (RqPatchHost (hr_ID h) v) a']" by (auto simp: answered_def)
    from 3(1) have "writable marker h" by (auto simp: writable_def)
    then show ?case unfolding e by (rule p) (auto split: sum.splits)
  next
    case 4
    then show ?case using own by simp
  qed (use q in auto)
qed

section \<open>The host of a run's target\<close>

lemma upsert_ok_prefix:
  "list_all (\<lambda>e. \<not> is_host_put e) xs \<Longrightarrow> upsert_ok marker c n name r es \<Longrightarrow> upsert_ok marker c n name r (xs @ es)"
  unfolding upsert_ok_def by (auto intro: preceded_append writes_none)

text \<open>
  A target that exists under somebody else's marker, or nobody's, is used as it is: nothing is
  written to it, and a run that asked for writes is refused.
\<close>

lemma emits_resolveRunHost:
  "emits (resolveRunHost E c n t marker) (\<lambda>r es. upsert_ok marker c n (rn_Name t) r es \<and>
     (\<exists>a rest. es = EHttp c (RqHostsByName n (rn_Name t)) a # rest \<and>
        (\<forall>resp h. a = Inr resp \<and> ok_code (rs_StatusCode resp) \<and> findHostByName (hosts_of (rs_Body resp)) (rn_Name t) = Some h \<and>
           trim_space (hr_Description h) \<noteq> marker \<longrightarrow>
           rest = [] \<and> (\<forall>i o'. r = Inr (i, o') \<longrightarrow> \<not> o' \<and> \<not> requestsHostWrites t))))"
  unfolding resolveRunHost_def
proof (rule emits_bind [OF emits_FindHost], intro emits_sum)
  fix r es
  let ?f = "EHttp c (RqHostsByName n (rn_Name t))"
  assume "\<exists>a. es = [?f a] \<and>
     (\<forall>x. r = Inr x \<longrightarrow> (\<exists>resp. a = Inr resp \<and> ok_code (rs_StatusCode resp) \<and>
        x = findHostByName (hosts_of (rs_Body resp)) (rn_Name t)))"
  then obtain a where es: "es = [?f a]" and a: "\<And>x. r = Inr x \<Longrightarrow> \<exists>resp. a = Inr resp \<and> ok_code (rs_StatusCode resp) \<and>
        x = findHostByName (hosts_of (rs_Body resp)) (rn_Name t)" by blast
  let ?R = "\<lambda>r es. upsert_ok marker c n (rn_Name t) r es \<and>
     (\<exists>a rest. es = ?f a # rest \<and>
        (\<forall>resp h. a = Inr resp \<and> ok_code (rs_StatusCode resp) \<and> findHostByName (hosts_of (rs_Body resp)) (rn_Name t) = Some h \<and>
           trim_space (hr_Description h) \<noteq> marker \<longrightarrow>
           rest = [] \<and> (\<forall>i o'. r = Inr (i, o') \<longrightarrow> \<not> o' \<and> \<not> requestsHostWrites t)))"
  have q: "?R r' (es @ [])" if "\<And>i. r' \<noteq> Inr (i, True)" "\<And>i o'. r' = Inr (i, o') \<Longrightarrow> \<not> requestsHostWrites t" for r'
    using that by (auto simp: es upsert_ok_def intro: writes_none)
  show "emits (ret (Inl x)) (\<lambda>r' es'. ?R r' (es @ es'))" for x :: gerr
    by (rule emits_return, rule q) simp_all
  fix y
  assume r: "r = Inr y"
  from a [OF r] obtain resp where resp: "a = Inr resp" "ok_code (rs_StatusCode resp)"
    "findHostByName (hosts_of (rs_Body resp)) (rn_Name t) = y" by blast
  have up: "emits (upsertInventoryHost E c n (rn_Name t) marker (rn_Address t) (rn_Overrides t)) (\<lambda>r' es'. ?R r' (es @ es'))"
    if "\<And>h. y = Some h \<Longrightarrow> trim_space (hr_Description h) = marker"
    unfolding upsertInventoryHost_def
  proof (rule emits_conseq [OF emits_UpsertHost])
    fix r' es'
    assume "upsert_ok marker c n (rn_Name t) r' es'"
    then have "upsert_ok marker c n (rn_Name t) r' (es @ es')" by (rule upsert_ok_prefix [rotated]) (simp add: es)
    with that resp show "?R r' (es @ es')" by (auto simp: es)
  qed
  show "emits (case y of
             None \<Rightarrow> upsertInventoryHost E c n (rn_Name t) marker (rn_Address t) (rn_Overrides t)
           | Some h \<Rightarrow>
               if trim_space (hr_Description h) = marker
               then upsertInventoryHost E c n (rn_Name t) marker (rn_Address t) (rn_Overrides t)
               else if requestsHostWrites t then ret (Inl (terminalf f_visitor [rn_Name t]))
               else ret (Inr (hr_ID h, False))) (\<lambda>r' es'. ?R r' (es @ es'))"
    by (intro emits_option emits_if up emits_return q) auto
qed

section \<open>Deletions of hosts\<close>

text \<open>Every deletion of a host is backed by what came before it.\<close>

definition deletes_backed :: "(AWXClient \<Rightarrow> int \<Rightarrow> event list \<Rightarrow> bool) \<Rightarrow> event list \<Rightarrow> bool" where
  "deletes_backed F es \<longleftrightarrow> (\<forall>pre c i a post. es = pre @ EHttp c (RqDeleteHost i) a # post \<longrightarrow> F c i pre)"

abbreviation deletes_found :: "(AWXClient \<Rightarrow> int \<Rightarrow> event \<Rightarrow> bool) \<Rightarrow> event list \<Rightarrow> bool" where
  "deletes_found F \<equiv> deletes_backed (\<lambda>c i. list_ex (F c i))"

lemma deletes_none: "list_all (\<lambda>e. \<not> is_host_delete e) es \<Longrightarrow> deletes_backed F es"
  by (auto simp: deletes_backed_def)

definition deletes_in :: "(AWXClient \<Rightarrow> int \<Rightarrow> bool) \<Rightarrow> event \<Rightarrow> bool" where
  "deletes_in D e \<longleftrightarrow> (\<forall>c i a. e = EHttp c (RqDeleteHost i) a \<longrightarrow> D c i)"

lemma deletes_in_other: "\<not> is_host_delete e \<Longrightarrow> deletes_in D e"
  by (auto simp: deletes_in_def)

lemma deletes_after:
  assumes "list_all (\<lambda>e. \<not> is_host_delete e) xs" "list_all (deletes_in D) es" "\<And>c i zs. D c i \<Longrightarrow> F c i (xs @ zs)"
  shows "deletes_backed F (xs @ es)"
  unfolding deletes_backed_def
proof (intro allI impI)
  fix pre c i a post
  assume e: "xs @ es = pre @ EHttp c (RqDeleteHost i) a # post"
  then consider zs where "xs = pre @ EHttp c (RqDeleteHost i) a # zs" | zs where "pre = xs @ zs" "es = zs @ EHttp c (RqDeleteHost i) a # post"
    unfolding append_eq_append_conv2 by (metis append.right_neutral append_eq_Cons_conv append_Nil)
  then show "F c i pre"
  proof cases
    case 1
    with assms(1) show ?thesis by simp
  next
    case (2 zs)
    with assms(2) have "D c i" by (simp add: deletes_in_def)
    with assms(3) 2 show ?thesis by simp
  qed
qed

section \<open>The connection a launch goes through\<close>

text \<open>The object of this name, from the informer's store or from a read in this pass.\<close>

definition conn_read :: "env \<Rightarrow> string \<Rightarrow> string \<Rightarrow> AWXConnection \<Rightarrow> event list \<Rightarrow> bool" where
  "conn_read E ns ref conn es \<longleftrightarrow> (\<exists>u. convertAWXConnection u = Inr conn \<and>
     (EGet AWXConnGVR ns ref (Inr u) \<in> set es \<or> (\<exists>t. e_store E t AWXConnGVR (key ns ref) = Some u)))"

lemma conn_read_more: "conn_read E ns ref conn es \<Longrightarrow> set es \<subseteq> set es' \<Longrightarrow> conn_read E ns ref conn es'"
  unfolding conn_read_def by blast

lemma conn_read_prefix: "conn_read E ns ref conn ys \<Longrightarrow> conn_read E ns ref conn (xs @ ys)"
  by (erule conn_read_more) simp

lemma emits_getAWXConnection:
  "emits (getAWXConnection E ns ref) (\<lambda>r es. \<forall>u conn. r = Inr u \<longrightarrow> convertAWXConnection u = Inr conn \<longrightarrow> conn_read E ns ref conn es)"
proof -
  have p: "emits (cachedGet E g ns n) (\<lambda>r es. \<forall>u. r = Some u \<longrightarrow> (\<exists>t. e_store E t g (key ns n) = Some u))" for g n
    unfolding cachedGet_def emits_def peek_def by auto
  show ?thesis
    unfolding getAWXConnection_def
  proof (rule emits_bind [OF p], rule emits_option, goal_cases)
    case (1 c es)
    show ?case
    proof (rule emits_conseq [OF does_Get])
      fix r es'
      assume "\<exists>a. r = api_result a \<and> es' = [EGet AWXConnGVR ns ref a]"
      then obtain a where a: "r = api_result a" "es' = [EGet AWXConnGVR ns ref a]" by blast
      then show "\<forall>u conn. r = Inr u \<longrightarrow> convertAWXConnection u = Inr conn \<longrightarrow> conn_read E ns ref conn (es @ es')"
        by (cases a) (auto simp: conn_read_def)
    qed
  qed (auto simp: conn_read_def intro!: emits_return)
qed

section \<open>The template a launch rests on\<close>

definition template_answer :: "AWXClient \<Rightarrow> TemplateRef \<Rightarrow> AWXTemplate \<Rightarrow> event \<Rightarrow> bool" where
  "template_answer c ref tmpl e \<longleftrightarrow> (\<exists>resp t. e = EHttp c (RqTemplates (tr_Type ref = TemplateTypeWorkflow) (tr_Name ref)) (Inr resp) \<and>
     ok_code (rs_StatusCode resp) \<and> [x \<leftarrow> templates_of (rs_Body resp). tq_Name x = tr_Name ref] = [t] \<and>
     tmpl = \<lparr>tp_ID = tq_ID t, tp_Inventory = tq_Inventory t, tp_AskLimitOnLaunch = tq_AskLimitOnLaunch t,
       tp_AskVariablesOnLaunch = tq_AskVariablesOnLaunch t\<rparr>)"

lemma emits_findTemplate:
  assumes "iw = (tr_Type ref = TemplateTypeWorkflow)"
  shows "emits (findTemplate E c iw (tr_Name ref)) (\<lambda>r es. \<forall>t. r = Inr t \<longrightarrow> list_ex (template_answer c ref t) es)"
  unfolding findTemplate_def
proof (rule emits_one_request)
  fix x es
  assume "answered c (RqTemplates iw (tr_Name ref)) True x es"
  then show "\<forall>t. (case x of Inl err \<Rightarrow> Inl err
      | Inr body \<Rightarrow>
          (let exact = filter (\<lambda>t. tq_Name t = tr_Name ref) (templates_of body) in
           case exact of
             [] \<Rightarrow> Inl (errorw f_tmpl_missing [kind_text iw, tr_Name ref] PermanentConfigE)
           | [t] \<Rightarrow> Inr \<lparr>tp_ID = tq_ID t, tp_Inventory = tq_Inventory t,
               tp_AskLimitOnLaunch = tq_AskLimitOnLaunch t, tp_AskVariablesOnLaunch = tq_AskVariablesOnLaunch t\<rparr>
           | _ \<Rightarrow> Inl (errorw f_tmpl_ambiguous [kind_text iw, tr_Name ref, itoa (int (length exact)),
               join '', '' (map (\<lambda>t. itoa (tq_ID t)) exact)] PermanentConfigE))) = Inr t \<longrightarrow>
      list_ex (template_answer c ref t) es"
    using assms by (fastforce simp: answered_def template_answer_def Let_def split: sum.splits list.splits)
qed

lemma emits_resolveTemplate:
  "emits (resolveTemplate E c ref) (\<lambda>r es. \<forall>t. r = Inr t \<longrightarrow> list_ex (template_answer c ref t) es)"
  unfolding resolveTemplate_def FindJobTemplate_def FindWorkflowJobTemplate_def
proof (intro emits_if emits_return)
  assume t: "tr_Type ref = TemplateTypeJob \<or> tr_Type ref = TemplateTypeWorkflow"
  have f: "emits (if tr_Type ref = TemplateTypeJob then findTemplate E c False (tr_Name ref) else findTemplate E c True (tr_Name ref))
      (\<lambda>r es. \<forall>t. r = Inr t \<longrightarrow> list_ex (template_answer c ref t) es)"
    by (rule emits_if; rule emits_findTemplate) (use t in \<open>auto simp: TemplateTypeJob_def TemplateTypeWorkflow_def\<close>)
  show "emits (do {
        r \<leftarrow> (if tr_Type ref = TemplateTypeJob then findTemplate E c False (tr_Name ref)
             else findTemplate E c True (tr_Name ref));
        ret (case r of Inl err \<Rightarrow> Inl (errorw f_tmpl_resolve [tr_Name ref] err) | Inr t \<Rightarrow> Inr t) })
      (\<lambda>r es. \<forall>t. r = Inr t \<longrightarrow> list_ex (template_answer c ref t) es)"
    by (rule emits_bind [OF f]) (auto intro!: emits_return split: sum.splits)
qed simp

lemma emits_resolveTemplateForLaunch:
  "emits (resolveTemplateForLaunch E c ck ref) (\<lambda>r es. \<forall>t. r = Inr t \<longrightarrow> list_ex (template_answer c ref t) es)"
proof -
  have ct: "emits (cacheTemplate E k t) (\<lambda>_ _. True)" for k t
    unfolding cacheTemplate_def by (rule emits_top) (auto intro!: only_intros)
  show ?thesis
    unfolding resolveTemplateForLaunch_def resolve_and_cache_def
    by (rule emits_bind [OF emits_resolveTemplate], intro emits_sum emits_return emits_bind [OF ct]) auto
qed

section \<open>Jobs and launches\<close>

text \<open>The job was read to be in a final state.\<close>

definition stopped :: "int \<Rightarrow> event \<Rightarrow> bool" where
  "stopped j e \<longleftrightarrow> (\<exists>c iw st. job_read c iw j st e \<and> isTerminalAWXStatus st)"

text \<open>
  At most one launch, and \<open>P\<close> holds of what came before it and of the launch itself.
\<close>

definition launches_once :: "(event list \<Rightarrow> event \<Rightarrow> bool) \<Rightarrow> event list \<Rightarrow> bool" where
  "launches_once P es \<longleftrightarrow> list_all (\<lambda>e. \<not> is_launch e) es \<or>
     (\<exists>pre e post. es = pre @ e # post \<and> list_all (\<lambda>e. \<not> is_launch e) (pre @ post) \<and> is_launch e \<and> P pre e)"

lemma launches_once_quiet: "list_all (\<lambda>e. \<not> is_launch e) es \<Longrightarrow> launches_once P es"
  by (simp add: launches_once_def)

lemma launches_once_here:
  "is_launch e \<Longrightarrow> P [] e \<Longrightarrow> list_all (\<lambda>e. \<not> is_launch e) post \<Longrightarrow> launches_once P (e # post)"
  unfolding launches_once_def by (metis append_Nil)

lemma launches_once_prefix:
  assumes "list_all (\<lambda>e. \<not> is_launch e) xs" "launches_once P es" "\<And>pre e. P pre e \<Longrightarrow> Q (xs @ pre) e"
  shows "launches_once Q (xs @ es)"
proof (cases "list_all (\<lambda>e. \<not> is_launch e) es")
  case True
  with assms(1) show ?thesis by (simp add: launches_once_def)
next
  case False
  with assms(2) obtain pre e post where e: "es = pre @ e # post" "list_all (\<lambda>e. \<not> is_launch e) (pre @ post)"
    "is_launch e" "P pre e" unfolding launches_once_def by blast
  then show ?thesis
    unfolding launches_once_def using assms(1,3)
    by (intro disjI2 exI [of _ "xs @ pre"] exI [of _ e] exI [of _ post]) auto
qed

lemma launches_once_suffix:
  assumes "launches_once P es" "list_all (\<lambda>e. \<not> is_launch e) xs"
  shows "launches_once P (es @ xs)"
proof (cases "list_all (\<lambda>e. \<not> is_launch e) es")
  case False
  with assms(1) obtain pre e post where "es = pre @ e # post" "list_all (\<lambda>e. \<not> is_launch e) (pre @ post)"
    "is_launch e" "P pre e" unfolding launches_once_def by blast
  with assms(2) show ?thesis
    unfolding launches_once_def by (intro disjI2 exI [of _ pre] exI [of _ e] exI [of _ "post @ xs"]) auto
qed (use assms in \<open>simp add: launches_once_def\<close>)

lemma launches_once_mono: "launches_once P es \<Longrightarrow> (\<And>pre e. P pre e \<Longrightarrow> Q pre e) \<Longrightarrow> launches_once Q es"
  unfolding launches_once_def by blast

lemma launches_once_count: "launches_once P es \<Longrightarrow> length (filter is_launch es) \<le> 1"
  unfolding launches_once_def by (auto simp: filter_none)

lemma emits_once_quiet: "only (\<lambda>e. \<not> is_launch e) m \<Longrightarrow> emits m (\<lambda>_. launches_once P)"
  unfolding only_def by (erule emits_conseq) (rule launches_once_quiet)

lemma emits_once_bind:
  assumes "emits m (\<lambda>a es. list_all (\<lambda>e. \<not> is_launch e) es \<and> R a es)"
    and "\<And>a es. R a es \<Longrightarrow> emits (f a) (\<lambda>_. launches_once (\<lambda>pre. P (es @ pre)))"
  shows "emits (m \<bind> f) (\<lambda>_. launches_once P)"
  by (rule emits_bind [OF assms(1)], rule emits_conseq [OF assms(2)]) (auto intro: launches_once_prefix)

text \<open>The host of the limit was looked up.\<close>

definition looked_up :: "AWXClient \<Rightarrow> int \<Rightarrow> string \<Rightarrow> event \<Rightarrow> bool" where
  "looked_up c n name e \<longleftrightarrow> (\<exists>resp. e = EHttp c (RqHostsByName n name) (Inr resp) \<and> ok_code (rs_StatusCode resp))"

lemma emits_UpsertHost_looked:
  "emits (UpsertHost E c n name marker vars) (\<lambda>r es. \<forall>x. r = Inr x \<longrightarrow> list_ex (looked_up c n name) es)"
  unfolding UpsertHost_def
proof (rule emits_bind [OF emits_FindHost], intro emits_sum)
  fix r es and y :: "hostResult option"
  assume "\<exists>a. es = [EHttp c (RqHostsByName n name) a] \<and>
     (\<forall>x. r = Inr x \<longrightarrow> (\<exists>resp. a = Inr resp \<and> ok_code (rs_StatusCode resp) \<and>
        x = findHostByName (hosts_of (rs_Body resp)) name))" and "r = Inr y"
  then have l: "list_ex (looked_up c n name) es" by (auto simp: looked_up_def)
  show "emits (case y of
             None \<Rightarrow> awx_do E c (RqCreateHost n name marker (json_marshal (e_floatText E) (str_map vars))) True \<bind> (\<lambda>r. ret (case r of
           Inl err \<Rightarrow> Inl (errorw f_create_host [name] err) | Inr body \<Rightarrow> Inr (hr_ID (host_of body), True)))
           | Some h \<Rightarrow> let existingMarker = trim_space (hr_Description h) in
           if existingMarker \<noteq> marker \<and> has_prefix existingMarker hostMarkerPrefix
           then ret (Inl (errorf f_foreign_host [name, existingMarker]))
           else (case mergeHostVariables E (hr_Variables h) vars of
               Inl mErr \<Rightarrow> ret (Inl (errorw f_update_host [name] mErr))
             | Inr merged \<Rightarrow>
                 if merged \<noteq> trim_space (hr_Variables h) then do {
                   r \<leftarrow> awx_do E c (RqPatchHost (hr_ID h) merged) False;
                   ret (case r of
                      Inl err \<Rightarrow> Inl (errorw f_update_host [name] err)
                    | Inr _ \<Rightarrow> Inr (hr_ID h, existingMarker = marker))
                 }
                 else ret (Inr (hr_ID h, existingMarker = marker))))
      (\<lambda>b es'. \<forall>x. b = Inr x \<longrightarrow> list_ex (looked_up c n name) (es @ es'))"
    unfolding Let_def by (intro emits_option emits_if emits_sum emits_one_request emits_return) (simp_all add: l)
qed (simp add: emits_return)

text \<open>The status functions of the kinds read nothing but the clock.\<close>

lemma clock_updateGenericStatus: "only is_clock (updateGenericStatus E u ok err)"
  unfolding updateGenericStatus_def by (auto intro!: only_intros)

end
