(* ===== verification/RunCleanup.thy ===== *)
theory RunCleanup
  imports Workqueue RunProofs HostProofs
begin

text \<open>
  What finalizing an \<open>AnsibleRun\<close> deletes: only hosts recorded as created by it, each read back
  with this run's marker immediately before, and never while a job it started may still be going.
\<close>

section \<open>Checked deletions\<close>

definition host_read_as :: "string \<Rightarrow> AWXClient \<Rightarrow> int \<Rightarrow> event \<Rightarrow> bool" where
  "host_read_as marker c i e \<longleftrightarrow> (\<exists>resp. e = EHttp c (RqGetHost i) (Inr resp) \<and> ok_code (rs_StatusCode resp) \<and>
     trim_space (hr_Description (host_of (rs_Body resp))) = marker)"

text \<open>
  Every deletion of a host is of one of \<open>ids\<close>, and the event just before it is the read of that host
  with the marker.
\<close>

definition delete_check :: "string \<Rightarrow> int set \<Rightarrow> event \<Rightarrow> (event \<Rightarrow> bool) option" where
  "delete_check marker ids e = (case e of
     EHttp c (RqDeleteHost i) a \<Rightarrow> Some (\<lambda>d. i \<in> ids \<and> host_read_as marker c i d)
   | _ \<Rightarrow> None)"

abbreviation deletes_checked :: "string \<Rightarrow> int set \<Rightarrow> event list \<Rightarrow> bool" where
  "deletes_checked marker ids \<equiv> preceded (delete_check marker ids)"

lemma delete_check_None [simp]: "delete_check marker ids e = None \<longleftrightarrow> \<not> is_host_delete e"
  by (auto simp: delete_check_def split: event.split awx_req.split)

lemma delete_check_Http [simp]:
  "delete_check marker ids (EHttp c (RqDeleteHost i) a) = Some (\<lambda>d. i \<in> ids \<and> host_read_as marker c i d)"
  by (simp add: delete_check_def)

lemma deletes_checked_none: "list_all (\<lambda>e. \<not> is_host_delete e) es \<Longrightarrow> deletes_checked marker ids es"
  by (rule preceded_none) simp

lemma deletes_checked_mono: "deletes_checked marker ids es \<Longrightarrow> ids \<subseteq> ids' \<Longrightarrow> deletes_checked marker ids' es"
  by (erule preceded_mono) (auto simp: delete_check_def split: event.splits awx_req.splits)

lemma deletes_checked_two:
  "host_read_as marker c i e \<Longrightarrow> i \<in> ids \<Longrightarrow> \<not> is_host_delete e \<Longrightarrow>
   deletes_checked marker ids [e, EHttp c (RqDeleteHost i) a]"
  by (rule preceded_two) auto

lemma checked_bind_quiet:
  "emits m (\<lambda>_. deletes_checked marker ids) \<Longrightarrow> (\<And>a. only (\<lambda>e. \<not> is_host_delete e) (f a)) \<Longrightarrow>
   emits (m \<bind> f) (\<lambda>_. deletes_checked marker ids)"
  by (erule preceded_bind, rule preceded_quiet) simp

text \<open>One host, and the loop.\<close>

text \<open>
  A host is settled when AWX said it is not there, was read under another marker, or was deleted.
\<close>

definition host_settled :: "string \<Rightarrow> AWXClient \<Rightarrow> int \<Rightarrow> event \<Rightarrow> bool" where
  "host_settled marker c i e \<longleftrightarrow> (\<exists>resp. e = EHttp c (RqGetHost i) (Inr resp) \<and>
       (rs_StatusCode resp = HTTP_NOT_FOUND \<or>
        ok_code (rs_StatusCode resp) \<and> trim_space (hr_Description (host_of (rs_Body resp))) \<noteq> marker)) \<or>
     (\<exists>resp. e = EHttp c (RqDeleteHost i) (Inr resp) \<and> (rs_StatusCode resp = HTTP_NOT_FOUND \<or> ok_code (rs_StatusCode resp)))"

definition hosts_settled :: "string \<Rightarrow> AWXClient \<Rightarrow> int set \<Rightarrow> event list \<Rightarrow> bool" where
  "hosts_settled marker c ids es \<longleftrightarrow> (\<forall>i \<in> ids. list_ex (host_settled marker c i) es)"

lemma hosts_settled_more: "hosts_settled marker c ids es \<Longrightarrow> hosts_settled marker c ids (xs @ es) \<and> hosts_settled marker c ids (es @ xs)"
  by (simp add: hosts_settled_def)

lemma emits_delete_run_host:
  "emits (delete_run_host E c marker h) (\<lambda>r es. deletes_checked marker {rhs_AWXHostID h} es \<and>
     (r = None \<longrightarrow> hosts_settled marker c {rhs_AWXHostID h} es))"
  unfolding delete_run_host_def
proof (rule emits_bind [OF emits_GetHostByID])
  fix r :: "gerr + hostResult option" and es
  let ?i = "rhs_AWXHostID h"
  assume "\<exists>a. es = [EHttp c (RqGetHost ?i) a] \<and>
     (\<forall>x. r = Inr (Some x) \<longrightarrow> (\<exists>resp. a = Inr resp \<and> ok_code (rs_StatusCode resp) \<and> x = host_of (rs_Body resp))) \<and>
     (r = Inr None \<longrightarrow> (\<exists>resp. a = Inr resp \<and> rs_StatusCode resp = HTTP_NOT_FOUND))"
  then obtain a where es: "es = [EHttp c (RqGetHost ?i) a]"
    and a: "\<And>x. r = Inr (Some x) \<Longrightarrow> \<exists>resp. a = Inr resp \<and> ok_code (rs_StatusCode resp) \<and> x = host_of (rs_Body resp)"
    and gone: "r = Inr None \<Longrightarrow> hosts_settled marker c {?i} es"
    by (auto simp: hosts_settled_def host_settled_def)
  have quiet: "deletes_checked marker {?i} es" by (simp add: es deletes_checked_none)
  have other: "hosts_settled marker c {?i} es" if "r = Inr (Some x)" "trim_space (hr_Description x) \<noteq> marker" for x
    using a [OF that(1)] that(2) by (auto simp: es hosts_settled_def host_settled_def)
  have del: "emits (DeleteHost E c ?i \<bind> (\<lambda>e. ret (map_option g e)))
      (\<lambda>r es'. deletes_checked marker {?i} (es @ es') \<and> (r = None \<longrightarrow> hosts_settled marker c {?i} (es @ es')))"
    if x: "r = Inr (Some x)" "trim_space (hr_Description x) = marker" for x and g :: "gerr \<Rightarrow> gerr"
    using a [OF x(1)] x(2)
    by (auto intro!: emits_bind [OF emits_DeleteHost] emits_return deletes_checked_two
        simp: es host_read_as_def hosts_settled_def host_settled_def)
  show "emits (case r of
        Inl hErr \<Rightarrow> ret (Some (errorw f_final_readhost [itoa ?i, rhs_Name h] hErr))
      | Inr None \<Rightarrow> ret None
      | Inr (Some host) \<Rightarrow>
          if trim_space (hr_Description host) \<noteq> marker then ret None
          else do {
            e \<leftarrow> DeleteHost E c ?i;
            ret (map_option (errorw f_final_delhost [itoa ?i, rhs_Name h]) e)
          }) (\<lambda>r es'. deletes_checked marker {?i} (es @ es') \<and> (r = None \<longrightarrow> hosts_settled marker c {?i} (es @ es')))"
    by (intro emits_sum emits_option emits_if emits_return del) (simp_all add: quiet gone other)
qed

lemma emits_delete_run_hosts:
  "emits (delete_run_hosts E c marker hs e) (\<lambda>r es. deletes_checked marker (rhs_AWXHostID ` set hs) es \<and>
     (r = None \<longrightarrow> e = None \<and> hosts_settled marker c (rhs_AWXHostID ` set hs) es))"
proof (induction hs arbitrary: e)
  case Nil
  then show ?case by (simp add: emits_return deletes_checked_none hosts_settled_def)
next
  case (Cons h hs)
  show ?case unfolding delete_run_hosts.simps
  proof (rule emits_bind [OF emits_delete_run_host], rule emits_conseq [OF Cons])
    fix r es r' es'
    assume "deletes_checked marker {rhs_AWXHostID h} es \<and> (r = None \<longrightarrow> hosts_settled marker c {rhs_AWXHostID h} es)"
      and "deletes_checked marker (rhs_AWXHostID ` set hs) es' \<and> (r' = None \<longrightarrow>
        (case e of None \<Rightarrow> r | Some x \<Rightarrow> Some x) = None \<and> hosts_settled marker c (rhs_AWXHostID ` set hs) es')"
    then show "deletes_checked marker (rhs_AWXHostID ` set (h # hs)) (es @ es') \<and>
        (r' = None \<longrightarrow> e = None \<and> hosts_settled marker c (rhs_AWXHostID ` set (h # hs)) (es @ es'))"
      by (auto simp: hosts_settled_def split: option.splits intro: preceded_append deletes_checked_mono)
  qed
qed

section \<open>Waiting for the job\<close>

text \<open>AWX was seen to have the job stopped, or the wait since the cancel request is over.\<close>

definition waited_out :: "event list \<Rightarrow> stamp \<Rightarrow> bool" where
  "waited_out es requested \<longleftrightarrow> (\<exists>t now. parse_time requested = Some t \<and> ENow now \<in> set es \<and>
     time_sub now t > cancelConfirmTimeout)"

lemma emits_cancel_waited:
  "emits (cancel_waited E st) (\<lambda>b es. list_all is_clock es \<and> (b \<longrightarrow> waited_out es (rt_CancelRequestedAt st)))"
  unfolding cancel_waited_def
  by (auto intro!: emits_option emits_return emits_bind [OF does_Since] simp: waited_out_def)

lemma only_request_cancel:
  "(\<And>c iw i a. K (EHttp c (RqCancelJob iw i) a)) \<Longrightarrow> (\<And>t. K (ENow t)) \<Longrightarrow>
   (\<And>d a. K (EApplyStatus AnsRunGVR (md_Namespace (u_meta u)) (md_Name (u_meta u)) (PRun (runStatusDetails d))
      runDetailsFieldManager a)) \<Longrightarrow> only K (request_cancel E u st awx)"
  unfolding request_cancel_def Let_def by (auto intro!: only_intros)

lemma only_confirm_stopped:
  "(\<And>c iw i a. K (EHttp c (RqJob iw i) a)) \<Longrightarrow> (\<And>t. K (ENow t)) \<Longrightarrow>
   (\<And>d a. K (EApplyStatus AnsRunGVR (md_Namespace (u_meta u)) (md_Name (u_meta u)) (PRun (runStatusDetails d))
      runDetailsFieldManager a)) \<Longrightarrow> only K (confirm_stopped E u run st awx)"
  unfolding confirm_stopped_def judge_stopped_def cancel_waited_def Let_def by (auto intro!: only_intros)

lemma only_cancelAndConfirm:
  "(\<And>c iw i a. K (EHttp c (RqCancelJob iw i) a)) \<Longrightarrow> (\<And>c iw i a. K (EHttp c (RqJob iw i) a)) \<Longrightarrow> (\<And>t. K (ENow t)) \<Longrightarrow>
   (\<And>d a. K (EApplyStatus AnsRunGVR (md_Namespace (u_meta u)) (md_Name (u_meta u)) (PRun (runStatusDetails d))
      runDetailsFieldManager a)) \<Longrightarrow> only K (cancelAndConfirm E u run st awx)"
  unfolding cancelAndConfirm_def by (intro only_bind only_prod only_option only_return only_request_cancel only_confirm_stopped)

definition job_over :: "int \<Rightarrow> stamp \<Rightarrow> event list \<Rightarrow> bool" where
  "job_over j requested es \<longleftrightarrow> list_ex (stopped j) es \<or> waited_out es requested"

lemma job_over_more: "job_over j rq es \<Longrightarrow> job_over j rq (xs @ es) \<and> job_over j rq (es @ xs)"
  by (auto simp: job_over_def waited_out_def)

lemma emits_judge_stopped:
  "emits (judge_stopped E u st awxStatus) (\<lambda>x es. rt_CancelRequestedAt (fst x) = rt_CancelRequestedAt st \<and>
     (\<forall>res. snd x = Inr res \<and> cr_Done res \<longrightarrow> isTerminalAWXStatus awxStatus \<or> waited_out es (rt_CancelRequestedAt st)))"
proof -
  have w: "emits (if c then writeRunDetails E u st' else ret None) (\<lambda>_ _. True)" for c st'
    by (rule emits_top) (auto intro!: only_intros)
  show ?thesis
    unfolding judge_stopped_def Let_def
    by (rule emits_bind [OF w], intro emits_option emits_if emits_return emits_bind [OF emits_cancel_waited])
      (auto simp: waited_out_def cleanup_done_def cleanup_later_def)
qed

lemma emits_confirm_stopped: "emits (confirm_stopped E u run st awx)
   (\<lambda>x es. \<forall>res. snd x = Inr res \<and> cr_Done res \<longrightarrow> job_over (rt_JobID st) (rt_CancelRequestedAt st) es)"
  unfolding confirm_stopped_def
proof (rule emits_bind [OF emits_pollJobStatus], intro emits_sum)
  fix r :: "gerr + string" and es s
  let ?e = "EHttp (ax_client awx) (RqJob (tr_Type (rs_Template (run_spec run)) = TemplateTypeWorkflow) (rt_JobID st))"
  assume "\<exists>a. es = [?e a] \<and> (\<forall>s. r = Inr s \<longrightarrow> job_read (ax_client awx)
     (tr_Type (rs_Template (run_spec run)) = TemplateTypeWorkflow) (rt_JobID st) s (?e a))" and r: "r = Inr s"
  then obtain a where "es = [?e a]" "job_read (ax_client awx)
     (tr_Type (rs_Template (run_spec run)) = TemplateTypeWorkflow) (rt_JobID st) s (?e a)" by blast
  then show "emits (judge_stopped E u st s) (\<lambda>x es'. \<forall>res. snd x = Inr res \<and> cr_Done res \<longrightarrow>
      job_over (rt_JobID st) (rt_CancelRequestedAt st) (es @ es'))"
    by (intro emits_conseq [OF emits_judge_stopped]) (auto simp: job_over_def stopped_def waited_out_def)
qed (simp add: emits_return)

text \<open>Cancelling was asked for: by this pass, or as the record says by one before it.\<close>

fun cancels :: "int \<Rightarrow> event \<Rightarrow> bool" where
  "cancels j (EHttp c (RqCancelJob iw i) a) = (i = j)"
| "cancels j e = False"

definition cancel_asked :: "int \<Rightarrow> stamp \<Rightarrow> event list \<Rightarrow> bool" where
  "cancel_asked j recorded es \<longleftrightarrow> recorded \<noteq> NoStamp \<or> list_ex (cancels j) es"

text \<open>
  The end of a job, as far as a finalization can tell: it was asked to cancel, and then AWX said that it has stopped
  or the wait since the request (the recorded one, or this pass's) ran out.
\<close>

definition job_ended :: "int \<Rightarrow> stamp \<Rightarrow> event list \<Rightarrow> bool" where
  "job_ended j recorded es \<longleftrightarrow> cancel_asked j recorded es \<and>
     (\<exists>rq. (rq = recorded \<or> (\<exists>t. ENow t \<in> set es \<and> rq = format_time t)) \<and> job_over j rq es)"

lemma job_endedI:
  "cancel_asked j recorded es \<Longrightarrow> rq = recorded \<or> (\<exists>t. ENow t \<in> set es \<and> rq = format_time t) \<Longrightarrow> job_over j rq es' \<Longrightarrow>
   job_ended j recorded (es @ es')"
  unfolding job_ended_def cancel_asked_def list_ex_append using job_over_more by (metis Un_iff set_append)

lemma job_ended_more: "job_ended j rc es \<Longrightarrow> job_ended j rc (xs @ es) \<and> job_ended j rc (es @ xs)"
  unfolding job_ended_def cancel_asked_def list_ex_append using job_over_more by (metis Un_iff set_append)

definition confirmed :: "int \<Rightarrow> stamp \<Rightarrow> gerr + CleanupResult \<Rightarrow> event list \<Rightarrow> bool" where
  "confirmed j recorded r es \<longleftrightarrow> (\<forall>res. r = Inr res \<and> cr_Done res \<longrightarrow> job_ended j recorded es)"

lemma confirmed_more: "confirmed j rc r es \<Longrightarrow> confirmed j rc r (xs @ es) \<and> confirmed j rc r (es @ xs)"
  unfolding confirmed_def using job_ended_more by blast

lemma emits_request_cancel_stamp:
  "emits (request_cancel E u st awx) (\<lambda>x es. rt_JobID (fst x) = rt_JobID st \<and>
     (rt_CancelRequestedAt (fst x) = rt_CancelRequestedAt st \<or>
      (\<exists>t. ENow t \<in> set es \<and> rt_CancelRequestedAt (fst x) = format_time t)) \<and>
     (snd x = None \<longrightarrow> cancel_asked (rt_JobID st) (rt_CancelRequestedAt st) es))"
proof -
  have c: "emits (CancelJob E c i iw) (\<lambda>_ es. \<exists>a. es = [EHttp c (RqCancelJob iw i) a])" for c i iw
    unfolding CancelJob_def
    by (rule emits_bind [where R = "\<lambda>_ es. \<exists>a. es = [EHttp c (RqCancelJob iw i) a]"], rule emits_awx_do) (auto intro!: emits_return)
  have w: "emits (writeRunDetails E u st') (\<lambda>_ es. True)" for st'
    by (rule emits_top) (auto intro!: only_intros)
  show ?thesis
    unfolding request_cancel_def Let_def
    by (intro emits_if emits_return emits_bind [OF c] emits_option emits_bind [OF does_nowRFC3339] emits_bind [OF w])
      (auto simp: cancel_asked_def)
qed

lemma emits_cancelAndConfirm:
  "emits (cancelAndConfirm E u run st awx) (\<lambda>x es. confirmed (rt_JobID st) (rt_CancelRequestedAt st) (snd x) es)"
  unfolding cancelAndConfirm_def
proof (rule emits_bind [OF emits_request_cancel_stamp], intro emits_prod emits_option)
  fix r es and st' :: AnsibleRunStatus and e :: "gerr option"
  assume r: "rt_JobID (fst r) = rt_JobID st \<and> (rt_CancelRequestedAt (fst r) = rt_CancelRequestedAt st \<or>
      (\<exists>t. ENow t \<in> set es \<and> rt_CancelRequestedAt (fst r) = format_time t)) \<and>
      (snd r = None \<longrightarrow> cancel_asked (rt_JobID st) (rt_CancelRequestedAt st) es)" "r = (st', e)" "e = None"
  show "emits (confirm_stopped E u run st' awx)
      (\<lambda>x es'. confirmed (rt_JobID st) (rt_CancelRequestedAt st) (snd x) (es @ es'))"
    by (rule emits_conseq [OF emits_confirm_stopped], unfold confirmed_def, intro allI impI,
        rule job_endedI [where rq = "rt_CancelRequestedAt st'"]) (use r in auto)
qed (simp add: emits_return confirmed_def)

section \<open>The job of a lost launch\<close>

text \<open>The jobs a listing of recent ones answered with, and the one that a launch sent at the recorded time must have started.\<close>

fun jobs_seen :: "event \<Rightarrow> AWXJob list option" where
  "jobs_seen (EHttp c (RqRecentJobs iw i) a) = map_option (\<lambda>b. map awx_job (jobs_of b)) (decoded a)"
| "jobs_seen e = None"

definition lost_job :: "AnsibleRunStatus \<Rightarrow> event \<Rightarrow> AWXJob option" where
  "lost_job st e = (case (parse_time (rt_LaunchAttemptedAt st), jobs_seen e) of
     (Some attempted, Some jobs) \<Rightarrow> (case lost_launch_matches (rt_Hosts st) attempted jobs of [job] \<Rightarrow> Some job | _ \<Rightarrow> None)
   | _ \<Rightarrow> None)"

text \<open>
  The jobs that a finalization has to see the end of before it may delete a host: the recorded one while it is not known
  to have stopped, or, where a launch was sent and no job recorded, the one found for it, unless it was found stopped.
\<close>

definition must_stop :: "AnsibleRunStatus \<Rightarrow> event list \<Rightarrow> int set" where
  "must_stop st es = (if run_cancelling st then {rt_JobID st}
     else if run_unresolved st then {aj_ID job |e job. e \<in> set es \<and> lost_job st e = Some job \<and> \<not> isTerminalAWXStatus (aj_Status job)}
     else {})"

lemma lost_job_None: "jobs_seen e = None \<Longrightarrow> lost_job st e = None"
  by (simp add: lost_job_def split: option.splits)

lemma must_stop_quiet:
  "list_all (\<lambda>e. jobs_seen e = None) xs \<Longrightarrow> must_stop st (xs @ es) = must_stop st es \<and> must_stop st (es @ xs) = must_stop st es"
proof -
  assume q: "list_all (\<lambda>e. jobs_seen e = None) xs"
  have "(e \<in> set (xs @ es) \<and> lost_job st e = Some job) = (e \<in> set es \<and> lost_job st e = Some job)"
    "(e \<in> set (es @ xs) \<and> lost_job st e = Some job) = (e \<in> set es \<and> lost_job st e = Some job)" for e job
    using q lost_job_None [of e st] by (auto simp: list_all_iff)
  then show ?thesis by (simp only: must_stop_def conj_assoc [symmetric])
qed

lemma emits_recent_jobs:
  "emits (RecentTemplateJobs E c i iw) (\<lambda>r es. \<exists>e. es = [e] \<and> (\<forall>err. r = Inl err \<longrightarrow> jobs_seen e = None) \<and>
     (\<forall>jobs. r = Inr jobs \<longrightarrow> jobs_seen e = Some jobs))"
  unfolding RecentTemplateJobs_def
  by (rule emits_bind [OF emits_awx_do_decoded], rule emits_return) (auto split: sum.splits)

lemma emits_matchLost:
  assumes "parse_time (rt_LaunchAttemptedAt st) = Some at"
  shows "emits (matchLostLaunchJobs E awx run st at) (\<lambda>r es. list_all (\<lambda>e. \<not> is_host_delete e) es \<and>
     (case r of
        Inr [job] \<Rightarrow> {job. \<exists>e \<in> set es. lost_job st e = Some job} = {job}
      | _ \<Rightarrow> {job. \<exists>e \<in> set es. lost_job st e = Some job} = {}))"
proof -
  have t: "emits (resolveTemplateCached E c k ref) (\<lambda>_ es. list_all (\<lambda>e. \<not> is_host_delete e \<and> jobs_seen e = None) es)" for c k ref
    by (rule emits_only, rule only_resolveTemplates) simp_all
  have nd: "emits (RecentTemplateJobs E c i iw) (\<lambda>_ es. list_all (\<lambda>e. \<not> is_host_delete e) es)" for c i iw
    by (rule emits_only) (auto intro!: only_intros)
  show ?thesis
    unfolding matchLostLaunchJobs_def
  proof (rule emits_bind [OF t], intro emits_sum emits_return emits_bind [OF emits_conj [OF emits_recent_jobs nd]], goal_cases)
    case (1 r es err)
    then show ?case by (auto simp: list_all_iff lost_job_None)
  next
    case (2 r es tmpl js es')
    then obtain e where e: "es' = [e]" "\<And>err. js = Inl err \<Longrightarrow> jobs_seen e = None" "\<And>jobs. js = Inr jobs \<Longrightarrow> jobs_seen e = Some jobs"
      and q: "list_all (\<lambda>e. \<not> is_host_delete e) es'"
      by auto
    have l: "{job. \<exists>x \<in> set (es @ es' @ []). lost_job st x = Some job} = {job. lost_job st e = Some job}"
      using 2(1) by (auto simp: e(1) list_all_iff lost_job_None)
    have d: "list_all (\<lambda>e. \<not> is_host_delete e) (es @ es' @ [])" using 2(1) q by (auto simp: list_all_iff)
    show ?case
    proof (cases js)
      case (Inl err)
      from e(2) [OF Inl] have "{job. lost_job st e = Some job} = {}" by (simp add: lost_job_None)
      with d show ?thesis unfolding l Inl sum.case by blast
    next
      case (Inr jobs)
      with e(3) have "lost_job st e = (case lost_launch_matches (rt_Hosts st) at jobs of [job] \<Rightarrow> Some job | _ \<Rightarrow> None)"
        by (simp add: lost_job_def assms)
      with d show ?thesis unfolding l Inr sum.case by (simp split: list.splits)
    qed
  qed
qed

text \<open>What \<open>resolveLostJobForCleanup\<close> reports found is the job that must be seen to end.\<close>

lemma emits_resolveLost_found:
  assumes un: "run_unresolved st"
  shows "emits (resolveLostJobForCleanup E u run st awx) (\<lambda>x es. list_all (\<lambda>e. \<not> is_host_delete e) es \<and>
     rt_CancelRequestedAt (fst x) = rt_CancelRequestedAt st \<and>
     (\<forall>found. snd x = Inr found \<longrightarrow>
        must_stop st es = (if found \<and> \<not> isTerminalAWXStatus (rt_JobStatus (fst x)) then {rt_JobID (fst x)} else {})))"
proof -
  have nc: "\<not> run_cancelling st" using un by (simp add: run_unresolved_def run_cancelling_def)
  have ms: "must_stop st es = {aj_ID job |job. job \<in> {job. \<exists>e \<in> set es. lost_job st e = Some job} \<and> \<not> isTerminalAWXStatus (aj_Status job)}" for es
    using un nc by (auto simp: must_stop_def)
  have w: "emits (writeRunDetails E u st') (\<lambda>_ es. list_all (\<lambda>e. \<not> is_host_delete e \<and> jobs_seen e = None) es)" for st'
    by (rule emits_only) (auto intro!: only_intros)
  show ?thesis
  proof (cases "parse_time (rt_LaunchAttemptedAt st)")
    case None
    then show ?thesis
      unfolding resolveLostJobForCleanup_def using nc by (auto intro!: emits_return simp: must_stop_def)
  next
    case (Some at)
    have adopt: "emits (writeRunDetails E u st' \<bind> (\<lambda>w. ret (st', case w of Some err \<Rightarrow> Inl err | None \<Rightarrow> Inr True)))
       (\<lambda>x es'. list_all (\<lambda>e. \<not> is_host_delete e) (es @ es') \<and> rt_CancelRequestedAt (fst x) = rt_CancelRequestedAt st \<and>
         (\<forall>found. snd x = Inr found \<longrightarrow> must_stop st (es @ es') =
            (if found \<and> \<not> isTerminalAWXStatus (rt_JobStatus (fst x)) then {rt_JobID (fst x)} else {})))"
      if "list_all (\<lambda>e. \<not> is_host_delete e) es" "must_stop st es = (if isTerminalAWXStatus (rt_JobStatus st') then {} else {rt_JobID st'})"
        "rt_CancelRequestedAt st' = rt_CancelRequestedAt st" for es st'
    proof (rule emits_bind [OF w], rule emits_return)
      fix x es'
      assume "list_all (\<lambda>e. \<not> is_host_delete e \<and> jobs_seen e = None) es'"
      then have "list_all (\<lambda>e. \<not> is_host_delete e) es'" "list_all (\<lambda>e. jobs_seen e = None) es'" by (auto simp: list_all_iff)
      with that must_stop_quiet [of es' st es] show "list_all (\<lambda>e. \<not> is_host_delete e) (es @ es' @ []) \<and>
         rt_CancelRequestedAt (fst (st', case x of Some err \<Rightarrow> Inl err | None \<Rightarrow> Inr True)) = rt_CancelRequestedAt st \<and>
         (\<forall>found. snd (st', case x of Some err \<Rightarrow> Inl err | None \<Rightarrow> Inr True) = Inr found \<longrightarrow> must_stop st (es @ es' @ []) =
            (if found \<and> \<not> isTerminalAWXStatus (rt_JobStatus (fst (st', case x of Some err \<Rightarrow> Inl err | None \<Rightarrow> Inr True)))
             then {rt_JobID (fst (st', case x of Some err \<Rightarrow> Inl err | None \<Rightarrow> Inr True))} else {}))"
        by (auto split: option.splits)
    qed
    show ?thesis
      unfolding resolveLostJobForCleanup_def Some option.case Let_def
      by (rule emits_bind [OF emits_matchLost [OF Some]], intro emits_sum emits_list emits_return adopt)
        (auto simp: ms adopt_job_def)
  qed
qed

section \<open>The whole finalization\<close>

text \<open>
  Hosts are deleted only after a stretch without any deletion in which every job that must be seen to end has been.
\<close>

definition ended_before_deletes :: "int \<Rightarrow> stamp \<Rightarrow> event list \<Rightarrow> bool" where
  "ended_before_deletes j recorded es \<longleftrightarrow> (list_ex is_host_delete es \<longrightarrow>
     (\<exists>es1 es2. es = es1 @ es2 \<and> list_all (\<lambda>e. \<not> is_host_delete e) es1 \<and> job_ended j recorded es1))"

lemma ended_before_quiet: "list_all (\<lambda>e. \<not> is_host_delete e) es \<Longrightarrow> ended_before_deletes j rc es"
  by (auto simp: ended_before_deletes_def list_all_iff list_ex_iff)

lemma ended_before_prefix:
  assumes q: "list_all (\<lambda>e. \<not> is_host_delete e) xs" and d: "ended_before_deletes j rc es"
  shows "ended_before_deletes j rc (xs @ es)"
proof (cases "list_ex is_host_delete es")
  case True
  with d obtain es1 es2 where "es = es1 @ es2" "list_all (\<lambda>e. \<not> is_host_delete e) es1" "job_ended j rc es1"
    unfolding ended_before_deletes_def by blast
  with q have "xs @ es = (xs @ es1) @ es2 \<and> list_all (\<lambda>e. \<not> is_host_delete e) (xs @ es1) \<and> job_ended j rc (xs @ es1)"
    using job_ended_more by auto
  then show ?thesis unfolding ended_before_deletes_def by blast
next
  case False
  with q show ?thesis by (intro ended_before_quiet) (auto simp: list_all_iff list_ex_iff)
qed

definition deletes_after_job :: "AnsibleRunStatus \<Rightarrow> event list \<Rightarrow> bool" where
  "deletes_after_job st es \<longleftrightarrow> (\<forall>j \<in> must_stop st es. ended_before_deletes j (rt_CancelRequestedAt st) es)"

lemma deletes_after_job_quiet: "list_all (\<lambda>e. \<not> is_host_delete e) es \<Longrightarrow> deletes_after_job st es"
  by (simp add: deletes_after_job_def ended_before_quiet)

lemma emits_delete_hosts_step:
  "emits (delete_hosts_step E run awx hs)
     (\<lambda>_. deletes_checked (runHostOwnerMarker E (run_ns run) (md_Name (run_meta run))) (rhs_AWXHostID ` set hs))"
  unfolding delete_hosts_step_def
  by (rule emits_bind [OF emits_delete_run_hosts]) (auto intro!: emits_return)

definition cleanup_safe :: "env \<Rightarrow> AnsibleRun \<Rightarrow> AnsibleRunStatus \<Rightarrow> RunHostStatus list \<Rightarrow> event list \<Rightarrow> bool" where
  "cleanup_safe E run st hs es \<longleftrightarrow>
     deletes_checked (runHostOwnerMarker E (run_ns run) (md_Name (run_meta run))) (rhs_AWXHostID ` set hs) es \<and>
     deletes_after_job st es"

lemma cleanup_safe_quiet: "list_all (\<lambda>e. \<not> is_host_delete e) es \<Longrightarrow> cleanup_safe E run st hs es"
  by (simp add: cleanup_safe_def deletes_checked_none deletes_after_job_quiet)

lemma cleanup_safe_prefix:
  "list_all (\<lambda>e. \<not> is_host_delete e \<and> jobs_seen e = None) xs \<Longrightarrow> cleanup_safe E run st hs es \<Longrightarrow> cleanup_safe E run st hs (xs @ es)"
proof -
  assume "list_all (\<lambda>e. \<not> is_host_delete e \<and> jobs_seen e = None) xs" and s: "cleanup_safe E run st hs es"
  then have q: "list_all (\<lambda>e. \<not> is_host_delete e) xs" "list_all (\<lambda>e. jobs_seen e = None) xs" by (auto simp: list_all_iff)
  with s show ?thesis
    unfolding cleanup_safe_def deletes_after_job_def
    by (auto simp: must_stop_quiet [OF q(2)] intro: preceded_append deletes_checked_none ended_before_prefix)
qed

text \<open>
  Against the instance the run went to, a finalization that says it is done has settled every host of
  its list, and has seen the end of every job it must.
\<close>

definition finished_in_awx :: "env \<Rightarrow> AnsibleRun \<Rightarrow> AWXClient \<Rightarrow> RunHostStatus list \<Rightarrow> gerr + CleanupResult \<Rightarrow> event list \<Rightarrow> bool" where
  "finished_in_awx E run c hs r es \<longleftrightarrow> (\<forall>cr. r = Inr cr \<and> cr_Done cr \<longrightarrow>
     hosts_settled (runHostOwnerMarker E (run_ns run) (md_Name (run_meta run))) c (rhs_AWXHostID ` set hs) es)"

lemma emits_delete_hosts_settled:
  "emits (delete_hosts_step E run awx hs) (finished_in_awx E run (ax_client awx) hs)"
  unfolding delete_hosts_step_def finished_in_awx_def
  by (rule emits_bind [OF emits_delete_run_hosts]) (auto intro!: emits_return split: option.splits)

definition cleanup_complete :: "env \<Rightarrow> AnsibleRun \<Rightarrow> AnsibleRunStatus \<Rightarrow> AWXClient \<Rightarrow> RunHostStatus list \<Rightarrow> gerr + CleanupResult \<Rightarrow>
    event list \<Rightarrow> bool" where
  "cleanup_complete E run st c hs r es \<longleftrightarrow> finished_in_awx E run c hs r es \<and>
     (\<forall>j \<in> must_stop st es. confirmed j (rt_CancelRequestedAt st) r es)"

text \<open>Cancelling first where it is due (\<open>c\<close>), and the hosts then.\<close>

definition delete_step :: "env \<Rightarrow> AnsibleRun \<Rightarrow> AnsibleRunStatus \<Rightarrow> runAWXContext \<Rightarrow> bool \<Rightarrow> RunHostStatus list \<Rightarrow>
    gerr + CleanupResult \<Rightarrow> event list \<Rightarrow> bool" where
  "delete_step E run st awx c hs r es \<longleftrightarrow>
     deletes_checked (runHostOwnerMarker E (run_ns run) (md_Name (run_meta run))) (rhs_AWXHostID ` set hs) es \<and>
     finished_in_awx E run (ax_client awx) hs r es \<and> list_all (\<lambda>e. jobs_seen e = None) es \<and>
     (c \<longrightarrow> ended_before_deletes (rt_JobID st) (rt_CancelRequestedAt st) es \<and>
        confirmed (rt_JobID st) (rt_CancelRequestedAt st) r es)"

lemma emits_delete_step_now: "emits (delete_hosts_step E run awx hs) (delete_step E run st awx False hs)"
proof -
  have d: "only (\<lambda>e. jobs_seen e = None) (delete_run_hosts E c m hs e)" for c m e
    by (induction hs arbitrary: e) (auto intro!: only_intros simp: delete_run_host_def)
  have "only (\<lambda>e. jobs_seen e = None) (delete_hosts_step E run awx hs)"
    unfolding delete_hosts_step_def by (intro only_bind only_return d)
  from emits_conj [OF emits_conj [OF emits_delete_hosts_step emits_delete_hosts_settled] emits_only [OF this]]
  show ?thesis by (rule emits_conseq) (auto simp: delete_step_def)
qed

lemma emits_cancel_then_delete: "emits (cancel_then_delete E u run st awx c hs) (delete_step E run st awx c hs)"
proof (cases c)
  case False
  then show ?thesis by (simp add: cancel_then_delete_def emits_delete_step_now)
next
  case True
  let ?K = "\<lambda>e. \<not> is_host_delete e \<and> jobs_seen e = None"
  have q: "only ?K (cancelAndConfirm E u run st awx)"
    by (rule only_cancelAndConfirm) simp_all
  have early: "delete_step E run st awx True hs r es"
    if "list_all ?K es" "confirmed (rt_JobID st) (rt_CancelRequestedAt st) r es" "\<And>res. r = Inr res \<Longrightarrow> \<not> cr_Done res" for r es
  proof -
    from that(1) have "list_all (\<lambda>e. \<not> is_host_delete e) es" by (auto simp: list_all_iff)
    with that show ?thesis
      by (auto simp: delete_step_def deletes_checked_none ended_before_quiet finished_in_awx_def list_all_iff)
  qed
  have "emits (cancelAndConfirm E u run st awx \<bind> (\<lambda>(st', r). case r of
           Inl cErr \<Rightarrow> ret (Inl cErr)
         | Inr result \<Rightarrow> if \<not> cr_Done result then ret (Inr result) else delete_hosts_step E run awx hs))
      (delete_step E run st awx True hs)"
  proof (rule emits_bind [OF emits_conj [OF emits_cancelAndConfirm emits_only [OF q]]], intro emits_prod emits_sum emits_if emits_return)
    fix x es and st' :: AnsibleRunStatus and r :: "gerr + CleanupResult" and err res
    assume x: "confirmed (rt_JobID st) (rt_CancelRequestedAt st) (snd x) es \<and> list_all ?K es" "x = (st', r)"
    show "delete_step E run st awx True hs (Inl err) (es @ [])" if "r = Inl err"
      using early x by (auto simp: confirmed_def)
    assume r: "r = Inr res"
    show "delete_step E run st awx True hs (Inr res) (es @ [])" if "\<not> cr_Done res"
      using early x that by (auto simp: confirmed_def)
    assume "\<not> \<not> cr_Done res"
    with x r have e: "job_ended (rt_JobID st) (rt_CancelRequestedAt st) es" by (auto simp: confirmed_def)
    have k: "list_all (\<lambda>e. \<not> is_host_delete e) es" "list_all (\<lambda>e. jobs_seen e = None) es" using x(1) by (auto simp: list_all_iff)
    show "emits (delete_hosts_step E run awx hs) (\<lambda>b es'. delete_step E run st awx True hs b (es @ es'))"
    proof (rule emits_conseq [OF emits_delete_step_now])
      fix b es'
      assume d: "delete_step E run st awx False hs b es'"
      have "ended_before_deletes (rt_JobID st) (rt_CancelRequestedAt st) (es @ es')"
        unfolding ended_before_deletes_def using e k(1) by blast
      with d e k show "delete_step E run st awx True hs b (es @ es')"
        by (auto simp: delete_step_def confirmed_def finished_in_awx_def job_ended_more hosts_settled_more
            intro: preceded_append deletes_checked_none)
    qed
  qed
  with True show ?thesis by (simp add: cancel_then_delete_def)
qed

definition run_cleanup_ok :: "env \<Rightarrow> AnsibleRun \<Rightarrow> AnsibleRunStatus \<Rightarrow> runAWXContext \<Rightarrow> RunHostStatus list \<Rightarrow> gerr + CleanupResult \<Rightarrow>
    event list \<Rightarrow> bool" where
  "run_cleanup_ok E run st awx hs r es \<longleftrightarrow> cleanup_safe E run st hs es \<and>
     (\<not> moved st awx \<longrightarrow> cleanup_complete E run st (ax_client awx) hs r es)"

lemma run_cleanup_okI:
  assumes d: "delete_step E run st' awx c hs r es" and q: "list_all (\<lambda>e. \<not> is_host_delete e) xs"
    and rc: "rt_CancelRequestedAt st' = rt_CancelRequestedAt st" and ms: "must_stop st xs = (if c then {rt_JobID st'} else {})"
  shows "run_cleanup_ok E run st awx hs r (xs @ es)"
proof -
  have "list_all (\<lambda>e. jobs_seen e = None) es" using d by (simp add: delete_step_def)
  then have ms': "must_stop st (xs @ es) = (if c then {rt_JobID st'} else {})" using must_stop_quiet ms by auto
  show ?thesis
    unfolding run_cleanup_ok_def cleanup_safe_def cleanup_complete_def deletes_after_job_def ms'
    using d q rc by (auto simp: delete_step_def finished_in_awx_def hosts_settled_more confirmed_more
        intro: preceded_append deletes_checked_none ended_before_prefix)
qed

lemma emits_cleanup_in_awx: "emits (cleanup_in_awx E u run st awx hs) (run_cleanup_ok E run st awx hs)"
proof -
  have lost: "emits (do {
        (st, f) \<leftarrow> resolveLostJobForCleanup E u run st awx;
        (case f of
           Inl fErr \<Rightarrow> ret (Inl fErr)
         | Inr found \<Rightarrow> cancel_then_delete E u run st awx (found \<and> \<not> isTerminalAWXStatus (rt_JobStatus st)) hs)
      }) (run_cleanup_ok E run st awx hs)" if un: "run_unresolved st"
  proof (rule emits_bind [OF emits_resolveLost_found [OF un]], intro emits_prod emits_sum emits_return, goal_cases)
    case (1 r es st' f err)
    then show ?case
      by (auto simp: run_cleanup_ok_def cleanup_safe_quiet cleanup_complete_def finished_in_awx_def confirmed_def)
  next
    case (2 r es st' f found)
    then show ?case
      by (intro emits_conseq [OF emits_cancel_then_delete], elim run_cleanup_okI) auto
  qed
  have now: "emits (cancel_then_delete E u run st awx (run_cancelling st) hs) (run_cleanup_ok E run st awx hs)" if "\<not> run_unresolved st"
    by (rule emits_conseq [OF emits_cancel_then_delete])
      (use run_cleanup_okI [where xs = "[]" and st' = st and st = st] that in \<open>auto simp: must_stop_def\<close>)
  show ?thesis
    unfolding cleanup_in_awx_def
    by (intro emits_if emits_return lost now) (simp_all add: run_cleanup_ok_def cleanup_safe_quiet)
qed

text \<open>
  From the live record on: hosts go only without the \<open>Retain\<close> policy, and only those the record says this run created.
\<close>

definition cleanup_protocol :: "env \<Rightarrow> unstr \<Rightarrow> event list \<Rightarrow> bool" where
  "cleanup_protocol E live es \<longleftrightarrow> list_all (\<lambda>e. \<not> is_host_delete e) es \<or>
     (\<exists>run. convertAnsibleRun live = Inr run \<and> run_Spec run \<noteq> None \<and>
        rs_CleanupPolicy (run_spec run) \<noteq> CleanupPolicyRetain \<and>
        cleanup_safe E run (run_status_of run) (filter rhs_AWXHostCreated (rt_Hosts (run_status_of run))) es)"

lemma deletes_checked_empty:
  assumes "deletes_checked marker {} es"
  shows "list_all (\<lambda>e. \<not> is_host_delete e) es"
  unfolding list_all_iff
proof
  fix e assume "e \<in> set es"
  then obtain pre post where es: "es = pre @ e # post" by (meson split_list)
  show "\<not> is_host_delete e"
  proof
    assume "is_host_delete e"
    then obtain c i a where e: "e = EHttp c (RqDeleteHost i) a" by (auto elim: is_host_delete.elims)
    from assms [unfolded preceded_def, rule_format, OF es] show False by (simp add: e)
  qed
qed

lemma cleanup_safe_recorded:
  assumes "cleanup_safe E run st (hosts_to_delete sp st) es"
  shows "list_all (\<lambda>e. \<not> is_host_delete e) es \<or>
    rs_CleanupPolicy sp \<noteq> CleanupPolicyRetain \<and> cleanup_safe E run st (filter rhs_AWXHostCreated (rt_Hosts st)) es"
proof (cases "rs_CleanupPolicy sp = CleanupPolicyRetain")
  case True
  with assms have "deletes_checked (runHostOwnerMarker E (run_ns run) (md_Name (run_meta run))) {} es"
    by (simp add: cleanup_safe_def hosts_to_delete_def)
  then show ?thesis using deletes_checked_empty by blast
next
  case False
  then have "rhs_AWXHostID ` set (hosts_to_delete sp st) \<subseteq> rhs_AWXHostID ` set (filter rhs_AWXHostCreated (rt_Hosts st))"
    by (auto simp: hosts_to_delete_def)
  with assms False show ?thesis using deletes_checked_mono unfolding cleanup_safe_def by blast
qed

lemma emits_cleanup_live_run:
  "emits (cleanup_live_run E u run st) (\<lambda>_. cleanup_safe E run st (hosts_to_delete (run_spec run) st))"
proof -
  let ?K = "\<lambda>e. \<not> is_host_delete e \<and> jobs_seen e = None"
  have conn: "emits (runConnection E run) (\<lambda>_ es. list_all ?K es)"
    by (rule emits_only [OF only_mono [OF only_runConnection]]) (auto elim!: context_event.elims)
  have cl: "emits (awxClientForConnection E c) (\<lambda>_ es. list_all ?K es)" for c
    by (rule emits_only [OF only_awxClientForConnection]) simp_all
  have go: "emits (cleanup_in_awx E u run st awx hs) (\<lambda>_ es'. cleanup_safe E run st hs (xs @ es'))" if "list_all ?K xs" for awx hs xs
    by (rule emits_conseq [OF emits_cleanup_in_awx]) (use that in \<open>auto simp: run_cleanup_ok_def intro: cleanup_safe_prefix\<close>)
  have nil: "list_all ?K xs \<Longrightarrow> cleanup_safe E run st hs xs" for hs xs
    by (rule cleanup_safe_quiet) (auto simp: list_all_iff)
  show ?thesis
    unfolding cleanup_live_run_def Let_def
    by (intro emits_if emits_return emits_bind [OF conn] emits_sum emits_bind [OF cl] emits_prod nil)
      (auto intro!: go [where xs = "es @ es'" for es es', unfolded append_assoc])
qed

lemma emits_cleanupAnsibleRun: "emits (cleanupAnsibleRun E cached) (\<lambda>_. of_live cached (cleanup_protocol E))"
  unfolding cleanupAnsibleRun_def
proof (rule emits_of_live, intro emits_sum emits_if emits_return)
  fix u run
  assume "convertAnsibleRun u = Inr run" "\<not> run_Spec run = None"
  then show "emits (cleanup_live_run E u run (run_status_of run)) (\<lambda>_. cleanup_protocol E u)"
    by (intro emits_conseq [OF emits_cleanup_live_run]) (auto simp: cleanup_protocol_def dest: cleanup_safe_recorded)
qed (simp_all add: cleanup_protocol_def)

section \<open>The run's controller under the engine\<close>

text \<open>
  Everything a run's own functions call: AWX, reads, and writes of runs only - their details, the
  claim, and the deletion of a finished run.
\<close>

fun run_event :: "event \<Rightarrow> bool" where
  "run_event (EHttp c r a) = True"
| "run_event (ENow t) = True"
| "run_event (EGet g ns n a) = True"
| "run_event (ERestMapping g k v a) = True"
| "run_event EMapperReset = True"
| "run_event (EApplyStatus g ns n (PRun d) fm a) = (g = AnsRunGVR \<and> fm = runDetailsFieldManager \<and> runStatusDetails d = d)"
| "run_event (EUpdateStatus g u fm a) = (g = AnsRunGVR \<and> fm = runDetailsFieldManager)"
| "run_event (EDelete g ns n uid a) = (g = AnsRunGVR)"
| "run_event _ = False"

lemma context_run_event: "context_event e \<Longrightarrow> run_event e"
  by (cases e rule: context_event.cases) auto

lemma plan_run_event: "plan_event e \<Longrightarrow> run_event e"
  by (cases e rule: plan_event.cases) auto

lemma run_write: "only run_event (writeRunDetails E u st)"
  by (rule only_writeRunDetails) simp

lemma run_failRun: "only run_event (failRun E u st r)"
  by (rule only_failRun) simp_all

lemma run_claim_and_launch: "only run_event (claim_and_launch E u run st awx p)"
  unfolding claim_and_launch_def claimLaunch_def record_launch_def record_answer_def Let_def
  by (intro only_bind only_prims only_sum only_return only_option only_if run_write only_submit_launch
      only_with_launched_job) simp_all

lemma run_launchRun: "only run_event (launchRun E u run st awx)"
  unfolding launchRun_def Let_def
  by (intro only_option only_return only_bind only_mono [OF only_plan_launch plan_run_event] only_prod only_sum
      only_reconcile_hosts run_claim_and_launch) simp_all

lemma run_pollRun: "only run_event (pollRun E u run st c)"
  unfolding pollRun_def Let_def by (auto intro!: only_intros)

lemma run_recoverLostLaunch: "only run_event (recoverLostLaunch E u run st awx)"
  unfolding recoverLostLaunch_def Let_def by (auto intro!: only_intros)

lemma run_reconcileRun: "only run_event (reconcileRun E u run st)"
  unfolding reconcileRun_def
  by (intro only_bind only_mono [OF only_awxContextForRun context_run_event] only_sum only_if only_return
      run_pollRun run_recoverLostLaunch run_launchRun)

lemma run_expireRun: "only run_event (expireRun E u run st)"
  unfolding expireRun_def Let_def
  by (intro only_bind only_prod run_failRun only_cancelRunJob) (auto intro: context_run_event)

lemma run_applyAnsibleRun: "only run_event (applyAnsibleRun E u)"
  unfolding applyAnsibleRun_def apply_live_run_def run_pass_def settle_run_def
  by (intro only_bind only_readRunLive only_sum only_option only_return only_if only_prod only_collectFinishedRun
      only_deadlineExceeded run_expireRun run_reconcileRun run_failRun) simp_all

lemma run_cancel_then_delete: "only run_event (cancel_then_delete E u run st awx c hs)"
proof -
  have d: "only run_event (delete_run_hosts E c m hs e)" for c m hs e
    by (induction hs arbitrary: e) (auto intro!: only_intros simp: delete_run_host_def)
  show ?thesis
    unfolding cancel_then_delete_def delete_hosts_step_def
    by (intro only_if only_bind only_cancelAndConfirm only_prod only_sum only_return d) simp_all
qed

lemma run_cleanup_in_awx: "only run_event (cleanup_in_awx E u run st awx hs)"
  unfolding cleanup_in_awx_def resolveLostJobForCleanup_def Let_def
  by (intro only_if only_return only_bind only_option only_sum only_list only_prod run_cancel_then_delete run_write
      only_matchLostLaunchJobs) simp_all

lemma run_cleanupAnsibleRun: "only run_event (cleanupAnsibleRun E u)"
proof -
  have c: "only run_event (awxClientForConnection E conn)" for conn
    by (rule only_awxClientForConnection) simp_all
  show ?thesis
    unfolding cleanupAnsibleRun_def cleanup_live_run_def Let_def
    by (intro only_bind only_readRunLive only_sum only_option only_return only_if only_prod
        only_mono [OF only_runConnection context_run_event] c run_cleanup_in_awx) simp_all
qed

interpretation run_loop: finalizing_reconciler E "ansibleRunController E" run_event for E
proof unfold_locales
  fix u
  show "only run_event (c_provisionFunc (ansibleRunController E) u)"
    by (simp add: ansibleRunController_def run_applyAnsibleRun)
  show "c_cleanupFunc (ansibleRunController E) = Some f \<Longrightarrow> only run_event (f u)" for f
    by (auto simp: ansibleRunController_def run_cleanupAnsibleRun)
  show "only is_clock (c_updateStatusFunc (ansibleRunController E) u ok err)" for ok err
    unfolding ansibleRunController_def updateAnsibleRunStatus_def
    by (auto intro!: only_intros clock_updateGenericStatus split: sum.split)
next
  show "run_event e \<Longrightarrow> \<not> is_fin_patch e" for e by (cases e rule: is_fin_patch.cases) auto
qed

interpretation run_policy: settled_policy "holdFinalizers (ansibleRunController E)"
    "releaseFinalizers (ansibleRunController E)" "needs_update (ansibleRunController E)"
    "own_finalizers (ansibleRunController E)" "set (c_staleFinalizers (ansibleRunController E))" for E
  by unfold_locales (simp add: ansibleRunController_def)

lemma run_released_after_cleanup:
  "is_deleting (u_meta u) \<Longrightarrow> containsFinalizer u (c_finalizerName (ansibleRunController E)) \<Longrightarrow>
   released_after (\<lambda>_. of_live u (cleanup_protocol E)) (events_of (Reconcile E (ansibleRunController E) u) w)"
  by (rule emitsD [OF run_loop.released_when_done [OF _ _ _ _ emits_cleanupAnsibleRun]])
    (simp_all add: ansibleRunController_def)

end
