(* ===== verification/RunScope.thy ===== *)
theory RunScope
  imports RunProofs HostProofs
begin

text \<open>
  What a launch is allowed to reach: the limit a run sends, the template answer it rests on, and the
  record of the hosts it was limited to, which is what a lost launch is later recognised by.
\<close>

section \<open>Recording hosts\<close>

definition host_key :: "RunHostStatus \<Rightarrow> string \<times> int" where
  "host_key h = (rhs_Name h, rhs_AWXInventoryID h)"

lemma recordRunHost_keys: "host_key ` set (recordRunHost hs h) = insert (host_key h) (host_key ` set hs)"
  by (induction hs h rule: recordRunHost.induct) (auto simp: host_key_def)

lemma recordRunHost_distinct: "distinct (map host_key hs) \<Longrightarrow> distinct (map host_key (recordRunHost hs h))"
proof (induction hs h rule: recordRunHost.induct)
  case (2 e hs h)
  then show ?case
    using recordRunHost_keys [of hs h] by (auto simp: host_key_def image_iff)
qed simp

text \<open>A host once recorded as created stays so, whatever a retry finds.\<close>

lemma recordRunHost_sticky:
  "x \<in> set hs \<Longrightarrow> rhs_AWXHostCreated x \<Longrightarrow> distinct (map host_key hs) \<Longrightarrow>
   \<exists>y \<in> set (recordRunHost hs h). host_key y = host_key x \<and> rhs_AWXHostCreated y"
proof (induction hs h rule: recordRunHost.induct)
  case (2 e hs h)
  show ?case
  proof (cases "rhs_Name e = rhs_Name h \<and> rhs_AWXInventoryID e = rhs_AWXInventoryID h")
    case True
    with 2(2,3) show ?thesis by (cases "x = e") (auto simp: host_key_def)
  next
    case False
    with 2 show ?thesis by (cases "x = e") (auto simp: host_key_def)
  qed
qed simp

text \<open>All the hosts of a run, over any number of passes: one record each, and created once is created.\<close>

lemma recordRunHost_created:
  "distinct (map host_key hs) \<Longrightarrow> (\<exists>y \<in> set (recordRunHost hs h). host_key y = k \<and> rhs_AWXHostCreated y) \<longleftrightarrow>
     (\<exists>x \<in> insert h (set hs). host_key x = k \<and> rhs_AWXHostCreated x)"
  by (induction hs) (auto simp: host_key_def)

definition host_records :: "RunHostStatus list \<Rightarrow> RunHostStatus list" where
  "host_records hs = foldl recordRunHost [] hs"

lemma host_records_ok:
  "distinct (map host_key (host_records hs)) \<and> host_key ` set (host_records hs) = host_key ` set hs \<and>
   ((\<exists>y \<in> set (host_records hs). host_key y = k \<and> rhs_AWXHostCreated y) \<longleftrightarrow> (\<exists>x \<in> set hs. host_key x = k \<and> rhs_AWXHostCreated x))"
proof (induction hs rule: rev_induct)
  case (snoc h hs)
  have e: "host_records (hs @ [h]) = recordRunHost (host_records hs) h" by (simp add: host_records_def)
  from snoc recordRunHost_distinct [of "host_records hs" h] recordRunHost_keys [of "host_records hs" h]
    recordRunHost_created [of "host_records hs" h k]
  show ?case unfolding e by auto
qed (simp add: host_records_def)

lemma recordRunHost_new: "rhs_Name h \<notin> rhs_Name ` set hs \<Longrightarrow> recordRunHost hs h = hs @ [h]"
  by (induction hs h rule: recordRunHost.induct) auto

section \<open>Targets\<close>

text \<open>
  The hosts a spec names: its hosts in their order, or the one its VM goes by, with the connection's prefix.
\<close>

definition target_names :: "AnsibleRunSpec \<Rightarrow> AWXConnection \<Rightarrow> string list" where
  "target_names sp conn = (if rs_Hosts sp \<noteq> [] then map rh_Name (rs_Hosts sp)
     else (case rs_VMRef sp of
        None \<Rightarrow> []
      | Some vm \<Rightarrow> [cs_HostNamePrefix (the (conn_Spec conn)) @ (if rs_HostName sp \<noteq> [] then rs_HostName sp else vm)]))"

definition good_targets :: "AnsibleRunSpec \<Rightarrow> AWXConnection \<Rightarrow> runTarget list \<Rightarrow> bool" where
  "good_targets sp conn ts \<longleftrightarrow> map rn_Name ts = target_names sp conn \<and> distinct (target_names sp conn) \<and>
     [] \<notin> set (target_names sp conn)"

lemma host_targets_names:
  "host_targets i seen hs = Inr ts \<Longrightarrow> map rn_Name ts = map rh_Name hs \<and> distinct (map rh_Name hs) \<and>
     [] \<notin> rh_Name ` set hs \<and> rh_Name ` set hs \<inter> set seen = {}"
proof (induction hs arbitrary: i seen ts)
  case (Cons h hs)
  from Cons.prems obtain ts' where ts': "host_targets (i + 1) (rh_Name h # seen) hs = Inr ts'"
    "rh_Name h \<noteq> []" "rh_Name h \<notin> set seen" "map rn_Name ts = rh_Name h # map rn_Name ts'"
    by (auto split: if_splits sum.splits)
  from Cons.IH [OF ts'(1)] ts'(2-) show ?case by auto
qed simp

lemma emits_vm_target:
  "emits (vm_target E run conn vmName) (\<lambda>r es. \<forall>ts. r = Inr ts \<longrightarrow> map rn_Name ts =
     [cs_HostNamePrefix (the (conn_Spec conn)) @ (if rs_HostName (run_spec run) \<noteq> [] then rs_HostName (run_spec run) else vmName)])"
  unfolding vm_target_def Let_def
  by (rule emits_bind [OF does_Get]) (auto intro!: emits_return split: sum.splits prod.splits if_splits)

lemma emits_runTargets:
  "emits (runTargets E run conn) (\<lambda>r es. \<forall>ts. r = Inr ts \<longrightarrow> good_targets (run_spec run) conn ts)"
  unfolding runTargets_def
proof (intro emits_if emits_option emits_return)
  assume h: "rs_Hosts (run_spec run) \<noteq> []"
  show "\<forall>ts. host_targets 0 [] (rs_Hosts (run_spec run)) = Inr ts \<longrightarrow> good_targets (run_spec run) conn ts"
  proof (intro allI impI)
    fix ts
    assume "host_targets 0 [] (rs_Hosts (run_spec run)) = Inr ts"
    from host_targets_names [OF this] h show "good_targets (run_spec run) conn ts"
      by (simp add: good_targets_def target_names_def)
  qed
next
  fix vmName
  assume "\<not> rs_Hosts (run_spec run) \<noteq> []" "rs_VMRef (run_spec run) = Some vmName" "vmName \<noteq> []"
  then show "emits (vm_target E run conn vmName) (\<lambda>r es. \<forall>ts. r = Inr ts \<longrightarrow> good_targets (run_spec run) conn ts)"
    by (intro emits_conseq [OF emits_vm_target]) (auto simp: good_targets_def target_names_def)
qed (auto simp: good_targets_def target_names_def)

section \<open>The plan\<close>

definition good_plan :: "AnsibleRun \<Rightarrow> runAWXContext \<Rightarrow> launchPlan \<Rightarrow> event list \<Rightarrow> bool" where
  "good_plan run awx p es \<longleftrightarrow> good_targets (run_spec run) (ax_conn awx) (pl_Targets p) \<and>
     list_ex (template_answer (ax_client awx) (rs_Template (run_spec run)) (pl_Template p)) es \<and>
     (pl_Targets p \<noteq> [] \<longrightarrow> tp_AskLimitOnLaunch (pl_Template p) \<and> tp_Inventory (pl_Template p) \<noteq> None) \<and>
     (pl_ExtraVars p \<noteq> [] \<longrightarrow> tp_AskVariablesOnLaunch (pl_Template p))"

lemma check_plan_None: "check_plan sp p = None \<longleftrightarrow>
    (pl_Targets p \<noteq> [] \<longrightarrow> tp_AskLimitOnLaunch (pl_Template p) \<and> tp_Inventory (pl_Template p) \<noteq> None) \<and>
    (pl_ExtraVars p \<noteq> [] \<longrightarrow> tp_AskVariablesOnLaunch (pl_Template p))"
  by (auto simp: check_plan_def check_None_iff)

lemma emits_plan_launch:
  "emits (plan_launch E run st awx) (\<lambda>x es. rt_Hosts (fst x) = rt_Hosts st \<and>
     (\<forall>p. snd x = Inr p \<longrightarrow> good_plan run awx p es))"
proof -
  have v: "emits (gatherRunVars E run) (\<lambda>_ _. True)"
    by (rule emits_top [OF only_mono [OF only_gatherRunVars]]) simp
  have mk: "good_plan run awx p es" if "make_plan (run_spec run) tmpl vars ts = Inr p"
    "list_ex (template_answer (ax_client awx) (rs_Template (run_spec run)) tmpl) es"
    "\<forall>x. ts = Inr x \<longrightarrow> good_targets (run_spec run) (ax_conn awx) x" for p es tmpl vars ts
    using that by (auto simp: make_plan_def Let_def good_plan_def check_plan_None split: sum.splits option.splits)
  show ?thesis
    unfolding plan_launch_def Let_def
    by (rule emits_bind [OF emits_resolveTemplateForLaunch], intro emits_sum emits_return emits_bind [OF v] emits_prod
      emits_bind [OF emits_runTargets]) (auto elim!: mk)
qed

section \<open>The hosts recorded\<close>

text \<open>What a retry adds to the record: a name for every target, and nothing else where there was none.\<close>

definition hosts_recorded :: "RunHostStatus list \<Rightarrow> string list \<Rightarrow> RunHostStatus list \<Rightarrow> bool" where
  "hosts_recorded before names after \<longleftrightarrow> set names \<subseteq> rhs_Name ` set after \<and>
     (before = [] \<longrightarrow> map rhs_Name after = names)"

lemma recordRunHost_names: "rhs_Name ` set (recordRunHost hs h) = insert (rhs_Name h) (rhs_Name ` set hs)"
proof -
  have "fst ` host_key ` set (recordRunHost hs h) = fst ` insert (host_key h) (host_key ` set hs)"
    by (simp only: recordRunHost_keys)
  then show ?thesis by (simp add: image_image host_key_def)
qed

lemma emits_reconcile_host_names:
  "emits (reconcile_hosts E u run c i ts st) (\<lambda>x es. snd x = None \<longrightarrow>
     rhs_Name ` set (rt_Hosts (fst x)) = rhs_Name ` set (rt_Hosts st) \<union> rn_Name ` set ts \<and>
     (distinct (map rn_Name ts) \<and> rn_Name ` set ts \<inter> rhs_Name ` set (rt_Hosts st) = {} \<longrightarrow>
        map rhs_Name (rt_Hosts (fst x)) = map rhs_Name (rt_Hosts st) @ map rn_Name ts))"
proof (induction ts arbitrary: st)
  case Nil
  then show ?case by (simp add: emits_return)
next
  case (Cons t ts)
  have r: "emits (resolveRunHost E c i t mk) (\<lambda>_ _. True)" for mk
    by (rule emits_top) (auto intro!: only_intros)
  have w: "emits (writeRunDetails E u st') (\<lambda>_ _. True)" for st'
    by (rule emits_top) (auto intro!: only_intros)
  have entry: "rhs_Name (run_host_entry t hid i owned) = rn_Name t" for hid owned
    by (simp add: run_host_entry_def)
  show ?case
    unfolding reconcile_hosts.simps
    by (rule emits_bind [OF r], intro emits_sum emits_bind [OF w] emits_return emits_prod emits_conseq [OF Cons.IH])
      (auto simp: recordRunHost_names entry recordRunHost_new)
qed

lemma emits_reconcile_hosts:
  assumes "good_targets sp conn ts"
  shows "emits (reconcile_hosts E u run c i ts st) (\<lambda>x es. snd x = None \<longrightarrow>
     hosts_recorded (rt_Hosts st) (target_names sp conn) (rt_Hosts (fst x)))"
proof (rule emits_conseq [OF emits_reconcile_host_names])
  from assms have n: "rn_Name ` set ts = set (target_names sp conn)" "distinct (map rn_Name ts)" "map rn_Name ts = target_names sp conn"
    by (auto simp: good_targets_def simp flip: list.set_map)
  fix x :: "AnsibleRunStatus \<times> gerr option" and es
  assume "snd x = None \<longrightarrow>
     rhs_Name ` set (rt_Hosts (fst x)) = rhs_Name ` set (rt_Hosts st) \<union> rn_Name ` set ts \<and>
     (distinct (map rn_Name ts) \<and> rn_Name ` set ts \<inter> rhs_Name ` set (rt_Hosts st) = {} \<longrightarrow>
        map rhs_Name (rt_Hosts (fst x)) = map rhs_Name (rt_Hosts st) @ map rn_Name ts)"
  then show "snd x = None \<longrightarrow> hosts_recorded (rt_Hosts st) (target_names sp conn) (rt_Hosts (fst x))"
    using n by (auto simp: hosts_recorded_def)
qed

section \<open>The launch\<close>

text \<open>The claim's own record of the hosts.\<close>

fun claim_hosts :: "event \<Rightarrow> RunHostStatus list option" where
  "claim_hosts (EUpdateStatus AnsRunGVR u fm (Inr rv)) =
     (case u_content u of CRun sp (Some st) \<Rightarrow> Some (rt_Hosts st) | _ \<Rightarrow> None)"
| "claim_hosts _ = None"

definition names_limit :: "string list \<Rightarrow> string option" where
  "names_limit names = (if names = [] then None else Some (join '','' names))"

text \<open>
  A launch that matches the run's spec: its limit is exactly the hosts the spec names - none only where it names
  none - the template, of the spec's type, was resolved in this pass and accepts what is sent, and the claim
  has recorded every host of the limit - no others, where the record had none before.
\<close>

definition scoped_launch :: "AnsibleRun \<Rightarrow> AWXConnection \<Rightarrow> AnsibleRunStatus \<Rightarrow> event list \<Rightarrow> AWXClient \<Rightarrow> bool \<Rightarrow> int \<Rightarrow>
    launchBody \<Rightarrow> bool" where
  "scoped_launch run conn st es c iw i b \<longleftrightarrow>
     (let ref = rs_Template (run_spec run); names = target_names (run_spec run) conn in
        iw = (tr_Type ref = TemplateTypeWorkflow) \<and> lb_limit b = names_limit names \<and> distinct names \<and> [] \<notin> set names \<and>
        (\<exists>tmpl. tp_ID tmpl = i \<and> list_ex (template_answer c ref tmpl) es \<and>
           (names \<noteq> [] \<longrightarrow> tp_AskLimitOnLaunch tmpl \<and> tp_Inventory tmpl \<noteq> None) \<and>
           (lb_extra_vars b \<noteq> None \<longrightarrow> tp_AskVariablesOnLaunch tmpl)) \<and>
        (\<exists>e hs. e \<in> set es \<and> claim_hosts e = Some hs \<and> hosts_recorded (rt_Hosts st) names hs))"

definition launches_scoped :: "AnsibleRun \<Rightarrow> AWXConnection \<Rightarrow> AnsibleRunStatus \<Rightarrow> event list \<Rightarrow> bool" where
  "launches_scoped run conn st es \<longleftrightarrow>
     (\<forall>c iw i b a. EHttp c (RqLaunch iw i b) a \<in> set es \<longrightarrow> scoped_launch run conn st es c iw i b)"

lemma launches_scoped_quiet: "list_all (\<lambda>e. \<not> is_launch e) es \<Longrightarrow> launches_scoped run conn st es"
  by (auto simp: launches_scoped_def list_all_iff)

lemma scoped_launch_more:
  "scoped_launch run conn st es c iw i b \<Longrightarrow> set es \<subseteq> set es' \<Longrightarrow> scoped_launch run conn st es' c iw i b"
  unfolding scoped_launch_def list_ex_iff Let_def by blast

lemma launches_scoped_append:
  "list_all (\<lambda>e. \<not> is_launch e) xs \<Longrightarrow> launches_scoped run conn st es \<Longrightarrow>
   launches_scoped run conn st (xs @ es) \<and> launches_scoped run conn st (es @ xs)"
  by (fastforce simp: launches_scoped_def list_all_iff intro: scoped_launch_more)

lemma join_Nil_iff: "[] \<notin> set xs \<Longrightarrow> join sep xs = [] \<longleftrightarrow> xs = []"
  by (cases xs rule: remdups_adj.cases) auto

lemma names_limit_body: "[] \<notin> set names \<Longrightarrow> lb_limit (launch_body (join '','' names) v) = names_limit names"
  by (simp add: launch_body_def names_limit_def join_Nil_iff)

lemma emits_submit_launch:
  "emits (submit_launch E awx p) (\<lambda>r es. \<exists>a. es = [EHttp (ax_client awx) (RqLaunch (ax_isWorkflow awx) (tp_ID (pl_Template p))
     (launch_body (join '','' (map rn_Name (pl_Targets p))) (pl_ExtraVars p))) a])"
  unfolding submit_launch_def LaunchWorkflowJobTemplate_def LaunchJobTemplate_def Let_def
  by (auto intro!: emits_if intro: emits_conseq [OF emits_launch])

lemma emits_claim_hosts:
  "emits (claimLaunch E u st) (\<lambda>r es. list_all (\<lambda>e. \<not> is_launch e) es \<and>
     (\<forall>u'. r = Inr u' \<longrightarrow> (\<exists>e \<in> set es. claim_hosts e = Some (rt_Hosts st))))"
proof -
  obtain sp d where c: "u_content (set_run_status u (runStatusDetails st) (u_generic u)) = CRun sp (Some d)"
    "rt_Hosts d = rt_Hosts st"
    by (simp add: set_run_status_def strip_generic_def)
  show ?thesis
    unfolding claimLaunch_def
    by (rule emits_bind [OF does_UpdateStatus]) (auto intro!: emits_return simp: c split: sum.splits)
qed

lemma only_record_launch_quiet: "only (\<lambda>e. \<not> is_launch e) (record_launch E u run st awx r)"
  unfolding record_launch_def record_answer_def Let_def by (auto intro!: only_intros)

lemma emits_claim_and_launch:
  "emits (claim_and_launch E u run st awx p) (\<lambda>_ es. \<forall>c iw i b a. EHttp c (RqLaunch iw i b) a \<in> set es \<longrightarrow>
     c = ax_client awx \<and> iw = ax_isWorkflow awx \<and> i = tp_ID (pl_Template p) \<and>
     b = launch_body (join '','' (map rn_Name (pl_Targets p))) (pl_ExtraVars p) \<and>
     (\<exists>e \<in> set es. claim_hosts e = Some (rt_Hosts st)))"
proof -
  have c: "emits (claimLaunch E u (st\<lparr>rt_LaunchAttemptedAt := t\<rparr>)) (\<lambda>r es. list_all (\<lambda>e. \<not> is_launch e) es \<and>
     (\<forall>u'. r = Inr u' \<longrightarrow> (\<exists>e \<in> set es. claim_hosts e = Some (rt_Hosts st))))" for t
    using emits_claim_hosts [of E u "st\<lparr>rt_LaunchAttemptedAt := t\<rparr>"] by simp
  show ?thesis
    unfolding claim_and_launch_def Let_def
    by (rule emits_bind [OF does_nowRFC3339], rule emits_bind [OF c], intro emits_sum emits_return
      emits_bind [OF emits_submit_launch] emits_conseq [OF emits_only [OF only_record_launch_quiet]])
      (fastforce simp: list_all_iff)+
qed

text \<open>The awx context of a run: its connection, and the type its template is looked up under.\<close>

definition context_of :: "env \<Rightarrow> AnsibleRun \<Rightarrow> runAWXContext \<Rightarrow> event list \<Rightarrow> bool" where
  "context_of E run awx es \<longleftrightarrow> ax_isWorkflow awx = (tr_Type (rs_Template (run_spec run)) = TemplateTypeWorkflow) \<and>
     conn_read E (run_ns run) (rs_AWXConnectionRef (run_spec run)) (ax_conn awx) es"

lemma emits_runConnection:
  "emits (runConnection E run) (\<lambda>r es. \<forall>conn. r = Inr conn \<longrightarrow>
     conn_read E (run_ns run) (rs_AWXConnectionRef (run_spec run)) conn es)"
  unfolding runConnection_def Let_def
  by (intro emits_if emits_return emits_bind [OF emits_getAWXConnection]) (auto split: sum.splits)

lemma emits_awxContextForRun: "emits (awxContextForRun E run) (\<lambda>r es. \<forall>awx. r = Inr awx \<longrightarrow> context_of E run awx es)"
proof -
  have c: "emits (awxClientForConnection E conn) (\<lambda>_ _. True)" for conn
    by (rule emits_top) (auto intro!: only_intros)
  show ?thesis
    unfolding awxContextForRun_def
    by (rule emits_bind [OF emits_runConnection], intro emits_sum emits_return emits_bind [OF c])
      (auto simp: context_of_def run_context_def split: sum.splits elim: conn_read_more)
qed

lemma scoped_launchI:
  assumes "good_plan run awx p es" "ax_isWorkflow awx = (tr_Type (rs_Template (run_spec run)) = TemplateTypeWorkflow)"
    and "hosts_recorded (rt_Hosts st) (target_names (run_spec run) (ax_conn awx)) (rt_Hosts st2)"
    and "ce \<in> set xs" "claim_hosts ce = Some (rt_Hosts st2)"
  shows "scoped_launch run (ax_conn awx) st (es @ xs) (ax_client awx) (ax_isWorkflow awx) (tp_ID (pl_Template p))
    (launch_body (join '','' (map rn_Name (pl_Targets p))) (pl_ExtraVars p))"
proof -
  let ?names = "target_names (run_spec run) (ax_conn awx)"
  have t: "map rn_Name (pl_Targets p) = ?names" "distinct ?names" "[] \<notin> set ?names" "pl_Targets p = [] \<longleftrightarrow> ?names = []"
    using assms(1) by (auto simp: good_plan_def good_targets_def simp flip: list.set_map dest: arg_cong [of _ _ length])
  have "lb_limit (launch_body (join '','' (map rn_Name (pl_Targets p))) (pl_ExtraVars p)) = names_limit ?names"
    unfolding t(1) by (rule names_limit_body [OF t(3)])
  with assms t show ?thesis
    unfolding scoped_launch_def Let_def
    by (intro conjI exI [of _ "pl_Template p"] exI [of _ ce] exI [of _ "rt_Hosts st2"])
      (auto simp: good_plan_def launch_body_def)
qed

lemma emits_launchRun_scoped:
  assumes iw: "ax_isWorkflow awx = (tr_Type (rs_Template (run_spec run)) = TemplateTypeWorkflow)"
  shows "emits (launchRun E u run st awx) (\<lambda>_. launches_scoped run (ax_conn awx) st)"
proof -
  let ?L = "\<lambda>es. list_all (\<lambda>e. \<not> is_launch e) es"
  have plan: "only (\<lambda>e. \<not> is_launch e) (plan_launch E run st' awx)" for st'
    by (rule only_mono [OF only_plan_launch]) (auto elim!: plan_event.elims)
  have hosts: "only (\<lambda>e. \<not> is_launch e) (reconcile_hosts E u run c i ts st')" for c i ts st'
    by (rule only_reconcile_hosts) simp_all
  show ?thesis
    unfolding launchRun_def Let_def
  proof (intro emits_option emits_return emits_bind [OF emits_conj [OF emits_plan_launch emits_only [OF plan]]] emits_prod emits_sum)
    fix x es r and st1 :: AnsibleRunStatus and p :: launchPlan
    assume x: "(rt_Hosts (fst x) = rt_Hosts (st\<lparr>rt_AWXEndpoint := ax_endpoint awx\<rparr>) \<and>
        (\<forall>p. snd x = Inr p \<longrightarrow> good_plan run awx p es)) \<and> ?L es" "x = (st1, r)" "r = Inr p"
    then have gp: "good_plan run awx p es" and h: "rt_Hosts st1 = rt_Hosts st" by auto
    from gp have gt: "good_targets (run_spec run) (ax_conn awx) (pl_Targets p)" by (simp add: good_plan_def)
    show "emits (do {
        (st2, e) \<leftarrow> reconcile_hosts E u run (ax_client awx) (the (tp_Inventory (pl_Template p))) (pl_Targets p) st1;
        (case e of Some err \<Rightarrow> ret ((u, st2), Some err) | None \<Rightarrow> claim_and_launch E u run st2 awx p) })
      (\<lambda>_ es'. launches_scoped run (ax_conn awx) st (es @ es'))"
    proof (intro emits_bind [OF emits_conj [OF emits_reconcile_hosts [OF gt] emits_only [OF hosts]]] emits_prod emits_option emits_return)
      fix y es1 and st2 :: AnsibleRunStatus and e :: "gerr option"
      assume y: "(snd y = None \<longrightarrow> hosts_recorded (rt_Hosts st1) (target_names (run_spec run) (ax_conn awx)) (rt_Hosts (fst y))) \<and> ?L es1"
        "y = (st2, e)"
      show "launches_scoped run (ax_conn awx) st (es @ es1 @ [])" if "e = Some err" for err
        using x(1) y by (auto intro: launches_scoped_quiet)
      assume e: "e = None"
      show "emits (claim_and_launch E u run st2 awx p) (\<lambda>b es'. launches_scoped run (ax_conn awx) st (es @ es1 @ es'))"
      proof (rule emits_conseq [OF emits_claim_and_launch], unfold launches_scoped_def, intro allI impI)
        fix es2 c iw i b a
        assume cl: "\<forall>c iw i b a. EHttp c (RqLaunch iw i b) a \<in> set es2 \<longrightarrow> c = ax_client awx \<and> iw = ax_isWorkflow awx \<and>
            i = tp_ID (pl_Template p) \<and> b = launch_body (join '','' (map rn_Name (pl_Targets p))) (pl_ExtraVars p) \<and>
            (\<exists>e \<in> set es2. claim_hosts e = Some (rt_Hosts st2))"
          and l: "EHttp c (RqLaunch iw i b) a \<in> set (es @ es1 @ es2)"
        from l have "EHttp c (RqLaunch iw i b) a \<in> set es2" using x(1) y(1) by (auto simp: list_all_iff)
        with cl obtain ce where b: "c = ax_client awx" "iw = ax_isWorkflow awx" "i = tp_ID (pl_Template p)"
          "b = launch_body (join '','' (map rn_Name (pl_Targets p))) (pl_ExtraVars p)"
          and ce: "ce \<in> set es2" "claim_hosts ce = Some (rt_Hosts st2)" by blast
        show "scoped_launch run (ax_conn awx) st (es @ es1 @ es2) c iw i b"
          unfolding b by (rule scoped_launchI [OF gp iw _ _ ce(2)]) (use y e h ce(1) in auto)
      qed
    qed
  qed (auto intro: launches_scoped_quiet)
qed

section \<open>The pass\<close>

text \<open>A pass that launches read the connection of the spec first.\<close>

definition pass_scoped :: "env \<Rightarrow> AnsibleRun \<Rightarrow> AnsibleRunStatus \<Rightarrow> event list \<Rightarrow> bool" where
  "pass_scoped E run st es \<longleftrightarrow> list_all (\<lambda>e. \<not> is_launch e) es \<or>
     (\<exists>conn. conn_read E (run_ns run) (rs_AWXConnectionRef (run_spec run)) conn es \<and> launches_scoped run conn st es)"

lemma pass_scoped_append:
  "list_all (\<lambda>e. \<not> is_launch e) xs \<Longrightarrow> pass_scoped E run st es \<Longrightarrow> pass_scoped E run st (xs @ es) \<and> pass_scoped E run st (es @ xs)"
proof -
  assume q: "list_all (\<lambda>e. \<not> is_launch e) xs" and s: "pass_scoped E run st es"
  then show ?thesis
    unfolding pass_scoped_def list_all_append
    using launches_scoped_append [OF q] conn_read_more by (metis Un_upper1 Un_upper2 set_append)
qed

lemma scoped_quiet_bind:
  "only (\<lambda>e. \<not> is_launch e) m \<Longrightarrow> (\<And>a. emits (f a) (\<lambda>_. pass_scoped E run st)) \<Longrightarrow>
   emits (m \<bind> f) (\<lambda>_. pass_scoped E run st)"
  by (rule emits_quiet_bind) (auto dest: pass_scoped_append)

lemma quiet_scoped: "only (\<lambda>e. \<not> is_launch e) m \<Longrightarrow> emits m (\<lambda>_. pass_scoped E run st)"
  by (rule emits_conseq [OF emits_only]) (auto simp: pass_scoped_def)

lemma quiet_spent: "only spent_event m \<Longrightarrow> only (\<lambda>e. \<not> is_launch e) m"
  by (erule only_mono) (simp add: spent_event_def)

lemma emits_reconcileRun_scoped:
  assumes "\<not> spent st"
  shows "emits (reconcileRun E u run st) (\<lambda>_. pass_scoped E run st)"
proof -
  have ctx: "only (\<lambda>e. \<not> is_launch e) (awxContextForRun E run)"
    by (rule only_mono [OF only_awxContextForRun]) (auto elim!: context_event.elims)
  have launch: "emits (launchRun E u run st awx) (\<lambda>_ es'. pass_scoped E run st (es @ es'))"
    if c: "context_of E run awx es" and q: "list_all (\<lambda>e. \<not> is_launch e) es" for awx es
  proof (rule emits_conseq [OF emits_launchRun_scoped])
    show "ax_isWorkflow awx = (tr_Type (rs_Template (run_spec run)) = TemplateTypeWorkflow)"
      using c by (simp add: context_of_def)
    fix es'
    assume "launches_scoped run (ax_conn awx) st es'"
    moreover have "conn_read E (run_ns run) (rs_AWXConnectionRef (run_spec run)) (ax_conn awx) (es @ es')"
      by (rule conn_read_more [of _ _ _ _ es]) (use c in \<open>auto simp: context_of_def\<close>)
    ultimately show "pass_scoped E run st (es @ es')"
      unfolding pass_scoped_def using launches_scoped_append [OF q] by blast
  qed
  show ?thesis
    unfolding reconcileRun_def
    by (rule emits_bind [OF emits_and_only [OF emits_awxContextForRun ctx]], intro emits_sum emits_if emits_return launch)
      (use assms in \<open>auto simp: spent_def pass_scoped_def\<close>)
qed

lemma emits_run_pass_scoped: "emits (run_pass E u run st) (\<lambda>_. pass_scoped E run st)"
proof (cases "spent st")
  case True
  then show ?thesis by (rule quiet_scoped [OF quiet_spent [OF spent_run_pass]])
next
  case False
  have dl: "only (\<lambda>e. \<not> is_launch e) (deadlineExceeded E run)" by (rule only_deadlineExceeded) simp
  have pass: "emits (reconcileRun E u run st \<bind> settle_run E) (\<lambda>_. pass_scoped E run st)"
    by (rule emits_bind [OF emits_reconcileRun_scoped [OF False]],
        rule emits_conseq [OF emits_only [OF quiet_spent [OF spent_settle_run]]]) (simp add: pass_scoped_append)
  have expire: "emits (expireRun E u run st) (\<lambda>_. pass_scoped E run st)"
    by (rule quiet_scoped [OF quiet_spent [OF spent_expireRun]])
  show ?thesis
    unfolding run_pass_def using False pass expire
    by (auto simp: spent_def intro!: scoped_quiet_bind [OF dl] emits_if)
qed

definition live_scoped :: "env \<Rightarrow> unstr \<Rightarrow> event list \<Rightarrow> bool" where
  "live_scoped E u es \<longleftrightarrow> (case convertAnsibleRun u of
      Inl err \<Rightarrow> list_all (\<lambda>e. \<not> is_launch e) es
    | Inr run \<Rightarrow> pass_scoped E run (run_status_of run) es)"

lemma emits_apply_live_scoped: "emits (apply_live_run E u) (\<lambda>_. live_scoped E u)"
proof (cases "convertAnsibleRun u")
  case (Inl err)
  then show ?thesis by (simp add: apply_live_run_def live_scoped_def emits_return)
next
  case (Inr run)
  have fin: "emits (ret (finish_run out')) (\<lambda>_ es'. pass_scoped E run (run_status_of run) (es @ es'))"
    if "pass_scoped E run (run_status_of run) es" for out' es using that by (simp add: emits_return)
  show ?thesis
    using Inr by (auto simp: apply_live_run_def live_scoped_def pass_scoped_def [of _ _ _ "[]"] intro!: emits_if emits_return
      emits_bind [OF emits_run_pass_scoped] fin)
qed

lemma emits_applyAnsibleRun_scoped: "emits (applyAnsibleRun E cached) (\<lambda>_. of_live cached (live_scoped E))"
  by (rule emits_pass [OF emits_apply_live_scoped])

section \<open>The hosts a pass writes\<close>

lemma convertAnsibleRun_meta: "convertAnsibleRun u = Inr run \<Longrightarrow> run_meta run = u_meta u"
  by (auto simp: convertAnsibleRun_def split: content.splits)

definition run_marker :: "env \<Rightarrow> AnsibleRun \<Rightarrow> string" where
  "run_marker E run = runHostOwnerMarker E (run_ns run) (md_Name (run_meta run))"

lemma emits_reconcile_hosts_writes:
  "emits (reconcile_hosts E u run c i ts st) (\<lambda>_. writes_checked (run_marker E run))"
proof (induction ts arbitrary: st)
  case (Cons t ts)
  have r: "emits (resolveRunHost E c i t (runHostOwnerMarker E (run_ns run) (md_Name (run_meta run))))
      (\<lambda>_. writes_checked (run_marker E run))"
    by (rule emits_conseq [OF emits_resolveRunHost]) (simp add: upsert_ok_def run_marker_def)
  have w: "emits (writeRunDetails E u st) (\<lambda>_. writes_checked (run_marker E run))" for st
    by (rule writes_quiet) (auto intro!: only_intros)
  show ?case unfolding reconcile_hosts.simps
    by (intro preceded_bind [OF r] emits_sum emits_prod Cons preceded_bind [OF w] emits_return) (simp add: writes_none)
qed (simp add: emits_return writes_none)

lemma emits_apply_live_writes:
  "emits (apply_live_run E u) (\<lambda>_. writes_checked (runHostOwnerMarker E (md_Namespace (u_meta u)) (md_Name (u_meta u))))"
proof (cases "convertAnsibleRun u")
  case (Inl err)
  then show ?thesis by (simp add: apply_live_run_def emits_return writes_none)
next
  case (Inr run)
  let ?W = "\<lambda>_ :: 'a. writes_checked (run_marker E run)"
  have m: "run_marker E run = runHostOwnerMarker E (md_Namespace (u_meta u)) (md_Name (u_meta u))"
    by (simp add: run_marker_def run_ns_def convertAnsibleRun_meta [OF Inr])
  have nil: "writes_checked (run_marker E run) []" by (simp add: writes_none)
  have ctx: "only (\<lambda>e. \<not> is_host_put e) (awxContextForRun E run)"
    by (rule only_mono [OF only_awxContextForRun]) (auto elim!: context_event.elims)
  have plan: "only (\<lambda>e. \<not> is_host_put e) (plan_launch E run st awx)" for st awx
    by (rule only_mono [OF only_plan_launch]) (auto elim!: plan_event.elims)
  have cl: "only (\<lambda>e. \<not> is_host_put e) (claim_and_launch E u run st awx p)" for st awx p
    unfolding claim_and_launch_def claimLaunch_def record_launch_def record_answer_def Let_def
    by (auto intro!: only_intros only_submit_launch)
  have launch: "emits (launchRun E u run st awx) (\<lambda>_. writes_checked (run_marker E run))" for st awx
    unfolding launchRun_def Let_def
    by (intro emits_option emits_return nil preceded_bind [OF writes_quiet [OF plan]] emits_prod emits_sum
        preceded_bind [OF emits_reconcile_hosts_writes] writes_quiet [OF cl])
  have rec: "emits (reconcileRun E u run st) (\<lambda>_. writes_checked (run_marker E run))" for st
    unfolding reconcileRun_def
    by (intro preceded_bind [OF writes_quiet [OF ctx]] emits_sum emits_if emits_return nil launch writes_quiet)
      (auto simp: pollRun_def recoverLostLaunch_def Let_def intro!: only_intros)
  have ends: "only (\<lambda>e. \<not> is_host_put e) (settle_run E out')" "only (\<lambda>e. \<not> is_host_put e) (expireRun E u run st)"
      "only (\<lambda>e. \<not> is_host_put e) (collectFinishedRun E run st)" for out' st
    unfolding settle_run_def expireRun_def Let_def
    by (auto intro!: only_intros only_cancelRunJob only_collectFinishedRun elim!: context_event.elims split: prod.split)
  have pass: "emits (run_pass E u run st) (\<lambda>_. writes_checked (run_marker E run))" for st
    unfolding run_pass_def
    by (intro emits_if preceded_bind [OF rec] writes_quiet [OF ends(1)] writes_quiet [OF ends(2)]
        preceded_bind [OF writes_quiet [OF ends(3)]] preceded_bind [OF writes_quiet [OF only_deadlineExceeded]] emits_return nil) simp_all
  show ?thesis unfolding apply_live_run_def Inr sum.case m [symmetric]
    by (intro emits_if emits_return nil preceded_bind [OF pass])
qed

lemma emits_applyAnsibleRun_writes:
  "emits (applyAnsibleRun E cached) (\<lambda>_. of_live cached
     (\<lambda>live. writes_checked (runHostOwnerMarker E (md_Namespace (u_meta live)) (md_Name (u_meta live)))))"
  by (rule emits_pass [OF emits_apply_live_writes])

section \<open>Ends of a run\<close>

text \<open>A finished run asks AWX for nothing; the only object it deletes is itself, by its own UID.\<close>

fun collect_event :: "AnsibleRun \<Rightarrow> event \<Rightarrow> bool" where
  "collect_event run (ENow t) = True"
| "collect_event run (EDelete g ns n uid a) = (g = AnsRunGVR \<and> ns = run_ns run \<and> n = md_Name (run_meta run) \<and>
     uid = (if md_UID (run_meta run) \<noteq> [] then Some (md_UID (run_meta run)) else None))"
| "collect_event run _ = False"

lemma only_finished_pass: "rt_FinishedAt st \<noteq> NoStamp \<Longrightarrow> only (collect_event run) (run_pass E u run st)"
  unfolding run_pass_def by (auto intro!: only_bind only_collectFinishedRun only_return)

text \<open>Its TTL has to be up.\<close>

lemma emits_collectFinishedRun:
  "emits (collectFinishedRun E run st) (\<lambda>r es. (\<exists>g ns n uid a. EDelete g ns n uid a \<in> set es) \<longrightarrow>
     (\<exists>ttl fin now. rs_TTLSecondsAfterFinished (run_spec run) = Some ttl \<and> parse_time (rt_FinishedAt st) = Some fin \<and>
        ENow now \<in> set es \<and> time_sub now fin \<ge> seconds ttl))"
  unfolding collectFinishedRun_def
  by (auto intro!: emits_option emits_return emits_bind [OF does_Since] emits_if emits_bind [OF does_Delete]
      simp: not_less)

text \<open>The failure is recorded under the reason given, and the run is over.\<close>

lemma emits_failRun:
  "emits (failRun E u st reason) (\<lambda>((u', st'), r) es. u' = u \<and> rt_FinishedAt st' \<noteq> NoStamp \<and>
     rt_FailureReason st' = reason \<and> rt_JobID st' = rt_JobID st \<and> rt_JobStatus st' \<noteq> [])"
proof -
  have w: "emits (writeRunDetails E u st') (\<lambda>_ _. True)" for st'
    by (rule emits_top) (auto intro!: only_intros)
  show ?thesis
    unfolding failRun_def Let_def
    by (rule emits_bind [OF does_nowRFC3339], rule emits_bind [OF w])
      (auto intro!: emits_return simp: st_unknown_def)
qed

text \<open>Ready is a finished run whose job AWX called successful, and nothing else.\<close>

lemma run_state_ready: "snd (snd (run_state st e)) \<longleftrightarrow> rt_FinishedAt st \<noteq> NoStamp \<and> rt_JobStatus st = st_successful"
  by (auto simp: run_state_def Let_def split: option.splits)

lemma run_state_failed:
  "fst (run_state st e) = StateFailed \<longleftrightarrow> rt_FinishedAt st \<noteq> NoStamp \<and> rt_JobStatus st \<noteq> st_successful"
  by (auto simp: run_state_def Let_def StateFailed_def StateReady_def StateRunning_def StatePending_def
      split: option.splits)

section \<open>A run that is not ready\<close>

text \<open>
  What a run's pass hands the loop leaves \<open>ready\<close> out when it is false, so a run that is not ready never counts as
  current, and its generic status is applied on every pass.
\<close>

lemma run_not_ready_never_current:
  "(case finish_run out' of Inl err \<Rightarrow> True
    | Inr res \<Rightarrow> (case res_Object res of None \<Rightarrow> True | Some u \<Rightarrow> st_ready m \<or> \<not> genericStatusCurrent u m))"
  by (auto simp: finish_run_def genericStatusCurrent_def set_run_status_def omit_generic_def split: prod.splits option.splits)

section \<open>The deadline\<close>

text \<open>
  The product of seconds and \<open>time.Second\<close> wraps: a deadline of 9223372037 seconds is past the moment the run is created,
  while up to 9223372036 seconds it is what it says.
\<close>

lemma deadline_result:
  assumes "md_CreationTimestamp (run_meta run) = Some created" "0 < rs_ActiveDeadlineSeconds (run_spec run)"
  shows "result_of (deadlineExceeded E run) w \<longleftrightarrow>
    time_sub (e_now E (w_trace w)) created > seconds (rs_ActiveDeadlineSeconds (run_spec run))"
  using assms by (simp add: deadlineExceeded_def result_of_def time_Since_def time_Now_def ask_def Let_def)

lemma deadline_small:
  assumes "md_CreationTimestamp (run_meta run) = Some created" "0 < rs_ActiveDeadlineSeconds (run_spec run)"
    "rs_ActiveDeadlineSeconds (run_spec run) \<le> 9223372036"
  shows "result_of (deadlineExceeded E run) w \<longleftrightarrow>
    time_sub (e_now E (w_trace w)) created > rs_ActiveDeadlineSeconds (run_spec run) * nanos_per_second"
  using deadline_result [OF assms(1,2)] seconds_small [of "rs_ActiveDeadlineSeconds (run_spec run)"] assms(2,3) by simp

lemma deadline_past_at_once:
  assumes "md_CreationTimestamp (run_meta run) = Some created" "created \<le> e_now E (w_trace w)"
    "rs_ActiveDeadlineSeconds (run_spec run) = 9223372037"
  shows "result_of (deadlineExceeded E run) w"
  using deadline_result [OF assms(1)] assms(2,3) seconds_wraps by (auto simp: time_sub_def)

end
