(* ===== verification/BindingVM.thy ===== *)
theory BindingVM
  imports Connection
begin

text \<open>
  controller/ansiblebindingvm.go, the provisioning half: one VM's inventory host and run. A pass is
  \<open>applyAnsibleBindingVM\<close>; the Go function builds \<open>st\<close>, \<open>firstErr\<close> and \<open>requeueAfter\<close> and leaves through
  \<open>finish\<close>, so its phases are functions here that return those three (\<open>vm_out\<close>), and \<open>finish_vm\<close>
  writes them. \<open>childWithStatus\<close> is the object handed back to the engine.
\<close>

definition vmGroup where "vmGroup = ''vmoperator.vmware.com''"
definition vmDetailsFieldManager where "vmDetailsFieldManager = ''ansible-supervisor-vm-details''"

definition ch_ns :: "AnsibleBindingVM \<Rightarrow> string" where
  "ch_ns child = md_Namespace (ch_meta child)"

definition ch_spec :: "AnsibleBindingVM \<Rightarrow> AnsibleBindingVMSpec" where
  "ch_spec child = the (ch_Spec child)"

section \<open>The record\<close>

definition vmDetailsOf :: "AnsibleBindingVMStatus \<Rightarrow> AnsibleBindingVMStatus" where
  "vmDetailsOf s = strip_generic s"

lemma vmDetailsOf_idem [simp]: "vmDetailsOf (vmDetailsOf s) = vmDetailsOf s"
  by (simp add: vmDetailsOf_def)

definition priorVMState :: "AnsibleBindingVM \<Rightarrow> AnsibleBindingVMStatus" where
  "priorVMState child = (case ch_Status child of None \<Rightarrow> zero_vm_status | Some st \<Rightarrow> st)"

text \<open>
  \<open>reflect.DeepEqual\<close> of the two statuses. It also tells a nil slice or map from an empty one, which the model does not
  have: the code makes its lists by appending to nil and reads them from JSON where \<open>omitempty\<close> leaves empty ones out,
  so that an empty one is nil on both sides. Where somebody else wrote an explicit empty list, Go makes one write more.
\<close>

definition ansibleBindingVMDetailsCurrent :: "AnsibleBindingVMStatus option \<Rightarrow> AnsibleBindingVMStatus \<Rightarrow> bool" where
  "ansibleBindingVMDetailsCurrent prior nxt =
     (case prior of None \<Rightarrow> False | Some p \<Rightarrow> vmDetailsOf p = vmDetailsOf nxt)"

definition writeAnsibleBindingVMDetails :: "env \<Rightarrow> unstr \<Rightarrow> AnsibleBindingVMStatus \<Rightarrow> gerr option prog" where
  "writeAnsibleBindingVMDetails E obj st = patchStatus E AnsBindVMGVR obj (PChild (vmDetailsOf st)) vmDetailsFieldManager"

definition childWithStatus :: "unstr \<Rightarrow> AnsibleBindingVMStatus \<Rightarrow> unstr" where
  "childWithStatus u st = u\<lparr>u_content :=
     CChild (case u_content u of CChild sp old \<Rightarrow> sp | _ \<Rightarrow> None) (Some (vmDetailsOf st))\<rparr>"

definition needsRun :: "AnsibleBindingVMStatus \<Rightarrow> AnsibleBindingVMSpec \<Rightarrow> bool" where
  "needsRun st sp \<longleftrightarrow> vt_LastJobID st = 0 \<or> vt_AppliedGeneration st \<noteq> vs_BindingGeneration sp \<or>
     vt_AppliedTrigger st \<noteq> vs_BindingTrigger sp"

definition hasRecordedLaunchIdentity :: "AnsibleBindingVMStatus \<Rightarrow> bool" where
  "hasRecordedLaunchIdentity st =
     (case vt_LastJobConnection st of
        None \<Rightarrow> False
      | Some c \<Rightarrow> cs_URL c \<noteq> [] \<and> cs_SecretRef c \<noteq> [] \<and>
          (vt_LastJobType st = TemplateTypeJob \<or> vt_LastJobType st = TemplateTypeWorkflow))"

section \<open>Whose child this is\<close>

definition f_not_owned where [text_defs]: "f_not_owned =
  ''AnsibleBindingVM %q has no ownerReference to VirtualMachine %q: children are created by their AnsibleBinding, not written by hand: %w''"

fun owner_uid :: "env \<Rightarrow> string \<Rightarrow> OwnerReference list \<Rightarrow> string option" where
  "owner_uid E vmName [] = None"
| "owner_uid E vmName (ref # refs) =
     (if or_Kind ref \<noteq> ''VirtualMachine'' \<or> or_Name ref \<noteq> vmName then owner_uid E vmName refs
      else (case e_parseGroupVersion E (or_APIVersion ref) of
          Inl err \<Rightarrow> owner_uid E vmName refs
        | Inr (grp, version) \<Rightarrow> if grp \<noteq> vmGroup then owner_uid E vmName refs else Some (or_UID ref)))"

definition checkOwnedByItsVM :: "env \<Rightarrow> AnsibleBindingVM \<Rightarrow> gerr + string" where
  "checkOwnedByItsVM E child =
     (case owner_uid E (vs_VMName (ch_spec child)) (md_OwnerReferences (ch_meta child)) of
        Some uid \<Rightarrow> Inr uid
      | None \<Rightarrow> Inl (errorw f_not_owned [md_Name (ch_meta child), vs_VMName (ch_spec child)] PermanentConfigE))"

definition f_vm_decode where [text_defs]: "f_vm_decode = ''decoding AnsibleBindingVM: %w''"
definition f_vmname where [text_defs]: "f_vmname = ''spec.vmName is required''"
definition f_bindingname where [text_defs]: "f_bindingname = ''spec.bindingName is required''"
definition f_not_claim where [text_defs]: "f_not_claim =
  ''this object is not the claim on VirtualMachine %q: that is %q. AnsibleBindingVMs are created by the binding controller, not by hand''"
definition f_connref where [text_defs]: "f_connref = ''spec.awxConnectionRef is required''"

text \<open>The checks before anything is read: the child, and the UID of the VM it was created for.\<close>

definition check_child :: "env \<Rightarrow> unstr \<Rightarrow> gerr + AnsibleBindingVM \<times> string" where
  "check_child E u =
     (case convertAnsibleBindingVM u of
        Inl err \<Rightarrow> Inl (errorw f_vm_decode [] err)
      | Inr child \<Rightarrow>
          (let sp = ch_spec child in
           if ch_Spec child = None then Inl (errorf f_spec_required [])
           else if vs_VMName sp = [] then Inl (errorf f_vmname [])
           else if vs_BindingName sp = [] then Inl (errorf f_bindingname [])
           else if md_Name (u_meta u) \<noteq> childName E (vs_VMName sp)
           then Inl (errorf f_not_claim [vs_VMName sp, childName E (vs_VMName sp)])
           else if vs_AWXConnectionRef sp = [] then Inl (errorf f_connref [])
           else (case checkOwnedByItsVM E child of Inl err \<Rightarrow> Inl err | Inr uid \<Rightarrow> Inr (child, uid))))"

section \<open>A job in flight\<close>

definition f_vm_conn where [text_defs]: "f_vm_conn = ''fetching AWXConnection %q: %w''"
definition f_vm_badconn where [text_defs]: "f_vm_badconn = ''decoding AWXConnection %q: %w''"
definition f_vm_nilerr where [text_defs]: "f_vm_nilerr = ''%!w(<nil>)''"
definition f_vm_cred where [text_defs]: "f_vm_cred = ''reading recorded job credential: %w''"

text \<open>With the connection and template type the spec names now, for a job of an older controller.\<close>

definition poll_unidentified :: "env \<Rightarrow> AnsibleBindingVM \<Rightarrow> AnsibleBindingVMStatus \<Rightarrow> (gerr + string) prog" where
  "poll_unidentified E child st = do {
     r \<leftarrow> getAWXConnection E (ch_ns child) (vs_AWXConnectionRef (ch_spec child));
     (case r of
        Inl err \<Rightarrow> ret (Inl (errorw f_vm_conn [vs_AWXConnectionRef (ch_spec child)] err))
      | Inr obj \<Rightarrow> (case convertAWXConnection obj of
            Inl err \<Rightarrow> ret (Inl (errorw f_vm_badconn [vs_AWXConnectionRef (ch_spec child)] err))
          | Inr conn \<Rightarrow>
              if conn_Spec conn = None
              then ret (Inl (errorf f_vm_badconn [vs_AWXConnectionRef (ch_spec child), f_vm_nilerr]))
              else do {
                cl \<leftarrow> awxClientForConnection E conn;
                (case cl of
                   Inl err \<Rightarrow> ret (Inl err)
                 | Inr (c, basePath) \<Rightarrow>
                     pollJobStatus E c (tr_Type (vs_Template (ch_spec child))) (vt_LastJobID st))
              }))
   }"

definition recorded_connection :: "AnsibleBindingVM \<Rightarrow> AnsibleBindingVMStatus \<Rightarrow> AWXConnection" where
  "recorded_connection child st =
     \<lparr>conn_meta = \<lparr>md_Namespace = ch_ns child, md_Name = vs_AWXConnectionRef (ch_spec child), md_UID = [],
        md_ResourceVersion = [], md_Generation = 0, md_DeletionTimestamp = None, md_CreationTimestamp = None,
        md_Labels = [], md_Annotations = [], md_Finalizers = [], md_OwnerReferences = []\<rparr>,
      conn_Spec = vt_LastJobConnection st, conn_Status = None\<rparr>"

definition pollRecordedJob :: "env \<Rightarrow> AnsibleBindingVM \<Rightarrow> AnsibleBindingVMStatus \<Rightarrow> (gerr + string) prog" where
  "pollRecordedJob E child st =
     (if \<not> hasRecordedLaunchIdentity st then poll_unidentified E child st
      else do {
        tk \<leftarrow> getSecretValue E (ch_ns child) (cs_SecretRef (the (vt_LastJobConnection st))) secretTokenKey;
        (case tk of
           Inl err \<Rightarrow> ret (Inl (errorw f_vm_cred [] err))
         | Inr token \<Rightarrow> do {
             cl \<leftarrow> awxClientFor E (recorded_connection child st) token;
             (case cl of
                Inl err \<Rightarrow> ret (Inl err)
              | Inr (c, basePath) \<Rightarrow> pollJobStatus E c (vt_LastJobType st) (vt_LastJobID st))
           })
      })"

section \<open>What a pass settles\<close>

record vm_out =
  vo_st :: AnsibleBindingVMStatus
  vo_requeue :: int
  vo_err :: "gerr option"

definition vm_finish :: "AnsibleBindingVMStatus \<Rightarrow> vm_out prog" where
  "vm_finish st = ret \<lparr>vo_st = st, vo_requeue = 0, vo_err = None\<rparr>"

definition vm_fail :: "AnsibleBindingVMStatus \<Rightarrow> gerr \<Rightarrow> vm_out prog" where
  "vm_fail st err = ret \<lparr>vo_st = st, vo_requeue = 0, vo_err = Some err\<rparr>"

text \<open>\<open>finish\<close>: the write of the details when they say something new, and the first error.\<close>

definition finish_vm :: "env \<Rightarrow> unstr \<Rightarrow> AnsibleBindingVM \<Rightarrow> vm_out \<Rightarrow> (gerr + Result) prog" where
  "finish_vm E u child out' = do {
     w \<leftarrow> (if \<not> ansibleBindingVMDetailsCurrent (ch_Status child) (vo_st out')
          then writeAnsibleBindingVMDetails E u (vo_st out') else ret None);
     ret (case (case vo_err out' of Some err \<Rightarrow> Some err | None \<Rightarrow> w) of
        Some err \<Rightarrow> Inl err
      | None \<Rightarrow> Inr \<lparr>res_Object = Some (childWithStatus u (vo_st out')), res_RequeueAfter = vo_requeue out'\<rparr>)
   }"

section \<open>The host\<close>

text \<open>Ids of another AWX instance are forgotten, and this one's fingerprint recorded.\<close>

definition settle_endpoint :: "string \<Rightarrow> AnsibleBindingVMStatus \<Rightarrow> AnsibleBindingVMStatus" where
  "settle_endpoint endpoint st =
     (if vt_AWXEndpoint st \<noteq> [] \<and> vt_AWXEndpoint st \<noteq> endpoint
      then st\<lparr>vt_AWXHostID := 0, vt_AWXInventoryID := 0, vt_AWXHostName := [], vt_AWXHostCreated := False\<rparr>
      else st)\<lparr>vt_AWXEndpoint := endpoint\<rparr>"

definition f_recover_host where [text_defs]: "f_recover_host = ''recovering previous AWX host: %w''"
definition f_retire_host where [text_defs]: "f_retire_host = ''retiring AWX host %q: %w''"
definition f_host_intent where [text_defs]: "f_host_intent = ''recording AWX host intent: %w''"
definition f_vm_upsert where [text_defs]: "f_vm_upsert = ''upserting AWX host: %w''"

text \<open>The recorded host goes by another name or is in another inventory than the one wanted now.\<close>

definition host_moved :: "AnsibleBindingVMStatus \<Rightarrow> string \<Rightarrow> int \<Rightarrow> bool" where
  "host_moved st hostName inventoryID \<longleftrightarrow>
     (vt_AWXHostName st \<noteq> [] \<and> vt_AWXHostName st \<noteq> hostName) \<or>
     (vt_AWXInventoryID st \<noteq> 0 \<and> vt_AWXInventoryID st \<noteq> inventoryID)"

text \<open>What AWX holds under the recorded name now: its id and whether it carries this binding's marker.\<close>

definition recover_host :: "env \<Rightarrow> AWXClient \<Rightarrow> string \<Rightarrow> bool \<Rightarrow> AnsibleBindingVMStatus \<Rightarrow> (gerr + AnsibleBindingVMStatus) prog" where
  "recover_host E c marker changed st =
     (if vt_AWXInventoryID st \<noteq> 0 \<and> vt_AWXHostName st \<noteq> [] \<and> changed then do {
        r \<leftarrow> FindHost E c (vt_AWXInventoryID st) (vt_AWXHostName st);
        ret (case r of
           Inl err \<Rightarrow> Inl (errorw f_recover_host [] err)
         | Inr None \<Rightarrow> Inr (st\<lparr>vt_AWXHostID := 0, vt_AWXHostCreated := False\<rparr>)
         | Inr (Some h) \<Rightarrow> Inr (st\<lparr>vt_AWXHostID := hr_ID h, vt_AWXHostCreated := (trim_space (hr_Description h) = marker)\<rparr>))
      }
      else ret (Inr st))"

definition retire_host :: "env \<Rightarrow> AWXClient \<Rightarrow> string \<Rightarrow> bool \<Rightarrow> AnsibleBindingVMStatus \<Rightarrow> (gerr + AnsibleBindingVMStatus) prog" where
  "retire_host E c policy changed st =
     (if vt_AWXHostID st \<noteq> 0 \<and> changed then do {
        e \<leftarrow> (if vt_AWXHostCreated st \<and> policy = CleanupPolicyDelete then DeleteHost E c (vt_AWXHostID st) else ret None);
        ret (case e of
           Some err \<Rightarrow> Inl (errorw f_retire_host [vt_AWXHostName st] err)
         | None \<Rightarrow> Inr (st\<lparr>vt_AWXHostID := 0, vt_AWXHostCreated := False, vt_AWXInventoryID := 0\<rparr>))
      }
      else ret (Inr st))"

text \<open>The coordinates of a host about to be created, durable before it is.\<close>

definition record_intent :: "env \<Rightarrow> unstr \<Rightarrow> AnsibleBindingVM \<Rightarrow> string \<Rightarrow> int \<Rightarrow> AnsibleBindingVMStatus \<Rightarrow>
    (AnsibleBindingVMStatus \<times> gerr option) prog" where
  "record_intent E u child hostName inventoryID st =
     (if vt_AWXHostID st = 0 then
        (let st = st\<lparr>vt_AWXHostName := hostName, vt_AWXInventoryID := inventoryID, vt_AWXHostCreated := False\<rparr> in
         if ansibleBindingVMDetailsCurrent (ch_Status child) st then ret (st, None)
         else do {
           w \<leftarrow> writeAnsibleBindingVMDetails E u st;
           ret (st, map_option (errorw f_host_intent []) w)
         })
      else ret (st, None))"

definition host_vars :: "AnsibleBindingVMSpec \<Rightarrow> string \<Rightarrow> string smap" where
  "host_vars sp ip = smap_merge [(ansible_host, ip)] (vs_HostVariables sp)"

definition upsert_host :: "env \<Rightarrow> AWXClient \<Rightarrow> string \<Rightarrow> string \<Rightarrow> int \<Rightarrow> string smap \<Rightarrow> AnsibleBindingVMStatus \<Rightarrow>
    (AnsibleBindingVMStatus \<times> gerr option) prog" where
  "upsert_host E c marker hostName inventoryID vars st = do {
     r \<leftarrow> UpsertHost E c inventoryID hostName marker vars;
     ret (case r of
        Inl hErr \<Rightarrow> (st, Some (errorw f_vm_upsert [] hErr))
      | Inr (hostID, owned) \<Rightarrow> (st\<lparr>vt_AWXHostID := hostID, vt_AWXHostName := hostName, vt_AWXHostCreated := owned,
          vt_AWXInventoryID := inventoryID\<rparr>, None))
   }"

definition reconcile_host :: "env \<Rightarrow> unstr \<Rightarrow> AnsibleBindingVM \<Rightarrow> AWXClient \<Rightarrow> string \<Rightarrow> int \<Rightarrow> string \<Rightarrow> AnsibleBindingVMStatus \<Rightarrow>
    (AnsibleBindingVMStatus \<times> gerr option) prog" where
  "reconcile_host E u child c hostName inventoryID ip st =
     (let sp = ch_spec child;
          marker = hostOwnerMarker E (ch_ns child) (vs_BindingName sp);
          policy = (if vs_CleanupPolicy sp = [] then CleanupPolicyDelete else vs_CleanupPolicy sp);
          changed = host_moved st hostName inventoryID
      in do {
        r1 \<leftarrow> recover_host E c marker changed st;
        (case r1 of
           Inl err \<Rightarrow> ret (st, Some err)
         | Inr st1 \<Rightarrow> do {
             r2 \<leftarrow> retire_host E c policy changed st1;
             (case r2 of
                Inl err \<Rightarrow> ret (st1, Some err)
              | Inr st2 \<Rightarrow> do {
                  (st3, e) \<leftarrow> record_intent E u child hostName inventoryID st2;
                  (case e of
                     Some err \<Rightarrow> ret (st3, Some err)
                   | None \<Rightarrow> upsert_host E c marker hostName inventoryID (host_vars sp ip) st3)
                })
           })
      })"

section \<open>The launch\<close>

definition f_vm_launch where [text_defs]: "f_vm_launch = ''launching template: %w''"

text \<open>The job recorded, with the connection it was launched through and what it was launched for.\<close>

definition record_vm_job :: "AnsibleBindingVMSpec \<Rightarrow> AWXConnectionSpec \<Rightarrow> AWXClient \<Rightarrow> int \<Rightarrow> stamp \<Rightarrow>
    AnsibleBindingVMStatus \<Rightarrow> AnsibleBindingVMStatus" where
  "record_vm_job sp connection c jobID now st =
     st\<lparr>vt_LastJobID := jobID, vt_LastJobURL := JobURL c jobID (tr_Type (vs_Template sp) = TemplateTypeWorkflow),
       vt_LastJobStatus := st_pending, vt_LastJobType := tr_Type (vs_Template sp),
       vt_LastJobConnection := Some connection, vt_Phase := PhaseRunning,
       vt_History := upsertHistory (vt_History st)
         \<lparr>he_JobID = jobID, he_Status = st_pending, he_StartedAt = now, he_FinishedAt = NoStamp\<rparr>,
       vt_AppliedGeneration := vs_BindingGeneration sp, vt_AppliedTrigger := vs_BindingTrigger sp\<rparr>"

definition launch_vm :: "env \<Rightarrow> AnsibleBindingVMSpec \<Rightarrow> AWXConnectionSpec \<Rightarrow> AWXClient \<Rightarrow> AWXTemplate \<Rightarrow> string \<Rightarrow>
    AnsibleBindingVMStatus \<Rightarrow> vm_out prog" where
  "launch_vm E sp connection c tmpl limit st = do {
     (jobID, lErr) \<leftarrow> (if tr_Type (vs_Template sp) = TemplateTypeWorkflow
                       then LaunchWorkflowJobTemplate E c (tp_ID tmpl) limit (vs_ExtraVars sp)
                       else LaunchJobTemplate E c (tp_ID tmpl) limit (vs_ExtraVars sp));
     st \<leftarrow> (if jobID \<noteq> 0 then do { now \<leftarrow> nowRFC3339 E; ret (record_vm_job sp connection c jobID now st) } else ret st);
     ret \<lparr>vo_st = (if lErr \<noteq> None \<and> jobID = 0 then st\<lparr>vt_Phase := PhaseFailed\<rparr> else st),
       vo_requeue = e_hostCheckPeriod E, vo_err = map_option (errorw f_vm_launch []) lErr\<rparr>
   }"

section \<open>One pass\<close>

definition f_vm_nospec where [text_defs]: "f_vm_nospec = ''AWXConnection %q has no spec''"
definition f_vm_client where [text_defs]: "f_vm_client = ''preparing a client for AWXConnection %q: %w''"
definition f_vm_fetch where [text_defs]: "f_vm_fetch = ''fetching VirtualMachine %q: %w''"
definition f_vm_poll where [text_defs]: "f_vm_poll = ''polling job %d: %w''"
definition useDefaultLimitRemedy where [text_defs]: "useDefaultLimitRemedy =
  ''set spec.useDefaultLimit: true to accept the template's own scope''"

definition connect_vm :: "env \<Rightarrow> AnsibleBindingVM \<Rightarrow> (gerr + AWXConnection \<times> AWXClient \<times> string) prog" where
  "connect_vm E child =
     (let ref = vs_AWXConnectionRef (ch_spec child) in do {
        r \<leftarrow> getAWXConnection E (ch_ns child) ref;
        (case r of
           Inl err \<Rightarrow> ret (Inl (errorw f_vm_conn [ref] err))
         | Inr obj \<Rightarrow> (case convertAWXConnection obj of
               Inl err \<Rightarrow> ret (Inl (errorw f_vm_badconn [ref] err))
             | Inr conn \<Rightarrow>
                 if conn_Spec conn = None then ret (Inl (errorf f_vm_nospec [ref]))
                 else do {
                   cl \<leftarrow> awxClientForConnection E conn;
                   ret (case cl of
                      Inl err \<Rightarrow> Inl (errorw f_vm_client [ref] err)
                    | Inr (c, basePath) \<Rightarrow> Inr (conn, c, basePath))
                 }))
      })"

definition vm_host_name :: "AWXConnection \<Rightarrow> AnsibleBindingVMSpec \<Rightarrow> string" where
  "vm_host_name conn sp = cs_HostNamePrefix (the (conn_Spec conn)) @
     (if vs_HostName sp \<noteq> [] then vs_HostName sp else vs_VMName sp)"

text \<open>The host first, when the template has an inventory to keep it in; then the run, when one is wanted.\<close>

definition host_then_run :: "env \<Rightarrow> unstr \<Rightarrow> AnsibleBindingVM \<Rightarrow> AWXConnection \<Rightarrow> AWXClient \<Rightarrow> string \<Rightarrow> AWXTemplate \<Rightarrow> bool \<Rightarrow> string \<Rightarrow>
    AnsibleBindingVMStatus \<Rightarrow> vm_out prog" where
  "host_then_run E u child conn c basePath tmpl wantsRun ip st =
     (let sp = ch_spec child; hostName = vm_host_name conn sp;
          targetsHost = (\<not> vs_UseDefaultLimit sp \<and> tp_Inventory tmpl \<noteq> None) in do {
        (st, e) \<leftarrow> (case tp_Inventory tmpl of
            None \<Rightarrow> ret (st, None)
          | Some inventoryID \<Rightarrow> reconcile_host E u child c hostName inventoryID ip st);
        (case e of
           Some err \<Rightarrow> vm_fail st err
         | None \<Rightarrow> do {
             now \<leftarrow> nowRFC3339 E;
             (let st = st\<lparr>vt_LastHostCheck := now\<rparr> in
              if \<not> wantsRun then ret \<lparr>vo_st = st, vo_requeue = e_hostCheckPeriod E, vo_err = None\<rparr>
              else launch_vm E sp ((the (conn_Spec conn))\<lparr>cs_APIBasePath := basePath\<rparr>) c tmpl
                     (if targetsHost then hostName else []) st)
           })
      })"

definition run_in_awx :: "env \<Rightarrow> unstr \<Rightarrow> AnsibleBindingVM \<Rightarrow> bool \<Rightarrow> string \<Rightarrow> AnsibleBindingVMStatus \<Rightarrow> vm_out prog" where
  "run_in_awx E u child wantsRun ip st = do {
     r \<leftarrow> connect_vm E child;
     (case r of
        Inl err \<Rightarrow> vm_fail st err
      | Inr (conn, c, basePath) \<Rightarrow>
          (let sp = ch_spec child;
               st = settle_endpoint (awxEndpointFingerprint E (cs_URL (the (conn_Spec conn))) basePath) st in do {
             t \<leftarrow> (if wantsRun then resolveTemplateForLaunch E c (connectionKey conn) (vs_Template sp)
                  else resolveTemplateCached E c (connectionKey conn) (vs_Template sp));
             (case t of
                Inl err \<Rightarrow> vm_fail st err
              | Inr tmpl \<Rightarrow> (case checkTemplateAcceptsLaunchFields tmpl (tr_Name (vs_Template sp))
                    (\<not> vs_UseDefaultLimit sp \<and> tp_Inventory tmpl \<noteq> None) (vs_ExtraVars sp \<noteq> []) useDefaultLimitRemedy of
                    Some err \<Rightarrow> vm_fail st err
                  | None \<Rightarrow> host_then_run E u child conn c basePath tmpl wantsRun ip st))
           }))
   }"

text \<open>The poll of a job in flight: the status with its answer, or the way the pass ends here.\<close>

definition history_entry :: "int \<Rightarrow> string \<Rightarrow> stamp \<Rightarrow> VMRunHistoryEntry" where
  "history_entry jobID status finished =
     \<lparr>he_JobID = jobID, he_Status = status, he_StartedAt = NoStamp, he_FinishedAt = finished\<rparr>"

definition poll_in_flight :: "env \<Rightarrow> AnsibleBindingVM \<Rightarrow> AnsibleBindingVMStatus \<Rightarrow> AnsibleBindingVMStatus \<Rightarrow>
    (vm_out + AnsibleBindingVMStatus) prog" where
  "poll_in_flight E child prior st = do {
     r \<leftarrow> pollRecordedJob E child prior;
     (case r of
        Inl sErr \<Rightarrow> ret (Inl \<lparr>vo_st = st\<lparr>vt_Phase := PhaseRunning\<rparr>, vo_requeue = 0,
          vo_err = Some (errorw f_vm_poll [itoa (vt_LastJobID prior)] sErr)\<rparr>)
      | Inr status \<Rightarrow>
          (let st = st\<lparr>vt_LastJobStatus := status, vt_Phase := mapAWXStatus status\<rparr> in
           if \<not> isTerminalAWXStatus status
           then ret (Inl \<lparr>vo_st = st\<lparr>vt_History := upsertHistory (vt_History st)
                  (history_entry (vt_LastJobID prior) status NoStamp)\<rparr>, vo_requeue = 0, vo_err = None\<rparr>)
           else do {
             now \<leftarrow> nowRFC3339 E;
             ret (Inr (st\<lparr>vt_History := upsertHistory (vt_History st) (history_entry (vt_LastJobID prior) status now)\<rparr>))
           }))
   }"

definition vm_in_flight :: "AnsibleBindingVMStatus \<Rightarrow> bool" where
  "vm_in_flight prior \<longleftrightarrow> vt_LastJobID prior \<noteq> 0 \<and> \<not> isTerminalAWXStatus (vt_LastJobStatus prior)"

definition pending_if_never_ran :: "AnsibleBindingVMStatus \<Rightarrow> AnsibleBindingVMStatus" where
  "pending_if_never_ran st = (if vt_LastJobID st = 0 then st\<lparr>vt_Phase := PhasePending\<rparr> else st)"

text \<open>
  The pass from the VM's answer on. The three questions - a job in flight, a run wanted, a host check
  due - are asked of the status before the poll.
\<close>

definition vm_pass :: "env \<Rightarrow> unstr \<Rightarrow> AnsibleBindingVM \<Rightarrow> AnsibleBindingVMStatus \<Rightarrow> AnsibleBindingVMStatus \<Rightarrow> string \<Rightarrow> bool \<Rightarrow>
    vm_out prog" where
  "vm_pass E u child prior st ip ready =
     (let inFlight = vm_in_flight prior; wantsRun = needsRun st (ch_spec child) in do {
        (hostCheckDue, untilNextHostCheck) \<leftarrow> dueFor E (vt_LastHostCheck st) (e_hostCheckPeriod E);
        if \<not> inFlight \<and> \<not> ready then vm_finish (pending_if_never_ran st)
        else if \<not> inFlight \<and> \<not> wantsRun \<and> \<not> hostCheckDue
        then ret \<lparr>vo_st = st, vo_requeue = untilNextHostCheck, vo_err = None\<rparr>
        else do {
          p \<leftarrow> (if inFlight then poll_in_flight E child prior st else ret (Inr st));
          (case p of
             Inl out' \<Rightarrow> ret out'
           | Inr st \<Rightarrow>
               if \<not> ready then vm_finish (pending_if_never_ran st)
               else if \<not> wantsRun \<and> \<not> hostCheckDue
               then ret \<lparr>vo_st = st, vo_requeue = untilNextHostCheck, vo_err = None\<rparr>
               else run_in_awx E u child wantsRun ip st)
        }
      })"

definition initial_vm_status :: "AnsibleBindingVMStatus \<Rightarrow> AnsibleBindingVMStatus" where
  "initial_vm_status prior =
     (if vt_LastJobID prior \<noteq> 0 then prior\<lparr>vt_Phase := mapAWXStatus (vt_LastJobStatus prior)\<rparr> else prior)"

definition reconcile_vm :: "env \<Rightarrow> unstr \<Rightarrow> AnsibleBindingVM \<Rightarrow> unstr \<Rightarrow> (gerr + Result) prog" where
  "reconcile_vm E u child vm =
     (let prior = priorVMState child; (ip, ready) = vmReady vm;
          st = (initial_vm_status prior)\<lparr>vt_ObservedIP := ip\<rparr> in do {
        out' \<leftarrow> vm_pass E u child prior st ip ready;
        finish_vm E u child out'
      })"

definition applyAnsibleBindingVM :: "env \<Rightarrow> unstr \<Rightarrow> (gerr + Result) prog" where
  "applyAnsibleBindingVM E u =
     (case check_child E u of
        Inl err \<Rightarrow> ret (Inl err)
      | Inr (child, ownerUID) \<Rightarrow> do {
          r \<leftarrow> k8s_Get E VMGVR (ch_ns child) (vs_VMName (ch_spec child));
          (case r of
             Inl err \<Rightarrow>
               if isNotFound err then ret (Inr no_result)
               else ret (Inl (errorw f_vm_fetch [vs_VMName (ch_spec child)] err))
           | Inr vm \<Rightarrow>
               if ownerUID \<noteq> [] \<and> md_UID (u_meta vm) \<noteq> ownerUID then ret (Inr no_result)
               else reconcile_vm E u child vm)
        })"

section \<open>The aggregate state\<close>

definition f_vm_ready where [text_defs]: "f_vm_ready = ''Job %d completed successfully.''"
definition f_vm_failed where [text_defs]: "f_vm_failed = ''Job %d failed.''"
definition f_vm_running where [text_defs]: "f_vm_running = ''Job %d is still running.''"
definition f_vm_pending where [text_defs]: "f_vm_pending = ''VirtualMachine is not ready to run (powered off, or no reported address).''"
definition f_vm_waiting where [text_defs]: "f_vm_waiting = ''Waiting for the VirtualMachine to report an address.''"
definition f_vm_unreadable where [text_defs]: "f_vm_unreadable = ''Could not read run status: %s''"
definition st_Running where "st_Running = ''Running''"

definition child_state :: "gerr + AnsibleBindingVM \<Rightarrow> string \<times> string \<times> bool" where
  "child_state x =
     (case x of
        Inl err \<Rightarrow> (StatePending, sprintf f_vm_unreadable [err_text err], False)
      | Inr child \<Rightarrow> (case ch_Status child of
            None \<Rightarrow> (StatePending, f_vm_waiting, False)
          | Some st \<Rightarrow>
              (let job = itoa (vt_LastJobID st) in
               if vt_Phase st = PhaseSucceeded then (StateReady, sprintf f_vm_ready [job], True)
               else if vt_Phase st = PhaseFailed then (StateFailed, sprintf f_vm_failed [job], False)
               else if vt_Phase st = PhaseRunning then (st_Running, sprintf f_vm_running [job], False)
               else (StatePending, f_vm_pending, False))))"

definition updateAnsibleBindingVMStatus :: "env \<Rightarrow> unstr \<Rightarrow> bool \<Rightarrow> gerr option \<Rightarrow> statusMap prog" where
  "updateAnsibleBindingVMStatus E u success reconcileErr =
     (if reconcileErr \<noteq> None \<or> \<not> success then updateGenericStatus E u success reconcileErr
      else do {
        now \<leftarrow> nowRFC3339 E;
        (let (s, m, r) = child_state (convertAnsibleBindingVM u) in ret (status_map s m r now))
      })"

end
