(* ===== verification/Deprovision.thy ===== *)
theory Deprovision
  imports BindingVM
begin

text \<open>
  controller/ansiblebindingvm.go, the finalizing half, and controller/events.go: the \<open>onDeleted\<close> hook of
  a VM that is gone, the release of its inventory host, and the record of both. The Go functions share
  \<open>st\<close> and the hook's record \<open>dep\<close> through pointers; here each returns what it leaves in them. \<open>al\<close> says that
  the record in \<open>st\<close> is still the very struct \<open>child.Status\<close> points to, so that a change made to it in place
  shows in both (\<open>alias_child\<close>). Log lines are not modelled.
\<close>

section \<open>Events\<close>

definition eventSource where "eventSource = ''ansible-supervisor''"
definition eventNormal where "eventNormal = ''Normal''"
definition eventWarning where "eventWarning = ''Warning''"

definition event_body :: "unstr \<Rightarrow> string \<Rightarrow> string \<Rightarrow> string \<Rightarrow> int \<Rightarrow> EventBody" where
  "event_body involved eventType reason message now =
     \<lparr>ev_GenerateName = to_lower (u_kind involved) @ ''-'' @ md_Name (u_meta involved) @ ''.'',
      ev_InvolvedAPIVersion = u_apiVersion involved, ev_InvolvedKind = u_kind involved,
      ev_InvolvedName = md_Name (u_meta involved), ev_InvolvedNamespace = md_Namespace (u_meta involved),
      ev_InvolvedUID = md_UID (u_meta involved), ev_Reason = reason, ev_Message = message, ev_Type = eventType,
      ev_Timestamp = format_time now, ev_Count = 1, ev_Component = eventSource\<rparr>"

definition event_object :: "string \<Rightarrow> EventBody \<Rightarrow> unstr" where
  "event_object namespace b = \<lparr>u_apiVersion = ''v1'', u_kind = ''Event'',
     u_meta = \<lparr>md_Namespace = namespace, md_Name = [], md_UID = [], md_ResourceVersion = [], md_Generation = 0,
       md_DeletionTimestamp = None, md_CreationTimestamp = None, md_Labels = [], md_Annotations = [],
       md_Finalizers = [], md_OwnerReferences = []\<rparr>,
     u_generic = gf_none, u_content = CEvent b\<rparr>"

definition recordEvent :: "env \<Rightarrow> unstr \<Rightarrow> string \<Rightarrow> string \<Rightarrow> string \<Rightarrow> unit prog" where
  "recordEvent E involved eventType reason message = do {
     now \<leftarrow> time_Now E;
     _ \<leftarrow> k8s_Create E EventGVR
            (event_object (md_Namespace (u_meta involved)) (event_body involved eventType reason message now));
     ret ()
   }"

definition eventTarget :: "env \<Rightarrow> unstr \<Rightarrow> string \<Rightarrow> unstr prog" where
  "eventTarget E child bindingName =
     (if bindingName = [] then ret child
      else do {
        r \<leftarrow> k8s_Get E AnsBindGVR (md_Namespace (u_meta child)) bindingName;
        ret (case r of Inl err \<Rightarrow> child | Inr binding \<Rightarrow> if is_deleting (u_meta binding) then child else binding)
      })"

definition f_hook_outcome where [text_defs]: "f_hook_outcome = ''Deprovision hook for VirtualMachine %q %s''"
definition f_hook_none where [text_defs]: "f_hook_none = ''Deprovision hook for VirtualMachine %q did not run.''"
definition f_hook_job where [text_defs]: "f_hook_job = '' (AWX job %d''"

definition hook_outcome_word :: "string \<Rightarrow> string" where
  "hook_outcome_word phase =
     (if phase = PhaseSucceeded then ''succeeded'' else if phase = PhaseFailed then ''failed''
      else if phase = PhaseTimedOut then ''timed out'' else if phase = PhaseSkipped then ''did not run''
      else to_lower phase)"

definition hookOutcomeMessage :: "string \<Rightarrow> DeprovisionStatus option \<Rightarrow> string" where
  "hookOutcomeMessage vmName st =
     (case st of
        None \<Rightarrow> sprintf f_hook_none [vmName]
      | Some dep \<Rightarrow> sprintf f_hook_outcome [vmName, hook_outcome_word (dp_Phase dep)] @
          (if dp_JobID dep \<noteq> 0 then sprintf f_hook_job [itoa (dp_JobID dep)] @
             (if dp_JobStatus dep \<noteq> [] then '', status '' @ dp_JobStatus dep else []) @
             (if dp_JobURL dep \<noteq> [] then '', '' @ dp_JobURL dep else []) @ '')''
           else []) @
          (if dp_Message dep \<noteq> [] then ''. '' @ dp_Message dep else []))"

section \<open>Phases and clocks\<close>

definition hookPollInterval :: int where "hookPollInterval = 15 * nanos_per_second"
definition hookPollJitter :: int where "hookPollJitter = 3 * nanos_per_second"

definition isTerminalHookPhase :: "string \<Rightarrow> bool" where
  "isTerminalHookPhase phase \<longleftrightarrow> phase \<in> {PhaseSucceeded, PhaseFailed, PhaseTimedOut, PhaseSkipped}"

definition overdue :: "env \<Rightarrow> stamp \<Rightarrow> bool prog" where
  "overdue E deadline =
     (case parse_time deadline of
        None \<Rightarrow> ret False
      | Some at \<Rightarrow> do { now \<leftarrow> time_Now E; ret (now > at) })"

definition hookRequeue :: "env \<Rightarrow> DeprovisionStatus \<Rightarrow> int prog" where
  "hookRequeue E dep = do {
     jitter \<leftarrow> rand_Int63n E hookPollJitter;
     (let interval = hookPollInterval + jitter in
      case parse_time (dp_Deadline dep) of
        None \<Rightarrow> ret interval
      | Some at \<Rightarrow> do {
          now \<leftarrow> time_Now E;
          (let remaining = time_sub at now in
           ret (if remaining < interval then (if remaining < nanos_per_second then nanos_per_second else remaining)
                else interval))
        })
   }"

definition hookTargeting :: "DeprovisionHook option \<Rightarrow> DeprovisionStatus option \<Rightarrow> string" where
  "hookTargeting hook dep =
     (case dep of
        Some d \<Rightarrow>
          if dp_Targeting d \<noteq> [] then dp_Targeting d
          else if dp_StartedAt d \<noteq> NoStamp then TargetingManagedHost
          else (case hook of Some h \<Rightarrow> if hk_Targeting h \<noteq> [] then hk_Targeting h else TargetingManagedHost
                | None \<Rightarrow> TargetingManagedHost)
      | None \<Rightarrow> (case hook of Some h \<Rightarrow> if hk_Targeting h \<noteq> [] then hk_Targeting h else TargetingManagedHost
                | None \<Rightarrow> TargetingManagedHost))"

definition recorded_dep :: "AnsibleBindingVMStatus \<Rightarrow> DeprovisionStatus" where
  "recorded_dep st = (case vt_Deprovision st of None \<Rightarrow> zero_dep | Some d \<Rightarrow> d)"

definition with_dep :: "AnsibleBindingVMStatus \<Rightarrow> DeprovisionStatus \<Rightarrow> AnsibleBindingVMStatus" where
  "with_dep st dep = st\<lparr>vt_Deprovision := Some dep\<rparr>"

definition hook_timeout :: "DeprovisionHook \<Rightarrow> int" where
  "hook_timeout hook = (if hk_TimeoutSeconds hook \<le> 0 then seconds defaultHookTimeoutSeconds
     else seconds (hk_TimeoutSeconds hook))"

definition skipHook :: "DeprovisionStatus option \<Rightarrow> string \<Rightarrow> DeprovisionStatus" where
  "skipHook dep message =
     (case dep of None \<Rightarrow> zero_dep | Some d \<Rightarrow> d)\<lparr>dp_Phase := PhaseSkipped, dp_Message := message\<rparr>"

definition f_hookless where [text_defs]: "f_hookless = ''The deprovision hook could not run: ''"
definition f_hookless_run where [text_defs]: "f_hookless_run = ''The deprovision hook could not be followed to a conclusion: ''"
definition f_hookless_check where [text_defs]: "f_hookless_check = ''. Check AWX for a job against this host.''"
definition f_hookless_after where [text_defs]: "f_hookless_after = ''Cleanup after the hook could not finish: ''"

definition hooklessOutcome :: "DeprovisionStatus option \<Rightarrow> string \<Rightarrow> DeprovisionStatus" where
  "hooklessOutcome dep reason =
     (case dep of
        None \<Rightarrow> zero_dep\<lparr>dp_Phase := PhaseSkipped, dp_Message := f_hookless @ reason @ ''.''\<rparr>
      | Some d \<Rightarrow>
          if (dp_Phase d = [] \<or> dp_Phase d = PhasePending) \<and> dp_JobID d = 0
          then zero_dep\<lparr>dp_Phase := PhaseSkipped, dp_Message := f_hookless @ reason @ ''.''\<rparr>
          else if \<not> isTerminalHookPhase (dp_Phase d)
          then d\<lparr>dp_Phase := PhaseFailed,
                 dp_Message := trim_space (dp_Message d @ '' '' @ f_hookless_run @ reason @ f_hookless_check)\<rparr>
          else d\<lparr>dp_Message := trim_space (dp_Message d @ '' '' @ f_hookless_after @ reason @ ''.'')\<rparr>)"

definition recordedAWXEndpoint :: "AnsibleBindingVMStatus \<Rightarrow> string" where
  "recordedAWXEndpoint st =
     (if vt_AWXEndpoint st \<noteq> [] then vt_AWXEndpoint st
      else (case vt_Deprovision st of
          None \<Rightarrow> []
        | Some dep \<Rightarrow> if dp_PinnedHostEndpoint dep \<noteq> [] then dp_PinnedHostEndpoint dep else dp_Endpoint dep))"

section \<open>Reporting\<close>

definition alias_child :: "bool \<Rightarrow> AnsibleBindingVM \<Rightarrow> DeprovisionStatus \<Rightarrow> AnsibleBindingVM" where
  "alias_child al child dep =
     (if al then child\<lparr>ch_Status := map_option (\<lambda>s. with_dep s dep) (ch_Status child)\<rparr> else child)"

definition persistHookState :: "env \<Rightarrow> unstr \<Rightarrow> AnsibleBindingVM \<Rightarrow> AnsibleBindingVMStatus \<Rightarrow> unit prog" where
  "persistHookState E u child st =
     (if ansibleBindingVMDetailsCurrent (ch_Status child) st then ret ()
      else do { _ \<leftarrow> writeAnsibleBindingVMDetails E u st; ret () })"

definition outcome_event :: "string \<Rightarrow> string \<times> string" where
  "outcome_event phase =
     (if phase = PhaseSucceeded then (eventNormal, ''DeprovisionHookSucceeded'')
      else if phase = PhaseSkipped then (eventNormal, ''DeprovisionHookSkipped'')
      else if phase = PhaseTimedOut then (eventWarning, ''DeprovisionHookTimedOut'')
      else (eventWarning, ''DeprovisionHookFailed''))"

definition reportHookOutcome :: "env \<Rightarrow> unstr \<Rightarrow> AnsibleBindingVM \<Rightarrow> AnsibleBindingVMStatus \<Rightarrow> unit prog" where
  "reportHookOutcome E u child st =
     (case vt_Deprovision st of
        None \<Rightarrow> ret ()
      | Some dep \<Rightarrow>
          (let message = hookOutcomeMessage (vs_VMName (ch_spec child)) (Some dep);
               (eventType, reason) = outcome_event (dp_Phase dep) in do {
             persistHookState E u child st;
             target \<leftarrow> eventTarget E u (vs_BindingName (ch_spec child));
             recordEvent E target eventType reason message
           }))"

definition finishHookless :: "env \<Rightarrow> unstr \<Rightarrow> AnsibleBindingVM \<Rightarrow> AnsibleBindingVMStatus \<Rightarrow> DeprovisionHook option \<Rightarrow> string \<Rightarrow>
    CleanupResult prog" where
  "finishHookless E u child st hook reason = do {
     (if hook \<noteq> None then reportHookOutcome E u child (with_dep st (hooklessOutcome (vt_Deprovision st) reason)) else ret ());
     ret \<lparr>cr_Done = True, cr_RequeueAfter = 0\<rparr>
   }"

definition f_pin_left where [text_defs]: "f_pin_left =
  '' The hook's ansible_connection: local override is still on host %q, which could not be reached to undo it (%s).''"

definition releaseWithoutHost :: "env \<Rightarrow> unstr \<Rightarrow> AnsibleBindingVM \<Rightarrow> bool \<Rightarrow> AnsibleBindingVMStatus \<Rightarrow> gerr \<Rightarrow> CleanupResult prog" where
  "releaseWithoutHost E u child al st err = do {
     (case vt_Deprovision st of
        None \<Rightarrow> reportHookOutcome E u child st
      | Some dep \<Rightarrow>
          if dp_HostPinned dep then
            (let dep' = dep\<lparr>dp_Message := trim_space (dp_Message dep @ sprintf f_pin_left [vt_AWXHostName st, err_text err])\<rparr>
             in reportHookOutcome E u (alias_child al child dep') (with_dep st dep'))
          else reportHookOutcome E u child st);
     ret \<lparr>cr_Done = True, cr_RequeueAfter = 0\<rparr>
   }"

section \<open>Is the VM gone, and where is its host\<close>

definition f_vm_gone where [text_defs]: "f_vm_gone = ''checking whether VirtualMachine %q is gone: %w''"

definition vmIsGone :: "env \<Rightarrow> AnsibleBindingVM \<Rightarrow> (gerr + bool) prog" where
  "vmIsGone E child = do {
     r \<leftarrow> k8s_Get E VMGVR (ch_ns child) (vs_VMName (ch_spec child));
     ret (case r of
        Inl err \<Rightarrow> if isNotFound err then Inr True else Inl (errorw f_vm_gone [vs_VMName (ch_spec child)] err)
      | Inr vm \<Rightarrow>
          if is_deleting (u_meta vm) then Inr True
          else (case checkOwnedByItsVM E child of
              Inl err \<Rightarrow> Inr False
            | Inr ownerUID \<Rightarrow> Inr (ownerUID \<noteq> [] \<and> md_UID (u_meta vm) \<noteq> ownerUID)))
   }"

definition f_resolve_inv where [text_defs]: "f_resolve_inv = ''resolving inventory for host cleanup: %w''"
definition f_rediscover where [text_defs]: "f_rediscover = ''rediscovering AWX host for cleanup: %w''"

definition find_cleanup_host :: "env \<Rightarrow> AWXClient \<Rightarrow> int \<Rightarrow> string \<Rightarrow> (gerr + hostResult option \<times> int \<times> string) prog" where
  "find_cleanup_host E c inventory name = do {
     r \<leftarrow> FindHost E c inventory name;
     ret (case r of Inl err \<Rightarrow> Inl (errorw f_rediscover [] err) | Inr host \<Rightarrow> Inr (host, inventory, name))
   }"

definition discoverCleanupHost :: "env \<Rightarrow> AWXClient \<Rightarrow> AWXConnection \<Rightarrow> AnsibleBindingVM \<Rightarrow> AnsibleBindingVMStatus \<Rightarrow>
    (gerr + hostResult option \<times> int \<times> string) prog" where
  "discoverCleanupHost E c conn child st =
     (if vt_AWXInventoryID st = 0 \<or> vt_AWXHostName st = [] then do {
        t \<leftarrow> resolveTemplate E c (vs_Template (ch_spec child));
        (case t of
           Inl err \<Rightarrow> ret (Inl (errorw f_resolve_inv [] err))
         | Inr tmpl \<Rightarrow> (case tp_Inventory tmpl of
               None \<Rightarrow> ret (Inr (None, 0, []))
             | Some inventory \<Rightarrow> find_cleanup_host E c inventory (vm_host_name conn (ch_spec child))))
      }
      else find_cleanup_host E c (vt_AWXInventoryID st) (vt_AWXHostName st))"

section \<open>The hook's clock\<close>

definition f_hook_deadline where [text_defs]: "f_hook_deadline = ''recording the deprovision deadline: %w''"

definition hook_started :: "DeprovisionHook \<Rightarrow> int \<Rightarrow> DeprovisionStatus \<Rightarrow> DeprovisionStatus" where
  "hook_started hook now dep = dep\<lparr>dp_StartedAt := format_time now, dp_Deadline := format_time (now + hook_timeout hook)\<rparr>"

text \<open>The status, whether the record in it is still the child's own, and the error of the write.\<close>

definition startHookClock :: "env \<Rightarrow> unstr \<Rightarrow> AnsibleBindingVM \<Rightarrow> AnsibleBindingVMStatus \<Rightarrow> DeprovisionHook \<Rightarrow>
    ((AnsibleBindingVMStatus \<times> bool) \<times> gerr option) prog" where
  "startHookClock E u child st hook =
     (if dp_StartedAt (recorded_dep st) \<noteq> NoStamp then ret ((st, True), None)
      else do {
        now \<leftarrow> time_Now E;
        (let dep = recorded_dep st;
             dep = hook_started hook now (dep\<lparr>dp_Targeting := hookTargeting (Some hook) (Some dep)\<rparr>);
             dep = (if dp_Phase dep = [] then dep\<lparr>dp_Phase := PhasePending\<rparr> else dep);
             st = with_dep st dep in
         if ansibleBindingVMDetailsCurrent (ch_Status child) st then ret ((st, False), None)
         else do {
           w \<leftarrow> writeAnsibleBindingVMDetails E u st;
           ret ((st, False), map_option (errorw f_hook_deadline []) w)
         })
      })"

definition f_hook_overdue where [text_defs]: "f_hook_overdue =
  ''The hook did not finish before spec.onDeleted.timeoutSeconds elapsed.''"
definition f_removed_anyway where [text_defs]: "f_removed_anyway = '' The inventory host was removed anyway.''"

text \<open>The deadline looked at before any AWX work.\<close>

definition expire_hook :: "env \<Rightarrow> bool \<Rightarrow> AnsibleBindingVMStatus \<Rightarrow> (AnsibleBindingVMStatus \<times> bool) prog" where
  "expire_hook E al st =
     (case vt_Deprovision st of
        None \<Rightarrow> ret (st, al)
      | Some dep \<Rightarrow>
          if isTerminalHookPhase (dp_Phase dep) then ret (st, al)
          else do {
            late \<leftarrow> overdue E (dp_Deadline dep);
            ret (if late then (with_dep st (dep\<lparr>dp_Phase := PhaseTimedOut, dp_Message := f_hook_overdue\<rparr>), False) else (st, al))
          })"

section \<open>One pass over a hook\<close>

type_synonym hook_out = "AnsibleBindingVMStatus \<times> (gerr + CleanupResult)"

definition hook_finished :: CleanupResult where
  "hook_finished = \<lparr>cr_Done = True, cr_RequeueAfter = 0\<rparr>"

text \<open>\<open>persist\<close>: the record goes into the status, and is written when it says something new.\<close>

definition persist_dep :: "env \<Rightarrow> unstr \<Rightarrow> AnsibleBindingVM \<Rightarrow> AnsibleBindingVMStatus \<Rightarrow> DeprovisionStatus \<Rightarrow> gerr option prog" where
  "persist_dep E u child st dep =
     (if ansibleBindingVMDetailsCurrent (ch_Status child) (with_dep st dep) then ret None
      else writeAnsibleBindingVMDetails E u (with_dep st dep))"

definition settle_hook :: "AnsibleBindingVMStatus \<Rightarrow> DeprovisionStatus \<Rightarrow> string \<Rightarrow> string \<Rightarrow> hook_out" where
  "settle_hook st dep phase message =
     (with_dep st (dep\<lparr>dp_Phase := phase, dp_Message := message\<rparr>), Inr hook_finished)"

definition f_hook_progress where [text_defs]: "f_hook_progress = ''recording deprovision progress: %w''"

definition hook_waiting :: "env \<Rightarrow> unstr \<Rightarrow> AnsibleBindingVM \<Rightarrow> AnsibleBindingVMStatus \<Rightarrow> DeprovisionStatus \<Rightarrow> string \<Rightarrow> string \<Rightarrow>
    hook_out prog" where
  "hook_waiting E u child st dep phase message =
     (let dep = dep\<lparr>dp_Phase := phase, dp_Message := message\<rparr>; st' = with_dep st dep in do {
        w \<leftarrow> persist_dep E u child st dep;
        (case w of
           Some err \<Rightarrow> ret (st', Inl (errorw f_hook_progress [] err))
         | None \<Rightarrow> do {
             d \<leftarrow> hookRequeue E dep;
             ret (st', Inr \<lparr>cr_Done = False, cr_RequeueAfter = d\<rparr>)
           })
      })"

definition f_hook_moved where [text_defs]: "f_hook_moved =
  ''The AWXConnection was repointed at a different AWX instance while the hook was running, so job %d could not be followed to a conclusion. Check %s for how it ended.''"
definition f_hook_poll where [text_defs]: "f_hook_poll = ''polling deprovision job %d: %w''"
definition f_hook_narrowed where [text_defs]: "f_hook_narrowed = ''AWX did not accept the launch as requested: ''"
definition f_hook_jobfailed where [text_defs]: "f_hook_jobfailed = ''The deprovision job did not succeed.''"

text \<open>How a job that has stopped ends its hook.\<close>

definition conclude_hook :: "AnsibleBindingVMStatus \<Rightarrow> DeprovisionStatus \<Rightarrow> string \<Rightarrow> hook_out" where
  "conclude_hook st dep status =
     (if dp_LaunchError dep \<noteq> [] then settle_hook st dep PhaseFailed (f_hook_narrowed @ dp_LaunchError dep)
      else if mapAWXStatus status = PhaseSucceeded then settle_hook st dep PhaseSucceeded []
      else settle_hook st dep PhaseFailed (f_hook_jobfailed @ f_removed_anyway))"

definition pollDeprovisionJob :: "env \<Rightarrow> unstr \<Rightarrow> AnsibleBindingVM \<Rightarrow> AnsibleBindingVMStatus \<Rightarrow> DeprovisionStatus \<Rightarrow> AWXClient \<Rightarrow>
    string \<Rightarrow> hook_out prog" where
  "pollDeprovisionJob E u child st dep c endpoint =
     (if dp_Endpoint dep \<noteq> [] \<and> endpoint \<noteq> [] \<and> dp_Endpoint dep \<noteq> endpoint
      then ret (settle_hook st dep PhaseFailed (sprintf f_hook_moved [itoa (dp_JobID dep), dp_Endpoint dep]))
      else do {
        r \<leftarrow> pollJobStatus E c (dp_JobType dep) (dp_JobID dep);
        (case r of
           Inl err \<Rightarrow> ret (st, Inl (errorw f_hook_poll [itoa (dp_JobID dep)] err))
         | Inr status \<Rightarrow>
             (let dep = dep\<lparr>dp_JobStatus := status\<rparr> in
              if \<not> isTerminalAWXStatus status then hook_waiting E u child st dep PhaseRunning []
              else ret (conclude_hook st dep status)))
      })"

section \<open>The hook's launch\<close>

definition f_hook_novars where [text_defs]: "f_hook_novars =
  ''Template %q does not accept variables at launch time, so the asb_* variables were not passed.''"
definition f_hook_record where [text_defs]: "f_hook_record = ''recording the deprovision launch: %w''"
definition f_hook_record_job where [text_defs]: "f_hook_record_job = ''recording deprovision job %d: %w''"
definition f_hook_notlaunched where [text_defs]: "f_hook_notlaunched = ''The hook could not be launched: %s''"
definition f_nil_error where [text_defs]: "f_nil_error = ''%!s(<nil>)''"

definition hook_vars :: "env \<Rightarrow> AnsibleBindingVM \<Rightarrow> AnsibleBindingVMStatus \<Rightarrow> string smap" where
  "hook_vars E child st =
     (let base = smap_put ''asb_hook'' ''onDeleted'' (smap_put ''asb_vm_name'' (vs_VMName (ch_spec child))
                   (smap_put ''asb_binding'' (vs_BindingName (ch_spec child))
                     [(''asb_last_known_ip'', vt_ObservedIP st)]))
      in case checkOwnedByItsVM E child of
           Inl err \<Rightarrow> base
         | Inr uid \<Rightarrow> if uid \<noteq> [] then smap_put ''asb_vm_uid'' uid base else base)"

text \<open>What came back: the job recorded, or the hook settled as failed.\<close>

definition record_hook_job :: "env \<Rightarrow> unstr \<Rightarrow> AnsibleBindingVM \<Rightarrow> AnsibleBindingVMStatus \<Rightarrow> DeprovisionStatus \<Rightarrow> AWXClient \<Rightarrow> bool \<Rightarrow>
    int \<times> gerr option \<Rightarrow> hook_out prog" where
  "record_hook_job E u child st dep c isWorkflow res =
     (let (jobID, err) = res in
      if jobID \<noteq> 0 then
        (let dep = dep\<lparr>dp_JobID := jobID, dp_JobURL := JobURL c jobID isWorkflow, dp_JobStatus := st_pending,
                dp_Phase := PhaseRunning\<rparr>;
             dep = (case err of None \<Rightarrow> dep | Some e \<Rightarrow> dep\<lparr>dp_LaunchError := err_text e\<rparr>);
             st' = with_dep st dep in do {
           w \<leftarrow> persist_dep E u child st dep;
           (case w of
              Some wErr \<Rightarrow> ret (st', Inl (errorw f_hook_record_job [itoa jobID] wErr))
            | None \<Rightarrow> do { d \<leftarrow> hookRequeue E dep; ret (st', Inr \<lparr>cr_Done = False, cr_RequeueAfter = d\<rparr>) })
         })
      else ret (settle_hook st dep PhaseFailed
             (sprintf f_hook_notlaunched [case err of None \<Rightarrow> f_nil_error | Some e \<Rightarrow> err_text e])))"

definition submitDeprovisionHook :: "env \<Rightarrow> unstr \<Rightarrow> AnsibleBindingVM \<Rightarrow> AnsibleBindingVMStatus \<Rightarrow> DeprovisionStatus \<Rightarrow>
    DeprovisionHook \<Rightarrow> AWXClient \<Rightarrow> AWXTemplate \<Rightarrow> string \<Rightarrow> string \<Rightarrow> hook_out prog" where
  "submitDeprovisionHook E u child st dep hook c tmpl limit endpoint =
     (let ty = tr_Type (hk_Template hook);
          extraVars = (if tp_AskVariablesOnLaunch tmpl then hook_vars E child st else []);
          varsNote = (if tp_AskVariablesOnLaunch tmpl then [] else sprintf f_hook_novars [tr_Name (hk_Template hook)]);
          dep = dep\<lparr>dp_Phase := PhaseLaunching, dp_Message := varsNote, dp_JobType := ty, dp_Endpoint := endpoint\<rparr>;
          st' = with_dep st dep in do {
        w \<leftarrow> persist_dep E u child st dep;
        (case w of
           Some err \<Rightarrow> ret (st', Inl (errorw f_hook_record [] err))
         | None \<Rightarrow> do {
             res \<leftarrow> (if ty = TemplateTypeWorkflow then LaunchWorkflowJobTemplate E c (tp_ID tmpl) limit extraVars
                    else LaunchJobTemplate E c (tp_ID tmpl) limit extraVars);
             record_hook_job E u child st dep c (ty = TemplateTypeWorkflow) res
           })
      })"

definition f_hook_tmpl where [text_defs]: "f_hook_tmpl = ''The hook template could not be resolved: %s''"
definition f_hook_nolimit where [text_defs]: "f_hook_nolimit =
  ''Template %q does not accept a limit at launch time (ask_limit_on_launch is false), so AWX would have run it against the whole inventory rather than this host. Enable Prompt on Launch for Limit in AWX, or set spec.onDeleted.targeting: Template if the hook is meant to run against what the template itself targets.''"
definition f_hook_noinv where [text_defs]: "f_hook_noinv =
  ''Template %q has no inventory of its own, so a per-host limit cannot select %q. Point spec.onDeleted.template at a template configured with the same inventory as spec.template, or set spec.onDeleted.targeting: Template to launch it as configured.''"
definition f_hook_otherinv where [text_defs]: "f_hook_otherinv =
  ''Template %q runs against inventory %d, but host %q is in inventory %d. A limit only selects hosts within the job's own inventory, so the hook would have run against the wrong host or none at all. Point spec.onDeleted.template at a template configured with the same inventory as spec.template, or set spec.onDeleted.targeting: Template to launch it as configured.''"
definition f_hook_override where [text_defs]: "f_hook_override = ''recording the connection override on host %q: %w''"
definition f_hook_pin where [text_defs]: "f_hook_pin = ''pinning host %q to the control node before the deprovision hook: %w''"
definition ansible_connection where "ansible_connection = ''ansible_connection''"

text \<open>Why a template cannot be limited to the host, if it cannot.\<close>

definition limit_refusal :: "DeprovisionHook \<Rightarrow> AWXTemplate \<Rightarrow> hostResult \<Rightarrow> int \<Rightarrow> string option" where
  "limit_refusal hook tmpl host inventory =
     (if \<not> tp_AskLimitOnLaunch tmpl then Some (sprintf f_hook_nolimit [tr_Name (hk_Template hook)])
      else (case tp_Inventory tmpl of
          None \<Rightarrow> Some (sprintf f_hook_noinv [tr_Name (hk_Template hook), hr_Name host])
        | Some i \<Rightarrow>
            if i \<noteq> inventory
            then Some (sprintf f_hook_otherinv [tr_Name (hk_Template hook), itoa i, hr_Name host, itoa inventory])
            else None))"

definition pinned_dep :: "DeprovisionStatus \<Rightarrow> hostResult \<Rightarrow> string \<Rightarrow> DeprovisionStatus" where
  "pinned_dep dep host endpoint = dep\<lparr>dp_PriorConnection := hostVariable (Some host) ansible_connection,
     dp_HostPinned := True, dp_PinnedHostID := hr_ID host, dp_PinnedHostEndpoint := endpoint\<rparr>"

text \<open>The pin: what the variable said is recorded and durable before the host is touched.\<close>

definition pin_host :: "env \<Rightarrow> unstr \<Rightarrow> AnsibleBindingVM \<Rightarrow> AnsibleBindingVMStatus \<Rightarrow> DeprovisionStatus \<Rightarrow> AWXClient \<Rightarrow> hostResult \<Rightarrow>
    string \<Rightarrow> (gerr + DeprovisionStatus \<times> hostResult) prog" where
  "pin_host E u child st dep c host endpoint =
     (let dep' = (if dp_HostPinned dep then dep else pinned_dep dep host endpoint) in do {
        w \<leftarrow> (if dp_HostPinned dep then ret None else persist_dep E u child st dep');
        (case w of
           Some err \<Rightarrow> ret (Inl (errorw f_hook_override [hr_Name host] err))
         | None \<Rightarrow> do {
             r \<leftarrow> SetHostVariables E c (Some host) [(ansible_connection, ''local'')];
             ret (case r of
                Inl err \<Rightarrow> Inl (errorw f_hook_pin [hr_Name host] err)
              | Inr h \<Rightarrow> Inr (dep', the h))
           })
      })"

text \<open>The host comes back too: \<open>SetHostVariables\<close> updates the caller's copy.\<close>

definition launchDeprovisionHook :: "env \<Rightarrow> unstr \<Rightarrow> AnsibleBindingVM \<Rightarrow> AnsibleBindingVMStatus \<Rightarrow> DeprovisionStatus \<Rightarrow>
    DeprovisionHook \<Rightarrow> string \<Rightarrow> AWXClient \<Rightarrow> hostResult option \<Rightarrow> int \<Rightarrow> string \<Rightarrow> (hostResult option \<times> hook_out) prog" where
  "launchDeprovisionHook E u child st dep hook mode c host inventory endpoint = do {
     t \<leftarrow> resolveTemplate E c (hk_Template hook);
     (case t of
        Inl err \<Rightarrow>
          if isPermanent err then ret (host, settle_hook st dep PhaseFailed (sprintf f_hook_tmpl [err_text err]))
          else ret (host, (st, Inl err))
      | Inr tmpl \<Rightarrow>
          (let dep = dep\<lparr>dp_Targeting := mode\<rparr> in
           if mode = TargetingTemplate then do {
             r \<leftarrow> submitDeprovisionHook E u child st dep hook c tmpl [] endpoint;
             ret (host, r)
           }
           else (case limit_refusal hook tmpl (the host) inventory of
               Some message \<Rightarrow> ret (host, settle_hook st dep PhaseFailed message)
             | None \<Rightarrow> do {
                 p \<leftarrow> pin_host E u child st dep c (the host) endpoint;
                 (case p of
                    Inl err \<Rightarrow> ret (host, (st, Inl err))
                  | Inr (dep, host) \<Rightarrow> do {
                      r \<leftarrow> submitDeprovisionHook E u child st dep hook c tmpl (hr_Name host) endpoint;
                      ret (Some host, r)
                    })
               })))
   }"

definition f_hook_lost where [text_defs]: "f_hook_lost =
  ''A launch was issued but its outcome was never recorded, so it was not retried. Check AWX for a job against this host.''"
definition f_hook_pollprior where [text_defs]: "f_hook_pollprior = ''polling in-flight job %d before the deprovision hook: %w''"
definition f_hook_waitprior where [text_defs]: "f_hook_waitprior = ''Waiting for provisioning job %d to finish before launching the hook.''"

text \<open>A provisioning job still running against the host is waited for first.\<close>

definition wait_for_provisioning :: "env \<Rightarrow> AnsibleBindingVM \<Rightarrow> AnsibleBindingVMStatus \<Rightarrow> DeprovisionStatus \<Rightarrow>
    (gerr + AnsibleBindingVMStatus \<times> bool) prog" where
  "wait_for_provisioning E child st dep =
     (if dp_JobID dep = 0 \<and> vt_LastJobID st \<noteq> 0 \<and> \<not> isTerminalAWXStatus (vt_LastJobStatus st) then do {
        r \<leftarrow> pollRecordedJob E child st;
        ret (case r of
           Inl err \<Rightarrow> Inl (errorw f_hook_pollprior [itoa (vt_LastJobID st)] err)
         | Inr status \<Rightarrow> Inr (st\<lparr>vt_LastJobStatus := status, vt_Phase := mapAWXStatus status\<rparr>, \<not> isTerminalAWXStatus status))
      }
      else ret (Inr (st, False)))"

definition advance_hook :: "env \<Rightarrow> unstr \<Rightarrow> AnsibleBindingVM \<Rightarrow> AnsibleBindingVMStatus \<Rightarrow> DeprovisionStatus \<Rightarrow> DeprovisionHook \<Rightarrow>
    string \<Rightarrow> AWXClient \<Rightarrow> hostResult option \<Rightarrow> int \<Rightarrow> string \<Rightarrow> (hostResult option \<times> hook_out) prog" where
  "advance_hook E u child st dep hook mode c host inventory endpoint =
     (if isTerminalHookPhase (dp_Phase dep) then ret (host, (with_dep st dep, Inr hook_finished))
      else if dp_Phase dep = PhaseLaunching then ret (host, settle_hook st dep PhaseFailed f_hook_lost)
      else do {
        late \<leftarrow> overdue E (dp_Deadline dep);
        if late then ret (host, settle_hook st dep PhaseTimedOut (f_hook_overdue @ f_removed_anyway))
        else do {
          p \<leftarrow> wait_for_provisioning E child st dep;
          (case p of
             Inl err \<Rightarrow> ret (host, (st, Inl err))
           | Inr (st, running) \<Rightarrow>
               if running then do {
                 r \<leftarrow> hook_waiting E u child st dep PhasePending (sprintf f_hook_waitprior [itoa (vt_LastJobID st)]);
                 ret (host, r)
               }
               else if dp_JobID dep \<noteq> 0 then do {
                 r \<leftarrow> pollDeprovisionJob E u child st dep c endpoint;
                 ret (host, r)
               }
               else launchDeprovisionHook E u child st dep hook mode c host inventory endpoint)
        }
      })"

text \<open>The clock is stamped here only for a caller that reached the hook without one.\<close>

definition runDeprovisionHook :: "env \<Rightarrow> unstr \<Rightarrow> AnsibleBindingVM \<Rightarrow> AnsibleBindingVMStatus \<Rightarrow> DeprovisionHook \<Rightarrow> string \<Rightarrow>
    AWXClient \<Rightarrow> hostResult option \<Rightarrow> int \<Rightarrow> string \<Rightarrow> (hostResult option \<times> hook_out) prog" where
  "runDeprovisionHook E u child st hook mode c host inventory endpoint =
     (let dep = recorded_dep st in
      if dp_StartedAt dep = NoStamp then do {
        now \<leftarrow> time_Now E;
        (let dep = (hook_started hook now dep)\<lparr>dp_Phase := PhasePending\<rparr> in do {
           w \<leftarrow> persist_dep E u child st dep;
           (case w of
              Some err \<Rightarrow> ret (host, (st, Inl (errorw f_hook_deadline [] err)))
            | None \<Rightarrow> advance_hook E u child (with_dep st dep) dep hook mode c host inventory endpoint)
         })
      }
      else advance_hook E u child st dep hook mode c host inventory endpoint)"

end
