(* ===== verification/CleanupVM.thy ===== *)
theory CleanupVM
  imports Deprovision Workqueue
begin

text \<open>
  controller/ansiblebindingvm.go: \<open>cleanupAnsibleBindingVM\<close>, the finalization of a VM's child, cut at its
  early returns into the steps it makes: the hook's clock, the connection, the poll of a hook's job, the
  lookup of the host, the hook itself, the connection override taken back off, and the deletion. The
  controller record closes the theory.
\<close>

text \<open>What every step needs: the object, the child, the hook and policy of its spec, and the \<open>al\<close> of Deprovision.\<close>

record cleanup_ctx =
  cx_u :: unstr
  cx_child :: AnsibleBindingVM
  cx_hook :: "DeprovisionHook option"
  cx_retain :: bool
  cx_conn :: AWXConnection
  cx_client :: AWXClient
  cx_endpoint :: string

definition finished :: "gerr + CleanupResult" where
  "finished = Inr hook_finished"

definition hook_owed :: "DeprovisionHook option \<Rightarrow> AnsibleBindingVMStatus \<Rightarrow> bool" where
  "hook_owed hook st \<longleftrightarrow> hook \<noteq> None \<and> vt_Deprovision st \<noteq> None \<and> \<not> isTerminalHookPhase (dp_Phase (recorded_dep st))"

section \<open>The override and the host\<close>

definition f_not_pinned where [text_defs]: "f_not_pinned =
  '' Host %q is no longer the host the hook pinned (id %d, now id %d), so the ansible_connection override was not restored onto it.''"
definition f_not_restored where [text_defs]: "f_not_restored =
  '' The hook's ansible_connection: local override could not be taken back off host %q (%s), so remove it in AWX before that host is used again.''"

definition unpinned :: "DeprovisionStatus \<Rightarrow> DeprovisionStatus" where
  "unpinned dep = dep\<lparr>dp_HostPinned := False, dp_PriorConnection := None\<rparr>"

definition append_message :: "string \<Rightarrow> DeprovisionStatus \<Rightarrow> DeprovisionStatus" where
  "append_message m dep = dep\<lparr>dp_Message := trim_space (dp_Message dep @ m)\<rparr>"

text \<open>For a host that survives: the override off again, unless the host is no longer the one pinned.\<close>

definition restore_pin :: "env \<Rightarrow> AWXClient \<Rightarrow> hostResult \<Rightarrow> string \<Rightarrow> DeprovisionStatus \<Rightarrow> DeprovisionStatus prog" where
  "restore_pin E c host hostName dep =
     (if \<not> dp_HostPinned dep then ret dep
      else if dp_PinnedHostID dep \<noteq> 0 \<and> hr_ID host \<noteq> dp_PinnedHostID dep
      then ret (unpinned (append_message
             (sprintf f_not_pinned [hostName, itoa (dp_PinnedHostID dep), itoa (hr_ID host)]) dep))
      else do {
        e \<leftarrow> RestoreHostVariable E c (Some host) ansible_connection (dp_PriorConnection dep);
        ret (case e of
           None \<Rightarrow> unpinned dep
         | Some err \<Rightarrow> append_message (sprintf f_not_restored [hostName, err_text err]) dep)
      })"

definition f_del_host where [text_defs]: "f_del_host = ''deleting AWX host %d: %w''"

definition host_marker :: "hostResult option \<Rightarrow> string" where
  "host_marker host = (case host of None \<Rightarrow> [] | Some h \<Rightarrow> trim_space (hr_Description h))"

definition child_marker :: "env \<Rightarrow> AnsibleBindingVM \<Rightarrow> string" where
  "child_marker E child = hostOwnerMarker E (ch_ns child) (vs_BindingName (ch_spec child))"

definition host_ours :: "env \<Rightarrow> AnsibleBindingVM \<Rightarrow> hostResult option \<Rightarrow> bool" where
  "host_ours E child host \<longleftrightarrow> host \<noteq> None \<and> host_marker host = child_marker E child"

definition host_foreign :: "env \<Rightarrow> AnsibleBindingVM \<Rightarrow> hostResult option \<Rightarrow> bool" where
  "host_foreign E child host \<longleftrightarrow> host \<noteq> None \<and> \<not> host_ours E child host \<and> has_prefix (host_marker host) hostMarkerPrefix"

definition take_off_override :: "env \<Rightarrow> cleanup_ctx \<Rightarrow> hostResult option \<Rightarrow> string \<Rightarrow> AnsibleBindingVMStatus \<Rightarrow>
    (AnsibleBindingVM \<times> AnsibleBindingVMStatus) prog" where
  "take_off_override E cx host hostName st =
     (case (host, vt_Deprovision st) of
        (Some h, Some dep) \<Rightarrow>
          if cx_retain cx \<or> \<not> host_ours E (cx_child cx) host then do {
            dep' \<leftarrow> restore_pin E (cx_client cx) h hostName dep;
            ret (alias_child (cx_hook cx = None) (cx_child cx) dep', with_dep st dep')
          }
          else ret (cx_child cx, st)
      | _ \<Rightarrow> ret (cx_child cx, st))"

definition delete_then_report :: "env \<Rightarrow> cleanup_ctx \<Rightarrow> hostResult option \<Rightarrow> AnsibleBindingVM \<Rightarrow> AnsibleBindingVMStatus \<Rightarrow>
    (gerr + CleanupResult) prog" where
  "delete_then_report E cx host child st = do {
     e \<leftarrow> (if \<not> cx_retain cx \<and> host_ours E child host then DeleteHost E (cx_client cx) (hr_ID (the host)) else ret None);
     (case e of
        Some err \<Rightarrow> do {
          persistHookState E (cx_u cx) child st;
          ret (Inl (errorw f_del_host [itoa (hr_ID (the host))] err))
        }
      | None \<Rightarrow> do { reportHookOutcome E (cx_u cx) child st; ret finished })
   }"

definition settle_host :: "env \<Rightarrow> cleanup_ctx \<Rightarrow> hostResult option \<Rightarrow> string \<Rightarrow> AnsibleBindingVMStatus \<Rightarrow> (gerr + CleanupResult) prog" where
  "settle_host E cx host hostName st = do {
     (child, st) \<leftarrow> take_off_override E cx host hostName st;
     delete_then_report E cx host child st
   }"

section \<open>The hook's turn\<close>

definition f_detach where [text_defs]: "f_detach = ''The VirtualMachine is still present, so this is a detach rather than a deletion.''"
definition f_targeting where [text_defs]: "f_targeting =
  ''spec.onDeleted.targeting is %q, which is neither %s nor %s, so nothing was launched.''"
definition f_no_host where [text_defs]: "f_no_host =
  ''There is no AWX inventory host to run against. Set spec.onDeleted.targeting: Template for a hook that does not need one.''"
definition f_foreign where [text_defs]: "f_foreign =
  ''Inventory host %q belongs to another ansible-supervisor binding (%s), so it was neither modified nor run against.''"

text \<open>Why the hook does not run although it is its turn: the record that says so.\<close>

definition hook_refused :: "env \<Rightarrow> AnsibleBindingVM \<Rightarrow> bool \<Rightarrow> string \<Rightarrow> hostResult option \<Rightarrow> string \<Rightarrow> AnsibleBindingVMStatus \<Rightarrow>
    DeprovisionStatus option" where
  "hook_refused E child gone mode host hostName st =
     (if \<not> gone then Some (skipHook (vt_Deprovision st) f_detach)
      else if mode \<noteq> TargetingManagedHost \<and> mode \<noteq> TargetingTemplate
      then Some ((skipHook (vt_Deprovision st)
             (sprintf f_targeting [mode, TargetingManagedHost, TargetingTemplate]))\<lparr>dp_Phase := PhaseFailed\<rparr>)
      else if mode = TargetingManagedHost \<and> host = None then Some (skipHook (vt_Deprovision st) f_no_host)
      else if mode = TargetingManagedHost \<and> host_foreign E child host
      then Some (skipHook (vt_Deprovision st) (sprintf f_foreign [hostName, host_marker host]))
      else None)"

definition hook_turn :: "env \<Rightarrow> cleanup_ctx \<Rightarrow> DeprovisionHook \<Rightarrow> string \<Rightarrow> hostResult option \<Rightarrow> int \<Rightarrow> string \<Rightarrow> AnsibleBindingVMStatus \<Rightarrow>
    (hostResult option \<times> hook_out) prog" where
  "hook_turn E cx hook mode host inventory hostName st = do {
     g \<leftarrow> vmIsGone E (cx_child cx);
     (case g of
        Inl vmErr \<Rightarrow> ret (host, (st, Inl vmErr))
      | Inr gone \<Rightarrow> (case hook_refused E (cx_child cx) gone mode host hostName st of
            Some dep \<Rightarrow> ret (host, (with_dep st dep, finished))
          | None \<Rightarrow> runDeprovisionHook E (cx_u cx) (cx_child cx) st hook mode (cx_client cx) host inventory (cx_endpoint cx)))
   }"

text \<open>The hook's turn and what follows it; \<open>hostErr\<close> is a lookup failure the hook was let through.\<close>

definition after_hook :: "env \<Rightarrow> cleanup_ctx \<Rightarrow> gerr option \<Rightarrow> hostResult option \<Rightarrow> string \<Rightarrow> AnsibleBindingVMStatus \<Rightarrow>
    (gerr + CleanupResult) prog" where
  "after_hook E cx hostErr host hostName st =
     (case hostErr of
        Some err \<Rightarrow> do {
          persistHookState E (cx_u cx) (cx_child cx) st;
          if \<not> cx_retain cx then ret (Inl err)
          else do {
            r \<leftarrow> releaseWithoutHost E (cx_u cx) (cx_child cx) False st err;
            ret (Inr r)
          }
        }
      | None \<Rightarrow> settle_host E cx host hostName st)"

definition hook_then_host :: "env \<Rightarrow> cleanup_ctx \<Rightarrow> string \<Rightarrow> gerr option \<Rightarrow> hostResult option \<Rightarrow> int \<Rightarrow> string \<Rightarrow> AnsibleBindingVMStatus \<Rightarrow>
    (gerr + CleanupResult) prog" where
  "hook_then_host E cx mode hostErr host inventory hostName st =
     (case cx_hook cx of
        None \<Rightarrow> after_hook E cx hostErr host hostName st
      | Some hook \<Rightarrow> do {
          (host, (st, r)) \<leftarrow> hook_turn E cx hook mode host inventory hostName st;
          (case r of
             Inl hookErr \<Rightarrow> ret (Inl hookErr)
           | Inr result \<Rightarrow>
               if \<not> cr_Done result then ret (Inr result) else after_hook E cx hostErr host hostName st)
        })"

section \<open>When the host cannot be looked up\<close>

definition f_owed_host where [text_defs]: "f_owed_host = ''looking up the AWX host to run the deprovision hook for VM %q against: %w''"
definition f_no_inventory where [text_defs]: "f_no_inventory = ''the inventory could not be resolved''"

definition detach_without_host :: "env \<Rightarrow> cleanup_ctx \<Rightarrow> AnsibleBindingVMStatus \<Rightarrow> gerr \<Rightarrow> (gerr + CleanupResult) prog" where
  "detach_without_host E cx st err =
     (let st = with_dep st (skipHook (vt_Deprovision st) f_detach) in
      if \<not> cx_retain cx then do {
        persistHookState E (cx_u cx) (cx_child cx) st;
        ret (Inl err)
      }
      else do {
        r \<leftarrow> releaseWithoutHost E (cx_u cx) (cx_child cx) False st err;
        ret (Inr r)
      })"

definition host_lookup_failed :: "env \<Rightarrow> cleanup_ctx \<Rightarrow> bool \<Rightarrow> string \<Rightarrow> AnsibleBindingVMStatus \<Rightarrow> gerr \<Rightarrow> (gerr + CleanupResult) prog" where
  "host_lookup_failed E cx al mode st err =
     (if isPermanent err then do {
        r \<leftarrow> finishHookless E (cx_u cx) (cx_child cx) st (cx_hook cx) f_no_inventory;
        ret (Inr r)
      }
      else if hook_owed (cx_hook cx) st \<and> mode = TargetingTemplate
      then hook_then_host E cx mode (Some err) None 0 (vt_AWXHostName st) st
      else if hook_owed (cx_hook cx) st then do {
        g \<leftarrow> vmIsGone E (cx_child cx);
        (case g of
           Inl vmErr \<Rightarrow> ret (Inl vmErr)
         | Inr gone \<Rightarrow>
             if gone then ret (Inl (errorw f_owed_host [vs_VMName (ch_spec (cx_child cx))] err))
             else detach_without_host E cx st err)
      }
      else if \<not> cx_retain cx then do {
        persistHookState E (cx_u cx) (cx_child cx) st;
        ret (Inl err)
      }
      else do {
        r \<leftarrow> releaseWithoutHost E (cx_u cx) (cx_child cx) al st err;
        ret (Inr r)
      })"

definition cleanup_host :: "env \<Rightarrow> cleanup_ctx \<Rightarrow> bool \<Rightarrow> AnsibleBindingVMStatus \<Rightarrow> (gerr + CleanupResult) prog" where
  "cleanup_host E cx al st =
     (let mode = hookTargeting (cx_hook cx) (vt_Deprovision st) in do {
        d \<leftarrow> discoverCleanupHost E (cx_client cx) (cx_conn cx) (cx_child cx) st;
        (case d of
           Inl err \<Rightarrow> host_lookup_failed E cx al mode st err
         | Inr (host, inventory, hostName) \<Rightarrow> hook_then_host E cx mode None host inventory hostName st)
      })"

section \<open>In AWX\<close>

text \<open>A hook whose job is already running needs nothing but that job's status.\<close>

definition polls_only :: "DeprovisionHook option \<Rightarrow> AnsibleBindingVMStatus \<Rightarrow> bool" where
  "polls_only hook st \<longleftrightarrow> hook_owed hook st \<and> dp_JobID (recorded_dep st) \<noteq> 0 \<and> dp_Endpoint (recorded_dep st) \<noteq> []"

definition cleanup_in_instance :: "env \<Rightarrow> cleanup_ctx \<Rightarrow> bool \<Rightarrow> AnsibleBindingVMStatus \<Rightarrow> (gerr + CleanupResult) prog" where
  "cleanup_in_instance E cx al st =
     (if polls_only (cx_hook cx) st then do {
        (st, r) \<leftarrow> pollDeprovisionJob E (cx_u cx) (cx_child cx) st (recorded_dep st) (cx_client cx) (cx_endpoint cx);
        (case r of
           Inl hookErr \<Rightarrow> ret (Inl hookErr)
         | Inr result \<Rightarrow> if \<not> cr_Done result then ret (Inr result) else cleanup_host E cx False st)
      }
      else cleanup_host E cx al st)"

definition f_cl_fetch where [text_defs]: "f_cl_fetch = ''fetching AWXConnection %q to clean up AWX host %d: %w''"
definition f_cl_gone where [text_defs]: "f_cl_gone = ''the AWXConnection is gone''"
definition f_cl_malformed where [text_defs]: "f_cl_malformed = ''the AWXConnection is malformed''"
definition f_cl_token where [text_defs]: "f_cl_token = ''the AWX token is gone''"
definition f_cl_client where [text_defs]: "f_cl_client =
  ''preparing a client to clean up AWX host %d (set spec.cleanupPolicy: Retain to release this object and leave it in place): %w''"
definition f_cl_moved where [text_defs]: "f_cl_moved = ''the AWXConnection now points at a different AWX instance''"

definition give_up :: "env \<Rightarrow> unstr \<Rightarrow> AnsibleBindingVM \<Rightarrow> AnsibleBindingVMStatus \<Rightarrow> DeprovisionHook option \<Rightarrow> string \<Rightarrow>
    (gerr + CleanupResult) prog" where
  "give_up E u child st hook reason = do { r \<leftarrow> finishHookless E u child st hook reason; ret (Inr r) }"

text \<open>From the connection on, with the clock running.\<close>

definition cleanup_connect :: "env \<Rightarrow> unstr \<Rightarrow> AnsibleBindingVM \<Rightarrow> bool \<Rightarrow> AnsibleBindingVMStatus \<Rightarrow> (gerr + CleanupResult) prog" where
  "cleanup_connect E u child al st =
     (let sp = ch_spec child; hook = vs_OnDeleted sp; ref = vs_AWXConnectionRef sp in do {
        r \<leftarrow> getAWXConnection E (ch_ns child) ref;
        (case r of
           Inl err \<Rightarrow>
             if \<not> isPermanent err then ret (Inl (errorw f_cl_fetch [ref, itoa (vt_AWXHostID st)] err))
             else give_up E u child st hook f_cl_gone
         | Inr obj \<Rightarrow> (case convertAWXConnection obj of
               Inl err \<Rightarrow> give_up E u child st hook f_cl_malformed
             | Inr conn \<Rightarrow>
                 if conn_Spec conn = None then give_up E u child st hook f_cl_malformed
                 else do {
                   cl \<leftarrow> awxClientForConnection E conn;
                   (case cl of
                      Inl err \<Rightarrow>
                        if isPermanent err then give_up E u child st hook f_cl_token
                        else ret (Inl (errorw f_cl_client [itoa (vt_AWXHostID st)] err))
                    | Inr (c, basePath) \<Rightarrow>
                        (let endpoint = awxEndpointFingerprint E (cs_URL (the (conn_Spec conn))) basePath in
                         if recordedAWXEndpoint st \<noteq> [] \<and> recordedAWXEndpoint st \<noteq> endpoint
                         then give_up E u child st hook f_cl_moved
                         else cleanup_in_instance E
                           \<lparr>cx_u = u, cx_child = child, cx_hook = hook, cx_retain = (vs_CleanupPolicy sp = CleanupPolicyRetain),
                            cx_conn = conn, cx_client = c, cx_endpoint = endpoint\<rparr> al st))
                 }))
      })"

definition cleanup_live_child :: "env \<Rightarrow> unstr \<Rightarrow> AnsibleBindingVM \<Rightarrow> (gerr + CleanupResult) prog" where
  "cleanup_live_child E u child =
     (let st = priorVMState child in
      case vs_OnDeleted (ch_spec child) of
        None \<Rightarrow> cleanup_connect E u child True st
      | Some hook \<Rightarrow> do {
          ((st, al), e) \<leftarrow> startHookClock E u child st hook;
          (case e of
             Some err \<Rightarrow> ret (Inl err)
           | None \<Rightarrow> do {
               (st, al) \<leftarrow> expire_hook E al st;
               cleanup_connect E u child al st
             })
        })"

definition f_cl_reread where [text_defs]: "f_cl_reread = ''re-reading %s before running its deprovision hook: %w''"

definition cleanupAnsibleBindingVM :: "env \<Rightarrow> unstr \<Rightarrow> (gerr + CleanupResult) prog" where
  "cleanupAnsibleBindingVM E u =
     (case convertAnsibleBindingVM u of
        Inl err \<Rightarrow> ret finished
      | Inr child \<Rightarrow>
          if ch_Spec child = None then ret finished
          else if vs_OnDeleted (ch_spec child) = None then
            (if vs_CleanupPolicy (ch_spec child) = CleanupPolicyRetain then ret finished
             else cleanup_live_child E u child)
          else do {
            g \<leftarrow> k8s_Get E AnsBindVMGVR (ch_ns child) (md_Name (ch_meta child));
            (case g of
               Inl gErr \<Rightarrow>
                 if isNotFound gErr then ret finished
                 else ret (Inl (errorw f_cl_reread [md_Name (ch_meta child)] gErr))
             | Inr fresh \<Rightarrow> (case convertAnsibleBindingVM fresh of
                   Inl err \<Rightarrow> cleanup_live_child E u child
                 | Inr refreshed \<Rightarrow>
                     if ch_Spec refreshed = None then cleanup_live_child E u child
                     else cleanup_live_child E fresh refreshed))
          })"

section \<open>The controller\<close>

definition ansBindVMController :: "env \<Rightarrow> controller" where
  "ansBindVMController E = \<lparr>c_gvr = AnsBindVMGVR, c_finalizerName = ''field.vmware.com/ansible-binding-vm-cleanup'',
     c_staleFinalizers = [], c_provisionFunc = applyAnsibleBindingVM E, c_cleanupFunc = Some (cleanupAnsibleBindingVM E),
     c_updateStatusFunc = updateAnsibleBindingVMStatus E\<rparr>"

end
