(* ===== verification/VMProofs.thy ===== *)
theory VMProofs
  imports CleanupVM HostProofs
begin

text \<open>
  What the passes over a VM's child do: the effect of each operation, the single launch of a
  provisioning pass and what it may reach, whose hosts it writes, and when it leaves AWX alone.
\<close>

section \<open>Effects\<close>

lemma only_writeVM [only_intros]:
  "(\<And>a. K (EApplyStatus AnsBindVMGVR (md_Namespace (u_meta u)) (md_Name (u_meta u)) (PChild (vmDetailsOf st))
      vmDetailsFieldManager a)) \<Longrightarrow> only K (writeAnsibleBindingVMDetails E u st)"
  unfolding writeAnsibleBindingVMDetails_def by (auto intro!: only_intros)

lemma only_finish_vm:
  "(\<And>st a. K (EApplyStatus AnsBindVMGVR (md_Namespace (u_meta u)) (md_Name (u_meta u)) (PChild (vmDetailsOf st))
      vmDetailsFieldManager a)) \<Longrightarrow> only K (finish_vm E u child out')"
  unfolding finish_vm_def by (auto intro!: only_intros)

text \<open>Reads of connections and Secrets, the probe, a job's status and the clock.\<close>

fun poll_event :: "event \<Rightarrow> bool" where
  "poll_event (EGet g ns n a) = (g = SecretGVR \<or> g = AWXConnGVR)"
| "poll_event (EHttp c (RqPing p) a) = True"
| "poll_event (EHttp c (RqJob iw i) a) = True"
| "poll_event (ENow t) = True"
| "poll_event _ = False"

lemma only_pollRecordedJob: "only poll_event (pollRecordedJob E child st)"
  unfolding pollRecordedJob_def poll_unidentified_def by (auto intro!: only_intros)

lemma only_poll_in_flight: "only poll_event (poll_in_flight E child prior st)"
  unfolding poll_in_flight_def Let_def by (auto intro!: only_intros only_pollRecordedJob)

lemma only_connect_vm: "only poll_event (connect_vm E child)"
  unfolding connect_vm_def Let_def by (auto intro!: only_intros)

text \<open>A VM's own functions: AWX, reads, the clock and the jitter, writes of the child's details, Events.\<close>

fun vm_event :: "event \<Rightarrow> bool" where
  "vm_event (EHttp c r a) = True"
| "vm_event (ENow t) = True"
| "vm_event (ERand n x) = True"
| "vm_event (EGet g ns n a) = True"
| "vm_event (EApplyStatus g ns n (PChild d) fm a) = (g = AnsBindVMGVR \<and> fm = vmDetailsFieldManager \<and> vmDetailsOf d = d)"
| "vm_event (ECreate g u a) = (g = EventGVR)"
| "vm_event _ = False"

lemma poll_vm_event: "poll_event e \<Longrightarrow> vm_event e"
  by (cases e rule: poll_event.cases) auto

lemma vm_poll: "only vm_event (pollRecordedJob E child st)"
  by (rule only_mono [OF only_pollRecordedJob poll_vm_event])

lemma vm_reconcile_host: "only vm_event (reconcile_host E u child c hn i ip st)"
  unfolding reconcile_host_def recover_host_def retire_host_def record_intent_def upsert_host_def Let_def
  by (intro only_bind only_if only_return only_one_request only_host_writes only_writeVM only_sum only_prod only_option) simp_all

lemma vm_launch_vm: "only vm_event (launch_vm E sp conn c tmpl lim st)"
  unfolding launch_vm_def by (intro only_bind only_if only_launches only_prod only_return only_prims) simp_all

lemma vm_pass_event: "only vm_event (vm_pass E u child prior st ip ready)"
  unfolding vm_pass_def run_in_awx_def host_then_run_def Let_def vm_finish_def vm_fail_def
  by (intro only_bind only_dueFor only_prod only_if only_return only_sum only_option vm_reconcile_host vm_launch_vm only_prims
      only_mono [OF only_poll_in_flight poll_vm_event] only_mono [OF only_connect_vm poll_vm_event] only_resolveTemplates) simp_all

lemma vm_applyAnsibleBindingVM: "only vm_event (applyAnsibleBindingVM E u)"
  unfolding applyAnsibleBindingVM_def reconcile_vm_def Let_def
  by (intro only_sum only_return only_prod only_bind only_prims only_if vm_pass_event only_finish_vm) simp_all

section \<open>The launch\<close>

text \<open>
  A launch for a child: of the template, of the spec's type, that AWX answered with in this pass; limited to the VM's host
  when the spec does not ask for the template's own limit and the template has an inventory to find the host in - a host
  looked up there in this pass, by the name that the connection's prefix gives it - and not limited otherwise.
\<close>

definition vm_limited :: "AnsibleBindingVMSpec \<Rightarrow> AWXTemplate \<Rightarrow> bool" where
  "vm_limited sp tmpl \<longleftrightarrow> \<not> vs_UseDefaultLimit sp \<and> tp_Inventory tmpl \<noteq> None"

definition vm_scope :: "env \<Rightarrow> AnsibleBindingVM \<Rightarrow> event list \<Rightarrow> event \<Rightarrow> bool" where
  "vm_scope E child pre e \<longleftrightarrow> (let sp = ch_spec child in \<exists>c i b a conn tmpl.
     e = EHttp c (RqLaunch (tr_Type (vs_Template sp) = TemplateTypeWorkflow) i b) a \<and> tp_ID tmpl = i \<and>
     list_ex (template_answer c (vs_Template sp) tmpl) pre \<and>
     conn_read E (ch_ns child) (vs_AWXConnectionRef sp) conn pre \<and>
     lb_extra_vars b = (if vs_ExtraVars sp = [] then None else Some (vs_ExtraVars sp)) \<and>
     (vs_ExtraVars sp \<noteq> [] \<longrightarrow> tp_AskVariablesOnLaunch tmpl) \<and>
     lb_limit b = (if vm_limited sp tmpl then Some (vm_host_name conn sp) else None) \<and>
     (vm_limited sp tmpl \<longrightarrow> tp_AskLimitOnLaunch tmpl \<and>
        list_ex (looked_up c (the (tp_Inventory tmpl)) (vm_host_name conn sp)) pre))"

text \<open>The job a launch was answered with is the one in the status, which then wants no other run.\<close>

definition launched_as :: "AnsibleBindingVMSpec \<Rightarrow> AnsibleBindingVMStatus \<Rightarrow> event \<Rightarrow> bool" where
  "launched_as sp st e \<longleftrightarrow> (\<forall>c iw i b a j. e = EHttp c (RqLaunch iw i b) a \<longrightarrow>
     j = launched_id (if iw then lr_WorkflowJob else lr_Job) a \<longrightarrow> j \<noteq> 0 \<longrightarrow>
     vt_LastJobID st = j \<and> \<not> needsRun st sp \<and> \<not> isTerminalAWXStatus (vt_LastJobStatus st))"

lemma launched_as_quiet: "\<not> is_launch e \<Longrightarrow> launched_as sp st e"
  by (auto simp: launched_as_def)

lemma launched_all_quiet: "list_all (\<lambda>e. \<not> is_launch e) es \<Longrightarrow> \<forall>e \<in> set es. launched_as sp st e"
  by (auto simp: list_all_iff launched_as_quiet)

lemma record_vm_job_settles:
  "j \<noteq> 0 \<Longrightarrow> \<not> needsRun (record_vm_job sp conn c j now st) sp \<and> vt_LastJobID (record_vm_job sp conn c j now st) = j \<and>
   \<not> isTerminalAWXStatus (vt_LastJobStatus (record_vm_job sp conn c j now st))"
  by (simp add: needsRun_def record_vm_job_def)

definition vm_launched :: "AnsibleBindingVMSpec \<Rightarrow> (event list \<Rightarrow> event \<Rightarrow> bool) \<Rightarrow> vm_out \<Rightarrow> event list \<Rightarrow> bool" where
  "vm_launched sp P r es \<longleftrightarrow> launches_once P es \<and> (\<forall>e \<in> set es. launched_as sp (vo_st r) e)"

lemma vm_launched_quiet: "list_all (\<lambda>e. \<not> is_launch e) es \<Longrightarrow> vm_launched sp P r es"
  by (simp add: vm_launched_def launches_once_quiet launched_all_quiet)

lemma emits_quiet_vm: "only (\<lambda>e. \<not> is_launch e) m \<Longrightarrow> emits m (vm_launched sp P)"
  unfolding only_def by (erule emits_conseq) (rule vm_launched_quiet)

lemma emits_vm_bind:
  assumes "only (\<lambda>e. \<not> is_launch e) m" "emits m R"
    and "\<And>a es. R a es \<Longrightarrow> emits (f a) (vm_launched sp (\<lambda>pre. P (es @ pre)))"
  shows "emits (m \<bind> f) (vm_launched sp P)"
  by (rule emits_bind [OF emits_and_only [OF assms(2,1)]], rule emits_conseq [OF assms(3)])
    (auto simp: vm_launched_def launched_all_quiet intro: launches_once_prefix)

lemma emits_launch_vm:
  assumes "\<And>c i b a. c = cl \<Longrightarrow> i = tp_ID tmpl \<Longrightarrow> b = launch_body lim (vs_ExtraVars sp) \<Longrightarrow>
    P [] (EHttp c (RqLaunch (tr_Type (vs_Template sp) = TemplateTypeWorkflow) i b) a)"
  shows "emits (launch_vm E sp conn cl tmpl lim st) (vm_launched sp P)"
proof -
  let ?iw = "tr_Type (vs_Template sp) = TemplateTypeWorkflow"
  have l: "emits (if ?iw then LaunchWorkflowJobTemplate E cl (tp_ID tmpl) lim (vs_ExtraVars sp)
        else LaunchJobTemplate E cl (tp_ID tmpl) lim (vs_ExtraVars sp))
      (\<lambda>r es. \<exists>a. es = [EHttp cl (RqLaunch ?iw (tp_ID tmpl) (launch_body lim (vs_ExtraVars sp))) a] \<and>
        fst r = launched_id (if ?iw then lr_WorkflowJob else lr_Job) a \<and> (snd r = None \<longrightarrow> fst r \<noteq> 0))"
    unfolding LaunchWorkflowJobTemplate_def LaunchJobTemplate_def
    using emits_launch_result by (intro emits_if) simp_all
  show ?thesis
    unfolding launch_vm_def
  proof (rule emits_bind [OF l], intro emits_prod, elim exE conjE)
    fix r :: "int \<times> gerr option" and es jobID lErr a
    assume r: "r = (jobID, lErr)" and es: "es = [EHttp cl (RqLaunch ?iw (tp_ID tmpl) (launch_body lim (vs_ExtraVars sp))) a]"
      and j: "fst r = launched_id (if ?iw then lr_WorkflowJob else lr_Job) a"
    let ?out = "\<lambda>st. \<lparr>vo_st = (if lErr \<noteq> None \<and> jobID = 0 then st\<lparr>vt_Phase := PhaseFailed\<rparr> else st),
       vo_requeue = e_hostCheckPeriod E, vo_err = map_option (errorw f_vm_launch []) lErr\<rparr>"
    have once: "launches_once P (es @ xs)" if "list_all (\<lambda>e. \<not> is_launch e) xs" for xs
      unfolding es append_Cons append_Nil by (rule launches_once_here) (use that assms in auto)
    show "emits ((if jobID \<noteq> 0 then nowRFC3339 E \<bind> (\<lambda>now. ret (record_vm_job sp conn cl jobID now st)) else ret st) \<bind>
        (\<lambda>st. ret (?out st))) (\<lambda>b es'. vm_launched sp P b (es @ es'))"
    proof (cases "jobID = 0")
      case True
      have "vm_launched sp P (?out st) (es @ [])"
        unfolding vm_launched_def using once [of "[]"] True r j by (auto simp: es launched_as_def)
      with True show ?thesis by (simp add: emits_return)
    next
      case False
      have *: "vm_launched sp P (?out (record_vm_job sp conn cl jobID now st)) (es @ [ENow t])" for now t
        unfolding vm_launched_def using once [of "[ENow t]"] False record_vm_job_settles [OF False] r j
        by (auto simp: es launched_as_def)
      have "emits (nowRFC3339 E \<bind> (\<lambda>now. ret (?out (record_vm_job sp conn cl jobID now st))))
          (\<lambda>b es'. vm_launched sp P b (es @ es'))"
      proof (rule emits_bind [OF does_nowRFC3339])
        fix now es1
        assume "\<exists>t. now = format_time t \<and> es1 = [ENow t]"
        then obtain t where t: "es1 = [ENow t]" by blast
        show "emits (ret (?out (record_vm_job sp conn cl jobID now st))) (\<lambda>b es'. vm_launched sp P b (es @ es1 @ es'))"
          unfolding t by (rule emits_return) (simp only: append_Nil2 *)
      qed
      with False show ?thesis by (simp add: State_Monad.bind_assoc)
    qed
  qed
qed

text \<open>The host first, then the launch against it.\<close>

lemma only_reconcile_host_quiet: "only (\<lambda>e. \<not> is_launch e) (reconcile_host E u child c hn i ip st)"
  unfolding reconcile_host_def recover_host_def retire_host_def record_intent_def upsert_host_def Let_def
  by (intro only_bind only_if only_return only_one_request only_host_writes only_writeVM only_sum only_prod only_option) simp_all

lemma emits_reconcile_host_looked:
  "emits (reconcile_host E u child c hn n ip st) (\<lambda>r es. snd r = None \<longrightarrow> list_ex (looked_up c n hn) es)"
proof -
  have up: "emits (upsert_host E c m hn n vars st') (\<lambda>r es. snd r = None \<longrightarrow> list_ex (looked_up c n hn) es)" for m vars st'
    unfolding upsert_host_def
    by (rule emits_bind [OF emits_UpsertHost_looked]) (auto intro!: emits_return split: sum.splits prod.splits)
  have t: "emits (recover_host E c m ch st') (\<lambda>_ _. True)" "emits (retire_host E c m ch st') (\<lambda>_ _. True)"
    "emits (record_intent E u child hn n st') (\<lambda>_ _. True)" for m ch st'
    unfolding recover_host_def retire_host_def record_intent_def Let_def
    by (rule emits_top, auto intro!: only_intros only_writeVM)+
  show ?thesis
    unfolding reconcile_host_def Let_def
    by (rule emits_bind [OF t(1)], intro emits_sum emits_return emits_bind [OF t(2)] emits_bind [OF t(3)] emits_prod
        emits_option emits_conseq [OF up]) auto
qed

lemma vm_host_name_ne: "vs_VMName sp \<noteq> [] \<Longrightarrow> vm_host_name conn sp \<noteq> []"
  by (simp add: vm_host_name_def)

lemma lb_limit_body: "lb_limit (launch_body lim v) = (if lim = [] then None else Some lim)"
  and lb_vars_body: "lb_extra_vars (launch_body lim v) = (if v = [] then None else Some v)"
  by (simp_all add: launch_body_def)

lemma emits_host_then_run:
  assumes name: "vs_VMName (ch_spec child) \<noteq> []"
    and tmpl: "list_ex (template_answer c (vs_Template (ch_spec child)) tmpl) es"
    and conn: "conn_read E (ch_ns child) (vs_AWXConnectionRef (ch_spec child)) conn es"
    and acc: "checkTemplateAcceptsLaunchFields tmpl (tr_Name (vs_Template (ch_spec child)))
      (\<not> vs_UseDefaultLimit (ch_spec child) \<and> tp_Inventory tmpl \<noteq> None) (vs_ExtraVars (ch_spec child) \<noteq> []) r = None"
  shows "emits (host_then_run E u child conn c bp tmpl True ip st) (vm_launched (ch_spec child) (\<lambda>pre. vm_scope E child (es @ pre)))"
proof -
  let ?sp = "ch_spec child" and ?hn = "vm_host_name conn (ch_spec child)"
  have run: "emits (do {
        now \<leftarrow> nowRFC3339 E;
        (let st = st\<lparr>vt_LastHostCheck := now\<rparr> in launch_vm E ?sp cn c tmpl (if \<not> vs_UseDefaultLimit ?sp \<and> tp_Inventory tmpl \<noteq> None
             then ?hn else []) st) }) (vm_launched ?sp (\<lambda>pre. vm_scope E child (es @ xs @ pre)))"
    if h: "\<And>n. tp_Inventory tmpl = Some n \<Longrightarrow> list_ex (looked_up c n ?hn) xs" for xs st cn
  proof (unfold Let_def, rule emits_vm_bind [OF only_prims(2) does_nowRFC3339], simp, rule emits_launch_vm)
    fix es1 c' i b a
    assume "c' = c" "i = tp_ID tmpl" "b = launch_body (if \<not> vs_UseDefaultLimit ?sp \<and> tp_Inventory tmpl \<noteq> None then ?hn else [])
      (vs_ExtraVars ?sp)"
    then show "vm_scope E child (es @ xs @ es1 @ []) (EHttp c' (RqLaunch (tr_Type (vs_Template ?sp) = TemplateTypeWorkflow) i b) a)"
      unfolding vm_scope_def Let_def
      by (intro exI [of _ c] exI [of _ i] exI [of _ b] exI [of _ a] exI [of _ conn] exI [of _ tmpl])
        (use tmpl acc h vm_host_name_ne [OF name] conn in \<open>auto simp: vm_limited_def check_None_iff lb_limit_body lb_vars_body
          elim: conn_read_more\<close>)
  qed
  show ?thesis
  proof (cases "tp_Inventory tmpl")
    case None
    then show ?thesis
      using run [of "[]"] by (simp add: host_then_run_def Let_def)
  next
    case (Some n)
    have fail: "emits (vm_fail st' e) (vm_launched ?sp P)" for st' e P
      unfolding vm_fail_def by (rule emits_quiet_vm) (rule only_return)
    have "emits (reconcile_host E u child c ?hn n ip st \<bind> (\<lambda>(st, e). case e of
           Some err \<Rightarrow> vm_fail st err
         | None \<Rightarrow> do {
             now \<leftarrow> nowRFC3339 E;
             (let st = st\<lparr>vt_LastHostCheck := now\<rparr> in launch_vm E ?sp ((the (conn_Spec conn))\<lparr>cs_APIBasePath := bp\<rparr>) c tmpl
               (if \<not> vs_UseDefaultLimit ?sp \<and> tp_Inventory tmpl \<noteq> None then ?hn else []) st) }))
        (vm_launched ?sp (\<lambda>pre. vm_scope E child (es @ pre)))"
      by (rule emits_vm_bind [OF only_reconcile_host_quiet emits_reconcile_host_looked], intro emits_prod emits_option fail
          run) (use Some in auto)
    then show ?thesis
      unfolding host_then_run_def Let_def Some option.case not_True_eq_False if_False .
  qed
qed


lemma only_host_then_run_quiet: "only (\<lambda>e. \<not> is_launch e) (host_then_run E u child conn c bp tmpl False ip st)"
  unfolding host_then_run_def Let_def vm_fail_def not_False_eq_True if_True
  by (intro only_bind only_option only_prod only_return only_reconcile_host_quiet only_prims) simp_all

lemma poll_quiet: "poll_event e \<Longrightarrow> \<not> is_launch e \<and> \<not> is_host_put e \<and> \<not> is_host_delete e"
  by (cases e rule: poll_event.cases) auto

lemma emits_connect_vm:
  "emits (connect_vm E child) (\<lambda>r es. \<forall>conn c bp. r = Inr (conn, c, bp) \<longrightarrow>
     conn_read E (ch_ns child) (vs_AWXConnectionRef (ch_spec child)) conn es)"
proof -
  have c: "emits (awxClientForConnection E conn) (\<lambda>_ _. True)" for conn
    by (rule emits_top) (auto intro!: only_intros)
  show ?thesis
    unfolding connect_vm_def Let_def
    by (rule emits_bind [OF emits_getAWXConnection], intro emits_sum emits_if emits_return emits_bind [OF c])
      (auto split: sum.splits elim: conn_read_more)
qed

lemma emits_run_in_awx:
  assumes name: "vs_VMName (ch_spec child) \<noteq> []"
  shows "emits (run_in_awx E u child True ip st) (vm_launched (ch_spec child) (vm_scope E child))"
proof -
  have fail: "emits (vm_fail st' e) (vm_launched sp P)" for st' e P sp
    unfolding vm_fail_def by (rule emits_quiet_vm) (rule only_return)
  have conn: "only (\<lambda>e. \<not> is_launch e) (connect_vm E child)"
    by (rule only_mono [OF only_connect_vm]) (simp add: poll_quiet)
  have t: "only (\<lambda>e. \<not> is_launch e) (resolveTemplateForLaunch E c k ref)" for c k ref
    by (rule only_resolveTemplates) simp_all
  show ?thesis
    unfolding run_in_awx_def Let_def if_True
  proof (rule emits_vm_bind [OF conn emits_connect_vm], intro emits_sum fail emits_prod,
      rule emits_vm_bind [OF t emits_resolveTemplateForLaunch], intro emits_sum emits_option fail, goal_cases)
    case (1 a es y conn z c bp aa esa tmpl)
    then have "list_ex (template_answer c (vs_Template (ch_spec child)) tmpl) (es @ esa)"
      "conn_read E (ch_ns child) (vs_AWXConnectionRef (ch_spec child)) conn (es @ esa)"
      by (auto elim: conn_read_more)
    from emits_host_then_run [OF name this] 1 show ?case by simp
  qed
qed

section \<open>A pass\<close>

lemma only_poll_top: "only poll_event m \<Longrightarrow> emits m (\<lambda>_ _. True)"
  by (rule emits_top, erule only_mono) simp

text \<open>A pass goes on past a job in flight only when that job was read to have stopped.\<close>

lemma emits_pollRecordedJob:
  "emits (pollRecordedJob E child st)
     (\<lambda>r es. \<forall>s. r = Inr s \<longrightarrow> list_ex (\<lambda>e. \<exists>c iw. job_read c iw (vt_LastJobID st) s e) es)"
proof -
  have g: "emits (getAWXConnection E ns n) (\<lambda>_ _. True)" "emits (awxClientForConnection E conn) (\<lambda>_ _. True)"
    "emits (getSecretValue E ns n k) (\<lambda>_ _. True)" "emits (awxClientFor E conn tk) (\<lambda>_ _. True)" for ns n conn k tk
    by (rule emits_top, auto intro!: only_intros)+
  show ?thesis
    unfolding pollRecordedJob_def poll_unidentified_def
    by (rule emits_if; rule emits_bind [OF g(1)] emits_bind [OF g(3)], intro emits_sum emits_if emits_return
        emits_bind [OF g(2)] emits_bind [OF g(4)] emits_prod emits_conseq [OF emits_pollJobStatus]) auto
qed

lemma emits_poll_in_flight:
  "emits (poll_in_flight E child prior st) (\<lambda>r es. \<forall>st'. r = Inr st' \<longrightarrow> list_ex (stopped (vt_LastJobID prior)) es)"
  unfolding poll_in_flight_def Let_def
  by (rule emits_bind [OF emits_pollRecordedJob], intro emits_sum emits_if emits_return emits_bind [OF does_nowRFC3339])
    (auto simp: stopped_def list_ex_iff)

text \<open>What lets a pass launch: a ready VM, a run wanted, and the job before it, if any, known to have stopped.\<close>

definition vm_allowed :: "env \<Rightarrow> AnsibleBindingVM \<Rightarrow> bool \<Rightarrow> event list \<Rightarrow> event \<Rightarrow> bool" where
  "vm_allowed E child ready pre e \<longleftrightarrow> ready \<and> needsRun (priorVMState child) (ch_spec child) \<and>
     (vm_in_flight (priorVMState child) \<longrightarrow> list_ex (stopped (vt_LastJobID (priorVMState child))) pre) \<and>
     vm_scope E child pre e"

lemma list_ex_before: "list_ex P ys \<Longrightarrow> list_ex P (xs @ ys)"
  by simp

lemma vm_scope_before: "vm_scope E child pre e \<Longrightarrow> vm_scope E child (xs @ pre) e"
  unfolding vm_scope_def Let_def list_ex_append by (elim exE conjE, intro exI conjI) (auto intro: conn_read_prefix)

lemma emits_vm_pass:
  assumes name: "vs_VMName (ch_spec child) \<noteq> []"
    and st: "needsRun st (ch_spec child) = needsRun (priorVMState child) (ch_spec child)"
  shows "emits (vm_pass E u child (priorVMState child) st ip ready) (vm_launched (ch_spec child) (vm_allowed E child ready))"
proof -
  let ?sp = "ch_spec child" and ?pr = "priorVMState child"
  have r: "emits (ret x) (vm_launched sp P)" "emits (vm_finish st') (vm_launched sp P)" for x st' P sp
    unfolding vm_finish_def by (rule emits_quiet_vm, rule only_return)+
  have due: "only (\<lambda>e. \<not> is_launch e) (dueFor E ts p)" for ts p
    by (rule only_dueFor) simp
  have poll: "only (\<lambda>e. \<not> is_launch e) (poll_in_flight E child ?pr st)"
    by (rule only_mono [OF only_poll_in_flight]) (simp add: poll_quiet)
  have run: "emits (run_in_awx E u child (needsRun st ?sp) ip st') (vm_launched ?sp (\<lambda>pre. vm_allowed E child ready (xs @ pre)))"
    if "ready" "vm_in_flight ?pr \<Longrightarrow> list_ex (stopped (vt_LastJobID ?pr)) xs" for st' xs
  proof (cases "needsRun ?pr ?sp")
    case True
    have "emits (run_in_awx E u child True ip st') (vm_launched ?sp (\<lambda>pre. vm_allowed E child ready (xs @ pre)))"
      by (rule emits_conseq [OF emits_run_in_awx [OF name]])
        (use that True in \<open>auto simp: vm_launched_def vm_allowed_def intro!: vm_scope_before elim!: launches_once_mono\<close>)
    with True st show ?thesis by simp
  next
    case False
    have "only (\<lambda>e. \<not> is_launch e) (run_in_awx E u child False ip st')"
      unfolding run_in_awx_def Let_def vm_fail_def if_False
      by (intro only_bind only_sum only_prod only_option only_return only_host_then_run_quiet only_resolveTemplates
          only_mono [OF only_connect_vm]) (simp_all add: poll_quiet)
    with False st show ?thesis by (simp add: emits_quiet_vm)
  qed
  show ?thesis
    unfolding vm_pass_def Let_def
  proof (rule emits_vm_bind [OF due emits_top], rule only_dueFor, simp, intro emits_prod emits_if r, goal_cases)
    case (1 a es due rest)
    show ?case
    proof (cases "vm_in_flight ?pr")
      case True
      show ?thesis
        unfolding if_P [OF True]
        by (rule emits_vm_bind [OF poll emits_poll_in_flight], intro emits_sum emits_if r run [where xs = "xs @ ys" for xs ys,
              unfolded append_assoc]) (use 1 True in simp_all)
    next
      case False
      have "ready" using 1 False by blast
      then show ?thesis
        unfolding if_not_P [OF False] State_Monad.bind_left_identity sum.case
        by (intro emits_if r run) (use False in simp_all)
    qed
  qed
qed

section \<open>The record of a launch\<close>

text \<open>
  A launch answered with a job is followed by one write, the last event of the pass, that names the job and
  what it was launched for, so that the child wants no other run.
\<close>

definition launch_recorded :: "ObjectMeta \<Rightarrow> AnsibleBindingVMSpec \<Rightarrow> event list \<Rightarrow> bool" where
  "launch_recorded m sp es \<longleftrightarrow> (\<forall>pre c iw i b a post. es = pre @ EHttp c (RqLaunch iw i b) a # post \<longrightarrow>
     launched_id (if iw then lr_WorkflowJob else lr_Job) a \<noteq> 0 \<longrightarrow>
     (\<exists>d r mid. post = mid @ [EApplyStatus AnsBindVMGVR (md_Namespace m) (md_Name m) (PChild d) vmDetailsFieldManager r] \<and>
        launched_as sp d (EHttp c (RqLaunch iw i b) a)))"

lemma needsRun_details [simp]: "needsRun (vmDetailsOf st) sp = needsRun st sp"
  by (simp add: needsRun_def vmDetailsOf_def strip_generic_def)

lemma launched_as_details [simp]: "launched_as sp (vmDetailsOf st) e = launched_as sp st e"
  unfolding launched_as_def needsRun_details by (simp add: vmDetailsOf_def strip_generic_def)

lemma needsRun_initial [simp]: "needsRun ((initial_vm_status p)\<lparr>vt_ObservedIP := ip\<rparr>) sp = needsRun p sp"
  by (simp add: needsRun_def initial_vm_status_def)

lemma current_needsRun:
  "ansibleBindingVMDetailsCurrent (ch_Status child) st \<Longrightarrow> needsRun st sp = needsRun (priorVMState child) sp"
  unfolding ansibleBindingVMDetailsCurrent_def priorVMState_def
  by (cases "ch_Status child") (auto, (metis needsRun_details)+)

text \<open>The write is retried when it conflicts; every attempt carries the same record.\<close>

lemma emits_writeVM_last:
  "emits (writeAnsibleBindingVMDetails E u st) (\<lambda>_ es. \<exists>r mid. es = mid @ [EApplyStatus AnsBindVMGVR (md_Namespace (u_meta u))
     (md_Name (u_meta u)) (PChild (vmDetailsOf st)) vmDetailsFieldManager r])"
proof -
  let ?e = "EApplyStatus AnsBindVMGVR (md_Namespace (u_meta u)) (md_Name (u_meta u)) (PChild (vmDetailsOf st)) vmDetailsFieldManager"
  have "emits (patch_loop (Suc n) E AnsBindVMGVR u (PChild (vmDetailsOf st)) vmDetailsFieldManager e)
      (\<lambda>_ es. \<exists>r mid. es = mid @ [?e r])" for n e
  proof (induction n arbitrary: e)
    case 0
    show ?case
      unfolding patch_loop.simps
      by (rule emits_bind [OF does_ApplyStatus]) (auto intro!: emits_return split: option.splits)
  next
    case (Suc n)
    show ?case
      unfolding patch_loop.simps(2) [of "Suc n"]
      by (rule emits_bind [OF does_ApplyStatus], intro emits_option emits_if emits_return emits_conseq [OF Suc])
        (auto simp flip: append_assoc, force?)
  qed
  then show ?thesis
    unfolding writeAnsibleBindingVMDetails_def patchStatus_def maxRetries_def by (simp add: numeral_eq_Suc)
qed

definition vm_pass_ok :: "env \<Rightarrow> unstr \<Rightarrow> AnsibleBindingVM \<Rightarrow> bool \<Rightarrow> event list \<Rightarrow> bool" where
  "vm_pass_ok E u child ready es \<longleftrightarrow> launches_once (vm_allowed E child ready) es \<and>
     launch_recorded (u_meta u) (ch_spec child) es"

lemma launch_recorded_quiet: "list_all (\<lambda>e. \<not> is_launch e) es \<Longrightarrow> launch_recorded m sp es"
  by (auto simp: launch_recorded_def)

lemma launch_recorded_prefix:
  "list_all (\<lambda>e. \<not> is_launch e) xs \<Longrightarrow> launch_recorded m sp es \<Longrightarrow> launch_recorded m sp (xs @ es)"
  unfolding launch_recorded_def
proof (intro allI impI, goal_cases)
  case (1 pre c iw i b a post)
  then have "\<exists>zs. pre = xs @ zs \<and> es = zs @ EHttp c (RqLaunch iw i b) a # post"
    by (auto simp: append_eq_append_conv2 append_eq_Cons_conv)
  with 1 show ?case by blast
qed

lemma launch_recorded_written:
  assumes "\<forall>e \<in> set es. launched_as sp d e" and "list_all (\<lambda>e. \<not> is_launch e) mid"
  shows "launch_recorded m sp (es @ mid @ [EApplyStatus AnsBindVMGVR (md_Namespace m) (md_Name m) (PChild d) vmDetailsFieldManager r])"
  unfolding launch_recorded_def
proof (intro allI impI, goal_cases)
  case (1 pre c iw i b a post)
  let ?l = "EHttp c (RqLaunch iw i b) a"
  have "?l \<notin> set (mid @ [EApplyStatus AnsBindVMGVR (md_Namespace m) (md_Name m) (PChild d) vmDetailsFieldManager r])"
    using assms(2) by (auto simp: list_all_iff)
  with 1(1) obtain zs where "es = pre @ ?l # zs" "post = zs @ mid @ [EApplyStatus AnsBindVMGVR (md_Namespace m) (md_Name m) (PChild d) vmDetailsFieldManager r]"
    by (auto simp: append_eq_append_conv2 append_eq_Cons_conv Cons_eq_append_conv)
  with assms(1) show ?case by (intro exI [of _ d] exI [of _ r] exI [of _ "zs @ mid"]) auto
qed

lemma emits_finish_vm:
  assumes "vm_launched (ch_spec child) (vm_allowed E child ready) r es"
  shows "emits (finish_vm E u child r) (\<lambda>_ es'. vm_pass_ok E u child ready (es @ es'))"
proof -
  let ?sp = "ch_spec child"
  from assms have once: "launches_once (vm_allowed E child ready) es" and as: "\<forall>e \<in> set es. launched_as ?sp (vo_st r) e"
    by (auto simp: vm_launched_def)
  have quiet: "only (\<lambda>e. \<not> is_launch e) (writeAnsibleBindingVMDetails E u (vo_st r))"
    by (rule only_writeVM) simp
  have w: "emits (writeAnsibleBindingVMDetails E u (vo_st r)) (\<lambda>_ es'. vm_pass_ok E u child ready (es @ es'))"
  proof (rule emits_conseq [OF emits_and_only [OF emits_writeVM_last quiet]])
    fix x es'
    assume h: "(\<exists>r' mid. es' = mid @ [EApplyStatus AnsBindVMGVR (md_Namespace (u_meta u)) (md_Name (u_meta u))
        (PChild (vmDetailsOf (vo_st r))) vmDetailsFieldManager r']) \<and> list_all (\<lambda>e. \<not> is_launch e) es'"
    then obtain r' mid where es': "es' = mid @ [EApplyStatus AnsBindVMGVR (md_Namespace (u_meta u)) (md_Name (u_meta u))
        (PChild (vmDetailsOf (vo_st r))) vmDetailsFieldManager r']" and m: "list_all (\<lambda>e. \<not> is_launch e) mid" by auto
    show "vm_pass_ok E u child ready (es @ es')"
      unfolding vm_pass_ok_def
    proof
      show "launches_once (vm_allowed E child ready) (es @ es')" using once h by (intro launches_once_suffix) auto
      show "launch_recorded (u_meta u) ?sp (es @ es')"
        unfolding es' by (rule launch_recorded_written) (use as m in auto)
    qed
  qed
  have skip: "vm_pass_ok E u child ready es" if cur: "ansibleBindingVMDetailsCurrent (ch_Status child) (vo_st r)"
    unfolding vm_pass_ok_def
  proof
    show "launches_once (vm_allowed E child ready) es" by (rule once)
    show "launch_recorded (u_meta u) ?sp es"
      unfolding launch_recorded_def
    proof (intro allI impI, goal_cases)
      case (1 pre c iw i b a post)
      let ?l = "EHttp c (RqLaunch iw i b) a"
      from 1(1) once have "needsRun (priorVMState child) ?sp"
        unfolding launches_once_def by (force simp: vm_allowed_def)
      moreover from 1 as have "\<not> needsRun (vo_st r) ?sp" by (auto simp: launched_as_def)
      ultimately show ?case using current_needsRun [OF cur] by simp
    qed
  qed
  show ?thesis
    unfolding finish_vm_def
    by (cases "ansibleBindingVMDetailsCurrent (ch_Status child) (vo_st r)")
      (use skip in \<open>auto intro!: emits_return emits_bind [OF w]\<close>)
qed

lemma emits_reconcile_vm:
  assumes "vs_VMName (ch_spec child) \<noteq> []"
  shows "emits (reconcile_vm E u child vm) (\<lambda>_. vm_pass_ok E u child (snd (vmReady vm)))"
  unfolding reconcile_vm_def Let_def
  by (intro emits_prod, rule emits_bind [OF emits_vm_pass [OF assms]]) (auto intro: emits_finish_vm)

text \<open>
  What a pass over a VM's child may do: nothing at all when the child is refused; otherwise the VM is read
  first, and unless that answer is the very VM the child was created for, the pass ends there.
\<close>

definition child_pass :: "env \<Rightarrow> unstr \<Rightarrow> event list \<Rightarrow> bool" where
  "child_pass E u es \<longleftrightarrow> (case check_child E u of
     Inl err \<Rightarrow> es = []
   | Inr (child, uid) \<Rightarrow> (\<exists>a rest. es = EGet VMGVR (ch_ns child) (vs_VMName (ch_spec child)) a # rest \<and>
       (case a of
          Inl e \<Rightarrow> rest = []
        | Inr vm \<Rightarrow> if uid \<noteq> [] \<and> md_UID (u_meta vm) \<noteq> uid then rest = []
            else vm_pass_ok E u child (snd (vmReady vm)) rest)))"

lemma check_child_name: "check_child E u = Inr (child, uid) \<Longrightarrow> vs_VMName (ch_spec child) \<noteq> []"
  by (auto simp: check_child_def Let_def split: sum.splits if_splits)

lemma emits_applyAnsibleBindingVM: "emits (applyAnsibleBindingVM E u) (\<lambda>_. child_pass E u)"
proof (cases "check_child E u")
  case (Inl err)
  then show ?thesis
    unfolding applyAnsibleBindingVM_def child_pass_def by (simp add: emits_return)
next
  case (Inr x)
  obtain child uid where x: "x = (child, uid)" by (cases x)
  with Inr have c: "check_child E u = Inr (child, uid)" by simp
  let ?g = "EGet VMGVR (ch_ns child) (vs_VMName (ch_spec child))"
  have *: "emits (k8s_Get E VMGVR (ch_ns child) (vs_VMName (ch_spec child)) \<bind> (\<lambda>r. case r of
             Inl err \<Rightarrow>
               if isNotFound err then ret (Inr no_result)
               else ret (Inl (errorw f_vm_fetch [vs_VMName (ch_spec child)] err))
           | Inr vm \<Rightarrow>
               if uid \<noteq> [] \<and> md_UID (u_meta vm) \<noteq> uid then ret (Inr no_result)
               else reconcile_vm E u child vm))
     (\<lambda>_ es. \<exists>a rest. es = ?g a # rest \<and> (case a of
          Inl e \<Rightarrow> rest = []
        | Inr vm \<Rightarrow> if uid \<noteq> [] \<and> md_UID (u_meta vm) \<noteq> uid then rest = []
            else vm_pass_ok E u child (snd (vmReady vm)) rest))"
    by (rule emits_bind [OF does_Get], elim exE conjE, intro emits_sum emits_if emits_return
        emits_conseq [OF emits_reconcile_vm [OF check_child_name [OF c]]])
      (auto split: sum.splits)
  show ?thesis
    unfolding applyAnsibleBindingVM_def child_pass_def c sum.case prod.case by (rule *)
qed

end
