(* ===== verification/HookProofs.thy ===== *)
theory HookProofs
  imports CleanupVM VMProofs
begin

text \<open>
  The \<open>onDeleted\<close> hook over the finalizing passes of a VM's child: a pass launches it at most once, after
  writing down that it is about to, with the VM seen gone and the job before it seen stopped; and from then
  on no pass launches it again.
\<close>

section \<open>The hook's record\<close>

text \<open>A record that says the hook was launched, or was given up on; with its clock running.\<close>

definition dep_spent :: "DeprovisionStatus option \<Rightarrow> bool" where
  "dep_spent x = (case x of
     None \<Rightarrow> False
   | Some d \<Rightarrow> dp_StartedAt d \<noteq> NoStamp \<and> (isTerminalHookPhase (dp_Phase d) \<or> dp_Phase d = PhaseLaunching \<or> dp_JobID d \<noteq> 0))"

abbreviation st_spent :: "AnsibleBindingVMStatus \<Rightarrow> bool" where
  "st_spent st \<equiv> dep_spent (vt_Deprovision st)"

abbreviation child_spent :: "AnsibleBindingVM \<Rightarrow> bool" where
  "child_spent child \<equiv> st_spent (priorVMState child)"

lemma dep_spent_Some [simp]:
  "dep_spent (Some d) \<longleftrightarrow> dp_StartedAt d \<noteq> NoStamp \<and> (isTerminalHookPhase (dp_Phase d) \<or> dp_Phase d = PhaseLaunching \<or> dp_JobID d \<noteq> 0)"
  by (simp add: dep_spent_def)

lemma dep_spent_None [simp]: "\<not> dep_spent None"
  by (simp add: dep_spent_def)

lemma st_spent_recorded: "st_spent st \<Longrightarrow> vt_Deprovision st = Some (recorded_dep st)"
  by (cases "vt_Deprovision st") (simp_all add: recorded_dep_def)

lemma st_spent_details [simp]: "st_spent (vmDetailsOf st) = st_spent st"
  by (simp add: vmDetailsOf_def strip_generic_def)

lemma with_dep_Deprovision [simp]: "vt_Deprovision (with_dep st d) = Some d"
  by (simp add: with_dep_def)

lemma terminal_phases [simp]:
  "isTerminalHookPhase PhaseSucceeded" "isTerminalHookPhase PhaseFailed" "isTerminalHookPhase PhaseTimedOut"
  "isTerminalHookPhase PhaseSkipped" "\<not> isTerminalHookPhase PhaseRunning" "\<not> isTerminalHookPhase PhasePending"
  "\<not> isTerminalHookPhase PhaseLaunching" "\<not> isTerminalHookPhase []"
  by (simp_all add: isTerminalHookPhase_def PhaseSucceeded_def PhaseFailed_def PhaseTimedOut_def PhaseSkipped_def
      PhaseRunning_def PhasePending_def PhaseLaunching_def)

lemma launching_phase [simp]: "PhaseLaunching \<noteq> PhasePending" "PhaseLaunching \<noteq> []" "PhasePending \<noteq> PhaseLaunching" "[] \<noteq> PhaseLaunching"
  by (simp_all add: PhaseLaunching_def PhasePending_def)

lemma spent_current:
  "ansibleBindingVMDetailsCurrent (ch_Status child) st \<Longrightarrow> st_spent st \<Longrightarrow> child_spent child"
  unfolding ansibleBindingVMDetailsCurrent_def priorVMState_def
  by (cases "ch_Status child") (auto, (metis st_spent_details)+)

section \<open>Traces\<close>

definition kept :: "event \<Rightarrow> bool" where
  "kept e \<longleftrightarrow> \<not> is_launch e \<and> (\<forall>g ns n d fm a. e = EApplyStatus g ns n (PChild d) fm a \<longrightarrow> st_spent d)"

text \<open>The write of a spent record that was answered, with success or with the object being gone.\<close>

definition claims_hook :: "event \<Rightarrow> bool" where
  "claims_hook e \<longleftrightarrow> (\<exists>u d. applied AnsBindVMGVR u (PChild d) vmDetailsFieldManager e \<and> st_spent d)"

text \<open>
  From a record that is spent (\<open>b0\<close>) or not, to one that is (\<open>b\<close>): with a spent record nothing is launched and
  none but spent records are written; without one there is at most one launch, right after its record was
  written, and what is written after it is spent.
\<close>

definition hook_trace :: "(event list \<Rightarrow> event \<Rightarrow> bool) \<Rightarrow> bool \<Rightarrow> event list \<Rightarrow> bool \<Rightarrow> bool" where
  "hook_trace P b0 es b \<longleftrightarrow> (if b0 then list_all kept es \<and> b
     else list_all (\<lambda>e. \<not> is_launch e) es \<or>
       b \<and> (\<exists>pre cl e post. es = pre @ cl # e # post \<and> list_all (\<lambda>e. \<not> is_launch e) pre \<and> claims_hook cl \<and>
         is_launch e \<and> P (pre @ [cl]) e \<and> list_all kept post))"

lemma kept_quiet: "list_all kept es \<Longrightarrow> list_all (\<lambda>e. \<not> is_launch e) es"
  by (auto simp: list_all_iff kept_def)

lemma hook_trace_append:
  assumes x: "hook_trace P b0 xs b1" and y: "hook_trace (\<lambda>pre. P (xs @ pre)) b1 ys b2"
  shows "hook_trace P b0 (xs @ ys) b2"
proof (cases b0)
  case True
  with x y show ?thesis by (simp add: hook_trace_def)
next
  case b0: False
  show ?thesis
  proof (cases "list_all (\<lambda>e. \<not> is_launch e) xs")
    case xs: True
    show ?thesis
    proof (cases b1)
      case True
      with y have "list_all (\<lambda>e. \<not> is_launch e) ys" using kept_quiet by (simp add: hook_trace_def)
      with xs b0 show ?thesis by (simp add: hook_trace_def)
    next
      case False
      with y consider "list_all (\<lambda>e. \<not> is_launch e) ys"
        | pre cl e post where b2 "ys = pre @ cl # e # post" "list_all (\<lambda>e. \<not> is_launch e) pre" "claims_hook cl"
            "is_launch e" "P (xs @ pre @ [cl]) e" "list_all kept post"
        unfolding hook_trace_def by auto
      then show ?thesis
      proof cases
        case 1
        with xs b0 show ?thesis by (simp add: hook_trace_def)
      next
        case (2 pre cl e post)
        with xs b0 show ?thesis
          unfolding hook_trace_def
          by (simp, intro disjI2 exI [of _ "xs @ pre"] exI [of _ cl] exI [of _ e] exI [of _ post]) simp
      qed
    qed
  next
    case False
    with x b0 obtain pre cl e post where b1 and l: "xs = pre @ cl # e # post" "list_all (\<lambda>e. \<not> is_launch e) pre"
      "claims_hook cl" "is_launch e" "P (pre @ [cl]) e" "list_all kept post"
      unfolding hook_trace_def by auto
    from y \<open>b1\<close> have "list_all kept ys" b2 by (simp_all add: hook_trace_def)
    with l b0 show ?thesis
      unfolding hook_trace_def
      by (simp, intro disjI2 exI [of _ pre] exI [of _ cl] exI [of _ e] exI [of _ "post @ ys"]) simp
  qed
qed

lemma hook_trace_spent: "hook_trace P b0 es b \<Longrightarrow> b0 \<Longrightarrow> b"
  by (simp add: hook_trace_def)

lemma hook_trace_mono: "hook_trace P b0 es b \<Longrightarrow> (\<And>pre e. P pre e \<Longrightarrow> Q pre e) \<Longrightarrow> hook_trace Q b0 es b"
  unfolding hook_trace_def by (auto split: if_splits) blast

lemma hook_trace_launch:
  "list_all (\<lambda>e. \<not> is_launch e) pre \<Longrightarrow> claims_hook cl \<Longrightarrow> is_launch e \<Longrightarrow> P (pre @ [cl]) e \<Longrightarrow> list_all kept post \<Longrightarrow> b \<Longrightarrow>
   hook_trace P False (pre @ cl # e # post) b"
  unfolding hook_trace_def by auto

definition hooks :: "(event list \<Rightarrow> event \<Rightarrow> bool) \<Rightarrow> bool \<Rightarrow> 'a prog \<Rightarrow> ('a \<Rightarrow> bool) \<Rightarrow> bool" where
  "hooks P b0 m \<phi> \<longleftrightarrow> emits m (\<lambda>r es. hook_trace P b0 es (\<phi> r))"

lemma hook_bind:
  assumes "emits m (\<lambda>r es. hook_trace P b0 es (\<phi> r) \<and> R r es)"
    and "\<And>r es. R r es \<Longrightarrow> (b0 \<Longrightarrow> \<phi> r) \<Longrightarrow> hooks (\<lambda>pre. P (es @ pre)) (\<phi> r) (f r) \<psi>"
  shows "hooks P b0 (m \<bind> f) \<psi>"
  unfolding hooks_def
  by (rule emits_bind [OF assms(1)], rule emits_conseq [OF assms(2) [unfolded hooks_def]])
    (auto intro: hook_trace_append dest: hook_trace_spent)

lemma hooks_bind:
  assumes "hooks P b0 m \<phi>"
    and "\<And>r es. (b0 \<Longrightarrow> \<phi> r) \<Longrightarrow> hooks (\<lambda>pre. P (es @ pre)) (\<phi> r) (f r) \<psi>"
  shows "hooks P b0 (m \<bind> f) \<psi>"
proof (rule hook_bind [where R = "\<lambda>_ _. True"])
  show "emits m (\<lambda>r es. hook_trace P b0 es (\<phi> r) \<and> True)" using assms(1) by (simp add: hooks_def)
qed (rule assms(2))

lemma hooks_return: "(b0 \<Longrightarrow> \<phi> x) \<Longrightarrow> hooks P b0 (ret x) \<phi>"
  unfolding hooks_def by (rule emits_return) (simp add: hook_trace_def)

lemma hooks_map: "hooks P b0 m \<phi> \<Longrightarrow> (\<And>r. \<phi> r \<Longrightarrow> \<psi> (g r)) \<Longrightarrow> hooks P b0 (m \<bind> (\<lambda>r. ret (g r))) \<psi>"
  by (erule hooks_bind) (rule hooks_return)

lemma hooks_if: "(c \<Longrightarrow> hooks P b m \<phi>) \<Longrightarrow> (\<not> c \<Longrightarrow> hooks P b n \<phi>) \<Longrightarrow> hooks P b (if c then m else n) \<phi>"
  by simp

lemma hooks_option: "(x = None \<Longrightarrow> hooks P b m \<phi>) \<Longrightarrow> (\<And>y. x = Some y \<Longrightarrow> hooks P b (f y) \<phi>) \<Longrightarrow>
    hooks P b (case x of None \<Rightarrow> m | Some y \<Rightarrow> f y) \<phi>"
  by (cases x) auto

lemma hooks_sum: "(\<And>y. x = Inl y \<Longrightarrow> hooks P b (f y) \<phi>) \<Longrightarrow> (\<And>y. x = Inr y \<Longrightarrow> hooks P b (g y) \<phi>) \<Longrightarrow>
    hooks P b (case x of Inl y \<Rightarrow> f y | Inr y \<Rightarrow> g y) \<phi>"
  by (cases x) auto

lemma hooks_prod: "(\<And>y z. x = (y, z) \<Longrightarrow> hooks P b (f y z) \<phi>) \<Longrightarrow> hooks P b (case x of (y, z) \<Rightarrow> f y z) \<phi>"
  by (cases x) auto

lemma hook_leaf:
  assumes "emits m R" and "only (\<lambda>e. \<not> is_launch e) m" and "b0 \<Longrightarrow> only kept m" and "\<And>r es. R r es \<Longrightarrow> b0 \<Longrightarrow> \<phi> r"
  shows "emits m (\<lambda>r es. hook_trace P b0 es (\<phi> r) \<and> R r es)"
proof (cases b0)
  case True
  from emits_and_only [OF assms(1) assms(3) [OF True]] show ?thesis
    by (rule emits_conseq) (use True assms(4) in \<open>auto simp: hook_trace_def\<close>)
next
  case False
  from emits_and_only [OF assms(1,2)] show ?thesis
    by (rule emits_conseq) (use False in \<open>auto simp: hook_trace_def\<close>)
qed

text \<open>A computation that writes no record of a child.\<close>

fun no_record :: "event \<Rightarrow> bool" where
  "no_record (EApplyStatus g ns n p fm a) = False"
| "no_record e = (\<not> is_launch e)"

lemma no_record_kept: "no_record e \<Longrightarrow> kept e \<and> \<not> is_launch e"
  by (cases e) (auto simp: kept_def)

lemma hook_read: "emits m R \<Longrightarrow> only no_record m \<Longrightarrow> emits m (\<lambda>r es. hook_trace P b0 es b0 \<and> R r es)"
  by (rule hook_leaf [where \<phi> = "\<lambda>_. b0"]) (auto elim!: only_mono dest: no_record_kept)

text \<open>And one that only writes records that are spent if the one it works on is.\<close>

lemma kept_writeVM: "st_spent st \<Longrightarrow> only kept (writeAnsibleBindingVMDetails E u st)"
  by (rule only_writeVM) (simp add: kept_def)

lemma quiet_writeVM: "only (\<lambda>e. \<not> is_launch e) (writeAnsibleBindingVMDetails E u st)"
  by (rule only_writeVM) simp

section \<open>What the steps write\<close>

definition writes_of :: "AnsibleBindingVMStatus \<Rightarrow> (event \<Rightarrow> bool) \<Rightarrow> bool" where
  "writes_of st K \<longleftrightarrow> (\<forall>e. no_record e \<longrightarrow> K e) \<and>
     (\<forall>ns n a. K (EApplyStatus AnsBindVMGVR ns n (PChild (vmDetailsOf st)) vmDetailsFieldManager a))"

lemma writes_of_quiet [simp]: "writes_of st (\<lambda>e. \<not> is_launch e)"
  by (auto simp: writes_of_def dest: no_record_kept)

lemma writes_of_kept: "st_spent st \<Longrightarrow> writes_of st kept"
  by (auto simp: writes_of_def kept_def dest: no_record_kept)

lemma only_no_record: "only no_record m \<Longrightarrow> writes_of st K \<Longrightarrow> only K m"
  by (erule only_mono) (simp add: writes_of_def)

lemma only_write_st: "writes_of st K \<Longrightarrow> only K (writeAnsibleBindingVMDetails E u st)"
  by (rule only_writeVM) (simp add: writes_of_def)

lemma no_record_events: "only no_record (eventTarget E u n)" "only no_record (recordEvent E t ty r msg)"
  unfolding eventTarget_def recordEvent_def by (auto intro!: only_intros)

lemma no_record_hookRequeue: "only no_record (hookRequeue E dep)"
  unfolding hookRequeue_def by (auto intro!: only_intros)

lemma only_persistHookState: "writes_of st K \<Longrightarrow> only K (persistHookState E u child st)"
  unfolding persistHookState_def by (intro only_if only_return only_bind only_write_st)

lemma only_reportHookOutcome: "writes_of st K \<Longrightarrow> only K (reportHookOutcome E u child st)"
  unfolding reportHookOutcome_def Let_def
  by (intro only_option only_return only_prod only_bind only_persistHookState only_no_record [OF no_record_events(1)]
      only_no_record [OF no_record_events(2)])

lemma only_finishHookless:
  "writes_of (with_dep st (hooklessOutcome (vt_Deprovision st) reason)) K \<Longrightarrow> only K (finishHookless E u child st hook reason)"
  unfolding finishHookless_def by (intro only_bind only_if only_return only_reportHookOutcome)

lemma hookless_spent: "st_spent st \<Longrightarrow> st_spent (with_dep st (hooklessOutcome (vt_Deprovision st) reason))"
  by (auto simp: dep_spent_def hooklessOutcome_def split: option.splits)

lemma spent_message: "dep_spent (Some (d\<lparr>dp_Message := m\<rparr>)) = dep_spent (Some d)"
  by simp

text \<open>What follows the hook works on its record without launching anything, and keeps it spent.\<close>

definition tail_ok :: "bool \<Rightarrow> 'a prog \<Rightarrow> bool" where
  "tail_ok b m \<longleftrightarrow> only (\<lambda>e. \<not> is_launch e) m \<and> (b \<longrightarrow> only kept m)"

lemma tail_okI: "(\<And>K. (\<And>e. no_record e \<Longrightarrow> K e) \<Longrightarrow> (\<And>st. (b \<Longrightarrow> st_spent st) \<Longrightarrow> writes_of st K) \<Longrightarrow> only K m) \<Longrightarrow> tail_ok b m"
proof -
  assume h: "\<And>K. (\<And>e. no_record e \<Longrightarrow> K e) \<Longrightarrow> (\<And>st. (b \<Longrightarrow> st_spent st) \<Longrightarrow> writes_of st K) \<Longrightarrow> only K m"
  have "only (\<lambda>e. \<not> is_launch e) m" by (rule h) (auto dest: no_record_kept)
  moreover have "only kept m" if b
    by (rule h) (use that in \<open>auto dest: no_record_kept intro: writes_of_kept\<close>)
  ultimately show ?thesis by (simp add: tail_ok_def)
qed

lemma hooks_tail: "tail_ok b0 m \<Longrightarrow> (\<And>r. b0 \<Longrightarrow> \<phi> r) \<Longrightarrow> hooks P b0 m \<phi>"
  using hook_leaf [of m "\<lambda>_ _. True" b0 \<phi> P] unfolding hooks_def tail_ok_def
  by (simp add: emits_conseq [OF emits_only])

lemma tail_bind: "tail_ok b m \<Longrightarrow> (\<And>r. tail_ok b (f r)) \<Longrightarrow> tail_ok b (m \<bind> f)"
  by (auto simp: tail_ok_def intro: only_bind)

lemma tail_return: "tail_ok b (ret x)"
  by (auto simp: tail_ok_def intro: only_return)

lemma tail_if: "tail_ok b m \<Longrightarrow> tail_ok b n \<Longrightarrow> tail_ok b (if c then m else n)"
  by simp

lemma tail_read: "only no_record m \<Longrightarrow> tail_ok b m"
  by (auto simp: tail_ok_def elim!: only_mono dest: no_record_kept)

lemma tail_option: "(x = None \<Longrightarrow> tail_ok b m) \<Longrightarrow> (\<And>y. x = Some y \<Longrightarrow> tail_ok b (f y)) \<Longrightarrow>
    tail_ok b (case x of None \<Rightarrow> m | Some y \<Rightarrow> f y)"
  by (cases x) auto

lemma tail_persistHookState: "(b \<Longrightarrow> st_spent st) \<Longrightarrow> tail_ok b (persistHookState E u child st)"
  by (auto simp: tail_ok_def intro!: only_persistHookState writes_of_kept)

lemma tail_reportHookOutcome: "(b \<Longrightarrow> st_spent st) \<Longrightarrow> tail_ok b (reportHookOutcome E u child st)"
  by (auto simp: tail_ok_def intro!: only_reportHookOutcome writes_of_kept)

lemma tail_finishHookless: "(b \<Longrightarrow> st_spent st) \<Longrightarrow> tail_ok b (finishHookless E u child st hook reason)"
  by (auto simp: tail_ok_def intro!: only_finishHookless writes_of_kept hookless_spent simp del: with_dep_Deprovision)

lemma tail_releaseWithoutHost: "(b \<Longrightarrow> st_spent st) \<Longrightarrow> tail_ok b (releaseWithoutHost E u child al st err)"
  unfolding releaseWithoutHost_def Let_def
  by (intro tail_bind tail_option tail_if tail_return tail_reportHookOutcome) auto

lemma tail_take_off_override: "tail_ok b (take_off_override E cx host hn st)"
  unfolding take_off_override_def restore_pin_def
  by (rule tail_read) (intro only_prod only_option only_if only_bind only_return only_host_writes; simp)

lemma spent_restore: "emits (restore_pin E c h hn dep) (\<lambda>r _. dep_spent (Some r) = dep_spent (Some dep))"
  unfolding restore_pin_def
  by (intro emits_if emits_return emits_bind [OF emits_top [OF only_host_writes(3)]])
    (auto simp: unpinned_def append_message_def split: option.splits)

lemma emits_take_off_override: "emits (take_off_override E cx host hn st) (\<lambda>r _. st_spent (snd r) = st_spent st)"
  unfolding take_off_override_def
  by (intro emits_prod emits_option emits_if emits_return emits_bind [OF spent_restore]) auto

lemma tail_settle_host: "(b \<Longrightarrow> st_spent st) \<Longrightarrow> tail_ok b (settle_host E cx host hn st)"
proof -
  assume sp: "b \<Longrightarrow> st_spent st"
  have dr: "tail_ok b (delete_then_report E cx host child st')" if "b \<Longrightarrow> st_spent st'" for child st'
    unfolding delete_then_report_def
    by (intro tail_bind tail_if tail_return tail_option tail_persistHookState tail_reportHookOutcome tail_read only_one_request)
      (use that in simp_all)
  have "emits (settle_host E cx host hn st) (\<lambda>_ es. list_all (\<lambda>e. \<not> is_launch e) es \<and> (b \<longrightarrow> list_all kept es))"
    unfolding settle_host_def
  proof (rule emits_bind [OF emits_conj [OF emits_take_off_override emits_conj [OF emits_only emits_only]]])
    show "only (\<lambda>e. \<not> is_launch e) (take_off_override E cx host hn st)" "only kept (take_off_override E cx host hn st)"
      using tail_take_off_override [of True E cx host hn st] by (simp_all add: tail_ok_def)
  next
    fix r :: "AnsibleBindingVM \<times> AnsibleBindingVMStatus" and es
    assume h: "st_spent (snd r) = st_spent st \<and> list_all (\<lambda>e. \<not> is_launch e) es \<and> list_all kept es"
    then have "tail_ok b (delete_then_report E cx host (fst r) (snd r))" using sp by (intro dr) simp
    then have "emits (delete_then_report E cx host (fst r) (snd r)) (\<lambda>_ es'. list_all (\<lambda>e. \<not> is_launch e) es' \<and> (b \<longrightarrow> list_all kept es'))"
      unfolding tail_ok_def by (cases b) (auto intro: emits_conj emits_only)
    with h show "emits (case r of (child, st) \<Rightarrow> delete_then_report E cx host child st)
        (\<lambda>_ es'. list_all (\<lambda>e. \<not> is_launch e) (es @ es') \<and> (b \<longrightarrow> list_all kept (es @ es')))"
      by (auto simp: split_beta elim: emits_conseq)
  qed
  then show ?thesis
    unfolding tail_ok_def only_def by (auto elim: emits_conseq)
qed

lemma tail_after_hook: "(b \<Longrightarrow> st_spent st) \<Longrightarrow> tail_ok b (after_hook E cx hostErr host hn st)"
  unfolding after_hook_def
  by (intro tail_option tail_bind tail_if tail_return tail_persistHookState tail_releaseWithoutHost tail_settle_host)

section \<open>The launch\<close>

definition vm_seen_gone :: "env \<Rightarrow> AnsibleBindingVM \<Rightarrow> event \<Rightarrow> bool" where
  "vm_seen_gone E child e \<longleftrightarrow> (\<exists>a. e = EGet VMGVR (ch_ns child) (vs_VMName (ch_spec child)) a \<and>
     (case a of
        Inl err \<Rightarrow> fst err = NotFoundR
      | Inr vm \<Rightarrow> is_deleting (u_meta vm) \<or>
          (\<exists>uid. checkOwnedByItsVM E child = Inr uid \<and> uid \<noteq> [] \<and> md_UID (u_meta vm) \<noteq> uid)))"

definition found_for :: "env \<Rightarrow> AnsibleBindingVM \<Rightarrow> AWXClient \<Rightarrow> int \<Rightarrow> string \<Rightarrow> event \<Rightarrow> bool" where
  "found_for E child c n name e \<longleftrightarrow> (\<exists>resp h. e = EHttp c (RqHostsByName n name) (Inr resp) \<and>
     ok_code (rs_StatusCode resp) \<and> findHostByName (hosts_of (rs_Body resp)) name = Some h \<and> writable (child_marker E child) h)"

text \<open>
  The record a launch follows: of the object in hand (\<open>applied\<close>: the write was accepted, or answered that the object is
  gone), where the hook was aimed, and that its host is pinned when it has one.
\<close>

definition hook_claim :: "unstr \<Rightarrow> string \<Rightarrow> string \<Rightarrow> event \<Rightarrow> bool" where
  "hook_claim u mode endpoint e \<longleftrightarrow> (\<exists>d dep. applied AnsBindVMGVR u (PChild d) vmDetailsFieldManager e \<and> vt_Deprovision d = Some dep \<and>
     dp_Phase dep = PhaseLaunching \<and> dp_Targeting dep = mode \<and> dp_Endpoint dep = endpoint \<and>
     (mode = TargetingManagedHost \<longrightarrow> dp_HostPinned dep))"

text \<open>
  What a hook may be launched as: the template AWX answered with, for the whole of what it targets in
  \<open>Template\<close> mode, and limited to one host of the template's own inventory - looked up there, and nobody
  else's - in \<open>ManagedHost\<close> mode.
\<close>

definition hook_scope :: "env \<Rightarrow> AnsibleBindingVM \<Rightarrow> DeprovisionHook \<Rightarrow> string \<Rightarrow> AWXClient \<Rightarrow> event list \<Rightarrow> event \<Rightarrow> bool" where
  "hook_scope E child hook mode c pre e \<longleftrightarrow> (\<exists>i b a tmpl.
     e = EHttp c (RqLaunch (tr_Type (hk_Template hook) = TemplateTypeWorkflow) i b) a \<and> tp_ID tmpl = i \<and>
     list_ex (template_answer c (hk_Template hook) tmpl) pre \<and>
     (lb_extra_vars b \<noteq> None \<longrightarrow> tp_AskVariablesOnLaunch tmpl) \<and>
     (mode = TargetingTemplate \<and> lb_limit b = None \<or>
      mode = TargetingManagedHost \<and> tp_AskLimitOnLaunch tmpl \<and> (\<exists>n name. tp_Inventory tmpl = Some n \<and>
        list_ex (found_for E child c n name) pre \<and> lb_limit b = (if name = [] then None else Some name))))"

lemma emits_persist_dep:
  "emits (persist_dep E u child st dep) (\<lambda>r es. list_all (\<lambda>e. \<not> is_launch e) es \<and>
     (r = None \<longrightarrow> \<not> ansibleBindingVMDetailsCurrent (ch_Status child) (with_dep st dep) \<longrightarrow>
        es \<noteq> [] \<and> applied AnsBindVMGVR u (PChild (vmDetailsOf (with_dep st dep))) vmDetailsFieldManager (last es)))"
  unfolding persist_dep_def
proof (intro emits_if emits_return, goal_cases)
  case 2
  show ?case
    by (rule emits_conj [OF emits_only [OF quiet_writeVM]], unfold writeAnsibleBindingVMDetails_def patchStatus_def)
      (rule emits_conseq [OF patch_loop_None], blast)
qed simp

lemma only_persist_dep: "writes_of (with_dep st dep) K \<Longrightarrow> only K (persist_dep E u child st dep)"
  unfolding persist_dep_def by (intro only_if only_return only_write_st)

lemma emits_record_hook_job:
  assumes "dp_StartedAt dep \<noteq> NoStamp"
  shows "emits (record_hook_job E u child st dep c iw res) (\<lambda>r es. list_all kept es \<and> st_spent (fst r))"
proof -
  obtain j err where res: "res = (j, err)" by (cases res)
  let ?d = "dep\<lparr>dp_JobID := j, dp_JobURL := JobURL c j iw, dp_JobStatus := st_pending, dp_Phase := PhaseRunning\<rparr>"
  let ?dep = "case err of None \<Rightarrow> ?d | Some e \<Rightarrow> ?d\<lparr>dp_LaunchError := err_text e\<rparr>"
  have sp: "dep_spent (Some ?dep)" if "j \<noteq> 0" using that assms by (auto split: option.splits)
  have w: "emits (persist_dep E u child st ?dep) (\<lambda>_ es. list_all kept es)" if "j \<noteq> 0"
    by (rule emits_only [OF only_persist_dep [OF writes_of_kept]]) (use sp [OF that] in simp)
  have q: "emits (hookRequeue E d) (\<lambda>_ es. list_all kept es)" for d
    by (rule emits_only [OF only_mono [OF no_record_hookRequeue]]) (simp add: no_record_kept)
  show ?thesis
  proof (cases "j = 0")
    case True
    then show ?thesis
      using assms by (auto simp: record_hook_job_def res settle_hook_def intro!: emits_return)
  next
    case False
    show ?thesis
      unfolding record_hook_job_def res Let_def prod.case if_P [OF False]
      by (rule emits_bind [OF w [OF False]], intro emits_option emits_return emits_bind [OF q]) (use sp [OF False] in auto)
  qed
qed

lemma emits_submit_hook:
  assumes st: "dp_StartedAt dep \<noteq> NoStamp" "\<not> child_spent child"
    and pin: "dp_Targeting dep = TargetingManagedHost \<Longrightarrow> dp_HostPinned dep"
    and P: "\<And>es b a. es \<noteq> [] \<Longrightarrow> hook_claim u (dp_Targeting dep) endpoint (last es) \<Longrightarrow>
      b = launch_body limit (if tp_AskVariablesOnLaunch tmpl then hook_vars E child st else []) \<Longrightarrow>
      P es (EHttp c (RqLaunch (tr_Type (hk_Template hook) = TemplateTypeWorkflow) (tp_ID tmpl) b) a)"
  shows "hooks P False (submitDeprovisionHook E u child st dep hook c tmpl limit endpoint) (\<lambda>r. st_spent (fst r))"
proof -
  let ?ty = "tr_Type (hk_Template hook)" and ?vars = "if tp_AskVariablesOnLaunch tmpl then hook_vars E child st else []"
  let ?dep = "dep\<lparr>dp_Phase := PhaseLaunching, dp_Message := (if tp_AskVariablesOnLaunch tmpl then [] else sprintf f_hook_novars [tr_Name (hk_Template hook)]),
      dp_JobType := ?ty, dp_Endpoint := endpoint\<rparr>"
  have sp: "st_spent (with_dep st ?dep)" using st(1) by simp
  have cur: "\<not> ansibleBindingVMDetailsCurrent (ch_Status child) (with_dep st ?dep)"
    using spent_current [OF _ sp] st(2) by blast
  have l: "emits (if ?ty = TemplateTypeWorkflow then LaunchWorkflowJobTemplate E c (tp_ID tmpl) limit ?vars
        else LaunchJobTemplate E c (tp_ID tmpl) limit ?vars)
      (\<lambda>r es. \<exists>a. es = [EHttp c (RqLaunch (?ty = TemplateTypeWorkflow) (tp_ID tmpl) (launch_body limit ?vars)) a])"
    unfolding LaunchWorkflowJobTemplate_def LaunchJobTemplate_def
    by (intro emits_if emits_conseq [OF emits_launch_result]) auto
  show ?thesis
    unfolding submitDeprovisionHook_def Let_def hooks_def
  proof (rule emits_bind [OF emits_persist_dep], intro emits_option, goal_cases)
    case (1 w es)
    then have es: "es \<noteq> []" "applied AnsBindVMGVR u (PChild (vmDetailsOf (with_dep st ?dep))) vmDetailsFieldManager (last es)"
      and q: "list_all (\<lambda>e. \<not> is_launch e) es" using cur by blast+
    let ?rest = "\<lambda>res. record_hook_job E u child st ?dep c (?ty = TemplateTypeWorkflow) res"
    have "emits (if ?ty = TemplateTypeWorkflow then LaunchWorkflowJobTemplate E c (tp_ID tmpl) limit ?vars
        else LaunchJobTemplate E c (tp_ID tmpl) limit ?vars) (\<lambda>r es'. \<exists>e. es' = [e] \<and> is_launch e \<and> P es e)"
    proof (rule emits_conseq [OF l], elim exE)
      fix x :: "int \<times> gerr option" and es' a
      assume e: "es' = [EHttp c (RqLaunch (?ty = TemplateTypeWorkflow) (tp_ID tmpl) (launch_body limit ?vars)) a]"
      have "hook_claim u (dp_Targeting dep) endpoint (last es)"
        unfolding hook_claim_def using es(2) pin by (auto simp: vmDetailsOf_def strip_generic_def with_dep_def intro!: exI)
      from P [OF es(1) this refl] e show "\<exists>e. es' = [e] \<and> is_launch e \<and> P es e" by auto
    qed
    then have "emits ((if ?ty = TemplateTypeWorkflow then LaunchWorkflowJobTemplate E c (tp_ID tmpl) limit ?vars
        else LaunchJobTemplate E c (tp_ID tmpl) limit ?vars) \<bind> ?rest)
      (\<lambda>r es'. \<exists>e post. es' = e # post \<and> is_launch e \<and> P es e \<and> list_all kept post \<and> st_spent (fst r))"
      by (rule emits_bind) (rule emits_conseq [OF emits_record_hook_job], use st(1) in auto)
    then show ?case
    proof (rule emits_conseq, elim exE conjE)
      fix r :: hook_out and es' e post
      assume h: "es' = e # post" "is_launch e" "P es e" "list_all kept post" "st_spent (fst r)"
      have "claims_hook (last es)" unfolding claims_hook_def using es(2) sp by (metis st_spent_details)
      moreover have "list_all (\<lambda>e. \<not> is_launch e) (butlast es)" using q by (auto simp: list_all_iff dest: in_set_butlastD)
      moreover have "es @ es' = butlast es @ last es # e # post" using es(1) h(1)
        by (metis append.assoc append_Cons append_Nil append_butlast_last_id)
      moreover have "P (butlast es @ [last es]) e" using h(3) es(1) by simp
      ultimately show "hook_trace P False (es @ es') (st_spent (fst r))"
        using h(2,4,5) hook_trace_launch by metis
    qed
  next
    case (2 w es err)
    then show ?case by (intro emits_return) (simp add: hook_trace_def)
  qed
qed

lemma hook_quiet:
  "emits m R \<Longrightarrow> only (\<lambda>e. \<not> is_launch e) m \<Longrightarrow> emits m (\<lambda>r es. hook_trace P False es (\<phi> r) \<and> R r es)"
  by (rule hook_leaf) simp_all

lemma emits_SetHostVariables_name:
  "emits (SetHostVariables E c (Some h) vars) (\<lambda>r _. \<forall>x. r = Inr x \<longrightarrow> (\<exists>h'. x = Some h' \<and> hr_Name h' = hr_Name h))"
proof -
  have t: "emits (awx_do E c rq w) (\<lambda>_ _. True)" for rq w
    by (rule emits_top) (rule only_awx_do, simp)
  show ?thesis
    unfolding SetHostVariables_def option.case
    by (intro emits_if emits_return emits_sum emits_bind [OF t]) (auto split: sum.splits)
qed

lemma emits_pin_host:
  "emits (pin_host E u child st dep c h endpoint) (\<lambda>r es. \<forall>dep' h'. r = Inr (dep', h') \<longrightarrow>
     dp_HostPinned dep' \<and> dp_Targeting dep' = dp_Targeting dep \<and> dp_StartedAt dep' = dp_StartedAt dep \<and> hr_Name h' = hr_Name h)"
proof -
  have t: "emits (if b then ret None else persist_dep E u child st d) (\<lambda>_ _. True)" for b d
    by (rule emits_top) (intro only_if only_return only_persist_dep, simp add: writes_of_def)
  show ?thesis
    unfolding pin_host_def Let_def
    by (rule emits_bind [OF t], intro emits_option emits_return emits_bind [OF emits_SetHostVariables_name])
      (auto simp: pinned_dep_def split: sum.splits if_splits)
qed

lemma quiet_pin_host: "only (\<lambda>e. \<not> is_launch e) (pin_host E u child st dep c h endpoint)"
  unfolding pin_host_def Let_def
  by (intro only_bind only_if only_return only_persist_dep only_option only_host_writes) simp_all

text \<open>All that a launch of the hook rests on, with what was known before (\<open>xs\<close>).\<close>

definition hook_allowed :: "env \<Rightarrow> unstr \<Rightarrow> AnsibleBindingVM \<Rightarrow> DeprovisionHook \<Rightarrow> string \<Rightarrow> AWXClient \<Rightarrow> string \<Rightarrow> AnsibleBindingVMStatus \<Rightarrow>
    event list \<Rightarrow> event \<Rightarrow> bool" where
  "hook_allowed E u child hook mode c endpoint st pre e \<longleftrightarrow> hook_scope E child hook mode c pre e \<and>
     hook_claim u mode endpoint (last pre) \<and>
     (vm_in_flight st \<longrightarrow> list_ex (stopped (vt_LastJobID st)) pre) \<and>
     list_ex (vm_seen_gone E child) pre"

definition hook_host :: "env \<Rightarrow> AnsibleBindingVM \<Rightarrow> string \<Rightarrow> AWXClient \<Rightarrow> hostResult option \<Rightarrow> int \<Rightarrow> event list \<Rightarrow> bool" where
  "hook_host E child mode c host n xs \<longleftrightarrow> mode = TargetingTemplate \<or>
     mode = TargetingManagedHost \<and> (\<exists>h. host = Some h \<and> list_ex (found_for E child c n (hr_Name h)) xs)"

lemma emits_launch_hook:
  assumes st: "dp_StartedAt dep \<noteq> NoStamp" "\<not> child_spent child"
    and host: "hook_host E child mode c host n xs" and gone: "list_ex (vm_seen_gone E child) xs"
    and job: "vm_in_flight st0 \<longrightarrow> list_ex (stopped (vt_LastJobID st0)) xs"
  shows "hooks (\<lambda>pre. hook_allowed E u child hook mode c endpoint st0 (xs @ pre)) False
    (launchDeprovisionHook E u child st dep hook mode c host n endpoint) (\<lambda>r. st_spent (fst (snd r)))"
    (is "hooks ?P False _ ?sp")
proof -
  have res: "emits (resolveTemplate E c (hk_Template hook)) (\<lambda>r es. hook_trace ?P False es False \<and>
      (\<forall>t. r = Inr t \<longrightarrow> list_ex (template_answer c (hk_Template hook) t) es))"
    by (rule hook_quiet [OF emits_resolveTemplate]) (intro only_resolveTemplate; simp)
  have ret: "hooks P False (ret x) ?sp" for x P
    by (rule hooks_return) simp
  have lim: "lb_limit (launch_body l v) = (if l = [] then None else Some l)"
    and vars: "lb_extra_vars (launch_body l (if b then v else [])) \<noteq> None \<Longrightarrow> b" for l v b
    by (auto simp: launch_body_def split: if_splits)
  have sub: "hooks (\<lambda>pre. ?P (es @ pre)) False (submitDeprovisionHook E u child st d hook c tmpl l endpoint) (\<lambda>r. st_spent (fst r))"
    if t: "list_ex (template_answer c (hk_Template hook) tmpl) es" and d: "dp_StartedAt d \<noteq> NoStamp" "dp_Targeting d = mode"
      and p: "mode = TargetingManagedHost \<Longrightarrow> dp_HostPinned d"
      and l: "mode = TargetingTemplate \<and> l = [] \<or> mode = TargetingManagedHost \<and> tp_AskLimitOnLaunch tmpl \<and>
        tp_Inventory tmpl = Some n \<and> list_ex (found_for E child c n l) xs" for es d tmpl l
  proof (rule emits_submit_hook [OF d(1) st(2)], goal_cases)
    case 1
    with p d(2) show ?case by simp
  next
    case (2 es' b a)
    have "mode = TargetingTemplate \<and> lb_limit b = None \<or>
      mode = TargetingManagedHost \<and> tp_AskLimitOnLaunch tmpl \<and> (\<exists>n name. tp_Inventory tmpl = Some n \<and>
        list_ex (found_for E child c n name) (xs @ es @ es') \<and> lb_limit b = (if name = [] then None else Some name))"
      using l unfolding 2(3) lim list_ex_append by metis
    moreover have "lb_extra_vars b \<noteq> None \<longrightarrow> tp_AskVariablesOnLaunch tmpl" unfolding 2(3) using vars by blast
    moreover have "list_ex (template_answer c (hk_Template hook) tmpl) (xs @ es @ es')" using t by simp
    ultimately have "hook_scope E child hook mode c (xs @ es @ es')
        (EHttp c (RqLaunch (tr_Type (hk_Template hook) = TemplateTypeWorkflow) (tp_ID tmpl) b) a)"
      unfolding hook_scope_def by blast
    with 2(1,2) d(2) gone job show ?case by (auto simp: hook_allowed_def)
  qed
  show ?thesis
    unfolding launchDeprovisionHook_def Let_def
  proof (rule hook_bind [OF res], intro hooks_sum hooks_if ret, goal_cases)
    case (1 r es tmpl)
    show ?case
      by (rule hooks_map [OF sub]) (use 1 st in auto)
  next
    case (2 r es tmpl)
    from 2(4) host obtain h where m: "mode = TargetingManagedHost" and h: "host = Some h" "list_ex (found_for E child c n (hr_Name h)) xs"
      by (auto simp: hook_host_def)
    show ?case
    proof (intro hooks_option ret, goal_cases)
      case 1
      then have lr: "tp_AskLimitOnLaunch tmpl" "tp_Inventory tmpl = Some n"
        by (auto simp: limit_refusal_def split: if_splits option.splits)
      show ?case
        unfolding h(1) option.sel
      proof (rule hook_bind [where \<phi> = "\<lambda>_. False", OF hook_quiet [OF emits_pin_host quiet_pin_host]], intro hooks_sum hooks_prod ret, goal_cases)
        case (1 r' es' y dep' h')
        show ?case
          by (rule hooks_map, rule sub [where es = "es @ es'", unfolded append_assoc])
            (use 1 2 lr h m st in auto)
      qed
    qed
  qed
qed

section \<open>One turn of the hook\<close>

lemma hooks_read: "only no_record m \<Longrightarrow> (\<And>r. b0 \<Longrightarrow> \<phi> r) \<Longrightarrow> hooks P b0 m \<phi>"
  by (rule hooks_tail [OF tail_read])

lemma hook_readR: "emits m R \<Longrightarrow> only no_record m \<Longrightarrow> emits m (\<lambda>r es. hook_trace P b0 es b0 \<and> R r es)"
  by (rule hook_read)

lemma poll_no_record: "poll_event e \<Longrightarrow> no_record e"
  by (cases e rule: poll_event.cases) auto

lemma no_record_overdue: "only no_record (overdue E d)"
  unfolding overdue_def by (intro only_option only_return only_bind only_prims) simp_all

lemma hooks_waiting:
  assumes "b0 \<Longrightarrow> dep_spent (Some (dep\<lparr>dp_Phase := ph, dp_Message := msg\<rparr>))"
  shows "hooks P b0 (hook_waiting E u child st dep ph msg) (\<lambda>r. st_spent (fst r))"
proof -
  let ?d = "dep\<lparr>dp_Phase := ph, dp_Message := msg\<rparr>"
  have w: "hooks P b0 (persist_dep E u child st ?d) (\<lambda>_. b0)" for P
    by (rule hooks_tail) (use assms in \<open>auto simp: tail_ok_def simp del: dep_spent_Some intro!: only_persist_dep writes_of_kept\<close>)
  show ?thesis
    unfolding hook_waiting_def Let_def
    by (intro hooks_bind [OF w] hooks_option hooks_return hooks_bind [OF hooks_read [OF no_record_hookRequeue]])
      (use assms in auto)
qed

lemma spent_conclude: "dp_StartedAt dep \<noteq> NoStamp \<Longrightarrow> st_spent (fst (conclude_hook st dep status))"
  by (simp add: conclude_hook_def settle_hook_def)

lemma hooks_pollDeprovisionJob:
  assumes "b0 \<Longrightarrow> dp_StartedAt dep \<noteq> NoStamp \<and> dp_JobID dep \<noteq> 0 \<and> st_spent st"
  shows "hooks P b0 (pollDeprovisionJob E u child st dep c endpoint) (\<lambda>r. st_spent (fst r))"
proof -
  have p: "hooks P b0 (pollJobStatus E c ty i) (\<lambda>_. b0)" for P ty i
    by (rule hooks_read) (intro only_one_request; simp)
  show ?thesis
    unfolding pollDeprovisionJob_def Let_def
    by (intro hooks_if hooks_bind [OF p] hooks_sum hooks_return hooks_waiting)
      (use assms in \<open>auto simp: settle_hook_def intro: spent_conclude\<close>)
qed

definition job_part :: "AnsibleBindingVMStatus \<Rightarrow> int \<times> string" where
  "job_part st = (vt_LastJobID st, vt_LastJobStatus st)"

lemma job_part_with_dep [simp]: "job_part (with_dep st d) = job_part st"
  by (simp add: job_part_def with_dep_def)

lemma in_flight_job: "job_part st = job_part st' \<Longrightarrow> vm_in_flight st = vm_in_flight st' \<and> vt_LastJobID st = vt_LastJobID st'"
  by (simp add: job_part_def vm_in_flight_def)

text \<open>The provisioning job is waited for whenever the hook has not been launched.\<close>

lemma stopped_read: "list_ex (\<lambda>e. \<exists>c iw. job_read c iw j s e) es \<Longrightarrow> isTerminalAWXStatus s \<Longrightarrow> list_ex (stopped j) es"
  unfolding list_ex_iff stopped_def by blast

lemma emits_wait_for_provisioning:
  "emits (wait_for_provisioning E child st dep) (\<lambda>r es. \<forall>st' running. r = Inr (st', running) \<longrightarrow>
     vt_Deprovision st' = vt_Deprovision st \<and> (\<not> running \<longrightarrow> dp_JobID dep = 0 \<longrightarrow> vm_in_flight st \<longrightarrow> list_ex (stopped (vt_LastJobID st)) es))"
  unfolding wait_for_provisioning_def
  by (intro emits_if emits_return emits_bind [OF emits_pollRecordedJob])
    (auto simp: vm_in_flight_def split: sum.splits dest: stopped_read)

lemma no_record_wait: "only no_record (wait_for_provisioning E child st dep)"
  unfolding wait_for_provisioning_def
  by (intro only_if only_bind only_return only_mono [OF only_pollRecordedJob poll_no_record])

lemma hooks_advance:
  assumes rec: "recorded_dep st = dep" and started: "dp_StartedAt dep \<noteq> NoStamp" and cs: "child_spent child \<Longrightarrow> st_spent st"
    and host: "hook_host E child mode c host n xs" and gone: "list_ex (vm_seen_gone E child) xs"
    and job: "job_part st = job_part st0"
  shows "hooks (\<lambda>pre. hook_allowed E u child hook mode c endpoint st0 (xs @ pre)) (st_spent st)
    (advance_hook E u child st dep hook mode c host n endpoint) (\<lambda>r. st_spent (fst (snd r)))"
    (is "hooks ?P _ _ ?sp")
proof (cases "isTerminalHookPhase (dp_Phase dep) \<or> dp_Phase dep = PhaseLaunching")
  case True
  then show ?thesis
    unfolding advance_hook_def using started
    by (auto intro!: hooks_if hooks_return simp: settle_hook_def)
next
  case False
  have sp: "st_spent st \<Longrightarrow> dp_JobID dep \<noteq> 0"
    using st_spent_recorded [of st] rec False by auto
  have late: "hooks P b (overdue E d) (\<lambda>_. b)" for P b d
    by (rule hooks_read [OF no_record_overdue])
  have tm: "hooks P b (ret (h, settle_hook st dep PhaseTimedOut m)) ?sp" for P b h m
    by (rule hooks_return) (simp add: settle_hook_def started)
  show ?thesis
    unfolding advance_hook_def using False
  proof (simp only: de_Morgan_disj if_False, intro hooks_bind [OF late] hooks_if tm, goal_cases)
    case (1 r es)
    show ?case
    proof (rule hook_bind [OF hook_readR [OF emits_wait_for_provisioning no_record_wait]], intro hooks_sum hooks_prod hooks_if, goal_cases)
      case (1 r' es' err)
      then show ?case by (intro hooks_return) simp
    next
      case (2 r' es' y st' running)
      show ?case
        by (rule hooks_map [OF hooks_waiting]) (use 2 sp started in auto)
    next
      case (3 r' es' y st' running)
      from 3(1) have d: "vt_Deprovision st' = vt_Deprovision st" unfolding 3(3,4) by blast
      show ?case
        by (rule hooks_map [OF hooks_pollDeprovisionJob]) (use 3 d started in auto)
    next
      case (4 r' es' y st' running)
      then have ns: "\<not> st_spent st" using sp by auto
      then have c: "\<not> child_spent child" using cs by blast
      from 4 have "vm_in_flight st0 \<longrightarrow> list_ex (stopped (vt_LastJobID st0)) ((xs @ es) @ es')"
        using in_flight_job [OF job] by auto
      moreover have "hook_host E child mode c host n ((xs @ es) @ es')" using host by (auto simp: hook_host_def)
      moreover have "list_ex (vm_seen_gone E child) ((xs @ es) @ es')" using gone by simp
      ultimately have "hooks (\<lambda>pre. hook_allowed E u child hook mode c endpoint st0 (((xs @ es) @ es') @ pre)) False
          (launchDeprovisionHook E u child st' dep hook mode c host n endpoint) ?sp"
        using emits_launch_hook [OF started c] by blast
      with ns show ?case by (simp only: append_assoc)
    qed
  qed
qed

lemma hooks_mono: "hooks P b m \<phi> \<Longrightarrow> (\<And>pre e. P pre e \<Longrightarrow> Q pre e) \<Longrightarrow> hooks Q b m \<phi>"
  unfolding hooks_def by (erule emits_conseq) (rule hook_trace_mono)

lemma hooks_weaken: "hooks P b m \<phi> \<Longrightarrow> hooks P False m \<phi>"
  unfolding hooks_def by (erule emits_conseq) (auto simp: hook_trace_def kept_quiet split: if_splits)

lemma hooks_post: "hooks P b m \<phi> \<Longrightarrow> (\<And>r. \<phi> r \<Longrightarrow> \<psi> r) \<Longrightarrow> hooks P b m \<psi>"
  unfolding hooks_def by (erule emits_conseq) (auto simp: hook_trace_def split: if_splits)

lemma recorded_with_dep [simp]: "recorded_dep (with_dep st d) = d"
  by (simp add: recorded_dep_def)

lemma hook_host_more: "hook_host E child mode c host n xs \<Longrightarrow> hook_host E child mode c host n (xs @ es)"
  by (auto simp: hook_host_def)

lemma hooks_runDeprovisionHook:
  assumes cs: "child_spent child \<Longrightarrow> st_spent st"
    and host: "hook_host E child mode c host n xs" and gone: "list_ex (vm_seen_gone E child) xs"
    and job: "job_part st = job_part st0"
  shows "hooks (\<lambda>pre. hook_allowed E u child hook mode c endpoint st0 (xs @ pre)) (st_spent st)
    (runDeprovisionHook E u child st hook mode c host n endpoint) (\<lambda>r. st_spent (fst (snd r)))"
proof (cases "dp_StartedAt (recorded_dep st) = NoStamp")
  case False
  then show ?thesis
    unfolding runDeprovisionHook_def Let_def if_not_P [OF False]
    by (intro hooks_advance [OF refl False cs host gone job])
next
  case True
  then have ns: "\<not> st_spent st" by (cases "vt_Deprovision st") (auto simp: recorded_dep_def)
  have c: "\<not> child_spent child" using ns cs by blast
  let ?d = "\<lambda>now. (hook_started hook now (recorded_dep st))\<lparr>dp_Phase := PhasePending\<rparr>"
  have now: "hooks P False (time_Now E) (\<lambda>_. False)" for P
    by (rule hooks_read) (intro only_prims; simp)
  have w: "hooks P False (persist_dep E u child st d) (\<lambda>_. False)" for P d
    by (rule hooks_tail) (auto simp: tail_ok_def intro!: only_persist_dep)
  have adv: "hooks (\<lambda>pre. hook_allowed E u child hook mode c endpoint st0 (xs @ es @ es' @ pre)) False
      (advance_hook E u child (with_dep st (?d now)) (?d now) hook mode c host n endpoint) (\<lambda>r. st_spent (fst (snd r)))" for es es' now
  proof -
    have "hooks (\<lambda>pre. hook_allowed E u child hook mode c endpoint st0 ((xs @ es @ es') @ pre)) (st_spent (with_dep st (?d now)))
      (advance_hook E u child (with_dep st (?d now)) (?d now) hook mode c host n endpoint) (\<lambda>r. st_spent (fst (snd r)))"
      by (rule hooks_advance) (use c job gone in \<open>auto simp: hook_started_def format_time_def intro!: hook_host_more host\<close>)
    then show ?thesis unfolding append_assoc by (rule hooks_weaken)
  qed
  have "hooks (\<lambda>pre. hook_allowed E u child hook mode c endpoint st0 (xs @ pre)) False
      (time_Now E \<bind> (\<lambda>now. persist_dep E u child st (?d now) \<bind> (\<lambda>w. case w of
          Some err \<Rightarrow> ret (host, (st, Inl (errorw f_hook_deadline [] err)))
        | None \<Rightarrow> advance_hook E u child (with_dep st (?d now)) (?d now) hook mode c host n endpoint)))
      (\<lambda>r. st_spent (fst (snd r)))"
    by (rule hooks_bind [OF now], rule hooks_bind [OF w], intro hooks_option adv hooks_return) simp
  with ns show ?thesis
    unfolding runDeprovisionHook_def Let_def if_P [OF True] by simp
qed

text \<open>What the lookup of the host brings, and the VM's absence.\<close>

definition found_host :: "AWXClient \<Rightarrow> int \<Rightarrow> string \<Rightarrow> hostResult \<Rightarrow> event \<Rightarrow> bool" where
  "found_host c n name h e \<longleftrightarrow> (\<exists>resp. e = EHttp c (RqHostsByName n name) (Inr resp) \<and>
     ok_code (rs_StatusCode resp) \<and> findHostByName (hosts_of (rs_Body resp)) name = Some h)"

lemma findHostByName_name: "findHostByName hs name = Some h \<Longrightarrow> hr_Name h = name"
  by (induction hs) (auto split: if_splits)

lemma found_host_for:
  "list_ex (found_host c n name h) es \<Longrightarrow> \<not> host_foreign E child (Some h) \<Longrightarrow> list_ex (found_for E child c n (hr_Name h)) es"
  unfolding list_ex_iff found_host_def found_for_def
  using findHostByName_name by (auto simp: host_foreign_def host_ours_def host_marker_def writable_def) blast+

lemma emits_find_cleanup_host:
  "emits (find_cleanup_host E c n name) (\<lambda>r es. \<forall>host n' name'. r = Inr (host, n', name') \<longrightarrow>
     (\<forall>h. host = Some h \<longrightarrow> list_ex (found_host c n' name' h) es))"
  unfolding find_cleanup_host_def
  by (rule emits_bind [OF emits_FindHost]) (auto intro!: emits_return simp: found_host_def split: sum.splits)

lemma emits_discoverCleanupHost:
  "emits (discoverCleanupHost E c conn child st) (\<lambda>r es. \<forall>host n name. r = Inr (host, n, name) \<longrightarrow>
     (\<forall>h. host = Some h \<longrightarrow> list_ex (found_host c n name h) es))"
proof -
  have t: "emits (resolveTemplate E c ref) (\<lambda>_ _. True)" for ref
    by (rule emits_top) (intro only_resolveTemplate; simp)
  show ?thesis
    unfolding discoverCleanupHost_def
    by (intro emits_if emits_find_cleanup_host emits_bind [OF t] emits_sum emits_option emits_return
        emits_conseq [OF emits_find_cleanup_host]) auto
qed

lemma no_record_discover: "only no_record (discoverCleanupHost E c conn child st)"
  unfolding discoverCleanupHost_def find_cleanup_host_def
  by (intro only_if only_bind only_sum only_option only_return only_one_request only_resolveTemplate; simp)

lemma emits_vmIsGone: "emits (vmIsGone E child) (\<lambda>r es. r = Inr True \<longrightarrow> list_ex (vm_seen_gone E child) es)"
  unfolding vmIsGone_def
  by (rule emits_bind [OF does_Get])
    (auto intro!: emits_return simp: vm_seen_gone_def api_error_def split: sum.splits)

lemma no_record_vmIsGone: "only no_record (vmIsGone E child)"
  unfolding vmIsGone_def by (intro only_bind only_return only_prims) simp

section \<open>A finalizing pass\<close>

abbreviation cx_allowed :: "env \<Rightarrow> cleanup_ctx \<Rightarrow> DeprovisionHook \<Rightarrow> AnsibleBindingVMStatus \<Rightarrow> event list \<Rightarrow> event \<Rightarrow> bool" where
  "cx_allowed E cx hook st0 pre e \<equiv> \<exists>mode. hook_allowed E (cx_u cx) (cx_child cx) hook mode (cx_client cx) (cx_endpoint cx) st0 pre e"

lemma spent_skip: "st_spent st \<Longrightarrow> dep_spent (Some (skipHook (vt_Deprovision st) m))"
  by (cases "vt_Deprovision st") (auto simp: skipHook_def)

lemma hook_refused_spent:
  "st_spent st \<Longrightarrow> hook_refused E child gone mode host hn st = Some dep \<Longrightarrow> dep_spent (Some dep)"
  using spent_skip [of st] by (auto simp: hook_refused_def simp del: dep_spent_Some split: if_splits) auto

lemma not_refused_host:
  assumes "hook_refused E child gone mode host name st = None" and "\<And>h. host = Some h \<Longrightarrow> list_ex (found_host c n name h) xs"
  shows "gone \<and> hook_host E child mode c host n xs"
  using assms by (auto simp: hook_refused_def hook_host_def intro: found_host_for split: if_splits)

lemma hooks_hook_turn:
  assumes hook: "cx_hook cx = Some hook" and cs: "child_spent (cx_child cx) \<Longrightarrow> st_spent st" and job: "job_part st = job_part st0"
    and host: "\<And>h. host = Some h \<Longrightarrow> list_ex (found_host (cx_client cx) n name h) xs"
  shows "hooks (\<lambda>pre. cx_allowed E cx hook st0 (xs @ pre)) (st_spent st) (hook_turn E cx hook mode host n name st)
    (\<lambda>r. st_spent (fst (snd r)))"
  unfolding hook_turn_def
proof (rule hook_bind [OF hook_readR [OF emits_vmIsGone no_record_vmIsGone]], intro hooks_sum hooks_option, goal_cases)
  case (1 r es err)
  then show ?case by (intro hooks_return) simp
next
  case (2 r es gone)
  from not_refused_host [OF 2(4) host] have gone and h: "hook_host E (cx_child cx) mode (cx_client cx) host n xs" by blast+
  with 2 have g: "list_ex (vm_seen_gone E (cx_child cx)) (xs @ es)" by simp
  have "hooks (\<lambda>pre. hook_allowed E (cx_u cx) (cx_child cx) hook mode (cx_client cx) (cx_endpoint cx) st0 ((xs @ es) @ pre)) (st_spent st)
      (runDeprovisionHook E (cx_u cx) (cx_child cx) st hook mode (cx_client cx) host n (cx_endpoint cx)) (\<lambda>r. st_spent (fst (snd r)))"
    by (rule hooks_runDeprovisionHook [OF cs hook_host_more [OF h] g job])
  then show ?case unfolding append_assoc by (rule hooks_mono) blast
next
  case (3 r es gone dep)
  then show ?case by (intro hooks_return) (simp del: dep_spent_Some add: hook_refused_spent)
qed

lemma hooks_hook_then_host:
  assumes cs: "child_spent (cx_child cx) \<Longrightarrow> st_spent st" and job: "job_part st = job_part st0"
    and host: "\<And>h. host = Some h \<Longrightarrow> list_ex (found_host (cx_client cx) n name h) xs"
  shows "hooks (\<lambda>pre e. \<exists>hook. cx_hook cx = Some hook \<and> cx_allowed E cx hook st0 (xs @ pre) e) (st_spent st)
    (hook_then_host E cx mode hostErr host n name st) (\<lambda>_. True)"
  unfolding hook_then_host_def
proof (intro hooks_option, goal_cases)
  case 1
  show ?case by (rule hooks_tail [OF tail_after_hook]) simp_all
next
  case (2 hook)
  have t: "hooks (\<lambda>pre e. \<exists>hook. cx_hook cx = Some hook \<and> cx_allowed E cx hook st0 (xs @ pre) e) (st_spent st)
      (hook_turn E cx hook mode host n name st) (\<lambda>r. st_spent (fst (snd r)))"
    by (rule hooks_mono [OF hooks_hook_turn [OF 2 cs job host]], assumption+, rule exI [of _ hook], rule conjI, rule 2, assumption)
  show ?case
    by (rule hooks_bind [OF t], intro hooks_prod hooks_sum hooks_if hooks_return hooks_tail [OF tail_after_hook]) simp_all
qed

lemma hooks_detach: "hooks P (st_spent st) (detach_without_host E cx st err) (\<lambda>_. True)"
  unfolding detach_without_host_def Let_def
  by (rule hooks_tail, intro tail_if tail_bind tail_return tail_persistHookState tail_releaseWithoutHost)
    (simp_all del: dep_spent_Some add: spent_skip)

lemma hooks_host_lookup_failed:
  assumes cs: "child_spent (cx_child cx) \<Longrightarrow> st_spent st" and job: "job_part st = job_part st0"
  shows "hooks (\<lambda>pre e. \<exists>hook. cx_hook cx = Some hook \<and> cx_allowed E cx hook st0 (xs @ pre) e) (st_spent st)
    (host_lookup_failed E cx al mode st err) (\<lambda>_. True)" (is "hooks ?P _ _ _")
proof -
  have g: "hooks P b (vmIsGone E child) (\<lambda>_. b)" for P b child
    by (rule hooks_read [OF no_record_vmIsGone])
  have fh: "hooks P (st_spent st) (finishHookless E u ch st hk rs \<bind> (\<lambda>r. ret (Inr r))) (\<lambda>_. True)" for P u ch hk rs
    by (rule hooks_tail, intro tail_bind tail_return tail_finishHookless) simp_all
  have rw: "hooks P (st_spent st) (releaseWithoutHost E u ch al st err \<bind> (\<lambda>r. ret (Inr r))) (\<lambda>_. True)" for P u ch
    by (rule hooks_tail, intro tail_bind tail_return tail_releaseWithoutHost) simp_all
  have ps: "hooks P (st_spent st) (persistHookState E u ch st \<bind> (\<lambda>_. ret (Inl err))) (\<lambda>_. True)" for P u ch
    by (rule hooks_tail, intro tail_bind tail_return tail_persistHookState) simp_all
  show ?thesis
    unfolding host_lookup_failed_def
    by (intro hooks_if fh hooks_hook_then_host [OF cs job] ps rw hooks_bind [OF g] hooks_sum hooks_return hooks_detach) simp_all
qed

lemma hooks_cleanup_host:
  assumes cs: "child_spent (cx_child cx) \<Longrightarrow> st_spent st" and job: "job_part st = job_part st0"
  shows "hooks (\<lambda>pre e. \<exists>hook. cx_hook cx = Some hook \<and> cx_allowed E cx hook st0 (xs @ pre) e) (st_spent st)
    (cleanup_host E cx al st) (\<lambda>_. True)"
  unfolding cleanup_host_def Let_def
proof (rule hook_bind [OF hook_readR [OF emits_discoverCleanupHost no_record_discover]], intro hooks_sum hooks_prod, goal_cases)
  case (1 r es err)
  from hooks_host_lookup_failed [OF cs job, where xs = "xs @ es"] show ?case by (simp only: append_assoc)
next
  case (2 r es y host z n name)
  have "hooks (\<lambda>pre e. \<exists>hook. cx_hook cx = Some hook \<and> cx_allowed E cx hook st0 ((xs @ es) @ pre) e) (st_spent st)
      (hook_then_host E cx (hookTargeting (cx_hook cx) (vt_Deprovision st)) None host n name st) (\<lambda>_. True)"
    by (rule hooks_hook_then_host [OF cs job]) (use 2 in auto)
  then show ?case by (simp only: append_assoc)
qed

lemma emits_poll_job_part:
  "emits (pollDeprovisionJob E u child st dep c endpoint) (\<lambda>r _. job_part (fst r) = job_part st)"
proof -
  have w: "emits (hook_waiting E u child st d ph msg) (\<lambda>r _. job_part (fst r) = job_part st)" for d ph msg
  proof -
    have t: "emits (persist_dep E u child st d') (\<lambda>_ _. True)" "emits (hookRequeue E d') (\<lambda>_ _. True)" for d'
      by (rule emits_top, intro only_persist_dep, simp add: writes_of_def)
        (rule emits_top, rule only_mono [OF no_record_hookRequeue], simp)
    show ?thesis
      unfolding hook_waiting_def Let_def
      by (rule emits_bind [OF t(1)], intro emits_option emits_return emits_bind [OF t(2)]) simp_all
  qed
  show ?thesis
    unfolding pollDeprovisionJob_def Let_def
    by (intro emits_if emits_return emits_bind [OF emits_pollJobStatus] emits_sum emits_conseq [OF w])
      (auto simp: settle_hook_def conclude_hook_def)
qed

lemma hooks_cleanup_in_instance:
  assumes cs: "child_spent (cx_child cx) \<Longrightarrow> st_spent st" and job: "job_part st = job_part st0"
    and started: "dp_StartedAt (recorded_dep st) \<noteq> NoStamp \<or> cx_hook cx = None"
  shows "hooks (\<lambda>pre e. \<exists>hook. cx_hook cx = Some hook \<and> cx_allowed E cx hook st0 (xs @ pre) e) (st_spent st)
    (cleanup_in_instance E cx al st) (\<lambda>_. True)" (is "hooks ?P _ _ _")
proof (cases "polls_only (cx_hook cx) st")
  case False
  then show ?thesis
    unfolding cleanup_in_instance_def by (simp only: if_False) (rule hooks_cleanup_host [OF cs job])
next
  case True
  then have o: "vt_Deprovision st = Some (recorded_dep st)" "dp_JobID (recorded_dep st) \<noteq> 0" "cx_hook cx \<noteq> None"
    unfolding polls_only_def hook_owed_def by (auto simp: recorded_dep_def)
  with started have sp: "st_spent st" by simp
  let ?m = "pollDeprovisionJob E (cx_u cx) (cx_child cx) st (recorded_dep st) (cx_client cx) (cx_endpoint cx)"
  have "hooks ?P True ?m (\<lambda>r. st_spent (fst r))"
    by (rule hooks_pollDeprovisionJob) (use o sp started in auto)
  then have p: "emits ?m (\<lambda>r es. hook_trace ?P True es (st_spent (fst r)) \<and> job_part (fst r) = job_part st)"
    unfolding hooks_def by (rule emits_conj [OF _ emits_poll_job_part])
  have "hooks ?P True (?m \<bind> (\<lambda>(st, r). case r of
           Inl hookErr \<Rightarrow> ret (Inl hookErr)
         | Inr result \<Rightarrow> if \<not> cr_Done result then ret (Inr result) else cleanup_host E cx False st)) (\<lambda>_. True)"
  proof (rule hook_bind [OF p], intro hooks_prod hooks_sum hooks_if hooks_return, goal_cases)
    case (3 r es st' z result)
    have "hooks (\<lambda>pre e. \<exists>hook. cx_hook cx = Some hook \<and> cx_allowed E cx hook st0 ((xs @ es) @ pre) e) (st_spent st')
      (cleanup_host E cx False st') (\<lambda>_. True)"
      by (rule hooks_cleanup_host) (use 3 job in auto)
    with 3 show ?case by (simp only: append_assoc fst_conv)
  qed simp_all
  with True sp show ?thesis
    unfolding cleanup_in_instance_def by (simp only: if_True)
qed

text \<open>What the launch of a pass over a child rests on.\<close>

definition pass_allowed :: "env \<Rightarrow> unstr \<Rightarrow> AnsibleBindingVM \<Rightarrow> event list \<Rightarrow> event \<Rightarrow> bool" where
  "pass_allowed E u child pre e \<longleftrightarrow> (\<exists>hook mode c endpoint. vs_OnDeleted (ch_spec child) = Some hook \<and>
     hook_allowed E u child hook mode c endpoint (priorVMState child) pre e)"

lemma hooks_cleanup_connect:
  assumes cs: "child_spent child \<Longrightarrow> st_spent st" and job: "job_part st = job_part (priorVMState child)"
    and started: "dp_StartedAt (recorded_dep st) \<noteq> NoStamp \<or> vs_OnDeleted (ch_spec child) = None"
  shows "hooks (\<lambda>pre. pass_allowed E u child (xs @ pre)) (st_spent st) (cleanup_connect E u child al st) (\<lambda>_. True)"
proof -
  have g: "hooks P b (getAWXConnection E ns n) (\<lambda>_. b)" "hooks P b (awxClientForConnection E conn) (\<lambda>_. b)" for P b ns n conn
    by (rule hooks_read, auto intro!: only_intros)+
  have gu: "hooks P (st_spent st) (give_up E u child st hook reason) (\<lambda>_. True)" for P hook reason
    unfolding give_up_def by (rule hooks_tail, intro tail_bind tail_return tail_finishHookless) simp_all
  have cl: "hooks (\<lambda>pre. pass_allowed E u child (ys @ pre)) (st_spent st) (cleanup_in_instance E
      \<lparr>cx_u = u, cx_child = child, cx_hook = vs_OnDeleted (ch_spec child), cx_retain = rt, cx_conn = conn, cx_client = c, cx_endpoint = ep\<rparr> al st)
      (\<lambda>_. True)" for ys rt conn c ep
    by (rule hooks_mono [OF hooks_cleanup_in_instance [where xs = ys, OF _ job]])
      (use cs started in \<open>auto simp: pass_allowed_def\<close>)
  show ?thesis
    unfolding cleanup_connect_def Let_def
    by (rule hooks_bind [OF g(1)], intro hooks_sum hooks_if hooks_return gu, simp, rule hooks_bind [OF g(2)],
        intro hooks_sum hooks_if hooks_prod hooks_return gu, simp)
      (rule cl [where ys = "xs @ es @ es'" for es es', unfolded append_assoc])
qed

lemma emits_startHookClock:
  "emits (startHookClock E u child st hook) (\<lambda>r es. hook_trace P (st_spent st) es (st_spent (fst (fst r))) \<and>
     job_part (fst (fst r)) = job_part st \<and> dp_StartedAt (recorded_dep (fst (fst r))) \<noteq> NoStamp)"
proof (cases "dp_StartedAt (recorded_dep st) = NoStamp")
  case False
  then show ?thesis
    unfolding startHookClock_def by (auto intro!: emits_return simp: hook_trace_def)
next
  case True
  then have ns: "\<not> st_spent st" by (cases "vt_Deprovision st") (auto simp: recorded_dep_def)
  let ?m = "startHookClock E u child st hook"
  have q: "only (\<lambda>e. \<not> is_launch e) ?m"
    unfolding startHookClock_def Let_def by (intro only_if only_bind only_return only_prims quiet_writeVM) simp_all
  have "emits ?m (\<lambda>r es. job_part (fst (fst r)) = job_part st \<and> dp_StartedAt (recorded_dep (fst (fst r))) \<noteq> NoStamp)"
    unfolding startHookClock_def Let_def
    by (intro emits_if emits_return emits_bind [OF does_Now] emits_bind [OF emits_top [OF only_writeVM]])
      (use True in \<open>auto simp: hook_started_def format_time_def\<close>)
  from hook_quiet [OF this q] ns show ?thesis by simp
qed

lemma emits_expire_hook:
  assumes "dp_StartedAt (recorded_dep st) \<noteq> NoStamp"
  shows "emits (expire_hook E al st) (\<lambda>r es. hook_trace P (st_spent st) es (st_spent (fst r)) \<and>
     job_part (fst r) = job_part st \<and> dp_StartedAt (recorded_dep (fst r)) \<noteq> NoStamp \<and> (st_spent st \<longrightarrow> st_spent (fst r)))"
proof (rule hook_leaf)
  have t: "emits (overdue E d) (\<lambda>_ _. True)" for d
    by (rule emits_top, rule only_mono [OF no_record_overdue]) simp
  show "emits (expire_hook E al st) (\<lambda>r es. job_part (fst r) = job_part st \<and> dp_StartedAt (recorded_dep (fst r)) \<noteq> NoStamp \<and>
      (st_spent st \<longrightarrow> st_spent (fst r)))"
    unfolding expire_hook_def
    by (intro emits_option emits_if emits_return emits_bind [OF t]) (use assms in \<open>auto simp: recorded_dep_def\<close>)
  have n: "only no_record (expire_hook E al st)"
    unfolding expire_hook_def by (intro only_option only_if only_return only_bind no_record_overdue)
  show "only (\<lambda>e. \<not> is_launch e) (expire_hook E al st)" "only kept (expire_hook E al st)"
    using n by (auto elim!: only_mono dest: no_record_kept)
qed blast

lemma hooks_expire_connect:
  assumes "child_spent child \<Longrightarrow> st_spent st" "job_part st = job_part (priorVMState child)" "dp_StartedAt (recorded_dep st) \<noteq> NoStamp"
  shows "hooks (\<lambda>pre. pass_allowed E u child (ys @ pre)) (st_spent st)
    (expire_hook E al st \<bind> (\<lambda>(st, al). cleanup_connect E u child al st)) (\<lambda>_. True)"
proof (rule hook_bind [OF emits_expire_hook [OF assms(3)]], goal_cases)
  case (1 r es)
  have "hooks (\<lambda>pre. pass_allowed E u child ((ys @ es) @ pre)) (st_spent (fst r)) (cleanup_connect E u child (snd r) (fst r)) (\<lambda>_. True)"
    by (rule hooks_cleanup_connect) (use 1 assms in auto)
  then show ?case by (simp add: split_beta)
qed

lemma hooks_cleanup_live_child:
  "hooks (\<lambda>pre. pass_allowed E u child (xs @ pre)) (child_spent child) (cleanup_live_child E u child) (\<lambda>_. True)"
  unfolding cleanup_live_child_def Let_def
proof (intro hooks_option, goal_cases)
  case 1
  then show ?case by (intro hooks_cleanup_connect) simp_all
next
  case (2 hook)
  show ?case
  proof (rule hook_bind [OF emits_startHookClock])
    fix r :: "(AnsibleBindingVMStatus \<times> bool) \<times> gerr option" and es
    assume h: "job_part (fst (fst r)) = job_part (priorVMState child) \<and> dp_StartedAt (recorded_dep (fst (fst r))) \<noteq> NoStamp"
      and sp: "child_spent child \<Longrightarrow> st_spent (fst (fst r))"
    obtain st al e where r: "r = ((st, al), e)" by (metis prod.exhaust)
    have "hooks (\<lambda>pre. pass_allowed E u child ((xs @ es) @ pre)) (st_spent st)
        (expire_hook E al st \<bind> (\<lambda>(st, al). cleanup_connect E u child al st)) (\<lambda>_. True)"
      by (rule hooks_expire_connect) (use h sp r in auto)
    then show "hooks (\<lambda>pre. pass_allowed E u child (xs @ es @ pre)) (st_spent (fst (fst r)))
        (case r of (x, e) \<Rightarrow> (case x of (st, al) \<Rightarrow> \<lambda>e. case e of Some err \<Rightarrow> ret (Inl err)
           | None \<Rightarrow> expire_hook E al st \<bind> (\<lambda>(st, al). cleanup_connect E u child al st)) e) (\<lambda>_. True)"
      unfolding r prod.case fst_conv by (intro hooks_option hooks_return) simp_all
  qed
qed

text \<open>
  A finalizing pass reads the child first and works on that answer: nothing is launched for a child without
  a hook, and the launch of one with a hook follows from the record just read.
\<close>

definition live_child :: "AnsibleBindingVM \<Rightarrow> unstr \<Rightarrow> AnsibleBindingVM" where
  "live_child child fresh = (case convertAnsibleBindingVM fresh of
     Inl err \<Rightarrow> child | Inr r \<Rightarrow> if ch_Spec r = None then child else r)"

definition live_object :: "unstr \<Rightarrow> unstr \<Rightarrow> unstr" where
  "live_object u fresh = (case convertAnsibleBindingVM fresh of
     Inl err \<Rightarrow> u | Inr r \<Rightarrow> if ch_Spec r = None then u else fresh)"

definition finalizing_pass :: "env \<Rightarrow> unstr \<Rightarrow> event list \<Rightarrow> bool" where
  "finalizing_pass E u es \<longleftrightarrow> (case convertAnsibleBindingVM u of
     Inl err \<Rightarrow> es = []
   | Inr child \<Rightarrow>
       if ch_Spec child = None \<or> vs_OnDeleted (ch_spec child) = None then list_all (\<lambda>e. \<not> is_launch e) es
       else (\<exists>a rest. es = EGet AnsBindVMGVR (ch_ns child) (md_Name (ch_meta child)) a # rest \<and>
         (case a of
            Inl e \<Rightarrow> rest = []
          | Inr fresh \<Rightarrow> hook_trace (pass_allowed E (live_object u fresh) (live_child child fresh)) (child_spent (live_child child fresh)) rest True)))"

lemma hooks_trace: "hooks P b m \<phi> \<Longrightarrow> (\<And>r. \<phi> r) \<Longrightarrow> emits m (\<lambda>_ es. hook_trace P b es True)"
  unfolding hooks_def by (erule emits_conseq) (auto simp: hook_trace_def split: if_splits)

lemma emits_cleanup_live_child:
  "emits (cleanup_live_child E u child) (\<lambda>_ es. hook_trace (pass_allowed E u child) (child_spent child) es True)"
  using hooks_trace [OF hooks_cleanup_live_child [where xs = "[]"]] by simp

lemma hookless_quiet:
  "vs_OnDeleted (ch_spec child) = None \<Longrightarrow> hook_trace (pass_allowed E u child) b es True \<Longrightarrow> list_all (\<lambda>e. \<not> is_launch e) es"
  unfolding hook_trace_def by (auto simp: pass_allowed_def kept_quiet split: if_splits)

lemma emits_cleanupAnsibleBindingVM: "emits (cleanupAnsibleBindingVM E u) (\<lambda>_. finalizing_pass E u)"
proof (cases "convertAnsibleBindingVM u")
  case (Inl err)
  then show ?thesis
    unfolding cleanupAnsibleBindingVM_def finalizing_pass_def by (simp add: emits_return)
next
  case c: (Inr child)
  show ?thesis
  proof (cases "ch_Spec child = None \<or> vs_OnDeleted (ch_spec child) = None")
    case True
    have l: "emits (cleanup_live_child E u child) (\<lambda>_. list_all (\<lambda>e. \<not> is_launch e))" if "vs_OnDeleted (ch_spec child) = None"
      by (rule emits_conseq [OF emits_cleanup_live_child]) (rule hookless_quiet [OF that])
    show ?thesis
      unfolding cleanupAnsibleBindingVM_def finalizing_pass_def c sum.case if_P [OF True]
      using True by (auto intro!: emits_if emits_return l)
  next
    case False
    let ?g = "EGet AnsBindVMGVR (ch_ns child) (md_Name (ch_meta child))"
    let ?R = "\<lambda>es. \<exists>a rest. es = ?g a # rest \<and> (case a of
        Inl e \<Rightarrow> rest = []
      | Inr fresh \<Rightarrow> hook_trace (pass_allowed E (live_object u fresh) (live_child child fresh)) (child_spent (live_child child fresh)) rest True)"
    have "emits (k8s_Get E AnsBindVMGVR (ch_ns child) (md_Name (ch_meta child)) \<bind> (\<lambda>g. case g of
               Inl gErr \<Rightarrow>
                 if isNotFound gErr then ret finished
                 else ret (Inl (errorw f_cl_reread [md_Name (ch_meta child)] gErr))
             | Inr fresh \<Rightarrow> (case convertAnsibleBindingVM fresh of
                   Inl err \<Rightarrow> cleanup_live_child E u child
                 | Inr refreshed \<Rightarrow>
                     if ch_Spec refreshed = None then cleanup_live_child E u child
                     else cleanup_live_child E fresh refreshed))) (\<lambda>_. ?R)"
    proof (rule emits_bind [OF does_Get], elim exE conjE, intro emits_sum emits_if emits_return, goal_cases)
      case (1 r es a err)
      then show ?case by (cases a) auto
    next
      case (2 r es a err)
      then show ?case by (cases a) auto
    qed (rule emits_conseq [OF emits_cleanup_live_child], auto simp: live_child_def live_object_def)+
    moreover from False have "\<not> ch_Spec child = None" "\<not> vs_OnDeleted (ch_spec child) = None" by simp_all
    ultimately show ?thesis
      unfolding cleanupAnsibleBindingVM_def finalizing_pass_def c sum.case if_not_P [OF False] by (simp only: if_False)
  qed
qed

section \<open>Over all the finalizing passes\<close>

text \<open>What the record of the hook may say after a call; an error leaves open whether the write was applied.\<close>

fun hook_becomes :: "DeprovisionStatus option \<Rightarrow> event \<Rightarrow> DeprovisionStatus option set" where
  "hook_becomes s (EApplyStatus g ns n (PChild d) fm a) = (if a = None then {vt_Deprovision d} else {s, vt_Deprovision d})"
| "hook_becomes s _ = {s}"

fun hook_evolves :: "DeprovisionStatus option \<Rightarrow> event list \<Rightarrow> DeprovisionStatus option \<Rightarrow> bool" where
  "hook_evolves s [] s' = (s' = s)"
| "hook_evolves s (e # es) s' = (\<exists>m \<in> hook_becomes s e. hook_evolves m es s')"

definition launches :: "event list \<Rightarrow> nat" where
  "launches es = length (filter is_launch es)"

text \<open>Reads of the child answer with the record; and the API server keeps an object that has a finalizer.\<close>

definition child_reads :: "DeprovisionStatus option \<Rightarrow> event list \<Rightarrow> bool" where
  "child_reads s es \<longleftrightarrow> (\<forall>e \<in> set es. case e of
     EGet AnsBindVMGVR ns n (Inr fresh) \<Rightarrow> (case convertAnsibleBindingVM fresh of
        Inl err \<Rightarrow> False | Inr r \<Rightarrow> ch_Spec r \<noteq> None \<and> vt_Deprovision (priorVMState r) = s)
   | EApplyStatus AnsBindVMGVR ns n p fm (Some (r, m)) \<Rightarrow> r \<noteq> NotFoundR
   | _ \<Rightarrow> True)"

definition has_hook :: "unstr \<Rightarrow> bool" where
  "has_hook u \<longleftrightarrow> (case convertAnsibleBindingVM u of
     Inl err \<Rightarrow> False | Inr child \<Rightarrow> ch_Spec child \<noteq> None \<and> vs_OnDeleted (ch_spec child) \<noteq> None)"

text \<open>
  Any number of finalizing passes over informer copies that have the hook, each cut short anywhere; the counter
  is the number of launches sent.
\<close>

inductive hook_history :: "env \<Rightarrow> DeprovisionStatus option \<Rightarrow> nat \<Rightarrow> bool" for E :: env where
  begun: "\<not> dep_spent s \<Longrightarrow> hook_history E s 0"
| pass: "hook_history E s n \<Longrightarrow> has_hook u \<Longrightarrow> es = take k (events_of (cleanupAnsibleBindingVM E u) w) \<Longrightarrow> child_reads s es \<Longrightarrow>
    hook_evolves s es s' \<Longrightarrow> hook_history E s' (n + launches es)"

lemma hook_evolves_append: "hook_evolves s (xs @ ys) s' \<longleftrightarrow> (\<exists>m. hook_evolves s xs m \<and> hook_evolves m ys s')"
  by (induction xs arbitrary: s) auto

lemma becomes_kept: "kept e \<Longrightarrow> dep_spent s \<Longrightarrow> m \<in> hook_becomes s e \<Longrightarrow> dep_spent m"
  by (cases "(s, e)" rule: hook_becomes.cases) (auto simp: kept_def simp del: dep_spent_Some split: if_splits)

lemma evolves_kept: "list_all kept es \<Longrightarrow> dep_spent s \<Longrightarrow> hook_evolves s es s' \<Longrightarrow> dep_spent s'"
  by (induction es arbitrary: s) (auto dest: becomes_kept)

lemma launches_none: "list_all (\<lambda>e. \<not> is_launch e) es \<Longrightarrow> launches es = 0"
  by (simp add: launches_def filter_none)

lemma launches_append: "launches (xs @ ys) = launches xs + launches ys"
  by (simp add: launches_def)

text \<open>A pass cut at any point.\<close>

lemma claims_hook_becomes:
  "claims_hook e \<Longrightarrow> child_reads s0 [e] \<Longrightarrow> m \<in> hook_becomes s e \<Longrightarrow> dep_spent m"
  unfolding claims_hook_def applied_def child_reads_def by (auto split: if_splits)

lemma becomes_launch: "is_launch e \<Longrightarrow> hook_becomes s e = {s}"
  by (cases e rule: is_launch.cases) auto

lemma child_reads_append: "child_reads s (xs @ ys) \<longleftrightarrow> child_reads s xs \<and> child_reads s ys"
  by (auto simp: child_reads_def)

lemma hook_trace_cut:
  assumes t: "hook_trace P b es True" and r: "child_reads s0 (take k es)" and ev: "hook_evolves s (take k es) s'"
    and b: "b = dep_spent s"
  shows "launches (take k es) \<le> (if dep_spent s then 0 else 1) \<and> (dep_spent s \<or> launches (take k es) = 1 \<longrightarrow> dep_spent s')"
proof (cases "dep_spent s")
  case True
  with t b have k: "list_all kept (take k es)" by (auto simp: hook_trace_def intro: list_all_take)
  with True ev show ?thesis using evolves_kept launches_none [OF kept_quiet [OF k]] by auto
next
  case ns: False
  with t b consider "list_all (\<lambda>e. \<not> is_launch e) es"
    | pre cl e post where "es = pre @ cl # e # post" "list_all (\<lambda>e. \<not> is_launch e) pre" "claims_hook cl" "is_launch e" "list_all kept post"
    unfolding hook_trace_def by auto
  then show ?thesis
  proof cases
    case 1
    then show ?thesis using ns launches_none [OF list_all_take] by simp
  next
    case (2 pre cl e post)
    have cl0: "\<not> is_launch cl" using 2(3) by (auto simp: claims_hook_def applied_def)
    show ?thesis
    proof (cases "k \<le> length pre + 1")
      case True
      then have "take k es = take k (pre @ [cl])" using 2(1) by (auto simp: take_Cons' split: if_splits)
      moreover have "list_all (\<lambda>e. \<not> is_launch e) (take k (pre @ [cl]))"
        by (rule list_all_take) (use 2(2) cl0 in simp)
      ultimately show ?thesis using ns launches_none by simp
    next
      case False
      then obtain i where i: "k = length pre + 2 + i" by (metis add.commute add_Suc le_iff_add not_less_eq_eq numeral_2_eq_2 plus_1_eq_Suc One_nat_def)
      have tk: "take k es = pre @ [cl] @ [e] @ take i post" using 2(1) i by simp
      have post: "list_all kept (take i post)" by (rule list_all_take [OF 2(5)])
      have "launches (take k es) = 1"
        unfolding tk launches_append using launches_none [OF 2(2)] launches_none [OF kept_quiet [OF post]] 2(4) cl0
        by (simp add: launches_def)
      moreover from ev obtain m m' where m: "hook_evolves s pre m" "m' \<in> hook_becomes m cl" "hook_evolves m' (take i post) s'"
        unfolding tk hook_evolves_append by (auto simp: becomes_launch [OF 2(4)])
      moreover have "dep_spent m'"
        by (rule claims_hook_becomes [of cl s0 m' m, OF 2(3) _ m(2)]) (use r in \<open>auto simp: tk child_reads_def\<close>)
      ultimately show ?thesis using ns evolves_kept [OF post] by auto
    qed
  qed
qed

lemma finalizing_cut:
  assumes p: "finalizing_pass E u es" and u: "has_hook u" and r: "child_reads s (take k es)" and ev: "hook_evolves s (take k es) s'"
  shows "launches (take k es) \<le> (if dep_spent s then 0 else 1) \<and> (dep_spent s \<or> launches (take k es) = 1 \<longrightarrow> dep_spent s')"
proof -
  from p u obtain child a rest where es: "es = EGet AnsBindVMGVR (ch_ns child) (md_Name (ch_meta child)) a # rest"
    and a: "case a of Inl e \<Rightarrow> rest = []
      | Inr fresh \<Rightarrow> hook_trace (pass_allowed E (live_object u fresh) (live_child child fresh)) (child_spent (live_child child fresh)) rest True"
    unfolding finalizing_pass_def has_hook_def by (cases "convertAnsibleBindingVM u") auto
  show ?thesis
  proof (cases k)
    case 0
    with ev show ?thesis by (simp add: launches_def)
  next
    case (Suc j)
    then have tk: "take k es = EGet AnsBindVMGVR (ch_ns child) (md_Name (ch_meta child)) a # take j rest" using es by simp
    have ev': "hook_evolves s (take j rest) s'" using ev tk by simp
    have l: "launches (take k es) = launches (take j rest)" by (simp add: tk launches_def)
    have r': "child_reads s (take j rest)" using r tk by (simp add: child_reads_def)
    show ?thesis
    proof (cases a)
      case (Inl e)
      with a ev' l show ?thesis by (simp add: launches_def)
    next
      case (Inr fresh)
      with r tk have "vt_Deprovision (priorVMState (live_child child fresh)) = s"
        by (auto simp: child_reads_def live_child_def split: sum.splits)
      with a Inr have t: "hook_trace (pass_allowed E (live_object u fresh) (live_child child fresh)) (dep_spent s) rest True" by simp
      show ?thesis unfolding l by (rule hook_trace_cut [OF t r' ev' refl])
    qed
  qed
qed

lemma hook_history_invariant: "hook_history E s n \<Longrightarrow> n \<le> 1 \<and> (n = 1 \<longrightarrow> dep_spent s)"
proof (induction rule: hook_history.induct)
  case (begun s)
  then show ?case by simp
next
  case (pass s n u es k w s')
  have p: "finalizing_pass E u (events_of (cleanupAnsibleBindingVM E u) w)"
    by (rule emitsD [OF emits_cleanupAnsibleBindingVM])
  from finalizing_cut [OF p] pass show ?case by (cases "dep_spent s") fastforce+
qed

end
