(* ===== verification/VMHosts.thy ===== *)
theory VMHosts
  imports VMProofs
begin

text \<open>
  The inventory host of a VM's child while it is provisioned: which hosts a pass writes to or deletes, and
  what it has read just before.
\<close>

section \<open>Checked writes and deletions\<close>

definition found_own :: "string \<Rightarrow> AWXClient \<Rightarrow> int \<Rightarrow> event \<Rightarrow> bool" where
  "found_own marker c i e \<longleftrightarrow> (\<exists>n name resp h. e = EHttp c (RqHostsByName n name) (Inr resp) \<and>
     ok_code (rs_StatusCode resp) \<and> findHostByName (hosts_of (rs_Body resp)) name = Some h \<and> hr_ID h = i \<and>
     trim_space (hr_Description h) = marker)"

text \<open>The host a record without coordinates says was created for it.\<close>

definition recorded_created :: "AnsibleBindingVMStatus \<Rightarrow> int \<Rightarrow> bool" where
  "recorded_created st i \<longleftrightarrow> vt_AWXHostCreated st \<and> vt_AWXHostID st = i \<and> (vt_AWXInventoryID st = 0 \<or> vt_AWXHostName st = [])"

text \<open>
  A patch and a creation as \<open>write_check\<close> has them; a deletion right after the lookup that found the host
  with the marker, unless all there is to go by is the record.
\<close>

definition host_check :: "string \<Rightarrow> (int \<Rightarrow> bool) \<Rightarrow> event \<Rightarrow> (event \<Rightarrow> bool) option" where
  "host_check marker rec e = (case e of
     EHttp c (RqDeleteHost i) a \<Rightarrow> if rec i then None else Some (found_own marker c i)
   | _ \<Rightarrow> write_check marker e)"

lemma host_check_delete [simp]:
  "host_check marker rec (EHttp c (RqDeleteHost i) a) = (if rec i then None else Some (found_own marker c i))"
  by (simp add: host_check_def)

lemma host_check_other [simp]: "\<not> is_host_delete e \<Longrightarrow> host_check marker rec e = write_check marker e"
  by (auto simp: host_check_def split: event.split awx_req.split)

lemma host_check_none: "\<not> is_host_put e \<and> \<not> is_host_delete e \<Longrightarrow> host_check marker rec e = None"
  by simp

lemma host_check_quiet:
  "only (\<lambda>e. \<not> is_host_put e \<and> \<not> is_host_delete e) m \<Longrightarrow> emits m (\<lambda>_. preceded (host_check marker rec))"
  by (rule preceded_quiet, erule only_mono) (rule host_check_none)

lemma host_check_writes:
  "emits m (\<lambda>_. writes_checked marker) \<Longrightarrow> only (\<lambda>e. \<not> is_host_delete e) m \<Longrightarrow>
   emits m (\<lambda>_. preceded (host_check marker rec))"
proof (drule (1) emits_and_only, erule emits_conseq, elim conjE)
  fix es
  assume w: "writes_checked marker es" and d: "list_all (\<lambda>e. \<not> is_host_delete e) es"
  show "preceded (host_check marker rec) es"
    unfolding preceded_def
  proof (intro allI impI)
    fix pre e post P
    assume e: "es = pre @ e # post" and P: "host_check marker rec e = Some P"
    from e d have "\<not> is_host_delete e" by simp
    with P have "write_check marker e = Some P" by simp
    with w e show "\<exists>pre' d. pre = pre' @ [d] \<and> P d" unfolding preceded_def by blast
  qed
qed

lemma preceded_more:
  "preceded (host_check marker rec) es \<Longrightarrow> (\<And>i. rec i \<Longrightarrow> rec' i) \<Longrightarrow> preceded (host_check marker rec') es"
  by (erule preceded_mono) (auto simp: host_check_def split: event.splits awx_req.splits if_splits)

section \<open>One host\<close>

abbreviation vm_marker :: "env \<Rightarrow> AnsibleBindingVM \<Rightarrow> string" where
  "vm_marker E child \<equiv> hostOwnerMarker E (ch_ns child) (vs_BindingName (ch_spec child))"

lemma emits_recover_host:
  "emits (recover_host E c marker changed st) (\<lambda>r es.
     es = [] \<and> r = Inr st \<and> (changed \<longrightarrow> vt_AWXInventoryID st = 0 \<or> vt_AWXHostName st = []) \<or>
     (\<exists>n name a. es = [EHttp c (RqHostsByName n name) a] \<and>
        (\<forall>st1. r = Inr st1 \<longrightarrow> vt_AWXHostCreated st1 \<longrightarrow> found_own marker c (vt_AWXHostID st1) (EHttp c (RqHostsByName n name) a))))"
  unfolding recover_host_def
  by (intro emits_if emits_return emits_bind [OF emits_FindHost])
    (fastforce simp: found_own_def split: sum.splits option.splits)+

lemma emits_retire_host:
  "emits (retire_host E c policy changed st) (\<lambda>r es. es = [] \<or>
     changed \<and> vt_AWXHostCreated st \<and> policy = CleanupPolicyDelete \<and> (\<exists>a. es = [EHttp c (RqDeleteHost (vt_AWXHostID st)) a]))"
proof -
  have d: "emits (if vt_AWXHostCreated st \<and> policy = CleanupPolicyDelete then DeleteHost E c (vt_AWXHostID st) else ret None)
      (\<lambda>r es. es = [] \<or> vt_AWXHostCreated st \<and> policy = CleanupPolicyDelete \<and> (\<exists>a. es = [EHttp c (RqDeleteHost (vt_AWXHostID st)) a]))"
    by (intro emits_if emits_return emits_conseq [OF emits_DeleteHost]) auto
  show ?thesis
    unfolding retire_host_def
    by (intro emits_if emits_return emits_bind [OF d]) auto
qed

lemma emits_reconcile_host_checked:
  "emits (reconcile_host E u child c hn n ip st) (\<lambda>_. preceded (host_check (vm_marker E child) (recorded_created st)))"
  (is "emits _ (\<lambda>_. preceded ?K)")
proof -
  have ri: "emits (record_intent E u child hn n st') (\<lambda>_. preceded ?K)" for st'
    unfolding record_intent_def Let_def
    by (rule host_check_quiet) (intro only_if only_bind only_return only_writeVM; simp)
  have w: "emits (UpsertHost E c n hn (vm_marker E child) vars) (\<lambda>_. preceded ?K)" for vars
    by (rule host_check_writes [OF emits_conseq [OF emits_UpsertHost]])
      (auto simp: upsert_ok_def intro: only_host_writes)
  have up: "emits (upsert_host E c (vm_marker E child) hn n vars st') (\<lambda>_. preceded ?K)" for vars st'
    unfolding upsert_host_def
    by (rule preceded_bind [OF w]) (rule host_check_quiet, rule only_return)
  have nil: "emits (ret x) (\<lambda>_. preceded ?K)" for x
    by (rule host_check_quiet) (rule only_return)
  have rest: "emits (case r2 of
        Inl err \<Rightarrow> ret (st1, Some err)
      | Inr st2 \<Rightarrow> record_intent E u child hn n st2 \<bind> (\<lambda>(st3, e). case e of
            Some err \<Rightarrow> ret (st3, Some err)
          | None \<Rightarrow> upsert_host E c (vm_marker E child) hn n (host_vars (ch_spec child) ip) st3)) (\<lambda>_. preceded ?K)" for r2 st1
    by (intro emits_sum nil preceded_bind [OF ri] emits_prod emits_option up)
  let ?ch = "host_moved st hn n"
  show ?thesis
    unfolding reconcile_host_def Let_def
  proof (rule emits_bind [OF emits_recover_host], intro emits_sum, goal_cases)
    case (1 r es err)
    then show ?case by (auto intro!: emits_return preceded_none)
  next
    case (2 r es st1)
    show ?case
    proof (rule emits_bind [OF emits_retire_host], goal_cases)
      case (1 r2 es2)
      have "preceded ?K (es @ es2)"
      proof (cases es2)
        case Nil
        with 2 show ?thesis by (auto intro!: preceded_none)
      next
        case (Cons e' es')
        with 1 obtain a where e2: "es2 = [EHttp c (RqDeleteHost (vt_AWXHostID st1)) a]" and cr: "vt_AWXHostCreated st1" and ?ch
          by auto
        from 2(1) consider "es = []" "st1 = st" "vt_AWXInventoryID st = 0 \<or> vt_AWXHostName st = []"
          | nn name b where "es = [EHttp c (RqHostsByName nn name) b]"
              "found_own (vm_marker E child) c (vt_AWXHostID st1) (EHttp c (RqHostsByName nn name) b)"
          using 2(2) cr \<open>?ch\<close> by auto
        then show ?thesis
        proof cases
          case 1
          with cr show ?thesis unfolding e2 by (auto simp: recorded_created_def intro!: preceded_none)
        next
          case (2 nn name b)
          then show ?thesis unfolding e2 by (auto intro!: preceded_two split: if_splits)
        qed
      qed
      then show ?case
        by (intro emits_conseq [OF rest]) (metis append_assoc preceded_append)
    qed
  qed
qed

section \<open>The pass\<close>

definition host_part :: "AnsibleBindingVMStatus \<Rightarrow> int \<times> int \<times> string \<times> bool" where
  "host_part st = (vt_AWXHostID st, vt_AWXInventoryID st, vt_AWXHostName st, vt_AWXHostCreated st)"

lemma recorded_created_part: "host_part st = host_part st' \<Longrightarrow> recorded_created st = recorded_created st'"
  by (auto simp: host_part_def recorded_created_def fun_eq_iff)

lemma recorded_created_settle: "recorded_created (settle_endpoint ep st) i \<Longrightarrow> recorded_created st i"
  by (auto simp: settle_endpoint_def recorded_created_def split: if_splits)

lemma host_part_initial: "host_part ((initial_vm_status st)\<lparr>vt_ObservedIP := ip\<rparr>) = host_part st"
  by (simp add: host_part_def initial_vm_status_def)

lemma emits_poll_host_part:
  "emits (poll_in_flight E child prior st) (\<lambda>r es. \<forall>st'. r = Inr st' \<longrightarrow> host_part st' = host_part st)"
  unfolding poll_in_flight_def Let_def
  by (rule emits_bind [OF only_poll_top [OF only_pollRecordedJob]], intro emits_sum emits_if emits_return
      emits_bind [OF does_nowRFC3339]) (auto simp: host_part_def)

lemma poll_check_quiet: "only poll_event m \<Longrightarrow> emits m (\<lambda>_. preceded (host_check mk rec))"
  by (rule host_check_quiet, erule only_mono) (simp add: poll_quiet)

lemma emits_run_in_awx_checked:
  "emits (run_in_awx E u child wants ip st) (\<lambda>_. preceded (host_check (vm_marker E child) (recorded_created st)))"
  (is "emits _ (\<lambda>_. preceded ?K)")
proof -
  have nil: "emits (ret x) (\<lambda>_. preceded ?K)" "emits (vm_fail st' e) (\<lambda>_. preceded ?K)" for x st' e
    unfolding vm_fail_def by (rule host_check_quiet, rule only_return)+
  have t: "emits (if wants then resolveTemplateForLaunch E c k ref else resolveTemplateCached E c k ref) (\<lambda>_. preceded ?K)" for c k ref
    by (rule host_check_quiet) (intro only_if only_resolveTemplates; simp)
  have la: "emits (launch_vm E sp cn c tm lim st') (\<lambda>_. preceded ?K)" for sp cn c tm lim st'
    unfolding launch_vm_def by (rule host_check_quiet) (intro only_bind only_if only_launches only_prod only_return only_prims; simp)
  have now: "emits (nowRFC3339 E) (\<lambda>_. preceded ?K)"
    by (rule host_check_quiet) (intro only_prims; simp)
  have rh: "emits (reconcile_host E u child c hn n ip (settle_endpoint ep st)) (\<lambda>_. preceded ?K)" for c hn n ep
    by (rule emits_conseq [OF emits_reconcile_host_checked]) (erule preceded_more, rule recorded_created_settle)
  show ?thesis
    unfolding run_in_awx_def host_then_run_def Let_def
    by (intro preceded_bind poll_check_quiet [OF only_connect_vm] emits_sum emits_prod emits_option emits_if nil t rh now la)
qed

lemma emits_vm_pass_checked:
  "emits (vm_pass E u child prior st ip ready) (\<lambda>_. preceded (host_check (vm_marker E child) (recorded_created st)))"
  (is "emits _ (\<lambda>_. preceded ?K)")
proof -
  have nil: "emits (ret x) (\<lambda>_. preceded ?K)" "emits (vm_finish st') (\<lambda>_. preceded ?K)" for x st'
    unfolding vm_finish_def by (rule host_check_quiet, rule only_return)+
  have due: "emits (dueFor E ts p) (\<lambda>_. preceded ?K)" for ts p
    by (rule host_check_quiet) (rule only_dueFor, simp)
  have run: "emits (run_in_awx E u child w ip st') (\<lambda>_. preceded ?K)" if "host_part st' = host_part st" for st' w
    using emits_run_in_awx_checked [of E u child w ip st'] recorded_created_part [OF that] by simp
  have p: "emits (if vm_in_flight prior then poll_in_flight E child prior st else ret (Inr st))
      (\<lambda>r es. (\<forall>st'. r = Inr st' \<longrightarrow> host_part st' = host_part st) \<and> preceded ?K es)"
    by (intro emits_if emits_conj emits_poll_host_part poll_check_quiet [OF only_poll_in_flight] nil) (simp add: emits_return)
  show ?thesis
    unfolding vm_pass_def Let_def
    by (intro preceded_bind [OF due] emits_prod emits_if nil emits_bind [OF p], intro emits_sum emits_if emits_conseq [OF nil(1)]
        emits_conseq [OF nil(2)] emits_conseq [OF run]) (auto intro: preceded_append)
qed

definition host_writes_ok :: "env \<Rightarrow> unstr \<Rightarrow> event list \<Rightarrow> bool" where
  "host_writes_ok E u es \<longleftrightarrow> (case check_child E u of
     Inl err \<Rightarrow> True
   | Inr (child, uid) \<Rightarrow> preceded (host_check (vm_marker E child) (recorded_created (priorVMState child))) es)"

lemma emits_applyAnsibleBindingVM_checked: "emits (applyAnsibleBindingVM E u) (\<lambda>_. host_writes_ok E u)"
proof (cases "check_child E u")
  case (Inl err)
  then show ?thesis
    unfolding applyAnsibleBindingVM_def host_writes_ok_def by (simp add: emits_return)
next
  case (Inr x)
  obtain child uid where x: "x = (child, uid)" by (cases x)
  with Inr have c: "check_child E u = Inr (child, uid)" by simp
  let ?K = "host_check (vm_marker E child) (recorded_created (priorVMState child))"
  have nil: "emits (ret y) (\<lambda>_. preceded ?K)" for y
    by (rule host_check_quiet, rule only_return)
  have get: "emits (k8s_Get E g ns n) (\<lambda>_. preceded ?K)" for g ns n
    by (rule host_check_quiet) (intro only_prims; simp)
  have fin: "emits (finish_vm E u child r) (\<lambda>_. preceded ?K)" for r
    by (rule host_check_quiet) (rule only_finish_vm, simp)
  have pass: "emits (vm_pass E u child (priorVMState child) ((initial_vm_status (priorVMState child))\<lparr>vt_ObservedIP := ip\<rparr>) ip r)
      (\<lambda>_. preceded ?K)" for ip r
    using emits_vm_pass_checked [of E u child "priorVMState child" "(initial_vm_status (priorVMState child))\<lparr>vt_ObservedIP := ip\<rparr>" ip r]
      recorded_created_part [OF host_part_initial] by simp
  show ?thesis
    unfolding applyAnsibleBindingVM_def host_writes_ok_def c sum.case prod.case reconcile_vm_def Let_def
    by (intro preceded_bind [OF get] emits_sum emits_if nil emits_prod preceded_bind [OF pass] fin)
qed

text \<open>And no host is deleted under any other policy than \<open>Delete\<close>, the default.\<close>

definition deletes_hosts :: "AnsibleBindingVMSpec \<Rightarrow> bool" where
  "deletes_hosts sp \<longleftrightarrow> vs_CleanupPolicy sp = [] \<or> vs_CleanupPolicy sp = CleanupPolicyDelete"

lemma only_vm_deletes:
  "check_child E u = Inr (child, uid) \<Longrightarrow> only (\<lambda>e. is_host_delete e \<longrightarrow> deletes_hosts (ch_spec child)) (applyAnsibleBindingVM E u)"
proof -
  assume c: "check_child E u = Inr (child, uid)"
  let ?K = "\<lambda>e. is_host_delete e \<longrightarrow> deletes_hosts (ch_spec child)"
  have q: "only poll_event m \<Longrightarrow> only ?K m" for m :: "'x prog"
    by (erule only_mono) (simp add: poll_quiet)
  have rh: "only ?K (reconcile_host E u child c hn n ip st)" for c hn n ip st
    unfolding reconcile_host_def recover_host_def retire_host_def record_intent_def upsert_host_def Let_def
    by (intro only_bind only_if only_return only_one_request only_host_writes only_writeVM only_sum only_prod only_option)
      (auto simp: deletes_hosts_def split: if_splits)
  have la: "only ?K (launch_vm E sp cn c tm lim st')" for sp cn c tm lim st'
    unfolding launch_vm_def by (intro only_bind only_if only_launches only_prod only_return only_prims; simp)
  have pass: "only ?K (vm_pass E u child prior st ip r)" for prior st ip r
    unfolding vm_pass_def run_in_awx_def host_then_run_def Let_def vm_finish_def vm_fail_def
    by (intro only_bind only_dueFor only_prod only_if only_return only_sum only_option rh la only_prims
      q [OF only_poll_in_flight] q [OF only_connect_vm] only_resolveTemplates) simp_all
  show ?thesis
    unfolding applyAnsibleBindingVM_def c sum.case prod.case reconcile_vm_def Let_def
    by (intro only_bind only_prims only_sum only_if only_return only_prod pass only_finish_vm) simp_all
qed

section \<open>When a pass talks to AWX at all\<close>

definition host_check_due :: "env \<Rightarrow> stamp \<Rightarrow> event list \<Rightarrow> bool" where
  "host_check_due E ts es \<longleftrightarrow> (case parse_time ts of
     None \<Rightarrow> True
   | Some at \<Rightarrow> (\<exists>t. ENow t \<in> set es \<and> (time_sub t at \<ge> e_hostCheckPeriod E \<or> time_sub t at < 0)))"

definition wake_reason :: "env \<Rightarrow> AnsibleBindingVM \<Rightarrow> bool \<Rightarrow> event list \<Rightarrow> bool" where
  "wake_reason E child ready es \<longleftrightarrow> (let prior = priorVMState child in
     vm_in_flight prior \<or> ready \<and> (needsRun prior (ch_spec child) \<or> host_check_due E (vt_LastHostCheck prior) es))"

definition talks :: "event list \<Rightarrow> bool" where
  "talks es \<longleftrightarrow> list_ex is_http es"

lemma wake_more: "wake_reason E child ready es \<Longrightarrow> wake_reason E child ready (xs @ es @ ys)"
  by (auto simp: wake_reason_def host_check_due_def Let_def split: option.splits)

lemma emits_due_spec:
  "emits (dueFor E ts (e_hostCheckPeriod E)) (\<lambda>r es. \<not> talks es \<and> (fst r \<longrightarrow> host_check_due E ts es))"
  by (rule emits_dueFor) (auto simp: talks_def host_check_due_def split: if_splits)

lemma emits_vm_pass_wakes:
  assumes "needsRun st (ch_spec child) = needsRun (priorVMState child) (ch_spec child)"
    and "vt_LastHostCheck st = vt_LastHostCheck (priorVMState child)"
  shows "emits (vm_pass E u child (priorVMState child) st ip ready) (\<lambda>_ es. talks es \<longrightarrow> wake_reason E child ready es)"
proof (cases "vm_in_flight (priorVMState child)")
  case True
  have "emits (vm_pass E u child (priorVMState child) st ip ready) (\<lambda>_ _. True)"
    by (rule emits_top, rule only_mono [OF vm_pass_event]) simp
  then show ?thesis
    by (rule emits_conseq) (simp add: wake_reason_def True)
next
  case False
  let ?R = "\<lambda>es. talks es \<longrightarrow> wake_reason E child ready es"
  have t: "emits (run_in_awx E u child w ip st) (\<lambda>_ _. True)" for w
    unfolding run_in_awx_def host_then_run_def Let_def vm_fail_def
    by (rule emits_top, intro only_bind only_prod only_if only_return only_sum only_option only_mono [OF vm_reconcile_host]
        only_mono [OF vm_launch_vm] only_prims only_mono [OF only_connect_vm] only_resolveTemplates) simp_all
  have quiet: "emits (ret x) (\<lambda>_ es'. ?R (es @ es'))" "emits (vm_finish st') (\<lambda>_ es'. ?R (es @ es'))"
    if "\<not> talks es" for x es st'
    unfolding vm_finish_def using that by (simp_all add: emits_return)
  show ?thesis
    unfolding vm_pass_def Let_def if_not_P [OF False] State_Monad.bind_left_identity sum.case
  proof (rule emits_bind [OF emits_due_spec], intro emits_prod emits_if, goal_cases)
    case (5 r es due rest)
    then have "wake_reason E child ready es"
      using False assms by (auto simp: wake_reason_def Let_def)
    with wake_more [of E child ready es "[]"] show ?case by (intro emits_conseq [OF t]) simp
  qed (rule quiet; blast)+
qed

definition wakes :: "env \<Rightarrow> unstr \<Rightarrow> event list \<Rightarrow> bool" where
  "wakes E u es \<longleftrightarrow> (case check_child E u of
     Inl err \<Rightarrow> es = []
   | Inr (child, uid) \<Rightarrow> talks es \<longrightarrow> (\<exists>vm. EGet VMGVR (ch_ns child) (vs_VMName (ch_spec child)) (Inr vm) \<in> set es \<and>
       (uid = [] \<or> md_UID (u_meta vm) = uid) \<and> wake_reason E child (snd (vmReady vm)) es))"

lemma emits_finish_vm_quiet: "emits (finish_vm E u child r) (\<lambda>_ es. \<not> talks es)"
  unfolding talks_def
  by (rule emits_conseq [OF emits_only [OF only_finish_vm [where K = "\<lambda>e. \<not> is_http e"]]]) (auto simp: list_all_iff list_ex_iff)

lemma emits_applyAnsibleBindingVM_wakes: "emits (applyAnsibleBindingVM E u) (\<lambda>_. wakes E u)"
proof (cases "check_child E u")
  case (Inl err)
  then show ?thesis
    unfolding applyAnsibleBindingVM_def wakes_def by (simp add: emits_return)
next
  case (Inr x)
  obtain child uid where x: "x = (child, uid)" by (cases x)
  with Inr have c: "check_child E u = Inr (child, uid)" by simp
  let ?st = "\<lambda>ip. (initial_vm_status (priorVMState child))\<lparr>vt_ObservedIP := ip\<rparr>"
  have lhc: "vt_LastHostCheck (?st ip) = vt_LastHostCheck (priorVMState child)" for ip
    by (simp add: initial_vm_status_def)
  have rec: "emits (reconcile_vm E u child vm) (\<lambda>_ es. talks es \<longrightarrow> wake_reason E child (snd (vmReady vm)) es)" for vm
    unfolding reconcile_vm_def Let_def
  proof (intro emits_prod, rule emits_bind [OF emits_vm_pass_wakes [OF needsRun_initial lhc]], rule emits_conseq [OF emits_finish_vm_quiet], goal_cases)
    case (1 ip ready a es b es')
    then show ?case using wake_more [of E child ready es "[]" es'] by (auto simp: talks_def)
  qed
  have *: "emits (k8s_Get E VMGVR (ch_ns child) (vs_VMName (ch_spec child)) \<bind> (\<lambda>r. case r of
             Inl err \<Rightarrow>
               if isNotFound err then ret (Inr no_result)
               else ret (Inl (errorw f_vm_fetch [vs_VMName (ch_spec child)] err))
           | Inr vm \<Rightarrow>
               if uid \<noteq> [] \<and> md_UID (u_meta vm) \<noteq> uid then ret (Inr no_result)
               else reconcile_vm E u child vm))
     (\<lambda>_ es. talks es \<longrightarrow> (\<exists>vm. EGet VMGVR (ch_ns child) (vs_VMName (ch_spec child)) (Inr vm) \<in> set es \<and>
       (uid = [] \<or> md_UID (u_meta vm) = uid) \<and> wake_reason E child (snd (vmReady vm)) es))"
  proof (rule emits_bind [OF does_Get], elim exE conjE, intro emits_sum emits_if, goal_cases)
    case (4 r es a vm)
    then have "es = [EGet VMGVR (ch_ns child) (vs_VMName (ch_spec child)) (Inr vm)]" "uid = [] \<or> md_UID (u_meta vm) = uid" by auto
    then show ?case
      by (intro emits_conseq [OF rec]) (use wake_more [where xs = es and ys = "[]"] in \<open>auto simp: talks_def\<close>)
  qed (auto intro!: emits_return simp: talks_def)
  show ?thesis
    unfolding applyAnsibleBindingVM_def wakes_def c sum.case prod.case by (rule *)
qed

end
