(* ===== verification/VMCleanup.thy ===== *)
theory VMCleanup
  imports Workqueue HookProofs VMHosts
begin

text \<open>
  The end of a VM's child: which inventory host a finalizing pass deletes, what it has looked up before, and
  that a pass which leaves the hook unfinished deletes nothing.
\<close>

section \<open>The host a pass settles\<close>

text \<open>What the hook's turn may change of the host it hands on: nothing that says which host it is, or whose.\<close>

definition same_host :: "hostResult option \<Rightarrow> hostResult option \<Rightarrow> bool" where
  "same_host x y \<longleftrightarrow> map_option (\<lambda>h. (hr_ID h, hr_Description h)) x = map_option (\<lambda>h. (hr_ID h, hr_Description h)) y"

lemma same_host_refl [simp]: "same_host x x"
  by (simp add: same_host_def)

lemma emits_SetHostVariables_same:
  "emits (SetHostVariables E c (Some h) vars) (\<lambda>r _. \<forall>x. r = Inr x \<longrightarrow> (\<exists>h'. x = Some h' \<and> same_host (Some h') (Some h)))"
proof -
  have t: "emits (awx_do E c rq w) (\<lambda>_ _. True)" for rq w
    by (rule emits_top) (rule only_awx_do, simp)
  show ?thesis
    unfolding SetHostVariables_def option.case
    by (intro emits_if emits_return emits_sum emits_bind [OF t]) (auto simp: same_host_def split: sum.splits)
qed

lemma any_event: "only no_record m \<Longrightarrow> emits m (\<lambda>_ _. True)"
  by (rule emits_top, erule only_mono) simp

lemma top_hook [simp]: "writes_of st (\<lambda>_. True)"
  by (simp add: writes_of_def)

lemma emits_submit_top: "emits (submitDeprovisionHook E u child st dep hook c tmpl lim ep) (\<lambda>_ _. True)"
  unfolding submitDeprovisionHook_def record_hook_job_def Let_def
  by (rule emits_top) (intro only_bind only_option only_return only_persist_dep only_if only_launches only_prod
      only_mono [OF no_record_hookRequeue]; simp)

lemma emits_poll_top: "emits (pollDeprovisionJob E u child st dep c ep) (\<lambda>_ _. True)"
  by (rule emits_conseq [OF emits_poll_job_part]) simp

lemma emits_hook_waiting_top: "emits (hook_waiting E u child st dep ph msg) (\<lambda>_ _. True)"
  unfolding hook_waiting_def Let_def
  by (rule emits_top) (intro only_bind only_option only_return only_persist_dep only_mono [OF no_record_hookRequeue]; simp)

lemma emits_advance_same:
  assumes "mode = TargetingTemplate \<or> host \<noteq> None"
  shows "emits (advance_hook E u child st dep hook mode c host n ep) (\<lambda>r _. same_host (fst r) host)"
proof -
  have t: "emits (resolveTemplate E c ref) (\<lambda>_ _. True)" for ref
    by (rule any_event) (intro only_resolveTemplate; simp)
  have p: "emits (if b then ret None else persist_dep E u child st d) (\<lambda>_ _. True)" for b d
    by (rule emits_top) (intro only_if only_return only_persist_dep; simp)
  have pin: "emits (pin_host E u child st' d c h ep) (\<lambda>r _. \<forall>d' h'. r = Inr (d', h') \<longrightarrow> same_host (Some h') (Some h))" for st' d h
  proof -
    have p: "emits (if b then ret None else persist_dep E u child st' d') (\<lambda>_ _. True)" for b d'
      by (rule emits_top) (intro only_if only_return only_persist_dep; simp)
    show ?thesis
      unfolding pin_host_def Let_def
      by (rule emits_bind [OF p], intro emits_option emits_return emits_bind [OF emits_SetHostVariables_same])
        (auto split: sum.splits)
  qed
  have launch: "emits (launchDeprovisionHook E u child st' dep hook mode c host n ep) (\<lambda>r _. same_host (fst r) host)" for st'
    unfolding launchDeprovisionHook_def Let_def
    by (rule emits_bind [OF t], intro emits_sum emits_if emits_option emits_return emits_bind [OF emits_submit_top]
        emits_bind [OF pin] emits_prod) (use assms in \<open>auto simp: same_host_def\<close>)
  have late: "emits (overdue E d) (\<lambda>_ _. True)" and wait: "emits (wait_for_provisioning E child st dep) (\<lambda>_ _. True)" for d
    by (rule any_event, rule no_record_overdue no_record_wait)+
  show ?thesis
    unfolding advance_hook_def
    by (intro emits_if emits_return emits_bind [OF late] emits_bind [OF wait] emits_sum emits_prod launch
        emits_bind [OF emits_hook_waiting_top] emits_bind [OF emits_poll_top] emits_conseq [OF launch]) auto
qed

lemma emits_hook_turn_same: "emits (hook_turn E cx hook mode host n name st) (\<lambda>r _. same_host (fst r) host)"
proof -
  have t: "emits (vmIsGone E child) (\<lambda>_ _. True)" "emits (time_Now E) (\<lambda>_ _. True)" for child
    by (rule any_event, rule no_record_vmIsGone, rule any_event, intro only_prims, simp)
  have p: "emits (persist_dep E u child st d) (\<lambda>_ _. True)" for u child st d
    by (rule emits_top) (intro only_persist_dep; simp)
  have run: "emits (runDeprovisionHook E u child st hook mode c host n ep) (\<lambda>r _. same_host (fst r) host)"
    if "mode = TargetingTemplate \<or> host \<noteq> None" for u child c ep
    unfolding runDeprovisionHook_def Let_def
    by (intro emits_if emits_bind [OF t(2)] emits_bind [OF p] emits_option emits_return
        emits_conseq [OF emits_advance_same [OF that]]) auto
  show ?thesis
    unfolding hook_turn_def
    by (intro emits_bind [OF t(1)] emits_sum emits_option emits_return emits_conseq [OF run])
      (auto simp: hook_refused_def split: if_splits)
qed

definition host_of_ctx :: "env \<Rightarrow> cleanup_ctx \<Rightarrow> hostResult option \<Rightarrow> AWXClient \<Rightarrow> int \<Rightarrow> bool" where
  "host_of_ctx E cx host c i \<longleftrightarrow> c = cx_client cx \<and> \<not> cx_retain cx \<and>
     (\<exists>h. host = Some h \<and> hr_ID h = i \<and> trim_space (hr_Description h) = child_marker E (cx_child cx))"

lemma same_host_ctx: "same_host x y \<Longrightarrow> host_of_ctx E cx x c i \<Longrightarrow> host_of_ctx E cx y c i"
  by (cases x; cases y) (auto simp: same_host_def host_of_ctx_def)

text \<open>A pass says of itself that the hook is not over.\<close>

definition unfinished :: "gerr + CleanupResult \<Rightarrow> bool" where
  "unfinished r \<longleftrightarrow> (\<exists>x. r = Inr x \<and> \<not> cr_Done x)"

definition settles :: "(AWXClient \<Rightarrow> int \<Rightarrow> bool) \<Rightarrow> gerr + CleanupResult \<Rightarrow> event list \<Rightarrow> bool" where
  "settles D r es \<longleftrightarrow> list_all (deletes_in D) es \<and> (unfinished r \<longrightarrow> list_all (\<lambda>e. \<not> is_host_delete e) es)"

lemma settles_quiet: "list_all (\<lambda>e. \<not> is_host_delete e) es \<Longrightarrow> settles D r es"
  by (auto simp: settles_def list_all_iff deletes_in_other)

lemma emits_settles_quiet: "only (\<lambda>e. \<not> is_host_delete e) m \<Longrightarrow> emits m (settles D)"
  unfolding only_def by (erule emits_conseq) (rule settles_quiet)

lemma settles_more: "list_all (\<lambda>e. \<not> is_host_delete e) xs \<Longrightarrow> settles D r es \<Longrightarrow> settles D r (xs @ es)"
  by (auto simp: settles_def list_all_iff deletes_in_other)

lemma settles_bind:
  assumes "only (\<lambda>e. \<not> is_host_delete e) m" "\<And>a. emits (f a) (settles D)"
  shows "emits (m \<bind> f) (settles D)"
  by (rule emits_bind [OF emits_only [OF assms(1)]], rule emits_conseq [OF assms(2)]) (rule settles_more)

abbreviation keeps_hosts :: "'a prog \<Rightarrow> bool" where
  "keeps_hosts m \<equiv> only (\<lambda>e. \<not> is_host_delete e) m"

lemma keep_report: "keeps_hosts (persistHookState E u child st)" "keeps_hosts (reportHookOutcome E u child st)"
  "keeps_hosts (finishHookless E u child st hook reason)" "keeps_hosts (releaseWithoutHost E u child al st err)"
  unfolding releaseWithoutHost_def finishHookless_def reportHookOutcome_def persistHookState_def eventTarget_def recordEvent_def Let_def
  by (auto intro!: only_intros only_writeVM)

lemma keep_reads: "keeps_hosts (vmIsGone E child)" "keeps_hosts (discoverCleanupHost E c conn child st)"
  "keeps_hosts (hookRequeue E dep)" "keeps_hosts (overdue E d)" "keeps_hosts (persist_dep E u child st dep)"
  "keeps_hosts (wait_for_provisioning E child st dep)" "keeps_hosts (take_off_override E cx host hn st)"
  unfolding vmIsGone_def discoverCleanupHost_def find_cleanup_host_def hookRequeue_def overdue_def persist_dep_def
    take_off_override_def restore_pin_def Let_def wait_for_provisioning_def
  by (auto intro!: only_intros only_writeVM only_mono [OF only_pollRecordedJob] simp: poll_quiet)

lemma keep_hook: "keeps_hosts (hook_waiting E u child st dep ph msg)" "keeps_hosts (pollDeprovisionJob E u child st dep c ep)"
  "keeps_hosts (submitDeprovisionHook E u child st dep hook c tmpl lim ep)" "keeps_hosts (pin_host E u child st dep c h ep)"
  unfolding pollDeprovisionJob_def hook_waiting_def submitDeprovisionHook_def record_hook_job_def pin_host_def Let_def
  by (auto intro!: only_intros keep_reads)

lemma keep_turn: "keeps_hosts (hook_turn E cx hook mode host n name st)"
  unfolding hook_turn_def runDeprovisionHook_def advance_hook_def launchDeprovisionHook_def Let_def
  by (intro only_bind only_sum only_option only_if only_return only_prod keep_reads keep_hook only_prims only_resolveTemplate) simp_all

lemma emits_settle_host:
  "emits (settle_host E cx host name st) (settles (host_of_ctx E cx host))"
proof -
  have fst_child: "emits (take_off_override E cx host name st) (\<lambda>r es. list_all (\<lambda>e. \<not> is_host_delete e) es \<and>
      child_marker E (fst r) = child_marker E (cx_child cx))"
  proof (rule emits_conj [OF emits_only [OF keep_reads(7)]])
    have t: "emits (restore_pin E c h hn dep) (\<lambda>_ _. True)" for c h hn dep
      by (rule emits_conseq [OF spent_restore]) simp
    show "emits (take_off_override E cx host name st) (\<lambda>r _. child_marker E (fst r) = child_marker E (cx_child cx))"
      unfolding take_off_override_def
      by (intro emits_prod emits_option emits_if emits_return emits_bind [OF t])
        (simp_all add: alias_child_def child_marker_def ch_ns_def ch_spec_def)
  qed
  show ?thesis
    unfolding settle_host_def
  proof (rule emits_bind [OF fst_child])
    fix r :: "AnsibleBindingVM \<times> AnsibleBindingVMStatus" and es
    assume h: "list_all (\<lambda>e. \<not> is_host_delete e) es \<and> child_marker E (fst r) = child_marker E (cx_child cx)"
    let ?D = "host_of_ctx E cx host"
    have del: "emits (if \<not> cx_retain cx \<and> host_ours E (fst r) host then DeleteHost E (cx_client cx) (hr_ID (the host)) else ret None)
        (\<lambda>_. list_all (deletes_in ?D))"
      by (intro emits_if emits_return emits_conseq [OF emits_DeleteHost])
        (use h in \<open>auto simp: deletes_in_def host_of_ctx_def host_ours_def host_marker_def\<close>)
    have q: "keeps_hosts m \<Longrightarrow> emits m (\<lambda>_. list_all (deletes_in ?D))" for m :: "unit prog"
      by (rule emits_only, erule only_mono) (rule deletes_in_other)
    have "emits (delete_then_report E cx host (fst r) (snd r)) (\<lambda>r es'. list_all (deletes_in ?D) es' \<and> \<not> unfinished r)"
      unfolding delete_then_report_def
      by (rule emits_bind [OF del], intro emits_option emits_bind [OF q [OF keep_report(1)]] emits_bind [OF q [OF keep_report(2)]] emits_return)
        (auto simp: unfinished_def finished_def hook_finished_def)
    with h show "emits (case r of (child, st) \<Rightarrow> delete_then_report E cx host child st) (\<lambda>b es'. settles ?D b (es @ es'))"
      by (auto simp: split_beta settles_def list_all_iff deletes_in_other elim!: emits_conseq)
  qed
qed

section \<open>The pass\<close>

lemma emits_after_hook: "emits (after_hook E cx hostErr host name st) (settles (host_of_ctx E cx host))"
  unfolding after_hook_def
  by (intro emits_option emits_settle_host emits_settles_quiet only_bind only_if only_return keep_report)

lemma emits_hook_then_host: "emits (hook_then_host E cx mode hostErr host n name st) (settles (host_of_ctx E cx host))"
  unfolding hook_then_host_def
proof (intro emits_option emits_after_hook, goal_cases)
  case (1 hook)
  let ?D = "host_of_ctx E cx host"
  have after: "emits (after_hook E cx hostErr host' name st') (settles ?D)" if "same_host host' host" for host' st'
    by (rule emits_conseq [OF emits_after_hook])
      (use same_host_ctx [OF that] in \<open>auto simp: settles_def deletes_in_def list_all_iff\<close>)
  show ?case
    by (rule emits_bind [OF emits_and_only [OF emits_hook_turn_same keep_turn]], intro emits_prod emits_sum emits_if emits_return
        emits_conseq [OF after]) (auto intro: settles_quiet settles_more)
qed

lemma emits_host_lookup_failed: "emits (host_lookup_failed E cx al mode st err) (settles (\<lambda>c i. False))"
proof -
  have h: "emits (hook_then_host E cx mode e None n name st) (settles (\<lambda>c i. False))" for e n name
    by (rule emits_conseq [OF emits_hook_then_host]) (auto simp: settles_def deletes_in_def host_of_ctx_def list_all_iff)
  have d: "keeps_hosts (detach_without_host E cx st err)"
    unfolding detach_without_host_def Let_def by (intro only_if only_bind only_return keep_report)
  show ?thesis
    unfolding host_lookup_failed_def
    by (intro emits_if h emits_settles_quiet only_bind only_sum only_if only_return keep_report keep_reads d)
qed

definition own_deletes :: "env \<Rightarrow> AnsibleBindingVM \<Rightarrow> gerr + CleanupResult \<Rightarrow> event list \<Rightarrow> bool" where
  "own_deletes E child r es \<longleftrightarrow> deletes_found (found_own (child_marker E child)) es \<and>
     (vs_CleanupPolicy (ch_spec child) = CleanupPolicyRetain \<or> unfinished r \<longrightarrow> list_all (\<lambda>e. \<not> is_host_delete e) es)"

lemma own_deletes_quiet: "list_all (\<lambda>e. \<not> is_host_delete e) es \<Longrightarrow> own_deletes E child r es"
  by (simp add: own_deletes_def deletes_none)

lemma own_deletes_more: "list_all (\<lambda>e. \<not> is_host_delete e) xs \<Longrightarrow> own_deletes E child r es \<Longrightarrow> own_deletes E child r (xs @ es)"
  unfolding own_deletes_def deletes_backed_def
proof (intro conjI allI impI, goal_cases)
  case (1 pre c i a post)
  then have "\<exists>zs. pre = xs @ zs \<and> es = zs @ EHttp c (RqDeleteHost i) a # post"
    by (auto simp: append_eq_append_conv2 append_eq_Cons_conv)
  with 1 show ?case by auto
qed auto

lemma own_bind:
  assumes "keeps_hosts m" "\<And>a. emits (f a) (own_deletes E child)"
  shows "emits (m \<bind> f) (own_deletes E child)"
  by (rule emits_bind [OF emits_only [OF assms(1)]], rule emits_conseq [OF assms(2)]) (rule own_deletes_more)

lemma emits_own_quiet: "keeps_hosts m \<Longrightarrow> emits m (own_deletes E child)"
  unfolding only_def by (erule emits_conseq) (rule own_deletes_quiet)

lemma emits_cleanup_host_own:
  assumes "cx_retain cx \<longleftrightarrow> vs_CleanupPolicy (ch_spec (cx_child cx)) = CleanupPolicyRetain"
  shows "emits (cleanup_host E cx al st) (own_deletes E (cx_child cx))"
  unfolding cleanup_host_def Let_def
proof (rule emits_bind [OF emits_and_only [OF emits_discoverCleanupHost keep_reads(2)]], intro emits_sum emits_prod, goal_cases)
  case (1 r es err)
  show ?case
  proof (rule emits_conseq [OF emits_host_lookup_failed])
    fix x es'
    assume "settles (\<lambda>c i. False) x es'"
    then have "list_all (\<lambda>e. \<not> is_host_delete e) es'"
      by (auto simp: settles_def list_all_iff deletes_in_def elim!: is_host_delete.elims)
    with 1 show "own_deletes E (cx_child cx) x (es @ es')" by (auto intro: own_deletes_quiet)
  qed
next
  case (2 r es y host z n name)
  show ?case
  proof (rule emits_conseq [OF emits_hook_then_host])
    fix x es'
    assume s: "settles (host_of_ctx E cx host) x es'"
    have f: "list_ex (found_own (child_marker E (cx_child cx)) c i) es" if "host_of_ctx E cx host c i" for c i
      using that 2 by (auto simp: host_of_ctx_def list_ex_iff found_host_def found_own_def dest!: bspec) blast?
    have "list_all (\<lambda>e. \<not> is_host_delete e) es'" if "cx_retain cx"
      using s that by (auto simp: settles_def list_all_iff deletes_in_def host_of_ctx_def elim!: is_host_delete.elims)
    moreover have "deletes_found (found_own (child_marker E (cx_child cx))) (es @ es')"
      by (rule deletes_after [where D = "host_of_ctx E cx host"]) (use 2 s f in \<open>simp_all add: settles_def\<close>)
    ultimately show "own_deletes E (cx_child cx) x (es @ es')"
      using 2 s assms by (auto simp: own_deletes_def settles_def)
  qed
qed

lemma emits_cleanup_live_own: "emits (cleanup_live_child E u child) (own_deletes E child)"
proof -
  have nil: "emits (ret x) (own_deletes E child)" for x
    by (rule emits_own_quiet) (rule only_return)
  have gu: "emits (give_up E u child st hook reason) (own_deletes E child)" for st hook reason
    unfolding give_up_def by (rule emits_own_quiet) (intro only_bind only_return keep_report)
  have ci: "emits (cleanup_in_instance E cx al st) (own_deletes E child)"
    if "cx_child cx = child" "cx_retain cx \<longleftrightarrow> vs_CleanupPolicy (ch_spec child) = CleanupPolicyRetain" for cx al st
  proof -
    have h: "emits (cleanup_host E cx al st) (own_deletes E child)" for al st
      using emits_cleanup_host_own [of cx E] that by simp
    show ?thesis
      unfolding cleanup_in_instance_def by (intro emits_if h own_bind [OF keep_hook(2)] emits_prod emits_sum nil)
  qed
  have g: "keeps_hosts (getAWXConnection E ns n)" "keeps_hosts (awxClientForConnection E conn)" for ns n conn
    by (auto intro!: only_intros)
  have cc: "emits (cleanup_connect E u child al st) (own_deletes E child)" for al st
    unfolding cleanup_connect_def Let_def
    by (intro own_bind [OF g(1)] own_bind [OF g(2)] emits_sum emits_if emits_prod nil gu ci) simp_all
  have sh: "keeps_hosts (startHookClock E u child st hook)" "keeps_hosts (expire_hook E al st)" for st hook al
    unfolding startHookClock_def expire_hook_def Let_def by (auto intro!: only_intros only_writeVM keep_reads)
  show ?thesis
    unfolding cleanup_live_child_def Let_def
    by (intro emits_option cc own_bind [OF sh(1)])
      (auto simp: split_beta intro!: emits_option own_bind [OF sh(2)] nil cc)
qed

text \<open>
  A finalizing pass deletes no host but one it looked up earlier in this pass and found to carry the marker of the
  child's own binding, none under the policy \<open>Retain\<close>, and none while the hook is not over. A child with a hook is
  read again first, and it is that copy, when it decodes, whose policy and marker count.
\<close>

definition finalizing_deletes :: "env \<Rightarrow> unstr \<Rightarrow> gerr + CleanupResult \<Rightarrow> event list \<Rightarrow> bool" where
  "finalizing_deletes E u r es \<longleftrightarrow> (case convertAnsibleBindingVM u of
     Inl err \<Rightarrow> es = []
   | Inr child \<Rightarrow>
       if ch_Spec child = None then es = []
       else if vs_OnDeleted (ch_spec child) = None then own_deletes E child r es
       else (\<exists>a rest. es = EGet AnsBindVMGVR (ch_ns child) (md_Name (ch_meta child)) a # rest \<and>
         (case a of Inl e \<Rightarrow> rest = [] | Inr fresh \<Rightarrow> own_deletes E (live_child child fresh) r rest)))"

lemma emits_finalizing_deletes: "emits (cleanupAnsibleBindingVM E u) (finalizing_deletes E u)"
proof (cases "convertAnsibleBindingVM u")
  case (Inl err)
  then show ?thesis
    unfolding cleanupAnsibleBindingVM_def by (simp add: emits_return finalizing_deletes_def)
next
  case c: (Inr child)
  show ?thesis
  proof (cases "ch_Spec child = None \<or> vs_OnDeleted (ch_spec child) = None")
    case True
    then show ?thesis
      unfolding cleanupAnsibleBindingVM_def finalizing_deletes_def c sum.case
      by (cases "ch_Spec child = None")
        (auto intro!: emits_if emits_return emits_cleanup_live_own own_deletes_quiet)
  next
    case False
    let ?g = "EGet AnsBindVMGVR (ch_ns child) (md_Name (ch_meta child))"
    let ?R = "\<lambda>x es. \<exists>a rest. es = ?g a # rest \<and>
      (case a of Inl e \<Rightarrow> rest = [] | Inr fresh \<Rightarrow> own_deletes E (live_child child fresh) x rest)"
    have "emits (k8s_Get E AnsBindVMGVR (ch_ns child) (md_Name (ch_meta child)) \<bind> (\<lambda>g. case g of
               Inl gErr \<Rightarrow>
                 if isNotFound gErr then ret finished
                 else ret (Inl (errorw f_cl_reread [md_Name (ch_meta child)] gErr))
             | Inr fresh \<Rightarrow> (case convertAnsibleBindingVM fresh of
                   Inl err \<Rightarrow> cleanup_live_child E u child
                 | Inr refreshed \<Rightarrow>
                     if ch_Spec refreshed = None then cleanup_live_child E u child
                     else cleanup_live_child E fresh refreshed))) ?R"
    proof (rule emits_bind [OF does_Get], elim exE conjE, intro emits_sum emits_if emits_return, goal_cases)
      case (1 r es a err)
      then show ?case by (cases a) auto
    next
      case (2 r es a err)
      then show ?case by (cases a) auto
    qed (rule emits_conseq [OF emits_cleanup_live_own], auto simp: live_child_def)+
    moreover from False have "\<not> ch_Spec child = None" "\<not> vs_OnDeleted (ch_spec child) = None" by simp_all
    ultimately show ?thesis
      unfolding cleanupAnsibleBindingVM_def finalizing_deletes_def c sum.case by (simp only: if_False)
  qed
qed

section \<open>When a hook is looked at again\<close>

text \<open>A pass that leaves the hook unfinished comes back after at least a second, and before 18 seconds are over.\<close>

definition soon :: "gerr + CleanupResult \<Rightarrow> bool" where
  "soon r \<longleftrightarrow> (\<forall>x. r = Inr x \<longrightarrow> \<not> cr_Done x \<longrightarrow>
     nanos_per_second \<le> cr_RequeueAfter x \<and> cr_RequeueAfter x < hookPollInterval + hookPollJitter)"

definition yields :: "'a prog \<Rightarrow> ('a \<Rightarrow> bool) \<Rightarrow> bool" where
  "yields m \<Phi> \<longleftrightarrow> emits m (\<lambda>r _. \<Phi> r)"

lemma yields_bind: "only K m \<Longrightarrow> (\<And>a. yields (f a) \<Phi>) \<Longrightarrow> yields (m \<bind> f) \<Phi>"
  unfolding yields_def by (rule emits_bind [OF emits_only]) simp_all

lemma yields_then: "yields m \<Psi> \<Longrightarrow> (\<And>a. \<Psi> a \<Longrightarrow> yields (f a) \<Phi>) \<Longrightarrow> yields (m \<bind> f) \<Phi>"
  unfolding yields_def by (rule emits_bind)

lemma yields_return: "\<Phi> x \<Longrightarrow> yields (ret x) \<Phi>"
  unfolding yields_def by (rule emits_return)

lemma yields_if: "(c \<Longrightarrow> yields m \<Phi>) \<Longrightarrow> (\<not> c \<Longrightarrow> yields n \<Phi>) \<Longrightarrow> yields (if c then m else n) \<Phi>"
  by simp

lemma yields_option: "(x = None \<Longrightarrow> yields m \<Phi>) \<Longrightarrow> (\<And>y. x = Some y \<Longrightarrow> yields (f y) \<Phi>) \<Longrightarrow>
    yields (case x of None \<Rightarrow> m | Some y \<Rightarrow> f y) \<Phi>"
  by (cases x) auto

lemma yields_sum: "(\<And>y. x = Inl y \<Longrightarrow> yields (f y) \<Phi>) \<Longrightarrow> (\<And>y. x = Inr y \<Longrightarrow> yields (g y) \<Phi>) \<Longrightarrow>
    yields (case x of Inl y \<Rightarrow> f y | Inr y \<Rightarrow> g y) \<Phi>"
  by (cases x) auto

lemma yields_prod: "(\<And>y z. x = (y, z) \<Longrightarrow> yields (f y z) \<Phi>) \<Longrightarrow> yields (case x of (y, z) \<Rightarrow> f y z) \<Phi>"
  by (cases x) auto

lemmas yields_rules = yields_return yields_if yields_option yields_sum yields_prod

lemma soon_simps [simp]: "soon (Inl e)" "soon (Inr hook_finished)" "soon finished" "cr_Done x \<Longrightarrow> soon (Inr x)"
  by (simp_all add: soon_def hook_finished_def finished_def)

lemma yields_hookRequeue:
  "yields (hookRequeue E dep) (\<lambda>d. nanos_per_second \<le> d \<and> d < hookPollInterval + hookPollJitter)"
proof -
  have r: "emits (rand_Int63n E hookPollJitter) (\<lambda>j _. 0 \<le> j \<and> j < hookPollJitter)"
    unfolding rand_Int63n_def by (simp add: emits_def ask_def Let_def hookPollJitter_def)
  show ?thesis
    unfolding hookRequeue_def yields_def Let_def
    by (rule emits_bind [OF r], intro emits_option emits_return emits_bind [OF does_Now])
      (auto simp: hookPollInterval_def hookPollJitter_def)
qed

lemma soon_requeue:
  "nanos_per_second \<le> d \<and> d < hookPollInterval + hookPollJitter \<Longrightarrow> soon (Inr \<lparr>cr_Done = False, cr_RequeueAfter = d\<rparr>)"
  by (simp add: soon_def)

lemma yields_waiting: "yields (hook_waiting E u child st dep ph msg) (\<lambda>r. soon (snd r))"
  unfolding hook_waiting_def Let_def
  by (intro yields_bind [OF keep_reads(5)] yields_rules yields_then [OF yields_hookRequeue]) (auto intro: soon_requeue)

lemma yields_poll: "yields (pollDeprovisionJob E u child st dep c ep) (\<lambda>r. soon (snd r))"
proof -
  have k: "keeps_hosts (pollJobStatus E c ty i)" for ty i by (intro only_one_request) simp
  show ?thesis
    unfolding pollDeprovisionJob_def Let_def
    by (intro yields_rules yields_bind [OF k] yields_waiting) (auto simp: settle_hook_def conclude_hook_def)
qed

lemma yields_submit: "yields (submitDeprovisionHook E u child st dep hook c tmpl lim ep) (\<lambda>r. soon (snd r))"
proof -
  have k: "keeps_hosts (if b then LaunchWorkflowJobTemplate E c i lim v else LaunchJobTemplate E c i lim v)" for b i v
    by (intro only_if only_launches) simp_all
  show ?thesis
    unfolding submitDeprovisionHook_def record_hook_job_def Let_def
    by (intro yields_bind [OF keep_reads(5)] yields_bind [OF k] yields_rules yields_then [OF yields_hookRequeue])
      (auto simp: settle_hook_def intro: soon_requeue)
qed

lemma yields_hook_turn: "yields (hook_turn E cx hook mode host n name st) (\<lambda>r. soon (snd (snd r)))"
proof -
  have k: "keeps_hosts (resolveTemplate E c ref)" "keeps_hosts (time_Now E)" for c ref
    by (intro only_resolveTemplate only_prims; simp)+
  show ?thesis
    unfolding hook_turn_def runDeprovisionHook_def advance_hook_def launchDeprovisionHook_def Let_def
    by (intro yields_rules yields_bind [OF keep_reads(1)] yields_bind [OF k(1)] yields_bind [OF k(2)] yields_bind [OF keep_reads(4)]
        yields_bind [OF keep_reads(5)] yields_bind [OF keep_reads(6)] yields_bind [OF keep_hook(4)]
        yields_then [OF yields_waiting] yields_then [OF yields_poll] yields_then [OF yields_submit])
      (simp_all add: settle_hook_def)
qed

lemma yields_releases:
  "yields (finishHookless E u child st hook reason) cr_Done" "yields (releaseWithoutHost E u child al st err) cr_Done"
proof -
  have k: "keeps_hosts (case x of None \<Rightarrow> reportHookOutcome E u child st
      | Some dep \<Rightarrow> if dp_HostPinned dep then (let dep' = g dep in reportHookOutcome E u (alias_child al child dep') (with_dep st dep'))
          else reportHookOutcome E u child st)" for x g
    unfolding Let_def by (intro only_option only_if keep_report)
  show "yields (finishHookless E u child st hook reason) cr_Done"
    unfolding finishHookless_def by (intro yields_bind [where K = "\<lambda>e. \<not> is_host_delete e"] yields_return only_if only_return keep_report) simp
  show "yields (releaseWithoutHost E u child al st err) cr_Done"
    unfolding releaseWithoutHost_def by (intro yields_bind [OF k] yields_return) simp
qed

lemma yields_after_hook: "yields (after_hook E cx hostErr host name st) soon"
proof -
  have d: "only (\<lambda>_. True) (if b then DeleteHost E c i else ret None)" for b c i
    by (intro only_if only_return only_one_request) simp
  show ?thesis
    unfolding after_hook_def settle_host_def delete_then_report_def
    by (intro yields_rules yields_bind [OF keep_report(1)] yields_bind [OF keep_report(2)] yields_bind [OF keep_reads(7)]
        yields_bind [OF d] yields_then [OF yields_releases(2)]) simp_all
qed

lemma yields_cleanup_host: "yields (cleanup_host E cx al st) soon"
proof -
  have h: "yields (hook_then_host E cx mode e host n name st) soon" for mode e host n name
    unfolding hook_then_host_def
    by (intro yields_rules yields_then [OF yields_hook_turn] yields_after_hook) (auto simp: soon_def)
  show ?thesis
    unfolding cleanup_host_def host_lookup_failed_def detach_without_host_def Let_def
    by (intro yields_rules yields_bind [OF keep_reads(2)] yields_bind [OF keep_reads(1)] yields_bind [OF keep_report(1)]
        yields_then [OF yields_releases(1)] yields_then [OF yields_releases(2)] h) simp_all
qed

lemma yields_cleanupAnsibleBindingVM: "yields (cleanupAnsibleBindingVM E u) soon"
proof -
  have i: "yields (cleanup_in_instance E cx al st) soon" for cx al st
    unfolding cleanup_in_instance_def
    by (intro yields_rules yields_then [OF yields_poll] yields_cleanup_host) auto
  have k: "keeps_hosts (getAWXConnection E ns n)" "keeps_hosts (awxClientForConnection E conn)" "keeps_hosts (k8s_Get E g ns n)" for ns n conn g
    by (auto intro!: only_intros)
  have c: "yields (cleanup_connect E u child al st) soon" for u child al st
    unfolding cleanup_connect_def give_up_def Let_def
    by (intro yields_rules yields_bind [OF k(1)] yields_bind [OF k(2)] yields_then [OF yields_releases(1)] i) simp_all
  have sh: "keeps_hosts (startHookClock E u child st hook)" "keeps_hosts (expire_hook E al st)" for u child st hook al
    unfolding startHookClock_def expire_hook_def Let_def by (auto intro!: only_intros only_writeVM keep_reads)
  have l: "yields (cleanup_live_child E u child) soon" for u child
    unfolding cleanup_live_child_def Let_def
    by (intro yields_option c yields_bind [OF sh(1)])
      (auto simp: split_beta intro!: yields_option yields_bind [OF sh(2)] yields_return c)
  show ?thesis
    unfolding cleanupAnsibleBindingVM_def
    by (intro yields_rules yields_bind [OF k(3)] l) simp_all
qed

section \<open>The controller in the loop\<close>

lemma vm_writeVM: "only vm_event (writeAnsibleBindingVMDetails E u st)"
  by (rule only_writeVM) simp

lemma vm_reports: "only vm_event (persistHookState E u child st)" "only vm_event (reportHookOutcome E u child st)"
  "only vm_event (finishHookless E u child st hook reason)" "only vm_event (releaseWithoutHost E u child al st err)"
  unfolding releaseWithoutHost_def finishHookless_def reportHookOutcome_def persistHookState_def eventTarget_def recordEvent_def Let_def
  by (auto intro!: only_intros vm_writeVM)

lemma vm_reads: "only vm_event (vmIsGone E child)" "only vm_event (discoverCleanupHost E c conn child st)"
  "only vm_event (hookRequeue E dep)" "only vm_event (overdue E d)" "only vm_event (persist_dep E u child st dep)"
  "only vm_event (wait_for_provisioning E child st dep)" "only vm_event (take_off_override E cx host hn st)"
  unfolding vmIsGone_def discoverCleanupHost_def find_cleanup_host_def hookRequeue_def overdue_def persist_dep_def
    take_off_override_def restore_pin_def Let_def wait_for_provisioning_def
  by (auto intro!: only_intros vm_writeVM vm_poll)

lemma vm_hook: "only vm_event (hook_waiting E u child st dep ph msg)" "only vm_event (pollDeprovisionJob E u child st dep c ep)"
  "only vm_event (submitDeprovisionHook E u child st dep hook c tmpl lim ep)" "only vm_event (pin_host E u child st dep c h ep)"
  unfolding pollDeprovisionJob_def hook_waiting_def submitDeprovisionHook_def record_hook_job_def pin_host_def Let_def
  by (auto intro!: only_intros vm_reads)

lemma vm_cleanup_host: "only vm_event (cleanup_host E cx al st)"
proof -
  have turn: "only vm_event (hook_turn E cx hook mode host n name st)" for hook mode host n name st
    unfolding hook_turn_def runDeprovisionHook_def advance_hook_def launchDeprovisionHook_def Let_def
    by (intro only_bind only_sum only_option only_if only_return only_prod vm_reads vm_hook only_prims only_resolveTemplate) simp_all
  have h: "only vm_event (hook_then_host E cx mode e host n name st)" for mode e host n name st
    unfolding hook_then_host_def after_hook_def settle_host_def delete_then_report_def
    by (intro only_option only_bind only_prod only_sum only_if only_return turn vm_reports vm_reads only_one_request) simp_all
  show ?thesis
    unfolding cleanup_host_def host_lookup_failed_def detach_without_host_def Let_def
    by (intro only_option only_bind only_prod only_sum only_if only_return vm_reports vm_reads h)
qed

lemma vm_cleanupAnsibleBindingVM: "only vm_event (cleanupAnsibleBindingVM E u)"
proof -
  have c: "only vm_event (cleanup_connect E u child al st)" for u child al st
    unfolding cleanup_connect_def cleanup_in_instance_def give_up_def Let_def
    by (intro only_option only_bind only_prod only_sum only_if only_return vm_reports vm_hook vm_cleanup_host
        only_getAWXConnection only_awxClientForConnection) simp_all
  have sh: "only vm_event (startHookClock E u child st hook)" "only vm_event (expire_hook E al st)" for u child st hook al
    unfolding startHookClock_def expire_hook_def Let_def by (auto intro!: only_intros vm_writeVM vm_reads)
  have l: "only vm_event (cleanup_live_child E u child)" for u child
    unfolding cleanup_live_child_def Let_def
    by (intro only_option c only_bind sh) (auto simp: split_beta intro!: only_option only_bind only_return sh c)
  show ?thesis
    unfolding cleanupAnsibleBindingVM_def
    by (intro only_sum only_if only_return only_bind l only_prims) simp_all
qed

text \<open>The loop's laws hold of the VM controller, and its finalizer list settles in one rewrite.\<close>

interpretation vm_loop: finalizing_reconciler E "ansBindVMController E" vm_event for E
proof unfold_locales
  fix u
  show "only vm_event (c_provisionFunc (ansBindVMController E) u)"
    by (simp add: ansBindVMController_def vm_applyAnsibleBindingVM)
  show "c_cleanupFunc (ansBindVMController E) = Some f \<Longrightarrow> only vm_event (f u)" for f
    by (auto simp: ansBindVMController_def vm_cleanupAnsibleBindingVM)
  show "only is_clock (c_updateStatusFunc (ansBindVMController E) u ok err)" for ok err
    unfolding ansBindVMController_def updateAnsibleBindingVMStatus_def
    by (auto intro!: only_intros clock_updateGenericStatus split: prod.split)
next
  show "vm_event e \<Longrightarrow> \<not> is_fin_patch e" for e by (cases e rule: is_fin_patch.cases) auto
qed

interpretation vm_policy: settled_policy "holdFinalizers (ansBindVMController E)"
    "releaseFinalizers (ansBindVMController E)" "needs_update (ansBindVMController E)"
    "own_finalizers (ansBindVMController E)" "set (c_staleFinalizers (ansBindVMController E))" for E
  by unfold_locales (simp add: ansBindVMController_def)

lemma vm_gvr [simp]: "c_gvr (ansBindVMController E) = AnsBindVMGVR"
  by (simp add: ansBindVMController_def)

text \<open>Nothing goes to AWX before the finalizer is on.\<close>

lemma http_not_loop: "is_http e \<Longrightarrow> \<not> loop_event g e"
  by (cases e rule: is_http.cases) auto

lemmas vm_finalizer_first = emitsD [OF vm_loop.finalizer_first [where X = is_http, OF http_not_loop, unfolded guards_def vm_gvr]]

end
