(* ===== verification/VMHistory.thy ===== *)
theory VMHistory
  imports VMProofs RunHistory
begin

text \<open>
  A VM's child over any number of provisioning passes for one generation and trigger of its binding, where every launch
  that AWX does not refuse counts: one answered with a job, one answered with a server error, one whose answer was lost.
  A pass reads what the record says. One that sends no such launch may be cut short and its writes lost; one that sends
  it is taken to be answered with the job, and its record of that to reach the API server. Unlike a run, a child has no
  marker to fall back on where that fails. Then AWX is sent at most one launch that it does not refuse.
\<close>

section \<open>What the record says of the run\<close>

definition run_key :: "AnsibleBindingVMStatus \<Rightarrow> int \<times> int \<times> string" where
  "run_key st = (vt_LastJobID st, vt_AppliedGeneration st, vt_AppliedTrigger st)"

definition ran_for :: "int \<Rightarrow> string \<Rightarrow> AnsibleBindingVMStatus \<Rightarrow> bool" where
  "ran_for g t st \<longleftrightarrow> vt_LastJobID st \<noteq> 0 \<and> vt_AppliedGeneration st = g \<and> vt_AppliedTrigger st = t"

lemma needsRun_ran_for: "needsRun st sp \<longleftrightarrow> \<not> ran_for (vs_BindingGeneration sp) (vs_BindingTrigger sp) st"
  by (auto simp: needsRun_def ran_for_def)

lemma ran_for_key: "run_key a = run_key b \<Longrightarrow> ran_for g t a = ran_for g t b"
  by (simp add: run_key_def ran_for_def)

text \<open>A pass leaves the three as it read them, or says that the child ran for what its spec asks.\<close>

definition run_kept :: "AnsibleBindingVMSpec \<Rightarrow> (int \<times> int \<times> string) \<Rightarrow> AnsibleBindingVMStatus \<Rightarrow> bool" where
  "run_kept sp k st \<longleftrightarrow> run_key st = k \<or> \<not> needsRun st sp"

fun keeps_run :: "AnsibleBindingVMSpec \<Rightarrow> (int \<times> int \<times> string) \<Rightarrow> event \<Rightarrow> bool" where
  "keeps_run sp k (EApplyStatus g ns n (PChild d) fm a) = run_kept sp k d"
| "keeps_run sp k e = True"

lemma run_key_details [simp]: "run_key (vmDetailsOf st) = run_key st"
  by (simp add: run_key_def vmDetailsOf_def strip_generic_def)

lemma run_kept_details [simp]: "run_kept sp k (vmDetailsOf st) = run_kept sp k st"
  by (simp add: run_kept_def)

lemma keeps_write: "run_kept sp k st \<Longrightarrow> only (keeps_run sp k) (writeAnsibleBindingVMDetails E u st)"
  by (rule only_writeVM) simp

section \<open>The pass\<close>

text \<open>\<open>delivers K Q m\<close>: every event of \<open>m\<close> satisfies \<open>K\<close>, and its result \<open>Q\<close>.\<close>

definition delivers :: "(event \<Rightarrow> bool) \<Rightarrow> ('a \<Rightarrow> bool) \<Rightarrow> 'a prog \<Rightarrow> bool" where
  "delivers K Q m \<longleftrightarrow> emits m (\<lambda>r es. Q r \<and> list_all K es)"

lemma delivers_return: "Q a \<Longrightarrow> delivers K Q (ret a)"
  by (simp add: delivers_def emits_return)

lemma delivers_bind: "delivers K R m \<Longrightarrow> (\<And>a. R a \<Longrightarrow> delivers K Q (f a)) \<Longrightarrow> delivers K Q (m \<bind> f)"
  unfolding delivers_def by (erule emits_bind, rule emits_conseq) auto

lemma delivers_any: "only K m \<Longrightarrow> delivers K (\<lambda>_. True) m"
  unfolding delivers_def by (rule emits_conseq [OF emits_only]) auto

lemmas delivers_quiet = delivers_bind [OF delivers_any]

lemma delivers_if: "(c \<Longrightarrow> delivers K Q m) \<Longrightarrow> (\<not> c \<Longrightarrow> delivers K Q n) \<Longrightarrow> delivers K Q (if c then m else n)"
  and delivers_option: "(x = None \<Longrightarrow> delivers K Q m) \<Longrightarrow> (\<And>y. x = Some y \<Longrightarrow> delivers K Q (f y)) \<Longrightarrow>
    delivers K Q (case x of None \<Rightarrow> m | Some y \<Rightarrow> f y)"
  and delivers_sum: "(\<And>y. z = Inl y \<Longrightarrow> delivers K Q (g y)) \<Longrightarrow> (\<And>y. z = Inr y \<Longrightarrow> delivers K Q (h y)) \<Longrightarrow>
    delivers K Q (case z of Inl y \<Rightarrow> g y | Inr y \<Rightarrow> h y)"
  and delivers_prod: "(\<And>a b. p = (a, b) \<Longrightarrow> delivers K Q (k a b)) \<Longrightarrow> delivers K Q (case p of (a, b) \<Rightarrow> k a b)"
  by (simp, cases x, simp_all, cases z, simp_all, cases p, simp)

lemma delivers_conseq: "delivers K R m \<Longrightarrow> (\<And>a. R a \<Longrightarrow> Q a) \<Longrightarrow> delivers K Q m"
  unfolding delivers_def by (erule emits_conseq) auto

lemmas delivers_intros = delivers_return delivers_if delivers_option delivers_sum delivers_prod

lemma keeps_recover_host:
  "run_key st = k \<Longrightarrow> delivers (keeps_run sp k) (\<lambda>r. \<forall>st'. r = Inr st' \<longrightarrow> run_key st' = k) (recover_host E c m ch st)"
  unfolding recover_host_def
  by (intro delivers_intros delivers_quiet only_one_request) (auto simp: run_key_def split: sum.splits option.splits)

lemma keeps_retire_host:
  "run_key st = k \<Longrightarrow> delivers (keeps_run sp k) (\<lambda>r. \<forall>st'. r = Inr st' \<longrightarrow> run_key st' = k) (retire_host E c p ch st)"
  unfolding retire_host_def
  by (intro delivers_intros delivers_quiet only_if only_one_request only_return) (auto simp: run_key_def split: option.splits)

lemma keeps_record_intent:
  "run_key st = k \<Longrightarrow> delivers (keeps_run sp k) (\<lambda>r. run_key (fst r) = k) (record_intent E u child hn i st)"
  unfolding record_intent_def Let_def
  by (intro delivers_intros delivers_quiet keeps_write) (auto simp: run_key_def run_kept_def)

lemma keeps_upsert_host:
  "run_key st = k \<Longrightarrow> delivers (keeps_run sp k) (\<lambda>r. run_key (fst r) = k) (upsert_host E c m hn i vars st)"
  unfolding upsert_host_def
  by (intro delivers_intros delivers_quiet only_host_writes) (auto simp: run_key_def split: sum.splits prod.splits)

lemma keeps_reconcile_host:
  assumes "run_key st = k"
  shows "delivers (keeps_run sp k) (\<lambda>r. run_key (fst r) = k) (reconcile_host E u child c hn i ip st)"
  unfolding reconcile_host_def Let_def
  by (rule delivers_bind [OF keeps_recover_host [OF assms]], intro delivers_intros, simp add: assms,
      rule delivers_bind [OF keeps_retire_host], simp, intro delivers_intros, simp,
      rule delivers_bind [OF keeps_record_intent], simp, intro delivers_intros keeps_upsert_host) auto

lemma keeps_launch_vm:
  assumes "run_key st = k"
  shows "delivers (keeps_run sp k) (\<lambda>r. run_kept sp k (vo_st r)) (launch_vm E sp conn c tmpl lim st)"
proof -
  have phase: "run_kept sp k (x\<lparr>vt_Phase := p\<rparr>) = run_kept sp k x" for x p
    by (simp add: run_kept_def run_key_def needsRun_def)
  have job: "delivers (keeps_run sp k) (run_kept sp k)
      (if j \<noteq> 0 then do { now \<leftarrow> nowRFC3339 E; ret (record_vm_job sp conn c j now st) } else ret st)" for j
    by (intro delivers_intros delivers_quiet only_prims)
      (use assms record_vm_job_settles in \<open>auto simp: run_kept_def\<close>)
  show ?thesis
    unfolding launch_vm_def
    by (rule delivers_quiet, (intro only_if only_launches; simp), rule delivers_prod, rule delivers_bind [OF job],
        rule delivers_return) (simp add: phase)
qed

lemma keeps_host_then_run:
  assumes "run_key st = k"
  shows "delivers (keeps_run (ch_spec child) k) (\<lambda>r. run_kept (ch_spec child) k (vo_st r))
    (host_then_run E u child conn c bp tmpl wants ip st)"
proof -
  have host: "delivers (keeps_run (ch_spec child) k) (\<lambda>r. run_key (fst r) = k) (case tp_Inventory tmpl of
      None \<Rightarrow> ret (st, None) | Some i \<Rightarrow> reconcile_host E u child c hn i ip st)" for hn
    by (intro delivers_intros keeps_reconcile_host) (simp_all add: assms)
  have check: "run_key (x\<lparr>vt_LastHostCheck := t\<rparr>) = run_key x" for x t
    by (simp add: run_key_def)
  show ?thesis
    unfolding host_then_run_def Let_def vm_fail_def
    by (rule delivers_bind [OF host], intro delivers_intros delivers_quiet only_prims keeps_launch_vm)
      (auto simp: run_kept_def check)
qed

lemma keeps_run_in_awx:
  assumes "run_key st = k"
  shows "delivers (keeps_run (ch_spec child) k) (\<lambda>r. run_kept (ch_spec child) k (vo_st r)) (run_in_awx E u child wants ip st)"
proof -
  have settle: "run_key (settle_endpoint e x) = run_key x" for e x
    by (simp add: settle_endpoint_def run_key_def)
  have conn: "only (keeps_run sp k) (connect_vm E child)" for sp
    by (rule only_mono [OF only_connect_vm]) (auto elim!: poll_event.elims)
  show ?thesis
    unfolding run_in_awx_def Let_def vm_fail_def
    by (rule delivers_quiet [OF conn], intro delivers_intros delivers_quiet only_if only_resolveTemplates keeps_host_then_run)
      (use assms in \<open>auto simp: run_kept_def settle\<close>)
qed

lemma keeps_poll_in_flight:
  assumes "run_key st = k"
  shows "delivers (keeps_run sp k) (\<lambda>r. case r of Inl out' \<Rightarrow> run_key (vo_st out') = k | Inr st' \<Rightarrow> run_key st' = k)
    (poll_in_flight E child prior st)"
proof -
  have poll: "only (keeps_run sp k) (pollRecordedJob E child prior)"
    by (rule only_mono [OF only_pollRecordedJob]) (auto elim!: poll_event.elims)
  show ?thesis
    unfolding poll_in_flight_def Let_def
    by (rule delivers_quiet [OF poll], intro delivers_intros delivers_quiet only_prims) (use assms in \<open>auto simp: run_key_def\<close>)
qed

lemma keeps_vm_pass:
  assumes "run_key st = k"
  shows "delivers (keeps_run (ch_spec child) k) (\<lambda>r. run_kept (ch_spec child) k (vo_st r)) (vm_pass E u child prior st ip ready)"
proof -
  have pend: "run_key (pending_if_never_ran x) = run_key x" for x
    by (simp add: pending_if_never_ran_def run_key_def)
  have poll: "delivers (keeps_run sp k) (\<lambda>r. case r of Inl out' \<Rightarrow> run_key (vo_st out') = k | Inr st' \<Rightarrow> run_key st' = k)
      (if f then poll_in_flight E child prior st else ret (Inr st))" for sp f
    by (intro delivers_intros keeps_poll_in_flight) (simp_all add: assms)
  show ?thesis
    unfolding vm_pass_def Let_def vm_finish_def
    by (rule delivers_quiet, rule only_dueFor, simp, intro delivers_intros delivers_bind [OF poll] keeps_run_in_awx)
      (use assms in \<open>auto simp: run_kept_def pend split: sum.splits\<close>)
qed

lemma keeps_applyAnsibleBindingVM:
  assumes "check_child E u = Inr (child, uid)"
  shows "only (keeps_run (ch_spec child) (run_key (priorVMState child))) (applyAnsibleBindingVM E u)"
proof -
  let ?K = "keeps_run (ch_spec child) (run_key (priorVMState child))"
  have k: "run_key ((initial_vm_status p)\<lparr>vt_ObservedIP := ip\<rparr>) = run_key p" for p ip
    by (simp add: initial_vm_status_def run_key_def)
  have "delivers ?K (\<lambda>_. True) (reconcile_vm E u child vm)" for vm
    unfolding reconcile_vm_def Let_def
    by (intro delivers_prod, rule delivers_bind [OF keeps_vm_pass [OF k]])
      (auto simp: finish_vm_def intro!: delivers_any only_bind only_if only_return keeps_write)
  then have r: "only ?K (reconcile_vm E u child vm)" for vm
    unfolding delivers_def only_def by (rule emits_conseq) simp
  show ?thesis
    unfolding applyAnsibleBindingVM_def assms sum.case prod.case
    by (intro only_bind only_prims only_sum only_if only_return r) simp
qed

section \<open>The life of a child\<close>

fun child_may_become :: "AnsibleBindingVMStatus \<Rightarrow> event \<Rightarrow> AnsibleBindingVMStatus set" where
  "child_may_become s (EApplyStatus g ns n (PChild d) fm a) = (if a = None then {d} else {s, d})"
| "child_may_become s _ = {s}"

fun child_evolves :: "AnsibleBindingVMStatus \<Rightarrow> event list \<Rightarrow> AnsibleBindingVMStatus \<Rightarrow> bool" where
  "child_evolves s [] s' = (s' = s)"
| "child_evolves s (e # es) s' = (\<exists>m \<in> child_may_become s e. child_evolves m es s')"

text \<open>A launch answered with a job.\<close>

fun starts_job :: "event \<Rightarrow> bool" where
  "starts_job (EHttp c (RqLaunch iw i b) a) = (launched_id (if iw then lr_WorkflowJob else lr_Job) a \<noteq> 0)"
| "starts_job _ = False"

text \<open>No launch is left open: each was refused or answered with its job.\<close>

definition all_answered :: "event list \<Rightarrow> bool" where
  "all_answered es \<longleftrightarrow> list_all (\<lambda>e. is_launch e \<longrightarrow> refused_launch e \<or> starts_job e) es"

text \<open>The last call was a write of the record, and it was applied.\<close>

fun is_applied :: "event \<Rightarrow> bool" where
  "is_applied (EApplyStatus g ns n (PChild d) fm None) = True"
| "is_applied _ = False"

definition last_applied :: "event list \<Rightarrow> bool" where
  "last_applied es \<longleftrightarrow> es \<noteq> [] \<and> is_applied (last es)"

inductive child_history :: "env \<Rightarrow> int \<Rightarrow> string \<Rightarrow> AnsibleBindingVMStatus \<Rightarrow> nat \<Rightarrow> bool" for E :: env and g :: int and t :: string where
  child_start: "child_history E g t s 0"
| child_pass: "child_history E g t s n \<Longrightarrow> check_child E u = Inr (child, uid) \<Longrightarrow>
    vs_BindingGeneration (ch_spec child) = g \<Longrightarrow> vs_BindingTrigger (ch_spec child) = t \<Longrightarrow>
    run_key (priorVMState child) = run_key s \<Longrightarrow>
    es = take k (events_of (applyAnsibleBindingVM E u) w) \<Longrightarrow>
    accepted es = 0 \<or> es = events_of (applyAnsibleBindingVM E u) w \<and> all_answered es \<and> last_applied es \<Longrightarrow>
    child_evolves s es s' \<Longrightarrow> child_history E g t s' (n + accepted es)"

lemma child_evolves_kept: "list_all (keeps_run sp k) es \<Longrightarrow> run_kept sp k s \<Longrightarrow> child_evolves s es s' \<Longrightarrow> run_kept sp k s'"
proof (induction es arbitrary: s)
  case (Cons e es)
  then obtain m where m: "m \<in> child_may_become s e" "child_evolves m es s'" by auto
  with Cons.prems have "run_kept sp k m" by (cases "(s, e)" rule: child_may_become.cases) (auto split: if_splits)
  with Cons m show ?case by auto
qed simp

lemma child_evolves_append: "child_evolves s (xs @ ys) s' \<longleftrightarrow> (\<exists>m. child_evolves s xs m \<and> child_evolves m ys s')"
  by (induction xs arbitrary: s) auto

lemma evolves_last:
  assumes "child_evolves s (xs @ [EApplyStatus g ns n (PChild d) fm a]) s'" and "last_applied (xs @ [EApplyStatus g ns n (PChild d) fm a])"
  shows "s' = d"
  using assms by (cases a) (auto simp: last_applied_def child_evolves_append)

lemma accepted_take: "accepted (take k es) \<le> accepted es"
  by (metis accepted_append append_take_drop_id le_add1)

lemma accepted_launches: "accepted es \<le> length (filter is_launch es)"
  unfolding accepted_def by (induction es) auto

lemma accepted_started:
  assumes "accepted es \<noteq> 0" "all_answered es"
  obtains pre c iw i b a post where "es = pre @ EHttp c (RqLaunch iw i b) a # post"
    "launched_id (if iw then lr_WorkflowJob else lr_Job) a \<noteq> 0"
proof -
  from assms(1) obtain e where e: "e \<in> set es" "is_launch e" "\<not> refused_launch e"
    by (auto simp: accepted_def filter_empty_conv)
  with assms(2) have "starts_job e" by (auto simp: all_answered_def list_all_iff)
  with e(1) that show ?thesis by (auto dest!: split_list elim!: starts_job.elims)
qed

text \<open>What a whole pass does, whatever the VM's read answered: at most one launch, one the record wants, and recorded.\<close>

lemma pass_jobs:
  assumes pass: "child_pass E u es" and c: "check_child E u = Inr (child, uid)"
  shows "accepted es \<le> 1 \<and> (\<not> needsRun (priorVMState child) (ch_spec child) \<longrightarrow> accepted es = 0) \<and>
    (accepted es \<noteq> 0 \<and> all_answered es \<longrightarrow>
      (\<exists>xs g ns n d fm a. es = xs @ [EApplyStatus g ns n (PChild d) fm a] \<and> \<not> needsRun d (ch_spec child)))"
proof -
  from pass c obtain a rest where es: "es = EGet VMGVR (ch_ns child) (vs_VMName (ch_spec child)) a # rest"
    and h: "case a of Inl e \<Rightarrow> rest = [] | Inr vm \<Rightarrow> if uid \<noteq> [] \<and> md_UID (u_meta vm) \<noteq> uid then rest = []
      else vm_pass_ok E u child (snd (vmReady vm)) rest"
    unfolding child_pass_def by auto
  from h have rest: "rest = [] \<or> (\<exists>ready. vm_pass_ok E u child ready rest)"
    by (cases a) (auto split: if_splits)
  from rest show ?thesis
  proof
    assume "rest = []"
    then show ?thesis by (simp add: es accepted_def)
  next
    assume "\<exists>ready. vm_pass_ok E u child ready rest"
    then obtain ready where once: "launches_once (vm_allowed E child ready) rest" and
      recorded: "launch_recorded (u_meta u) (ch_spec child) rest"
      unfolding vm_pass_ok_def by blast
    have j: "accepted es = accepted rest" "all_answered es = all_answered rest" by (simp_all add: es accepted_def all_answered_def)
    have "accepted rest \<le> 1"
      using accepted_launches [of rest] launches_once_count [OF once] by linarith
    moreover have "accepted rest = 0" if "\<not> needsRun (priorVMState child) (ch_spec child)"
      by (rule accepted_none) (use once that in \<open>auto simp: launches_once_def vm_allowed_def\<close>)
    moreover have "\<exists>xs g ns n d fm a. es = xs @ [EApplyStatus g ns n (PChild d) fm a] \<and> \<not> needsRun d (ch_spec child)"
      if started: "accepted rest \<noteq> 0" "all_answered rest"
    proof -
      from accepted_started [OF started] obtain pre c' iw i b r post where l: "rest = pre @ EHttp c' (RqLaunch iw i b) r # post"
        "launched_id (if iw then lr_WorkflowJob else lr_Job) r \<noteq> 0" .
      with recorded obtain d x mid where "post = mid @ [EApplyStatus AnsBindVMGVR (md_Namespace (u_meta u)) (md_Name (u_meta u))
          (PChild d) vmDetailsFieldManager x]" "launched_as (ch_spec child) d (EHttp c' (RqLaunch iw i b) r)"
        unfolding launch_recorded_def by blast
      with l es show ?thesis unfolding launched_as_def by (metis append_Cons append_assoc)
    qed
    ultimately show ?thesis using j by simp
  qed
qed

lemma child_history_step:
  assumes c: "check_child E u = Inr (child, uid)" "vs_BindingGeneration (ch_spec child) = g" "vs_BindingTrigger (ch_spec child) = t"
    and key: "run_key (priorVMState child) = run_key s"
    and es: "es = take k (events_of (applyAnsibleBindingVM E u) w)"
    and whole: "accepted es = 0 \<or> es = events_of (applyAnsibleBindingVM E u) w \<and> all_answered es \<and> last_applied es"
    and s': "child_evolves s es s'"
  shows "accepted es \<le> 1 \<and> (ran_for g t s \<longrightarrow> accepted es = 0 \<and> ran_for g t s') \<and> (accepted es = 1 \<longrightarrow> ran_for g t s')"
proof -
  let ?full = "events_of (applyAnsibleBindingVM E u) w" and ?sp = "ch_spec child"
  note p = pass_jobs [OF emitsD [OF emits_applyAnsibleBindingVM] c(1), of w]
  have le: "accepted es \<le> accepted ?full" unfolding es by (rule accepted_take)
  have ran: "ran_for g t st \<longleftrightarrow> \<not> needsRun st ?sp" for st using c by (simp add: needsRun_ran_for)
  have kept: "run_kept ?sp (run_key s) s'"
  proof (rule child_evolves_kept [OF _ _ s'])
    show "list_all (keeps_run ?sp (run_key s)) es"
      unfolding es key [symmetric] by (rule list_all_take [OF emitsD [OF emits_only [OF keeps_applyAnsibleBindingVM [OF c(1)]]]])
  qed (simp add: run_kept_def)
  have "ran_for g t s'" if "ran_for g t s"
    using kept that ran_for_key [of s' s g t] ran by (auto simp: run_kept_def)
  moreover have "accepted es = 0" if "ran_for g t s"
    using p le that ran_for_key [OF key, of g t] ran by simp
  moreover have "ran_for g t s'" if "accepted es = 1"
  proof -
    from whole that have full: "es = ?full" "all_answered es" "last_applied es" by auto
    with p that obtain xs g' ns n d fm a where "es = xs @ [EApplyStatus g' ns n (PChild d) fm a]" "\<not> needsRun d ?sp" by auto
    with evolves_last [of s xs g' ns n d fm a s'] s' full ran show ?thesis by simp
  qed
  ultimately show ?thesis using p le by auto
qed

lemma child_history_invariant: "child_history E g t s n \<Longrightarrow> n \<le> 1 \<and> (n = 1 \<longrightarrow> ran_for g t s)"
proof (induction rule: child_history.induct)
  case (child_pass s n u child uid es k w s')
  from child_history_step [OF child_pass.hyps(2-8)] child_pass.IH show ?case by auto
qed simp

end
