(* ===== verification/Binding.thy ===== *)
theory Binding
  imports Deprovision
begin

text \<open>
  controller/ansiblebinding.go: a binding and the children it keeps, one per VirtualMachine its selector
  matches. The child's name is the claim on the VM, so a pass plans each VM from what it can see (its own
  children, then whoever holds the name in the informer store, then the create that decides), issues the
  writes in bursts, rolls the children up into a summary, and reaps AWX hosts nobody claims. The order in
  which the writes of one parallel batch land, and of Go's map iteration, is the environment's (\<open>e_order\<close>);
  each write of a batch is one step. Writes of the pass are data (\<open>child_write\<close>), run by \<open>run_write\<close>.
  A nil map and an empty one are not told apart.
\<close>

definition detailsFieldManager where "detailsFieldManager = ''ansible-supervisor-details''"

text \<open>A list in the order the environment gives its elements; not a permutation is the order as it is.\<close>

definition permute :: "nat list \<Rightarrow> 'a list \<Rightarrow> 'a list" where
  "permute p xs = (if sort p = [0..<length xs] then map (nth xs) p else xs)"

definition in_any_order :: "env \<Rightarrow> 'a list \<Rightarrow> 'a list prog" where
  "in_any_order E xs = peek (\<lambda>t. permute (e_order E t (length xs)) xs)"

definition ab_ns :: "AnsibleBinding \<Rightarrow> string" where
  "ab_ns ac = md_Namespace (ab_meta ac)"

definition ab_name :: "AnsibleBinding \<Rightarrow> string" where
  "ab_name ac = md_Name (ab_meta ac)"

definition ab_spec :: "AnsibleBinding \<Rightarrow> AnsibleBindingSpec" where
  "ab_spec ac = the (ab_Spec ac)"

section \<open>Claims\<close>

definition childSpecFor :: "AnsibleBinding \<Rightarrow> string \<Rightarrow> string \<Rightarrow> AnsibleBindingVMSpec" where
  "childSpecFor ac vmName trigger =
     (let sp = ab_spec ac in
      \<lparr>vs_VMName = vmName, vs_BindingName = ab_name ac, vs_BindingUID = md_UID (ab_meta ac),
       vs_AWXConnectionRef = bs_AWXConnectionRef sp, vs_Template = bs_Template sp, vs_HostName = bs_HostName sp,
       vs_HostVariables = bs_HostVariables sp, vs_UseDefaultLimit = bs_UseDefaultLimit sp, vs_ExtraVars = bs_ExtraVars sp,
       vs_CleanupPolicy = bs_CleanupPolicy sp, vs_OnDeleted = bs_OnDeleted sp,
       vs_BindingGeneration = md_Generation (ab_meta ac), vs_BindingTrigger = trigger\<rparr>)"

definition claimHeldBy :: "AnsibleBindingVM \<Rightarrow> AnsibleBinding \<Rightarrow> bool" where
  "claimHeldBy child ac \<longleftrightarrow>
     (case ch_Spec child of
        None \<Rightarrow> False
      | Some sp \<Rightarrow> vs_BindingName sp = ab_name ac \<and> vs_BindingUID sp = md_UID (ab_meta ac) \<and> vs_BindingUID sp \<noteq> [])"

definition unrecognised where "unrecognised = ''an unrecognised object''"
definition earlier_child where "earlier_child = '' (an earlier controller's child)''"
definition unreadable_claim where "unreadable_claim = ''an unreadable object under the claim name''"

definition claimOwnerOf :: "AnsibleBindingVM \<Rightarrow> string" where
  "claimOwnerOf child =
     (case ch_Spec child of
        None \<Rightarrow> unrecognised
      | Some sp \<Rightarrow>
          if vs_BindingName sp = [] then unrecognised
          else if vs_BindingUID sp = [] then ch_ns child @ ''/'' @ vs_BindingName sp @ earlier_child
          else ch_ns child @ ''/'' @ vs_BindingName sp)"

definition bindingChildMatchesVM :: "env \<Rightarrow> AnsibleBindingVM \<Rightarrow> string \<Rightarrow> bool" where
  "bindingChildMatchesVM E child uid =
     (case checkOwnedByItsVM E child of Inl err \<Rightarrow> False | Inr ownerUID \<Rightarrow> ownerUID \<noteq> [] \<and> ownerUID = uid)"

section \<open>Writes of children\<close>

definition child_object :: "env \<Rightarrow> AnsibleBinding \<Rightarrow> unstr \<Rightarrow> AnsibleBindingVMSpec \<Rightarrow> unstr" where
  "child_object E ac vm spec =
     \<lparr>u_apiVersion = ''field.vmware.com/v1'', u_kind = ''AnsibleBindingVM'',
      u_meta = \<lparr>md_Namespace = ab_ns ac, md_Name = childName E (vs_VMName spec), md_UID = [], md_ResourceVersion = [],
        md_Generation = 0, md_DeletionTimestamp = None, md_CreationTimestamp = None,
        md_Labels = [(BindingLabel, bindingLabelValue E (ab_name ac))], md_Annotations = [], md_Finalizers = [],
        md_OwnerReferences = [\<lparr>or_APIVersion = u_apiVersion vm, or_Kind = u_kind vm,
          or_Name = md_Name (u_meta vm), or_UID = md_UID (u_meta vm)\<rparr>]\<rparr>,
      u_generic = gf_none, u_content = CChild (Some spec) None\<rparr>"

definition createBindingChild :: "env \<Rightarrow> AnsibleBinding \<Rightarrow> unstr \<Rightarrow> AnsibleBindingVMSpec \<Rightarrow> gerr option prog" where
  "createBindingChild E ac vm spec = k8s_Create E AnsBindVMGVR (child_object E ac vm spec)"

text \<open>The whole spec replaced, guarded on the child still being the object that was read.\<close>

definition updateBindingChildSpec :: "env \<Rightarrow> AnsibleBindingVM \<Rightarrow> AnsibleBindingVMSpec \<Rightarrow> gerr option prog" where
  "updateBindingChildSpec E child spec =
     k8s_PatchSpec E AnsBindVMGVR (ch_ns child) (md_Name (ch_meta child)) (md_UID (ch_meta child))
       (md_ResourceVersion (ch_meta child)) spec"

definition f_del_policy where [text_defs]: "f_del_policy = ''updating cleanup policy on AnsibleBindingVM %q: %w''"
definition f_del_child where [text_defs]: "f_del_child = ''deleting AnsibleBindingVM %q: %w''"

text \<open>The deletion proper, of the very object that was read.\<close>

definition delete_child :: "env \<Rightarrow> AnsibleBindingVM \<Rightarrow> gerr option prog" where
  "delete_child E child =
     (if is_deleting (ch_meta child) then ret None
      else do {
        e \<leftarrow> k8s_Delete E AnsBindVMGVR (ch_ns child) (md_Name (ch_meta child)) (Some (md_UID (ch_meta child)));
        ret (case e of
           None \<Rightarrow> None
         | Some err \<Rightarrow> if isNotFound err then None else Some (errorw f_del_child [md_Name (ch_meta child)] err))
      })"

definition deleteBindingChild :: "env \<Rightarrow> AnsibleBindingVM \<Rightarrow> string \<Rightarrow> gerr option prog" where
  "deleteBindingChild E child policy =
     (if policy \<noteq> [] \<and> ch_Spec child \<noteq> None \<and> vs_CleanupPolicy (ch_spec child) \<noteq> policy then do {
        e \<leftarrow> updateBindingChildSpec E child ((ch_spec child)\<lparr>vs_CleanupPolicy := policy\<rparr>);
        (case e of
           Some err \<Rightarrow>
             if isNotFound err then ret None else ret (Some (errorw f_del_policy [md_Name (ch_meta child)] err))
         | None \<Rightarrow> delete_child E child)
      }
      else delete_child E child)"

text \<open>The create that decides a claim, and what is read when it lost.\<close>

definition f_create_child where [text_defs]: "f_create_child = ''creating the AnsibleBindingVM for VM %q: %w''"
definition f_read_claim where [text_defs]: "f_read_claim =
  ''reading AnsibleBindingVM %q to resolve the claim on VM %q: %w''"
definition f_update_child where [text_defs]: "f_update_child = ''updating the AnsibleBindingVM for VM %q: %w''"

text \<open>A conflict is the VM with the name of its owner.\<close>

type_synonym write_out = "(string \<times> string) option \<times> gerr option"

definition resolve_claim :: "env \<Rightarrow> AnsibleBinding \<Rightarrow> string \<Rightarrow> write_out prog" where
  "resolve_claim E ac name =
     (let canonical = childName E name in do {
        r \<leftarrow> k8s_Get E AnsBindVMGVR (ab_ns ac) canonical;
        ret (case r of
           Inl gErr \<Rightarrow> if isNotFound gErr then (None, None) else (None, Some (errorw f_read_claim [canonical, name] gErr))
         | Inr owner \<Rightarrow> (case convertAnsibleBindingVM owner of
               Inl cvErr \<Rightarrow> (Some (name, unreadable_claim), None)
             | Inr claimant \<Rightarrow>
                 if claimHeldBy claimant ac then (None, None) else (Some (name, claimOwnerOf claimant), None)))
      })"

definition claim_vm :: "env \<Rightarrow> AnsibleBinding \<Rightarrow> unstr \<Rightarrow> AnsibleBindingVMSpec \<Rightarrow> write_out prog" where
  "claim_vm E ac vm desired =
     (let name = md_Name (u_meta vm) in do {
        c \<leftarrow> createBindingChild E ac vm desired;
        (case c of
           None \<Rightarrow> ret (None, None)
         | Some cErr \<Rightarrow>
             if \<not> isAlreadyExists cErr then ret (None, Some (errorw f_create_child [name] cErr))
             else resolve_claim E ac name)
      })"

datatype child_write =
    WCreate unstr AnsibleBindingVMSpec
  | WUpdate AnsibleBindingVM AnsibleBindingVMSpec
  | WDelete AnsibleBindingVM string

fun run_write :: "env \<Rightarrow> AnsibleBinding \<Rightarrow> child_write \<Rightarrow> write_out prog" where
  "run_write E ac (WCreate vm desired) = claim_vm E ac vm desired"
| "run_write E ac (WUpdate existing desired) = do {
     e \<leftarrow> updateBindingChildSpec E existing desired;
     ret (None, map_option (errorw f_update_child [vs_VMName desired]) e)
   }"
| "run_write E ac (WDelete child policy) = do { e \<leftarrow> deleteBindingChild E child policy; ret (None, e) }"

section \<open>Bursts\<close>

definition burstChildWrites :: nat where "burstChildWrites = 500"
definition maxWriteConcurrency :: nat where "maxWriteConcurrency = 32"

fun run_batch :: "('w \<Rightarrow> 'r prog) \<Rightarrow> 'w list \<Rightarrow> 'r list prog" where
  "run_batch run [] = ret []"
| "run_batch run (w # ws) = do { r \<leftarrow> run w; rs \<leftarrow> run_batch run ws; ret (r # rs) }"

text \<open>What a burst has done so far: its results in the order they came, and how many writes.\<close>

definition failures :: "('c \<times> gerr option) list \<Rightarrow> nat" where
  "failures rs = length (filter (\<lambda>r. snd r \<noteq> None) rs)"

definition first_error :: "('c \<times> gerr option) list \<Rightarrow> gerr option" where
  "first_error rs = (case List.map_filter snd rs of [] \<Rightarrow> None | e # es \<Rightarrow> Some e)"

function issue_batches :: "env \<Rightarrow> ('w \<Rightarrow> ('c \<times> gerr option) prog) \<Rightarrow> nat \<Rightarrow> 'w list \<Rightarrow> ('c \<times> gerr option) list \<Rightarrow> nat \<Rightarrow>
    (('c \<times> gerr option) list \<times> nat) prog" where
  "issue_batches E run batchSize ws sofar issued =
     (if batchSize = 0 \<or> ws = [] then ret (sofar, issued)
      else do {
        batch \<leftarrow> in_any_order E (take batchSize ws);
        rs \<leftarrow> run_batch run batch;
        (let sofar = sofar @ rs; issued = issued + batchSize in
         if batchSize > 1 \<and> failures rs = batchSize then ret (sofar, issued)
         else issue_batches E run (min (2 * batchSize) (min (length (drop batchSize ws)) maxWriteConcurrency))
                (drop batchSize ws) sofar issued)
      })"
  by pat_completeness auto
termination by (relation "measure (\<lambda>(E, run, n, ws, d, i). length ws)") auto

declare issue_batches.simps [simp del]

definition issueChildWrites :: "env \<Rightarrow> ('w \<Rightarrow> ('c \<times> gerr option) prog) \<Rightarrow> 'w list \<Rightarrow> (('c \<times> gerr option) list \<times> nat) prog" where
  "issueChildWrites E run writes =
     (let ws = take burstChildWrites writes in issue_batches E run (min (length ws) 1) ws [] 0)"


section \<open>Listing the children\<close>

definition f_decode_child where [text_defs]: "f_decode_child = ''decoding AnsibleBindingVM %q: %w''"

fun convert_children :: "unstr list \<Rightarrow> gerr + AnsibleBindingVM list" where
  "convert_children [] = Inr []"
| "convert_children (u # us) =
     (case convertAnsibleBindingVM u of
        Inl cErr \<Rightarrow> Inl (errorw f_decode_child [md_Name (u_meta u)] cErr)
      | Inr c \<Rightarrow> (case convert_children us of Inl err \<Rightarrow> Inl err | Inr cs \<Rightarrow> Inr (c # cs)))"

definition sort_children :: "AnsibleBindingVM list \<Rightarrow> AnsibleBindingVM list" where
  "sort_children cs = sort_key (\<lambda>c. md_Name (ch_meta c)) cs"

definition listBindingChildren :: "env \<Rightarrow> string \<Rightarrow> string \<Rightarrow> (gerr + AnsibleBindingVM list) prog" where
  "listBindingChildren E namespace bindingName = do {
     r \<leftarrow> k8s_List E AnsBindVMGVR namespace [(BindingLabel, bindingLabelValue E bindingName)];
     ret (case r of Inl err \<Rightarrow> Inl err | Inr us \<Rightarrow> map_sum id sort_children (convert_children us))
   }"

definition listBindingChildrenCached :: "env \<Rightarrow> string \<Rightarrow> string \<Rightarrow> (gerr + AnsibleBindingVM list) prog" where
  "listBindingChildrenCached E namespace bindingName = do {
     objs \<leftarrow> peek (\<lambda>t. e_childIndex E t (key namespace (bindingLabelValue E bindingName)));
     (case objs of
        None \<Rightarrow> listBindingChildren E namespace bindingName
      | Some us \<Rightarrow> ret (map_sum id sort_children (convert_children us)))
   }"

text \<open>What the informer files an object under in \<open>childrenByBindingIndex\<close>.\<close>

definition childrenByBindingIndexFunc :: "unstr \<Rightarrow> string list" where
  "childrenByBindingIndexFunc u =
     (let binding = case_option [] id (smap_get (md_Labels (u_meta u)) BindingLabel) in
      if binding = [] then [] else [key (md_Namespace (u_meta u)) binding])"

section \<open>The summary\<close>

definition summaryNameLimit :: nat where "summaryNameLimit = 3"

definition zero_summary :: BindingSummary where
  "zero_summary = \<lparr>sm_Total = 0, sm_Succeeded = 0, sm_Running = 0, sm_Pending = 0, sm_Failed = 0, sm_Conflicted = 0,
     sm_ConflictedVMs = [], sm_FailedVMs = [], sm_FirstFailure = [], sm_Terminating = 0\<rparr>"

definition initial_summary :: "string smap \<Rightarrow> string smap \<Rightarrow> BindingSummary" where
  "initial_summary matched conflicts = zero_summary\<lparr>sm_Total := int (length matched),
     sm_Pending := int (length matched) - int (length conflicts), sm_Conflicted := int (length conflicts),
     sm_ConflictedVMs := take summaryNameLimit (sort (map (\<lambda>(vmName, owner). vmName @ '' ('' @ owner @ '')'') conflicts))\<rparr>"

definition count_failed :: "AnsibleBindingVM \<Rightarrow> BindingSummary \<Rightarrow> BindingSummary" where
  "count_failed c s =
     (let message = (case ch_Status c of None \<Rightarrow> [] | Some st \<Rightarrow> gs_Message st) in
      s\<lparr>sm_Failed := sm_Failed s + 1, sm_FailedVMs := sm_FailedVMs s @ [vs_VMName (ch_spec c)],
        sm_FirstFailure := (if sm_FirstFailure s = [] \<and> message \<noteq> [] then message else sm_FirstFailure s)\<rparr>)"

text \<open>The run of one child, against what the binding asks for now.\<close>

definition run_stale :: "int \<Rightarrow> string \<Rightarrow> AnsibleBindingVMStatus option \<Rightarrow> bool" where
  "run_stale wantGeneration wantTrigger st = (case st of
      None \<Rightarrow> True
    | Some s \<Rightarrow> vt_AppliedGeneration s \<noteq> wantGeneration \<or> vt_AppliedTrigger s \<noteq> wantTrigger)"

definition count_child :: "int \<Rightarrow> string \<Rightarrow> AnsibleBindingVM \<Rightarrow> BindingSummary \<Rightarrow> BindingSummary" where
  "count_child wantGeneration wantTrigger c s =
     (let phase = (case ch_Status c of None \<Rightarrow> [] | Some st \<Rightarrow> vt_Phase st);
          state = (case ch_Status c of None \<Rightarrow> [] | Some st \<Rightarrow> gs_State st);
          s = s\<lparr>sm_Pending := sm_Pending s - 1\<rparr> in
      if state = StateFailed then count_failed c s
      else if run_stale wantGeneration wantTrigger (ch_Status c) then s\<lparr>sm_Pending := sm_Pending s + 1\<rparr>
      else if phase = PhaseFailed then count_failed c s
      else if phase = PhaseSucceeded then s\<lparr>sm_Succeeded := sm_Succeeded s + 1\<rparr>
      else if phase = PhaseRunning then s\<lparr>sm_Running := sm_Running s + 1\<rparr>
      else s\<lparr>sm_Pending := sm_Pending s + 1\<rparr>)"

fun summarize_loop :: "string smap \<Rightarrow> string smap \<Rightarrow> int \<Rightarrow> string \<Rightarrow> AnsibleBindingVM list \<Rightarrow> string list \<Rightarrow> BindingSummary \<Rightarrow>
    BindingSummary" where
  "summarize_loop matched conflicts wantGeneration wantTrigger [] seen s = s"
| "summarize_loop matched conflicts wantGeneration wantTrigger (c # cs) seen s =
     (let vm = vs_VMName (ch_spec c) in
      if ch_Spec c = None then summarize_loop matched conflicts wantGeneration wantTrigger cs seen s
      else if is_deleting (ch_meta c)
      then summarize_loop matched conflicts wantGeneration wantTrigger cs seen (s\<lparr>sm_Terminating := sm_Terminating s + 1\<rparr>)
      else if smap_get matched vm = None \<or> vm \<in> set seen \<or> nonempty (smap_get conflicts vm)
      then summarize_loop matched conflicts wantGeneration wantTrigger cs seen s
      else summarize_loop matched conflicts wantGeneration wantTrigger cs (vm # seen) (count_child wantGeneration wantTrigger c s))"

definition summarize :: "AnsibleBindingVM list \<Rightarrow> string smap \<Rightarrow> string smap \<Rightarrow> int \<Rightarrow> string \<Rightarrow> BindingSummary" where
  "summarize children matched conflicts wantGeneration wantTrigger =
     (let s = summarize_loop matched conflicts wantGeneration wantTrigger children [] (initial_summary matched conflicts)
      in s\<lparr>sm_FailedVMs := take summaryNameLimit (sm_FailedVMs s)\<rparr>)"

definition nameList :: "string list \<Rightarrow> string" where
  "nameList names = (if length names \<le> 3 then join '', '' names
     else join '', '' (take 3 names) @ '' and '' @ itoa (int (length names) - 3) @ '' more'')"

definition f_conflict where [text_defs]: "f_conflict =
  ''%d of %d selected VM(s) are claimed by another binding: %s. Narrow vmSelector, or release the existing owner; one binding owns a VM's whole lifecycle, so several playbooks for one VM belong in one AWX workflow under it.''"

definition conflictMessage :: "BindingSummary \<Rightarrow> string" where
  "conflictMessage s = sprintf f_conflict [itoa (sm_Conflicted s), itoa (sm_Total s), nameList (sm_ConflictedVMs s)]"

definition conflictWorthAnEvent :: "AnsibleBindingStatus option \<Rightarrow> BindingSummary \<Rightarrow> bool" where
  "conflictWorthAnEvent prior summary \<longleftrightarrow>
     sm_Conflicted summary \<noteq> 0 \<and>
     (case prior of
        None \<Rightarrow> True
      | Some p \<Rightarrow> (case bt_Summary p of
            None \<Rightarrow> True
          | Some s \<Rightarrow> sm_Conflicted s \<noteq> sm_Conflicted summary \<or> sm_ConflictedVMs s \<noteq> sm_ConflictedVMs summary))"

section \<open>The record\<close>

text \<open>Nil and empty lists of names are one here, as in \<open>ansibleBindingVMDetailsCurrent\<close>.\<close>

definition ansibleBindingDetailsCurrent :: "AnsibleBindingStatus option \<Rightarrow> BindingSummary \<Rightarrow> int \<Rightarrow> string \<Rightarrow> stamp \<Rightarrow> bool" where
  "ansibleBindingDetailsCurrent prior summary observedGeneration lastTrigger lastOrphanScan =
     (case prior of
        None \<Rightarrow> False
      | Some p \<Rightarrow> bt_ObservedGeneration p = observedGeneration \<and> bt_LastAppliedTrigger p = lastTrigger \<and>
          bt_LastOrphanScan p = lastOrphanScan \<and> bt_Summary p = Some summary)"

definition writeAnsibleBindingDetails :: "env \<Rightarrow> unstr \<Rightarrow> BindingSummary \<Rightarrow> int \<Rightarrow> string \<Rightarrow> stamp \<Rightarrow> gerr option prog" where
  "writeAnsibleBindingDetails E obj summary observedGeneration lastTrigger lastOrphanScan =
     patchStatus E AnsBindGVR obj (PBinding summary observedGeneration lastTrigger lastOrphanScan) detailsFieldManager"

definition bindingWithDetails :: "unstr \<Rightarrow> BindingSummary \<Rightarrow> int \<Rightarrow> string \<Rightarrow> stamp \<Rightarrow> unstr" where
  "bindingWithDetails u summary observedGeneration lastTrigger lastOrphanScan =
     (case u_content u of
        CBinding sp st \<Rightarrow>
          (let old = (case st of None \<Rightarrow> zero_binding_status | Some s \<Rightarrow> s) in
           u\<lparr>u_content := CBinding sp (Some (old\<lparr>bt_Summary := Some summary, bt_ObservedGeneration := observedGeneration,
             bt_LastAppliedTrigger := lastTrigger,
             bt_LastOrphanScan := (if lastOrphanScan \<noteq> NoStamp then lastOrphanScan else bt_LastOrphanScan old)\<rparr>))\<rparr>)
      | _ \<Rightarrow> u)"

section \<open>Orphaned hosts\<close>

definition expectedHostName :: "AnsibleBinding \<Rightarrow> string \<Rightarrow> string" where
  "expectedHostName ac vmName = (if bs_HostName (ab_spec ac) \<noteq> [] then bs_HostName (ab_spec ac) else vmName)"

definition child_host_names :: "AnsibleBinding \<Rightarrow> string \<Rightarrow> AnsibleBindingVM \<Rightarrow> string list" where
  "child_host_names ac prefix c =
     (case ch_Status c of None \<Rightarrow> [] | Some st \<Rightarrow> if vt_AWXHostName st \<noteq> [] then [vt_AWXHostName st] else []) @
     (case ch_Spec c of None \<Rightarrow> [] | Some sp \<Rightarrow> [prefix @ expectedHostName ac (vs_VMName sp)])"

definition claimedHostNames :: "AnsibleBinding \<Rightarrow> string \<Rightarrow> AnsibleBindingVM list \<Rightarrow> string smap \<Rightarrow> string list" where
  "claimedHostNames ac prefix children matched =
     concat (map (child_host_names ac prefix) children) @
     map (\<lambda>vmName. prefix @ expectedHostName ac vmName) (smap_keys matched)"

definition child_inventories :: "AnsibleBindingVM list \<Rightarrow> int list" where
  "child_inventories children = remdups (filter (\<lambda>i. i \<noteq> 0)
     (List.map_filter (\<lambda>c. map_option vt_AWXInventoryID (ch_Status c)) children))"

fun orphan_candidates :: "env \<Rightarrow> AWXClient \<Rightarrow> string \<Rightarrow> string list \<Rightarrow> int list \<Rightarrow> (gerr + hostResult list) prog" where
  "orphan_candidates E c marker claimed [] = ret (Inr [])"
| "orphan_candidates E c marker claimed (i # is) = do {
     r \<leftarrow> ListOwnedHosts E c i marker;
     (case r of
        Inl lErr \<Rightarrow> ret (Inl lErr)
      | Inr hosts \<Rightarrow> do {
          hs \<leftarrow> in_any_order E (map snd (filter (\<lambda>(name, h). name \<notin> set claimed) hosts));
          rest \<leftarrow> orphan_candidates E c marker claimed is;
          ret (map_sum id ((@) hs) rest)
        })
   }"

definition f_del_orphan where [text_defs]: "f_del_orphan = ''deleting orphaned AWX host %d: %w''"

fun delete_orphans :: "env \<Rightarrow> AWXClient \<Rightarrow> string list \<Rightarrow> hostResult list \<Rightarrow> gerr option prog" where
  "delete_orphans E c claimed [] = ret None"
| "delete_orphans E c claimed (h # hs) =
     (if hr_Name h \<in> set claimed then delete_orphans E c claimed hs
      else do {
        e \<leftarrow> DeleteHost E c (hr_ID h);
        (case e of
           Some dErr \<Rightarrow> ret (Some (errorw f_del_orphan [itoa (hr_ID h)] dErr))
         | None \<Rightarrow> delete_orphans E c claimed hs)
      })"

definition f_orphan_reread where [text_defs]: "f_orphan_reread = ''re-reading the children before deleting an orphaned host: %w''"

definition connect_binding :: "env \<Rightarrow> AnsibleBinding \<Rightarrow> (gerr + AWXConnection \<times> AWXClient) prog" where
  "connect_binding E ac =
     (let ref = bs_AWXConnectionRef (ab_spec ac) in do {
        r \<leftarrow> getAWXConnection E (ab_ns ac) ref;
        (case r of
           Inl err \<Rightarrow> ret (Inl (errorw f_vm_conn [ref] err))
         | Inr obj \<Rightarrow> (case convertAWXConnection obj of
               Inl err \<Rightarrow> ret (Inl (errorw f_vm_badconn [ref] err))
             | Inr conn \<Rightarrow>
                 if conn_Spec conn = None then ret (Inl (errorf f_vm_badconn [ref, f_vm_nilerr]))
                 else do {
                   cl \<leftarrow> awxClientForConnection E conn;
                   ret (case cl of
                      Inl err \<Rightarrow> Inl (errorw f_vm_client [ref] err)
                    | Inr (c, basePath) \<Rightarrow> Inr (conn, c))
                 }))
      })"

text \<open>From the hosts of this binding nobody claims: checked against a live list of the children, then deleted.\<close>

definition confirm_orphans :: "env \<Rightarrow> AnsibleBinding \<Rightarrow> AWXConnection \<Rightarrow> AWXClient \<Rightarrow> string smap \<Rightarrow> hostResult list \<Rightarrow> gerr option prog" where
  "confirm_orphans E ac conn c matched candidates = do {
     r \<leftarrow> listBindingChildren E (ab_ns ac) (ab_name ac);
     (case r of
        Inl err \<Rightarrow> ret (Some (errorw f_orphan_reread [] err))
      | Inr fresh \<Rightarrow>
          delete_orphans E c (claimedHostNames ac (cs_HostNamePrefix (the (conn_Spec conn))) fresh matched) candidates)
   }"

definition reapOrphanHosts :: "env \<Rightarrow> AnsibleBinding \<Rightarrow> AnsibleBindingVM list \<Rightarrow> string smap \<Rightarrow> gerr option prog" where
  "reapOrphanHosts E ac children matched =
     (if bs_CleanupPolicy (ab_spec ac) = CleanupPolicyRetain then ret None
      else if child_inventories children = [] then ret None
      else do {
        r \<leftarrow> connect_binding E ac;
        (case r of
           Inl err \<Rightarrow> ret (Some err)
         | Inr (conn, c) \<Rightarrow> do {
             inventories \<leftarrow> in_any_order E (child_inventories children);
             cs \<leftarrow> orphan_candidates E c (hostOwnerMarker E (ab_ns ac) (ab_name ac))
                    (claimedHostNames ac (cs_HostNamePrefix (the (conn_Spec conn))) children matched) inventories;
             (case cs of
                Inl lErr \<Rightarrow> ret (Some lErr)
              | Inr [] \<Rightarrow> ret None
              | Inr candidates \<Rightarrow> confirm_orphans E ac conn c matched candidates)
           })
      })"


section \<open>One pass\<close>

definition f_b_decode where [text_defs]: "f_b_decode = ''decoding AnsibleBinding: %w''"
definition f_b_selector where [text_defs]: "f_b_selector =
  ''spec.vmSelector must not be empty: an empty selector would target every VM in the namespace''"
definition f_b_type where [text_defs]: "f_b_type = ''spec.template.type must be %q or %q, got %q''"
definition f_b_list where [text_defs]: "f_b_list = ''listing target VMs: %w''"
definition f_b_hostname where [text_defs]: "f_b_hostname =
  ''spec.hostName is set but vmSelector matches %d VMs: an inventory host name can only stand for one VM''"
definition f_b_children where [text_defs]: "f_b_children = ''listing the AnsibleBindingVMs for this binding: %w''"
definition f_b_reap where [text_defs]: "f_b_reap = ''reaping orphaned AWX hosts: %w''"
definition conflictRetryInterval :: int where "conflictRetryInterval = 30 * nanos_per_second"
definition conflictRetryJitter :: int where "conflictRetryJitter = 10 * nanos_per_second"

definition check_binding :: "unstr \<Rightarrow> gerr + AnsibleBinding" where
  "check_binding u =
     (case convertAnsibleBinding u of
        Inl err \<Rightarrow> Inl (errorw f_b_decode [] err)
      | Inr ac \<Rightarrow>
          (let sp = ab_spec ac; ty = tr_Type (bs_Template sp) in
           if ab_Spec ac = None then Inl (errorf f_spec_required [])
           else if bs_AWXConnectionRef sp = [] then Inl (errorf f_connref [])
           else if bs_VMSelector sp = [] then Inl (errorf f_b_selector [])
           else if ty \<noteq> TemplateTypeJob \<and> ty \<noteq> TemplateTypeWorkflow
           then Inl (errorf f_b_type [TemplateTypeJob, TemplateTypeWorkflow, ty])
           else Inr ac))"

text \<open>The children by the VM they are for; of two for one VM the last listed.\<close>

definition index_children :: "AnsibleBindingVM list \<Rightarrow> AnsibleBindingVM smap" where
  "index_children children =
     foldl (\<lambda>m c. case ch_Spec c of None \<Rightarrow> m | Some sp \<Rightarrow> smap_put (vs_VMName sp) c m) [] children"

text \<open>The selected VMs with their UIDs: \<open>matched\<close> and \<open>vmUIDs\<close> of the code, which have the same keys.\<close>

definition matched_vms :: "unstr list \<Rightarrow> string smap" where
  "matched_vms vms = foldl (\<lambda>m vm. smap_put (md_Name (u_meta vm)) (md_UID (u_meta vm)) m) [] vms"

datatype vm_plan = Claim | Conflict string | Keep | Update AnsibleBindingVM

text \<open>What is to be done about one VM, from the child that is its claim as far as the caches know.\<close>

definition plan_vm :: "env \<Rightarrow> AnsibleBinding \<Rightarrow> unstr \<Rightarrow> AnsibleBindingVMSpec \<Rightarrow> AnsibleBindingVM option \<Rightarrow> vm_plan" where
  "plan_vm E ac vm desired existing =
     (case existing of
        None \<Rightarrow> Claim
      | Some child \<Rightarrow>
          if \<not> claimHeldBy child ac then Conflict (claimOwnerOf child)
          else if is_deleting (ch_meta child) \<or> \<not> bindingChildMatchesVM E child (md_UID (u_meta vm)) then Keep
          else if ch_spec child = desired then Keep
          else Update child)"

definition existing_child :: "env \<Rightarrow> AnsibleBinding \<Rightarrow> AnsibleBindingVM smap \<Rightarrow> string \<Rightarrow> AnsibleBindingVM option prog" where
  "existing_child E ac childByVM name =
     (case smap_get childByVM name of
        Some c \<Rightarrow> ret (Some c)
      | None \<Rightarrow> getCachedChild E (ab_ns ac) (childName E name))"

fun plan_vms :: "env \<Rightarrow> AnsibleBinding \<Rightarrow> AnsibleBindingVM smap \<Rightarrow> string \<Rightarrow> unstr list \<Rightarrow> (child_write list \<times> string smap) prog" where
  "plan_vms E ac childByVM trigger [] = ret ([], [])"
| "plan_vms E ac childByVM trigger (vm # vms) =
     (let name = md_Name (u_meta vm); desired = childSpecFor ac name trigger in do {
        existing \<leftarrow> existing_child E ac childByVM name;
        (writes, conflicts) \<leftarrow> plan_vms E ac childByVM trigger vms;
        ret (case plan_vm E ac vm desired existing of
           Claim \<Rightarrow> (WCreate vm desired # writes, conflicts)
         | Conflict owner \<Rightarrow> (writes, if smap_get conflicts name = None then smap_put name owner conflicts else conflicts)
         | Keep \<Rightarrow> (writes, conflicts)
         | Update child \<Rightarrow> (WUpdate child desired # writes, conflicts))
      })"

text \<open>A child that is this binding's claim on a VM it still selects.\<close>

definition current_child :: "env \<Rightarrow> string smap \<Rightarrow> AnsibleBindingVM \<Rightarrow> bool" where
  "current_child E matched c \<longleftrightarrow>
     (case smap_get matched (vs_VMName (ch_spec c)) of None \<Rightarrow> False | Some uid \<Rightarrow> bindingChildMatchesVM E c uid)"

definition own_children :: "AnsibleBinding \<Rightarrow> AnsibleBindingVM list \<Rightarrow> AnsibleBindingVM list" where
  "own_children ac children = filter (\<lambda>c. ch_Spec c \<noteq> None \<and> claimHeldBy c ac) children"

definition summary_children :: "env \<Rightarrow> AnsibleBinding \<Rightarrow> string smap \<Rightarrow> AnsibleBindingVM list \<Rightarrow> AnsibleBindingVM list" where
  "summary_children E ac matched children =
     filter (\<lambda>c. current_child E matched c \<or> is_deleting (ch_meta c)) (own_children ac children)"

definition plan_deletions :: "env \<Rightarrow> AnsibleBinding \<Rightarrow> string smap \<Rightarrow> AnsibleBindingVM list \<Rightarrow> child_write list" where
  "plan_deletions E ac matched children =
     map (\<lambda>c. WDelete c (bs_CleanupPolicy (ab_spec ac))) (filter (\<lambda>c. \<not> current_child E matched c) (own_children ac children))"

definition add_conflicts :: "string smap \<Rightarrow> (string \<times> string) list \<Rightarrow> string smap" where
  "add_conflicts m cs = foldl (\<lambda>m (vm, owner). smap_put vm owner m) m cs"

definition last_orphan_scan :: "AnsibleBinding \<Rightarrow> stamp" where
  "last_orphan_scan ac = (case ab_Status ac of None \<Rightarrow> NoStamp | Some st \<Rightarrow> bt_LastOrphanScan st)"

text \<open>The scan, when it is due and nothing is outstanding: the stamp to record, and the first error so far.\<close>

definition scan_orphans :: "env \<Rightarrow> AnsibleBinding \<Rightarrow> AnsibleBindingVM list \<Rightarrow> string smap \<Rightarrow> nat \<Rightarrow> gerr option \<Rightarrow>
    (stamp \<times> gerr option) prog" where
  "scan_orphans E ac children matched deferred firstErr =
     (let orphanScan = last_orphan_scan ac in do {
        (due, remaining) \<leftarrow> dueFor E orphanScan (orphanScanPeriod E);
        if due \<and> deferred = 0 \<and> firstErr = None then do {
          r \<leftarrow> reapOrphanHosts E ac children matched;
          (case r of
             Some rErr \<Rightarrow> ret (orphanScan, Some (errorw f_b_reap [] rErr))
           | None \<Rightarrow> do { now \<leftarrow> nowRFC3339 E; ret (now, firstErr) })
        }
        else ret (orphanScan, firstErr)
      })"

text \<open>The way out: the Event on a new conflict, the details when they changed, and when to come back.\<close>

definition finish_binding :: "env \<Rightarrow> unstr \<Rightarrow> AnsibleBinding \<Rightarrow> BindingSummary \<Rightarrow> string \<Rightarrow> nat \<Rightarrow> stamp \<times> gerr option \<Rightarrow>
    (gerr + Result) prog" where
  "finish_binding E u ac summary trigger deferred scan =
     (let (orphanScan, firstErr) = scan; gen = md_Generation (ab_meta ac) in do {
        (if conflictWorthAnEvent (ab_Status ac) summary
         then recordEvent E u eventWarning ''VMClaimedByAnotherBinding'' (conflictMessage summary) else ret ());
        w \<leftarrow> (if ansibleBindingDetailsCurrent (ab_Status ac) summary gen trigger orphanScan then ret None
             else writeAnsibleBindingDetails E u summary gen trigger orphanScan);
        (let firstErr = (case firstErr of Some e \<Rightarrow> Some e | None \<Rightarrow> w) in do {
           wait \<leftarrow> (if sm_Conflicted summary > 0 \<and> firstErr = None then do {
                     jitter \<leftarrow> rand_Int63n E conflictRetryJitter;
                     ret (conflictRetryInterval + jitter)
                   } else ret 0);
           ret (case firstErr of
              Some err \<Rightarrow> Inl err
            | None \<Rightarrow> Inr \<lparr>res_Object = Some (bindingWithDetails u summary gen trigger orphanScan),
                res_RequeueAfter = (if deferred > 0 then nanos_per_second else wait)\<rparr>)
         })
      })"

definition or_else :: "gerr option \<Rightarrow> gerr option \<Rightarrow> gerr option" where
  "or_else a b = (case a of Some e \<Rightarrow> Some e | None \<Rightarrow> b)"

definition reconcile_children :: "env \<Rightarrow> unstr \<Rightarrow> AnsibleBinding \<Rightarrow> unstr list \<Rightarrow> AnsibleBindingVM list \<Rightarrow> (gerr + Result) prog" where
  "reconcile_children E u ac vms children =
     (let trigger = annotation (ab_meta ac) ReconcileRequestedAtAnnotation; matched = matched_vms vms;
          deletions = plan_deletions E ac matched children in do {
        (writes, planned) \<leftarrow> plan_vms E ac (index_children children) trigger vms;
        (drs, deleted) \<leftarrow> issueChildWrites E (run_write E ac) deletions;
        (wrs, issued) \<leftarrow> issueChildWrites E (run_write E ac) writes;
        (let deferred = (length writes - issued) + (length deletions - deleted);
             conflicts = add_conflicts planned (List.map_filter fst wrs);
             summary = summarize (summary_children E ac matched children) matched conflicts (md_Generation (ab_meta ac)) trigger in do {
           scan \<leftarrow> scan_orphans E ac children matched deferred (or_else (first_error drs) (first_error wrs));
           finish_binding E u ac summary trigger deferred scan
         })
      })"

definition applyAnsibleBinding :: "env \<Rightarrow> unstr \<Rightarrow> (gerr + Result) prog" where
  "applyAnsibleBinding E u =
     (case check_binding u of
        Inl err \<Rightarrow> ret (Inl err)
      | Inr ac \<Rightarrow> do {
          r \<leftarrow> listVirtualMachines E (ab_ns ac) (bs_VMSelector (ab_spec ac));
          (case r of
             Inl err \<Rightarrow> ret (Inl (errorw f_b_list [] err))
           | Inr vms \<Rightarrow>
               if bs_HostName (ab_spec ac) \<noteq> [] \<and> length vms > 1
               then ret (Inl (errorf f_b_hostname [itoa (int (length vms))]))
               else do {
                 cs \<leftarrow> listBindingChildrenCached E (ab_ns ac) (ab_name ac);
                 (case cs of
                    Inl err \<Rightarrow> ret (Inl (errorw f_b_children [] err))
                  | Inr children \<Rightarrow> reconcile_children E u ac vms children)
               })
        })"

section \<open>Finalization\<close>

definition childCleanupPollInterval :: int where "childCleanupPollInterval = 30 * nanos_per_second"

fun deleteBindingChildren :: "env \<Rightarrow> AnsibleBinding \<Rightarrow> AnsibleBindingVM list \<Rightarrow> nat \<Rightarrow> (nat \<times> gerr option) prog" where
  "deleteBindingChildren E ac [] remaining = ret (remaining, None)"
| "deleteBindingChildren E ac (c # cs) remaining =
     (if ch_Spec c \<noteq> None \<and> vs_BindingName (ch_spec c) \<noteq> ab_name ac then deleteBindingChildren E ac cs remaining
      else do {
        e \<leftarrow> deleteBindingChild E c (case ab_Spec ac of None \<Rightarrow> [] | Some sp \<Rightarrow> bs_CleanupPolicy sp);
        (case e of
           Some err \<Rightarrow> ret (remaining + 1, Some err)
         | None \<Rightarrow> deleteBindingChildren E ac cs (remaining + 1))
      })"

definition f_bc_list where [text_defs]: "f_bc_list = ''listing the AnsibleBindingVMs to clean up: %w''"
definition f_bc_confirm where [text_defs]: "f_bc_confirm = ''confirming the AnsibleBindingVMs are gone: %w''"

text \<open>One list of children: delete them, and go on only when none is left.\<close>

definition wait_for_children :: "env \<Rightarrow> AnsibleBinding \<Rightarrow> string \<Rightarrow> (gerr + AnsibleBindingVM list) \<Rightarrow>
    (gerr + CleanupResult) prog \<Rightarrow> (gerr + CleanupResult) prog" where
  "wait_for_children E ac text r andThen =
     (case r of
        Inl err \<Rightarrow> ret (Inl (errorw text [] err))
      | Inr children \<Rightarrow> do {
          (remaining, e) \<leftarrow> deleteBindingChildren E ac children 0;
          (case e of
             Some err \<Rightarrow> ret (Inl err)
           | None \<Rightarrow>
               if remaining > 0 then ret (Inr \<lparr>cr_Done = False, cr_RequeueAfter = childCleanupPollInterval\<rparr>)
               else andThen)
        })"

definition cleanupAnsibleBinding :: "env \<Rightarrow> unstr \<Rightarrow> (gerr + CleanupResult) prog" where
  "cleanupAnsibleBinding E u =
     (case convertAnsibleBinding u of
        Inl err \<Rightarrow> ret (Inr hook_finished)
      | Inr ac \<Rightarrow> do {
          children \<leftarrow> listBindingChildrenCached E (ab_ns ac) (ab_name ac);
          wait_for_children E ac f_bc_list children (do {
            fresh \<leftarrow> listBindingChildren E (ab_ns ac) (ab_name ac);
            wait_for_children E ac f_bc_confirm fresh (ret (Inr hook_finished))
          })
        })"

section \<open>The aggregate state\<close>

definition f_b_unreadable where [text_defs]: "f_b_unreadable = ''Could not read the per-VM rollup: %s''"
definition f_b_none where [text_defs]: "f_b_none = ''No VirtualMachines match vmSelector yet.''"
definition f_b_cleaning where [text_defs]: "f_b_cleaning = ''%d VM(s) still cleaning up.''"
definition f_b_alsofailed where [text_defs]: "f_b_alsofailed = '' %d other VM(s) also failed their last run.''"
definition f_b_failed where [text_defs]: "f_b_failed = ''%d of %d VM(s) failed their last run: %s.''"
definition f_b_running where [text_defs]: "f_b_running = ''%d of %d VM(s) still running.''"
definition f_b_pending where [text_defs]: "f_b_pending =
  ''%d of %d VM(s) have not completed this request yet (not yet started, powered off, or no reported IP).''"
definition f_b_tail where [text_defs]: "f_b_tail = ''All %d VM(s) succeeded; %d child(ren) still cleaning up.''"
definition f_b_all where [text_defs]: "f_b_all = ''All %d VM(s) completed the requested run successfully.''"
definition st_Terminating where "st_Terminating = ''Terminating''"
definition st_Conflict where "st_Conflict = ''Conflict''"

definition binding_state :: "BindingSummary \<Rightarrow> string \<times> string \<times> bool" where
  "binding_state s =
     (let total = itoa (sm_Total s); left = itoa (sm_Terminating s) in
      if sm_Total s = 0 \<and> sm_Terminating s > 0 then (st_Terminating, sprintf f_b_cleaning [left], False)
      else if sm_Conflicted s > 0
      then (st_Conflict, conflictMessage s @ (if sm_Failed s > 0 then sprintf f_b_alsofailed [itoa (sm_Failed s)] else []), False)
      else if sm_Failed s > 0
      then (StateFailed, sprintf f_b_failed [itoa (sm_Failed s), total, nameList (sm_FailedVMs s)] @
             (if sm_FirstFailure s \<noteq> [] then '' '' @ sm_FirstFailure s else []), False)
      else if sm_Running s > 0 then (st_Running, sprintf f_b_running [itoa (sm_Running s), total], False)
      else if sm_Pending s > 0 then (StatePending, sprintf f_b_pending [itoa (sm_Pending s), total], False)
      else if sm_Terminating s > 0 then (st_Running, sprintf f_b_tail [total, left], False)
      else (StateReady, sprintf f_b_all [total], True))"

definition rollup_state :: "gerr + AnsibleBinding \<Rightarrow> string \<times> string \<times> bool" where
  "rollup_state x =
     (case x of
        Inl err \<Rightarrow> (StatePending, sprintf f_b_unreadable [err_text err], False)
      | Inr ab \<Rightarrow> (case ab_Status ab of
            None \<Rightarrow> (StatePending, f_b_none, False)
          | Some st \<Rightarrow> (case bt_Summary st of
                None \<Rightarrow> (StatePending, f_b_none, False)
              | Some s \<Rightarrow>
                  if sm_Total s = 0 \<and> sm_Terminating s = 0 then (StatePending, f_b_none, False) else binding_state s)))"

definition updateAnsibleBindingStatus :: "env \<Rightarrow> unstr \<Rightarrow> bool \<Rightarrow> gerr option \<Rightarrow> statusMap prog" where
  "updateAnsibleBindingStatus E u success reconcileErr =
     (if reconcileErr \<noteq> None \<or> \<not> success then updateGenericStatus E u success reconcileErr
      else do {
        now \<leftarrow> nowRFC3339 E;
        (let (s, m, r) = rollup_state (convertAnsibleBinding u) in ret (status_map s m r now))
      })"

section \<open>The controllers\<close>

definition ansBindController :: "env \<Rightarrow> controller" where
  "ansBindController E = \<lparr>c_gvr = AnsBindGVR, c_finalizerName = ''field.vmware.com/ansible-binding-cleanup'',
     c_staleFinalizers = [], c_provisionFunc = applyAnsibleBinding E, c_cleanupFunc = Some (cleanupAnsibleBinding E),
     c_updateStatusFunc = updateAnsibleBindingStatus E\<rparr>"

text \<open>An \<open>AWXConnection\<close> keeps nothing outside Kubernetes: no finalizer, no cleanup, and an old finalizer to strip.\<close>

definition awxConnController :: "env \<Rightarrow> controller" where
  "awxConnController E = \<lparr>c_gvr = AWXConnGVR, c_finalizerName = [],
     c_staleFinalizers = [awxConnectionStaleFinalizer],
     c_provisionFunc = applyAWXConnection E, c_cleanupFunc = None, c_updateStatusFunc = updateGenericStatus E\<rparr>"

end
