(* ===== verification/Encode.thy ===== *)
theory Encode
  imports Binding AnsibleRun
begin

text \<open>
  How records become the maps of an unstructured object: \<open>structToMap\<close> and \<open>normalizeJSONNumbers\<close> of
  controller/util.go over the JSON tags of controller/types.go, and what is built with them -
  \<open>ansibleBindingDetails\<close> and \<open>childSpecPatch\<close> of controller/ansiblebinding.go, the status maps of all writers.
  A struct's JSON (\<open>enc_\<dots>\<close>) is the list of its fields in the order of the source, \<open>None\<close> where \<open>omitempty\<close> leaves
  one out, made a map of keys; \<open>use_number\<close> is what a decoder with \<open>UseNumber\<close> makes of it, every number as its text. A timestamp field is a string; \<open>GStamp\<close> is that string, seen as what it denotes.
\<close>

section \<open>Values\<close>

datatype govalue = GNull | GBool bool | GNumber string | GInt int | GFloat string | GString string | GStamp stamp
  | GList "govalue list" | GMap "(string \<times> govalue) list"

text \<open>\<open>strconv.ParseInt(s, 10, 64)\<close>, which is \<open>json.Number.Int64\<close>.\<close>

definition int64_range :: "int set" where
  "int64_range = {- (2 ^ 63) ..< 2 ^ 63}"

fun digits_value :: "nat \<Rightarrow> string \<Rightarrow> nat option" where
  "digits_value n [] = Some n"
| "digits_value n (c # cs) =
     (if CHR ''0'' \<le> c \<and> c \<le> CHR ''9'' then digits_value (10 * n + (of_char c - 48)) cs else None)"

definition unsigned_value :: "string \<Rightarrow> nat option" where
  "unsigned_value s = (if s = [] then None else digits_value 0 s)"

definition signed_value :: "string \<Rightarrow> int option" where
  "signed_value s = (case s of
      [] \<Rightarrow> None
    | c # cs \<Rightarrow>
        if c = CHR ''-'' then map_option (\<lambda>n. - int n) (unsigned_value cs)
        else if c = CHR ''+'' then map_option int (unsigned_value cs)
        else map_option int (unsigned_value s))"

definition parse_int64 :: "string \<Rightarrow> int option" where
  "parse_int64 s = (case signed_value s of None \<Rightarrow> None | Some n \<Rightarrow> if n \<in> int64_range then Some n else None)"

text \<open>\<open>fl\<close> is \<open>json.Number.Float64\<close>: the float's text, or nothing when it is out of range.\<close>

definition normalize_number :: "(string \<Rightarrow> string option) \<Rightarrow> string \<Rightarrow> govalue" where
  "normalize_number fl s = (case parse_int64 s of
      Some i \<Rightarrow> GInt i
    | None \<Rightarrow> (case fl s of None \<Rightarrow> GString s | Some f \<Rightarrow> GFloat f))"

fun normalizeJSONNumbers :: "(string \<Rightarrow> string option) \<Rightarrow> govalue \<Rightarrow> govalue" where
  "normalizeJSONNumbers fl (GMap m) = GMap (map (\<lambda>(k, inner). (k, normalizeJSONNumbers fl inner)) m)"
| "normalizeJSONNumbers fl (GList xs) = GList (map (normalizeJSONNumbers fl) xs)"
| "normalizeJSONNumbers fl (GNumber s) = normalize_number fl s"
| "normalizeJSONNumbers fl v = v"

text \<open>\<open>json.Marshal\<close>, then a decoder with \<open>UseNumber\<close>.\<close>

fun use_number :: "govalue \<Rightarrow> govalue" where
  "use_number (GMap m) = GMap (map (\<lambda>(k, inner). (k, use_number inner)) m)"
| "use_number (GList xs) = GList (map use_number xs)"
| "use_number (GInt n) = GNumber (itoa n)"
| "use_number v = v"

definition f_not_object where [text_defs]: "f_not_object = ''encoding %T: expected a JSON object''"

definition structToMap :: "(string \<Rightarrow> string option) \<Rightarrow> string \<Rightarrow> govalue \<Rightarrow> gerr + govalue smap" where
  "structToMap fl type_name v =
     (case normalizeJSONNumbers fl (use_number v) of
        GMap m \<Rightarrow> Inr m
      | _ \<Rightarrow> Inl (errorf f_not_object [type_name]))"

section \<open>Fields\<close>

definition o_str :: "string \<Rightarrow> govalue option" where
  "o_str s = (if s = [] then None else Some (GString s))"

definition o_stamp :: "stamp \<Rightarrow> govalue option" where
  "o_stamp t = (if t = NoStamp then None else Some (GStamp t))"

definition o_bool :: "bool \<Rightarrow> govalue option" where
  "o_bool b = (if b then Some (GBool True) else None)"

definition o_int :: "int \<Rightarrow> govalue option" where
  "o_int n = (if n = 0 then None else Some (GInt n))"

definition o_list :: "('a \<Rightarrow> govalue) \<Rightarrow> 'a list \<Rightarrow> govalue option" where
  "o_list f xs = (if xs = [] then None else Some (GList (map f xs)))"

definition o_strings :: "string smap \<Rightarrow> govalue option" where
  "o_strings m = (if m = [] then None else Some (GMap (map (\<lambda>(k, v). (k, GString v)) m)))"

lemmas leaf_defs = o_str_def o_stamp_def o_bool_def o_int_def o_list_def o_strings_def

fun put_field :: "string \<times> govalue option \<Rightarrow> govalue smap \<Rightarrow> govalue smap" where
  "put_field (k, None) m = m"
| "put_field (k, Some v) m = smap_put k v m"

definition json_fields :: "(string \<times> govalue option) list \<Rightarrow> govalue smap" where
  "json_fields fs = foldr put_field fs []"

section \<open>The structs of types.go\<close>

definition enc_SecretKeyRef :: "SecretKeyRef \<Rightarrow> govalue" where
  "enc_SecretKeyRef r = GMap (json_fields [(''name'', Some (GString (skr_Name r))), (''key'', o_str (skr_Key r))])"

definition enc_AWXConnectionSpec :: "AWXConnectionSpec \<Rightarrow> govalue" where
  "enc_AWXConnectionSpec c = GMap (json_fields [(''url'', Some (GString (cs_URL c))), (''secretRef'', Some (GString (cs_SecretRef c))),
     (''insecureSkipVerify'', o_bool (cs_InsecureSkipVerify c)),
     (''caBundleSecretRef'', map_option enc_SecretKeyRef (cs_CABundleSecretRef c)),
     (''apiBasePath'', o_str (cs_APIBasePath c)), (''hostNamePrefix'', o_str (cs_HostNamePrefix c))])"

definition enc_TemplateRef :: "TemplateRef \<Rightarrow> govalue" where
  "enc_TemplateRef t = GMap (json_fields [(''name'', Some (GString (tr_Name t))), (''type'', Some (GString (tr_Type t)))])"

definition enc_DeprovisionHook :: "DeprovisionHook \<Rightarrow> govalue" where
  "enc_DeprovisionHook h = GMap (json_fields [(''targeting'', o_str (hk_Targeting h)),
     (''template'', Some (enc_TemplateRef (hk_Template h))), (''timeoutSeconds'', o_int (hk_TimeoutSeconds h))])"

definition enc_VMRunHistoryEntry :: "VMRunHistoryEntry \<Rightarrow> govalue" where
  "enc_VMRunHistoryEntry h = GMap (json_fields [(''jobID'', o_int (he_JobID h)), (''status'', o_str (he_Status h)),
     (''startedAt'', o_stamp (he_StartedAt h)), (''finishedAt'', o_stamp (he_FinishedAt h))])"

definition enc_AnsibleBindingVMSpec :: "AnsibleBindingVMSpec \<Rightarrow> govalue" where
  "enc_AnsibleBindingVMSpec s = GMap (json_fields [(''vmName'', Some (GString (vs_VMName s))),
     (''bindingName'', Some (GString (vs_BindingName s))), (''bindingUID'', o_str (vs_BindingUID s)),
     (''awxConnectionRef'', Some (GString (vs_AWXConnectionRef s))), (''template'', Some (enc_TemplateRef (vs_Template s))),
     (''hostName'', o_str (vs_HostName s)), (''hostVariables'', o_strings (vs_HostVariables s)),
     (''useDefaultLimit'', o_bool (vs_UseDefaultLimit s)), (''extraVars'', o_strings (vs_ExtraVars s)),
     (''cleanupPolicy'', o_str (vs_CleanupPolicy s)), (''onDeleted'', map_option enc_DeprovisionHook (vs_OnDeleted s)),
     (''bindingGeneration'', o_int (vs_BindingGeneration s)), (''bindingTrigger'', o_str (vs_BindingTrigger s))])"

definition enc_DeprovisionStatus :: "DeprovisionStatus \<Rightarrow> govalue" where
  "enc_DeprovisionStatus d = GMap (json_fields [(''phase'', o_str (dp_Phase d)), (''targeting'', o_str (dp_Targeting d)),
     (''message'', o_str (dp_Message d)), (''startedAt'', o_stamp (dp_StartedAt d)), (''deadline'', o_stamp (dp_Deadline d)),
     (''jobID'', o_int (dp_JobID d)), (''jobURL'', o_str (dp_JobURL d)), (''jobStatus'', o_str (dp_JobStatus d)),
     (''jobType'', o_str (dp_JobType d)), (''endpoint'', o_str (dp_Endpoint d)), (''launchError'', o_str (dp_LaunchError d)),
     (''hostPinned'', o_bool (dp_HostPinned d)), (''priorConnection'', map_option GString (dp_PriorConnection d)),
     (''pinnedHostID'', o_int (dp_PinnedHostID d)), (''pinnedHostEndpoint'', o_str (dp_PinnedHostEndpoint d))])"

text \<open>The four fields of every status; \<open>engineStatusFields\<close> are their keys.\<close>

definition engineStatusFields :: "string list" where
  "engineStatusFields = [''state'', ''message'', ''ready'', ''lastUpdated'']"

definition generic_fields :: "'a gstatus_scheme \<Rightarrow> (string \<times> govalue option) list" where
  "generic_fields s = [(''state'', o_str (gs_State s)), (''message'', o_str (gs_Message s)), (''ready'', o_bool (gs_Ready s)),
     (''lastUpdated'', o_stamp (gs_LastUpdated s))]"

definition enc_AnsibleBindingVMStatus :: "AnsibleBindingVMStatus \<Rightarrow> govalue" where
  "enc_AnsibleBindingVMStatus s = GMap (json_fields (generic_fields s @
     [(''observedIP'', o_str (vt_ObservedIP s)), (''phase'', o_str (vt_Phase s)), (''awxHostID'', o_int (vt_AWXHostID s)),
      (''awxInventoryID'', o_int (vt_AWXInventoryID s)), (''awxHostName'', o_str (vt_AWXHostName s)),
      (''awxHostCreated'', o_bool (vt_AWXHostCreated s)), (''awxEndpoint'', o_str (vt_AWXEndpoint s)),
      (''lastJobID'', o_int (vt_LastJobID s)), (''lastJobURL'', o_str (vt_LastJobURL s)),
      (''lastJobStatus'', o_str (vt_LastJobStatus s)), (''lastJobType'', o_str (vt_LastJobType s)),
      (''lastJobConnection'', map_option enc_AWXConnectionSpec (vt_LastJobConnection s)),
      (''lastHostCheck'', o_stamp (vt_LastHostCheck s)), (''appliedGeneration'', o_int (vt_AppliedGeneration s)),
      (''appliedTrigger'', o_str (vt_AppliedTrigger s)), (''history'', o_list enc_VMRunHistoryEntry (vt_History s)),
      (''deprovision'', map_option enc_DeprovisionStatus (vt_Deprovision s))]))"

definition enc_RunHostStatus :: "RunHostStatus \<Rightarrow> govalue" where
  "enc_RunHostStatus h = GMap (json_fields [(''name'', Some (GString (rhs_Name h))), (''address'', o_str (rhs_Address h)),
     (''awxHostID'', o_int (rhs_AWXHostID h)), (''awxInventoryID'', o_int (rhs_AWXInventoryID h)),
     (''awxHostCreated'', o_bool (rhs_AWXHostCreated h))])"

definition enc_AnsibleRunStatus :: "AnsibleRunStatus \<Rightarrow> govalue" where
  "enc_AnsibleRunStatus s = GMap (json_fields (generic_fields s @
     [(''jobID'', o_int (rt_JobID s)), (''jobURL'', o_str (rt_JobURL s)), (''jobStatus'', o_str (rt_JobStatus s)),
      (''startedAt'', o_stamp (rt_StartedAt s)), (''finishedAt'', o_stamp (rt_FinishedAt s)),
      (''launchAttemptedAt'', o_stamp (rt_LaunchAttemptedAt s)), (''cancelRequestedAt'', o_stamp (rt_CancelRequestedAt s)),
      (''awxEndpoint'', o_str (rt_AWXEndpoint s)), (''failureReason'', o_str (rt_FailureReason s)),
      (''resolvedVars'', o_list GString (rt_ResolvedVars s)), (''hosts'', o_list enc_RunHostStatus (rt_Hosts s))]))"

definition enc_BindingSummary :: "BindingSummary \<Rightarrow> govalue" where
  "enc_BindingSummary s = GMap (json_fields [(''total'', Some (GInt (sm_Total s))), (''succeeded'', o_int (sm_Succeeded s)),
     (''running'', o_int (sm_Running s)), (''pending'', o_int (sm_Pending s)), (''failed'', o_int (sm_Failed s)),
     (''conflicted'', o_int (sm_Conflicted s)), (''conflictedVMs'', o_list GString (sm_ConflictedVMs s)),
     (''failedVMs'', o_list GString (sm_FailedVMs s)), (''firstFailure'', o_str (sm_FirstFailure s)),
     (''terminating'', o_int (sm_Terminating s))])"

lemmas enc_defs = enc_AnsibleBindingVMStatus_def enc_AnsibleRunStatus_def enc_BindingSummary_def json_fields_def generic_fields_def

section \<open>The maps and patches sent\<close>

definition f_enc_status where [text_defs]: "f_enc_status = ''encoding status: %w''"
definition f_enc_run_status where [text_defs]: "f_enc_run_status = ''encoding AnsibleRun status: %w''"
definition f_enc_summary where [text_defs]: "f_enc_summary = ''encoding the summary: %w''"

definition ansibleBindingDetails :: "(string \<Rightarrow> string option) \<Rightarrow> BindingSummary \<Rightarrow> int \<Rightarrow> string \<Rightarrow> stamp \<Rightarrow> gerr + govalue smap" where
  "ansibleBindingDetails fl summary observedGeneration lastTrigger lastOrphanScan =
     (case structToMap fl ''main.BindingSummary'' (enc_BindingSummary summary) of
        Inl err \<Rightarrow> Inl (errorw f_enc_summary [] err)
      | Inr summaryMap \<Rightarrow>
          (let statusData = smap_put ''lastAppliedTrigger'' (GString lastTrigger)
                 (smap_put ''observedGeneration'' (GInt observedGeneration) [(''summary'', GMap summaryMap)]) in
           Inr (if lastOrphanScan = NoStamp then statusData
                else smap_put ''lastOrphanScan'' (GStamp lastOrphanScan) statusData)))"

text \<open>What each writer hands to \<open>patchStatus\<close>; the generic map is the one of \<open>updateGenericStatus\<close> and its relatives.\<close>

definition connection_details_map :: "string \<Rightarrow> govalue smap" where
  [simp]: "connection_details_map basePath = [(''apiBasePath'', GString basePath)]"

definition vm_details_map :: "(string \<Rightarrow> string option) \<Rightarrow> AnsibleBindingVMStatus \<Rightarrow> gerr + govalue smap" where
  [simp]: "vm_details_map fl st =
     (case structToMap fl ''main.AnsibleBindingVMStatus'' (enc_AnsibleBindingVMStatus st) of
        Inl err \<Rightarrow> Inl (errorw f_enc_status [] err) | Inr m \<Rightarrow> Inr m)"

definition run_details_map :: "(string \<Rightarrow> string option) \<Rightarrow> AnsibleRunStatus \<Rightarrow> gerr + govalue smap" where
  [simp]: "run_details_map fl st =
     (case structToMap fl ''main.AnsibleRunStatus'' (enc_AnsibleRunStatus st) of
        Inl err \<Rightarrow> Inl (errorw f_enc_run_status [] err) | Inr m \<Rightarrow> Inr m)"

definition generic_status_map :: "string \<Rightarrow> string \<Rightarrow> bool \<Rightarrow> stamp \<Rightarrow> govalue smap" where
  [simp]: "generic_status_map state message ready lastUpdated =
     [(''lastUpdated'', GStamp lastUpdated), (''message'', GString message), (''ready'', GBool ready), (''state'', GString state)]"

fun status_map_of :: "(string \<Rightarrow> string option) \<Rightarrow> payload \<Rightarrow> gerr + govalue smap" where
  "status_map_of fl (PConn basePath) = Inr (connection_details_map basePath)"
| "status_map_of fl (PBinding summary gen trigger orphanScan) = ansibleBindingDetails fl summary gen trigger orphanScan"
| "status_map_of fl (PChild st) = vm_details_map fl st"
| "status_map_of fl (PRun st) = run_details_map fl st"
| "status_map_of fl (PGeneric state message ready lastUpdated) = Inr (generic_status_map state message ready lastUpdated)"

text \<open>
  The status \<open>claimLaunch\<close> sends: the details, and the engine's four fields as the object has them. The object is
  the one handed to \<open>UpdateStatus\<close>.
\<close>

definition engine_values :: "gfound \<Rightarrow> (string \<times> govalue option) list" where
  "engine_values g = [(''state'', map_option GString (gf_state g)), (''message'', map_option GString (gf_message g)),
     (''ready'', map_option GBool (gf_ready g)), (''lastUpdated'', map_option GStamp (gf_lastUpdated g))]"

definition claim_status_map :: "(string \<Rightarrow> string option) \<Rightarrow> unstr \<Rightarrow> gerr + govalue smap" where
  "claim_status_map fl obj =
     (case u_content obj of
        CRun sp (Some status) \<Rightarrow>
          (case status_map_of fl (PRun status) of
             Inl err \<Rightarrow> Inl err
           | Inr data \<Rightarrow> Inr (foldr put_field (engine_values (u_generic obj)) data))
      | _ \<Rightarrow> Inr [])"

text \<open>The object \<open>patchStatus\<close> applies, the body of \<open>patchFinalizer\<close> and the JSON Patch of \<open>childSpecPatch\<close>.\<close>

definition status_object :: "unstr \<Rightarrow> govalue smap \<Rightarrow> govalue" where
  "status_object obj statusData = GMap [(''apiVersion'', GString (u_apiVersion obj)), (''kind'', GString (u_kind obj)),
     (''metadata'', GMap [(''name'', GString (md_Name (u_meta obj))), (''namespace'', GString (md_Namespace (u_meta obj)))]),
     (''status'', GMap statusData)]"

definition finalizer_patch :: "string list \<Rightarrow> string \<Rightarrow> govalue" where
  "finalizer_patch finalizers resourceVersion = GMap [(''metadata'',
     GMap [(''finalizers'', GList (map GString finalizers)), (''resourceVersion'', GString resourceVersion)])]"

definition patch_op :: "string \<Rightarrow> string \<Rightarrow> govalue \<Rightarrow> govalue" where
  "patch_op op path v = GMap [(''op'', GString op), (''path'', GString path), (''value'', v)]"

definition childSpecPatch :: "AnsibleBindingVM \<Rightarrow> AnsibleBindingVMSpec \<Rightarrow> govalue" where
  "childSpecPatch child spec = GList
     [patch_op ''test'' ''/metadata/uid'' (GString (md_UID (ch_meta child))),
      patch_op ''test'' ''/metadata/resourceVersion'' (GString (md_ResourceVersion (ch_meta child))),
      patch_op ''replace'' ''/spec'' (enc_AnsibleBindingVMSpec spec)]"

section \<open>Numbers survive\<close>

text \<open>The values a Go struct can hold: every number an \<open>int64\<close>, and none of them still text.\<close>

fun int64_values :: "govalue \<Rightarrow> bool" where
  "int64_values (GMap m) = list_all (\<lambda>(k, inner). int64_values inner) m"
| "int64_values (GList xs) = list_all int64_values xs"
| "int64_values (GInt n) = (n \<in> int64_range)"
| "int64_values (GNumber s) = False"
| "int64_values v = True"

lemma digit_code: "d < 10 \<Longrightarrow> (of_char (char_of (48 + d :: nat)) :: nat) = 48 + d"
  by (simp add: of_char_of)

lemma digits_value_append: "digits_value n (s @ t) = (case digits_value n s of None \<Rightarrow> None | Some k \<Rightarrow> digits_value k t)"
  by (induction n s rule: digits_value.induct) auto

lemma char_of_digit: "d < 10 \<Longrightarrow> CHR ''0'' \<le> (char_of (48 + d :: nat) :: char) \<and> (char_of (48 + d) :: char) \<le> CHR ''9''"
  by (auto simp: less_eq_char_def digit_code)

lemma digits_value_digit: "d < 10 \<Longrightarrow> digits_value n [char_of (48 + d :: nat)] = Some (10 * n + d)"
  using char_of_digit [of d] digit_code [of d] by simp

lemma digits_value_nat_digits: "digits_value 0 (nat_digits n) = Some n"
proof (induction n rule: nat_digits.induct)
  case (1 n)
  then show ?case
    by (cases "n < 10") (simp_all add: nat_digits.simps [of n] digits_value_append digits_value_digit del: digits_value.simps)
qed

lemma nat_digits_head: "\<exists>d cs. nat_digits n = char_of (48 + d :: nat) # cs \<and> d < 10"
proof (induction n rule: nat_digits.induct)
  case (1 n)
  then show ?case by (cases "n < 10") (force simp: nat_digits.simps [of n])+
qed

lemma signed_value_itoa: "signed_value (itoa n) = Some n"
proof (cases "n < 0")
  case True
  obtain d cs where "nat_digits (nat (- n)) = char_of (48 + d :: nat) # cs" using nat_digits_head by blast
  with True digits_value_nat_digits [of "nat (- n)"] show ?thesis
    by (simp add: signed_value_def itoa_def unsigned_value_def)
next
  case False
  obtain d cs where d: "nat_digits (nat n) = char_of (48 + d :: nat) # cs" "d < 10" using nat_digits_head by blast
  have "CHR ''-'' < CHR ''0''" "CHR ''+'' < CHR ''0''" by (simp_all add: less_char_def)
  with d(2) have "(char_of (48 + d) :: char) \<noteq> CHR ''-''" "(char_of (48 + d) :: char) \<noteq> CHR ''+''"
    using char_of_digit [of d] by (metis leD)+
  with False d digits_value_nat_digits [of "nat n"] show ?thesis
    by (simp add: signed_value_def itoa_def unsigned_value_def)
qed

lemma normalize_use_number: "int64_values v \<Longrightarrow> normalizeJSONNumbers fl (use_number v) = v"
proof (induction v rule: int64_values.induct)
  case (1 m)
  then show ?case by (auto simp: list_all_iff intro!: map_idI)
next
  case (2 xs)
  then show ?case by (auto simp: list_all_iff intro!: map_idI)
next
  case (3 n)
  then show ?case by (simp add: normalize_number_def parse_int64_def signed_value_itoa)
qed auto

lemma structToMap_GMap:
  "structToMap fl type_name (GMap m) = Inr (map (\<lambda>(k, v). (k, normalizeJSONNumbers fl (use_number v))) m)"
  by (simp add: structToMap_def comp_def split_beta)

lemma structToMap_exact: "int64_values (GMap m) \<Longrightarrow> structToMap fl type_name (GMap m) = Inr m"
  using normalize_use_number [of "GMap m" fl] by (simp add: structToMap_def)

end
