(* ===== verification/EncodeProofs.thy ===== *)
theory EncodeProofs
  imports Encode
begin

text \<open>
  The maps the controller sends determine the records they were made of, and the other way round: distinct statuses
  have distinct maps, although \<open>omitempty\<close> leaves zero values out. A nil list or map and an empty one are one value of
  the model, as they are one map of what is sent.
\<close>

section \<open>Leaves\<close>

lemma o_str_inject [simp]: "o_str a = o_str b \<longleftrightarrow> a = b"
  and o_stamp_inject [simp]: "o_stamp t = o_stamp u \<longleftrightarrow> t = u"
  and o_bool_inject [simp]: "o_bool p = o_bool q \<longleftrightarrow> p = q"
  and o_int_inject [simp]: "o_int m = o_int n \<longleftrightarrow> m = n"
  by (auto simp: leaf_defs)

lemma o_list_inject: "inj f \<Longrightarrow> o_list f xs = o_list f ys \<longleftrightarrow> xs = ys"
  by (auto simp: o_list_def inj_eq inj_map_eq_map)

lemma inj_GString: "inj GString"
  by (simp add: inj_def)

lemma o_strings_inject [simp]: "o_strings m = o_strings n \<longleftrightarrow> m = n"
proof -
  have "inj (\<lambda>(k :: string, v). (k, GString v))" by (auto simp: inj_def)
  then show ?thesis by (auto simp: o_strings_def inj_map_eq_map)
qed

lemma map_option_inject: "inj f \<Longrightarrow> map_option f x = map_option f y \<longleftrightarrow> x = y"
  by (cases x; cases y) (auto simp: inj_eq)

section \<open>Fields\<close>

lemma map_of_put_field: "map_of (put_field (k, v) m) = (case v of None \<Rightarrow> map_of m | Some x \<Rightarrow> (map_of m)(k \<mapsto> x))"
  by (cases v) auto

lemma map_of_fields: "distinct (map fst fs) \<Longrightarrow> map_of (json_fields fs) k = (case map_of fs k of None \<Rightarrow> None | Some v \<Rightarrow> v)"
proof (induction fs)
  case (Cons f fs)
  obtain k' v where [simp]: "f = (k', v)" by (cases f)
  from Cons.prems have "map_of fs k' = None" by (auto simp: map_of_eq_None_iff)
  with Cons show ?case by (cases v) (auto simp: json_fields_def map_of_put_field)
qed (simp add: json_fields_def)

lemma fields_inject:
  assumes "map fst fs = map fst gs" "distinct (map fst fs)"
  shows "json_fields fs = json_fields gs \<longleftrightarrow> fs = gs"
proof
  assume eq: "json_fields fs = json_fields gs"
  have v: "v = v'" if "(k, v) \<in> set fs" "(k, v') \<in> set gs" for k v v'
    using that assms map_of_fields [of fs k] map_of_fields [of gs k] eq
    by (simp add: map_of_is_SomeI [of fs k v] map_of_is_SomeI [of gs k v'])
  show "fs = gs"
  proof (rule nth_equalityI)
    from assms(1) show l: "length fs = length gs" by (metis length_map)
    fix i assume i: "i < length fs"
    with l assms(1) have "fst (fs ! i) = fst (gs ! i)" by (metis nth_map)
    with i l v [of "fst (fs ! i)" "snd (fs ! i)" "snd (gs ! i)"] show "fs ! i = gs ! i"
      by (metis nth_mem prod.collapse)
  qed
qed simp

lemma fields_keys: "set (map fst (json_fields fs)) \<subseteq> set (map fst fs)"
proof (induction fs)
  case (Cons f fs)
  then show ?case by (cases f; cases "snd f") (auto simp: json_fields_def)
qed (simp add: json_fields_def)

lemma fields_values: "(\<And>k v. (k, Some v) \<in> set fs \<Longrightarrow> P v) \<Longrightarrow> (k, v) \<in> set (json_fields fs) \<Longrightarrow> P v"
proof (induction fs)
  case (Cons f fs)
  obtain k' o' where [simp]: "f = (k', o')" by (cases f)
  have put: "(k, v) \<in> set (smap_put k' x m) \<Longrightarrow> (k, v) = (k', x) \<or> (k, v) \<in> set m" for x and m :: "govalue smap"
    by (induction k' x m rule: smap_put.induct) (auto split: if_splits)
  show ?case
  proof (cases o')
    case None
    with Cons show ?thesis by (simp add: json_fields_def)
  next
    case (Some x)
    with Cons.prems(2) put [of x "json_fields fs"] Cons.IH Cons.prems(1) show ?thesis by (auto simp: json_fields_def)
  qed
qed (simp add: json_fields_def)

section \<open>Structs\<close>

lemma inj_enc_SecretKeyRef: "inj enc_SecretKeyRef"
  by (rule injI) (auto simp: enc_SecretKeyRef_def fields_inject intro: SecretKeyRef.equality)

lemma inj_enc_AWXConnectionSpec: "inj enc_AWXConnectionSpec"
  by (rule injI)
    (auto simp: enc_AWXConnectionSpec_def fields_inject map_option_inject inj_enc_SecretKeyRef intro: AWXConnectionSpec.equality)

lemma inj_enc_TemplateRef: "inj enc_TemplateRef"
  by (rule injI) (auto simp: enc_TemplateRef_def fields_inject intro: TemplateRef.equality)

lemma inj_enc_DeprovisionHook: "inj enc_DeprovisionHook"
  by (rule injI) (auto simp: enc_DeprovisionHook_def fields_inject inj_eq inj_enc_TemplateRef intro: DeprovisionHook.equality)

lemma inj_enc_VMRunHistoryEntry: "inj enc_VMRunHistoryEntry"
  by (rule injI) (auto simp: enc_VMRunHistoryEntry_def fields_inject intro: VMRunHistoryEntry.equality)

lemma inj_enc_AnsibleBindingVMSpec: "inj enc_AnsibleBindingVMSpec"
  by (rule injI)
    (auto simp: enc_AnsibleBindingVMSpec_def fields_inject map_option_inject inj_enc_DeprovisionHook inj_eq inj_enc_TemplateRef
      intro: AnsibleBindingVMSpec.equality)

lemma inj_enc_DeprovisionStatus: "inj enc_DeprovisionStatus"
  by (rule injI)
    (auto simp: enc_DeprovisionStatus_def fields_inject map_option_inject inj_GString intro: DeprovisionStatus.equality)

lemma inj_enc_RunHostStatus: "inj enc_RunHostStatus"
  by (rule injI) (auto simp: enc_RunHostStatus_def fields_inject intro: RunHostStatus.equality)

lemma inj_enc_BindingSummary: "inj enc_BindingSummary"
  by (rule injI)
    (auto simp: enc_BindingSummary_def fields_inject o_list_inject inj_GString intro: BindingSummary.equality)

lemma inj_enc_AnsibleBindingVMStatus: "inj enc_AnsibleBindingVMStatus"
  by (rule injI)
    (auto simp: enc_AnsibleBindingVMStatus_def generic_fields_def fields_inject map_option_inject o_list_inject
      inj_enc_AWXConnectionSpec inj_enc_VMRunHistoryEntry inj_enc_DeprovisionStatus intro: AnsibleBindingVMStatus.equality)

lemma inj_enc_AnsibleRunStatus: "inj enc_AnsibleRunStatus"
  by (rule injI)
    (auto simp: enc_AnsibleRunStatus_def generic_fields_def fields_inject o_list_inject inj_GString inj_enc_RunHostStatus
      intro: AnsibleRunStatus.equality)

end
