(* ===== verification/Startup.thy ===== *)
theory Startup
  imports Complex_Main Binding CleanupVM AnsibleRun
begin

text \<open>
  controller/migrate.go, the upgrade gate, and the part of controller/main.go that decides whether the
  controller runs at all: the checks of its flags, the client configuration, the identity and API version it works
  with, the gate before any worker starts, and the four controllers. What building a client or filling the caches
  answers is a parameter (\<open>host\<close>). Signals and the goroutines of the worker pool are not modelled; \<open>--api-qps\<close> is
  a finite float and so a rational here (NaN and the infinities fail its checks).
\<close>

section \<open>Children of an earlier version\<close>

record legacyChild =
  lc_namespace :: string
  lc_name :: string
  lc_vmName :: string
  lc_binding :: string
  lc_reason :: string
  lc_terminating :: bool
  lc_jobID :: int

definition f_legacy where [text_defs]: "f_legacy = ''%s/%s (VM %q, binding %q): %s''"
definition f_legacy_job where [text_defs]: "f_legacy_job = '', AWX job %d recorded''"

definition legacy_String :: "legacyChild \<Rightarrow> string" where
  "legacy_String l = sprintf f_legacy [lc_namespace l, lc_name l, lc_vmName l, lc_binding l, lc_reason l] @
     (if lc_terminating l then '', still terminating'' else []) @
     (if lc_jobID l \<noteq> 0 then sprintf f_legacy_job [itoa (lc_jobID l)] else [])"

definition r_unreadable where "r_unreadable = ''its spec cannot be read, so nothing can say which VM it claims''"
definition r_not_claim where "r_not_claim = ''named for its binding and its VM, so it is not the claim on that VM''"
definition r_no_uid where "r_no_uid = ''has no spec.bindingUID, so which incarnation of its binding owns it is unknown''"

definition unreadable_child :: "unstr \<Rightarrow> legacyChild" where
  "unreadable_child item = \<lparr>lc_namespace = md_Namespace (u_meta item), lc_name = md_Name (u_meta item), lc_vmName = [],
     lc_binding = [], lc_reason = r_unreadable, lc_terminating = is_deleting (u_meta item), lc_jobID = 0\<rparr>"

definition legacy_entry :: "AnsibleBindingVM \<Rightarrow> string \<Rightarrow> legacyChild" where
  "legacy_entry child reason = \<lparr>lc_namespace = ch_ns child, lc_name = md_Name (ch_meta child),
     lc_vmName = vs_VMName (ch_spec child), lc_binding = vs_BindingName (ch_spec child), lc_reason = reason,
     lc_terminating = is_deleting (ch_meta child),
     lc_jobID = (case ch_Status child of None \<Rightarrow> 0 | Some st \<Rightarrow> vt_LastJobID st)\<rparr>"

text \<open>Why this version cannot manage an object, if it cannot.\<close>

definition judge_child :: "env \<Rightarrow> unstr \<Rightarrow> legacyChild option" where
  "judge_child E item =
     (case convertAnsibleBindingVM item of
        Inl cErr \<Rightarrow> Some (unreadable_child item)
      | Inr child \<Rightarrow>
          if ch_Spec child = None \<or> vs_VMName (ch_spec child) = [] then Some (unreadable_child item)
          else if md_Name (ch_meta child) \<noteq> childName E (vs_VMName (ch_spec child))
          then Some (legacy_entry child r_not_claim)
          else if vs_BindingUID (ch_spec child) = [] then Some (legacy_entry child r_no_uid)
          else None)"

text \<open>By namespace and then name: the second sort is stable.\<close>

definition sort_legacy :: "legacyChild list \<Rightarrow> legacyChild list" where
  "sort_legacy ls = sort_key lc_namespace (sort_key lc_name ls)"

definition findLegacyChildren :: "env \<Rightarrow> (gerr + legacyChild list) prog" where
  "findLegacyChildren E = do {
     r \<leftarrow> k8s_List E AnsBindVMGVR [] [];
     ret (case r of Inl err \<Rightarrow> Inl err | Inr items \<Rightarrow> Inr (sort_legacy (List.map_filter (judge_child E) items)))
   }"

definition legacyChildSampleLimit :: nat where "legacyChildSampleLimit = 10"

definition nl :: string where "nl = [CHR 0x0A]"

definition f_legacy_list where [text_defs]: "f_legacy_list = ''listing AnsibleBindingVMs to check for ones from an earlier version: %w''"
definition f_legacy_count where [text_defs]: "f_legacy_count =
  ''%d AnsibleBindingVM(s) were created by an earlier version and cannot be managed by this one:''"
definition f_legacy_more where [text_defs]: "f_legacy_more = ''  ... and %d more''"
definition t_why where "t_why =
  ''Children are now named after the VM alone, so that the name is an exclusive claim on it. Running both schemes at once would put two owners on one VM and could launch a second job against a machine already being configured.''"
definition t_upgrade where "t_upgrade =
  ''To upgrade: stop any source that recreates bindings (GitOps included), roll back to the previous controller image, let its bindings finish or explicitly resolve any job still running, delete those bindings so their children and finalizers complete (cleanupPolicy: Delete removes their AWX hosts; Retain leaves the hosts and their ownership markers in place), then deploy this version and recreate the bindings. Recreated bindings provision again - this is not a silent migration.''"
definition t_do_not where "t_do_not =
  ''Do not remove finalizers or delete these objects by hand to get past this check: that abandons AWX hosts and job state this controller can no longer account for.''"

definition legacy_report :: "legacyChild list \<Rightarrow> string" where
  "legacy_report legacy = sprintf f_legacy_count [itoa (int (length legacy))] @ nl @
     concat (map (\<lambda>l. ''  '' @ legacy_String l @ nl) (take legacyChildSampleLimit legacy)) @
     (if length legacy > legacyChildSampleLimit
      then sprintf f_legacy_more [itoa (int (length legacy) - int legacyChildSampleLimit)] @ nl else []) @
     nl @ t_why @ nl @ nl @ t_upgrade @ nl @ t_do_not"

definition checkForLegacyChildren :: "env \<Rightarrow> gerr option prog" where
  "checkForLegacyChildren E = do {
     r \<leftarrow> findLegacyChildren E;
     ret (case r of
        Inl err \<Rightarrow> Some (errorw f_legacy_list [] err)
      | Inr legacy \<Rightarrow> if legacy = [] then None else Some (errorf ''%s'' [legacy_report legacy]))
   }"

section \<open>The version of the VirtualMachine API\<close>

text \<open>What discovery answers: the groups with their versions, and the resources of one group version.\<close>

record api_group =
  ag_Name :: string
  ag_Preferred :: string
  ag_Versions :: "string list"

record versionDiscoverer =
  vd_ServerGroups :: "gerr + api_group list"
  vd_ServerResources :: "string \<Rightarrow> gerr + string list"

definition vmResource where "vmResource = ''virtualmachines''"

definition group_candidates :: "api_group \<Rightarrow> string list" where
  "group_candidates g =
     (if ag_Name g \<noteq> vmGroup then []
      else (if ag_Preferred g \<noteq> [] then [ag_Preferred g] else []) @ filter (\<lambda>v. v \<noteq> ag_Preferred g) (ag_Versions g))"

definition serves_vms :: "versionDiscoverer \<Rightarrow> string \<Rightarrow> bool" where
  "serves_vms d version = (case vd_ServerResources d (vmGroup @ ''/'' @ version) of
      Inl err \<Rightarrow> False | Inr resources \<Rightarrow> vmResource \<in> set resources)"

definition f_groups where [text_defs]: "f_groups = ''listing server groups: %w''"
definition f_no_group where [text_defs]: "f_no_group = ''api group %q not found: is VM Service enabled on this supervisor?''"
definition f_no_version where [text_defs]: "f_no_version = ''no served version of %s.%s found (tried %v)''"

definition resolveVMGVR :: "versionDiscoverer \<Rightarrow> gerr + string" where
  "resolveVMGVR d =
     (case vd_ServerGroups d of
        Inl err \<Rightarrow> Inl (errorw f_groups [] err)
      | Inr groups \<Rightarrow>
          (let candidates = concat (map group_candidates groups) in
           if candidates = [] then Inl (errorf f_no_group [vmGroup])
           else (case find (serves_vms d) candidates of
               None \<Rightarrow> Inl (errorf f_no_version [vmResource, vmGroup, ''['' @ join '' '' candidates @ '']''])
             | Some version \<Rightarrow> Inr version)))"

definition fallbackVMVersion where "fallbackVMVersion = ''v1alpha2''"

section \<open>The supervisor's identity\<close>

definition f_sup_get where [text_defs]: "f_sup_get =
  ''deriving a supervisor id from the kube-system namespace UID (set --supervisor-id to skip this): %w''"
definition f_sup_uid where [text_defs]: "f_sup_uid = ''kube-system namespace has no UID to derive a supervisor id from''"

definition resolveSupervisorID :: "env \<Rightarrow> string \<Rightarrow> (gerr + string) prog" where
  "resolveSupervisorID E override =
     (if override \<noteq> [] then ret (Inr override)
      else do {
        r \<leftarrow> k8s_Get E NsGVR [] ''kube-system'';
        ret (case r of
           Inl err \<Rightarrow> Inl (errorw f_sup_get [] err)
         | Inr ns \<Rightarrow> if md_UID (u_meta ns) = [] then Inl (errorf f_sup_uid []) else Inr (md_UID (u_meta ns)))
      })"

section \<open>Flags\<close>

record flags =
  fl_resync :: int
  fl_reconcileTimeout :: int
  fl_supervisorID :: string
  fl_varsFromResources :: string
  fl_hostCheck :: int
  fl_logLevel :: string
  fl_apiQPS :: rat
  fl_apiBurst :: int

definition flag_checks :: "flags \<Rightarrow> (string \<times> bool) list" where
  "flag_checks f =
     [(''--resync-period must be a positive number of seconds'', fl_resync f > 0),
      (''--reconcile-timeout must be a positive number of seconds'', fl_reconcileTimeout f > 0),
      (''--host-check-period must be a positive number of seconds'', fl_hostCheck f > 0),
      (''--api-qps must be greater than zero'', fl_apiQPS f > 0),
      (''--api-burst must be at least --api-qps'', rat_of_int (fl_apiBurst f) \<ge> fl_apiQPS f),
      (''--log-level must be '' @ quote ''info'' @ '' or '' @ quote ''debug'',
         fl_logLevel f = ''info'' \<or> fl_logLevel f = ''debug'')]"

definition flag_refusal :: "flags \<Rightarrow> string option" where
  "flag_refusal f = map_option fst (find (\<lambda>c. \<not> snd c) (flag_checks f))"

section \<open>Starting\<close>

text \<open>
  What the process finds: the environment variable and home directory, \<open>clientcmd\<close>'s and \<open>rest\<close>'s answers, the
  clients built from a configuration, and whether the informers' caches fill. \<open>hs_float32\<close> is the conversion of Go.
\<close>

record rest_config =
  rc_Host :: string
  rc_QPS :: rat
  rc_Burst :: int

record host =
  hs_KUBECONFIG :: string
  hs_HomeDir :: string
  hs_BuildConfigFromFlags :: "string \<Rightarrow> string + rest_config"
  hs_InClusterConfig :: "string + rest_config"
  hs_float32 :: "rat \<Rightarrow> rat"
  hs_dynamicNewForConfig :: "rest_config \<Rightarrow> string option"
  hs_discoveryNewForConfig :: "rest_config \<Rightarrow> string + versionDiscoverer"
  hs_WaitForCacheSync :: bool

text \<open>\<open>filepath.Join(home, ".kube", "config")\<close> for a home directory that is a clean path other than the root.\<close>

definition kubeconfig_path :: "host \<Rightarrow> string" where
  "kubeconfig_path h =
     (if hs_KUBECONFIG h \<noteq> [] then hs_KUBECONFIG h
      else if hs_HomeDir h \<noteq> [] then hs_HomeDir h @ ''/.kube/config'' else [])"

definition build_config :: "host \<Rightarrow> string + rest_config" where
  "build_config h =
     (let kubeconfig = kubeconfig_path h in
      case (if kubeconfig \<noteq> [] then hs_BuildConfigFromFlags h kubeconfig else Inl []) of
        Inr built \<Rightarrow> Inr built
      | Inl _ \<Rightarrow> hs_InClusterConfig h)"

definition rate_limit :: "host \<Rightarrow> flags \<Rightarrow> rest_config \<Rightarrow> rest_config" where
  "rate_limit h f config = config\<lparr>rc_QPS := hs_float32 h (fl_apiQPS f), rc_Burst := fl_apiBurst f\<rparr>"

text \<open>Exit with a code and a line on stderr, a panic, or the settings the controllers run under.\<close>

record settings =
  sg_resyncPeriod :: int
  sg_reconcileTimeout :: int
  sg_hostCheckPeriod :: int
  sg_debugLogging :: bool
  sg_supervisorID :: string
  sg_vmVersion :: string
  sg_varsFrom :: "(string \<times> string) list"
  sg_config :: rest_config

datatype start_end = Exit nat string | Panic string | Started settings

definition start_settings :: "flags \<Rightarrow> string \<Rightarrow> versionDiscoverer \<Rightarrow> rest_config \<Rightarrow> settings" where
  "start_settings f ident d config = \<lparr>sg_resyncPeriod = seconds (fl_resync f), sg_reconcileTimeout = seconds (fl_reconcileTimeout f),
     sg_hostCheckPeriod = seconds (fl_hostCheck f), sg_debugLogging = (fl_logLevel f = ''debug''), sg_supervisorID = ident,
     sg_vmVersion = (case resolveVMGVR d of Inl err \<Rightarrow> fallbackVMVersion | Inr v \<Rightarrow> v),
     sg_varsFrom = parseVarsFromResources (fl_varsFromResources f), sg_config = config\<rparr>"

text \<open>With the clients built: the identity, the API version, the gate, and the caches.\<close>

definition start_with :: "env \<Rightarrow> flags \<Rightarrow> host \<Rightarrow> rest_config \<Rightarrow> start_end prog" where
  "start_with E f h config = do {
     r \<leftarrow> resolveSupervisorID E (fl_supervisorID f);
     (case r of
        Inl err \<Rightarrow> ret (Panic (err_text err))
      | Inr ident \<Rightarrow>
          (case hs_discoveryNewForConfig h config of
             Inl err \<Rightarrow> ret (Panic err)
           | Inr d \<Rightarrow> do {
               g \<leftarrow> checkForLegacyChildren E;
               ret (case g of
                  Some err \<Rightarrow> Exit 3 (err_text err)
                | None \<Rightarrow>
                    if hs_WaitForCacheSync h then Started (start_settings f ident d config)
                    else Exit 1 ''error waiting for cache sync'')
             }))
   }"

definition start :: "env \<Rightarrow> flags \<Rightarrow> host \<Rightarrow> start_end prog" where
  "start E f h =
     (case flag_refusal f of
        Some text \<Rightarrow> ret (Exit 2 text)
      | None \<Rightarrow>
          (case build_config h of
             Inl err \<Rightarrow> ret (Panic err)
           | Inr built \<Rightarrow>
               (let config = rate_limit h f built in
                case hs_dynamicNewForConfig h config of
                  Some err \<Rightarrow> ret (Panic err)
                | None \<Rightarrow> start_with E f h config)))"

text \<open>The environment the four controllers run in once started, and the controllers.\<close>

definition started_env :: "env \<Rightarrow> settings \<Rightarrow> env" where
  "started_env E s = E\<lparr>e_supervisorID := sg_supervisorID s, e_hostCheckPeriod := sg_hostCheckPeriod s,
     e_varsFromResources := sg_varsFrom s\<rparr>"

definition controllers :: "env \<Rightarrow> controller list" where
  "controllers E = [awxConnController E, ansBindController E, ansBindVMController E, ansibleRunController E]"

end
