(* ===== verification/StartupProofs.thy ===== *)
theory StartupProofs
  imports Startup
begin

text \<open>
  Names and starting: the bounds of child names and binding labels and where the informer files a child, the
  API version the controller works with, and what it has established before a controller runs.
\<close>

section \<open>Names\<close>

lemma length_clip: "length (clipNameSegment s) \<le> min childNameHalfLimit (length s)"
  unfolding clipNameSegment_def trim_right_def
  using length_trim_right_by [of "\<lambda>c. c \<in> set ''-.''" "if length s > childNameHalfLimit then take childNameHalfLimit s else s"]
  by (auto split: if_splits)

lemma childName_bound: "length (childName E vm) \<le> 124 \<and> has_prefix (childName E vm) ''vm-''"
  using length_clip [of vm]
  by (auto simp: childName_def Let_def childNameHalfLimit_def childNameHashLen_def)

lemma bindingLabelValue_bound: "length (bindingLabelValue E n) \<le> maxLabelValue \<and> (bindingLabelValue E n = [] \<longleftrightarrow> n = [])"
  using length_clip [of "take (maxLabelValue - childNameHashLen - 1) n"]
  by (auto simp: bindingLabelValue_def childNameHalfLimit_def childNameHashLen_def maxLabelValue_def)

text \<open>A child this binding creates is found in the index and by the list under the binding's own label.\<close>

lemma child_filed:
  "childrenByBindingIndexFunc (child_object E ac vm spec) =
     (if ab_name ac = [] then [] else [key (ab_ns ac) (bindingLabelValue E (ab_name ac))]) \<and>
   smap_get (md_Labels (u_meta (child_object E ac vm spec))) BindingLabel = Some (bindingLabelValue E (ab_name ac))"
  using bindingLabelValue_bound [of E "ab_name ac"]
  by (simp add: childrenByBindingIndexFunc_def child_object_def smap_get_def)

section \<open>The version of the VirtualMachine API\<close>

text \<open>A version of the API group that discovery names and that serves the resource.\<close>

definition served_version :: "versionDiscoverer \<Rightarrow> string \<Rightarrow> bool" where
  "served_version d v \<longleftrightarrow> serves_vms d v \<and> (\<exists>groups. vd_ServerGroups d = Inr groups \<and>
     (\<exists>g \<in> set groups. ag_Name g = vmGroup \<and> (v \<in> set (ag_Versions g) \<or> v = ag_Preferred g \<and> v \<noteq> [])))"

lemma in_group_candidates:
  "v \<in> set (group_candidates g) \<longleftrightarrow> ag_Name g = vmGroup \<and> (v = ag_Preferred g \<and> v \<noteq> [] \<or> v \<in> set (ag_Versions g) \<and> v \<noteq> ag_Preferred g)"
  by (auto simp: group_candidates_def)

lemma find_Some_in: "find P xs = Some x \<Longrightarrow> x \<in> set xs \<and> P x"
  by (induction xs) (auto split: if_splits)

lemma find_None: "find P xs = None \<longleftrightarrow> (\<forall>x \<in> set xs. \<not> P x)"
  by (induction xs) auto

lemma resolveVMGVR_served: "resolveVMGVR d = Inr v \<Longrightarrow> served_version d v"
  by (auto simp: resolveVMGVR_def Let_def served_version_def in_group_candidates split: sum.splits if_splits option.splits
      dest!: find_Some_in)

text \<open>The empty string is no version; with that, a served version is always found.\<close>

lemma resolveVMGVR_found:
  assumes "served_version d v" "v \<noteq> []"
  shows "\<exists>w. resolveVMGVR d = Inr w"
proof -
  from assms(1) obtain groups g where g: "serves_vms d v" "vd_ServerGroups d = Inr groups" "g \<in> set groups" "ag_Name g = vmGroup"
    "v \<in> set (ag_Versions g) \<or> v = ag_Preferred g \<and> v \<noteq> []" unfolding served_version_def by blast
  then have c: "v \<in> set (concat (map group_candidates groups))" using assms(2) by (auto simp: in_group_candidates)
  with g(1) have f: "find (serves_vms d) (concat (map group_candidates groups)) \<noteq> None" by (auto simp only: find_None)
  from c have "concat (map group_candidates groups) \<noteq> []" by (metis empty_iff list.set(1))
  then show ?thesis unfolding resolveVMGVR_def Let_def g(2) sum.case if_not_P using f by auto
qed

section \<open>The gate\<close>

text \<open>A child this version can manage: named as the claim on its VM, and with the UID of its binding.\<close>

definition manageable :: "env \<Rightarrow> unstr \<Rightarrow> bool" where
  "manageable E item \<longleftrightarrow> (\<exists>c sp. convertAnsibleBindingVM item = Inr c \<and> ch_Spec c = Some sp \<and> vs_VMName sp \<noteq> [] \<and>
     md_Name (ch_meta c) = childName E (vs_VMName sp) \<and> vs_BindingUID sp \<noteq> [])"

lemma judge_child_None: "judge_child E item = None \<longleftrightarrow> manageable E item"
  by (auto simp: judge_child_def manageable_def ch_spec_def split: sum.splits)

lemma sort_legacy_empty [simp]: "sort_legacy ls = [] \<longleftrightarrow> ls = []"
  by (metis length_0_conv length_sort sort_legacy_def)

lemma map_filter_empty: "List.map_filter f xs = [] \<longleftrightarrow> (\<forall>x \<in> set xs. f x = None)"
  by (induction xs) (auto simp: List.map_filter_simps split: option.splits)

lemma emits_checkForLegacyChildren:
  "emits (checkForLegacyChildren E) (\<lambda>r es. \<exists>a. es = [EList AnsBindVMGVR [] [] a] \<and>
     (r = None \<longleftrightarrow> (\<exists>items. a = Inr items \<and> (\<forall>item \<in> set items. manageable E item))))"
proof -
  have f: "emits (findLegacyChildren E) (\<lambda>r es. \<exists>a. es = [EList AnsBindVMGVR [] [] a] \<and>
      (r = Inr [] \<longleftrightarrow> (\<exists>items. a = Inr items \<and> (\<forall>item \<in> set items. manageable E item))))"
    unfolding findLegacyChildren_def
    by (rule emits_bind [OF does_List], elim exE conjE, rule emits_return)
      (auto simp: map_filter_empty judge_child_None split: sum.splits)
  show ?thesis
    unfolding checkForLegacyChildren_def
    by (rule emits_bind [OF f], rule emits_return) (auto split: sum.splits if_splits)
qed

section \<open>Starting\<close>

lemma flag_refusal_None: "flag_refusal f = None \<longleftrightarrow> fl_resync f > 0 \<and> fl_reconcileTimeout f > 0 \<and> fl_hostCheck f > 0 \<and>
    fl_apiQPS f > 0 \<and> rat_of_int (fl_apiBurst f) \<ge> fl_apiQPS f \<and> (fl_logLevel f = ''info'' \<or> fl_logLevel f = ''debug'')"
  by (auto simp: flag_refusal_def flag_checks_def)

fun is_read :: "event \<Rightarrow> bool" where
  "is_read (EGet g ns n a) = True"
| "is_read (EList g ns sel a) = True"
| "is_read _ = False"

text \<open>A configuration of a kubeconfig file when one is named and loads, else the one of the cluster, with the flags' limits.\<close>

definition config_of :: "host \<Rightarrow> flags \<Rightarrow> rest_config \<Rightarrow> bool" where
  "config_of h f config \<longleftrightarrow> rc_Burst config = fl_apiBurst f \<and> rc_QPS config = hs_float32 h (fl_apiQPS f) \<and>
     (\<exists>built. rc_Host config = rc_Host built \<and>
        (hs_InClusterConfig h = Inr built \<or> kubeconfig_path h \<noteq> [] \<and> hs_BuildConfigFromFlags h (kubeconfig_path h) = Inr built))"

definition start_ok :: "env \<Rightarrow> flags \<Rightarrow> host \<Rightarrow> start_end \<Rightarrow> event list \<Rightarrow> bool" where
  "start_ok E f h r es \<longleftrightarrow> list_all is_read es \<and> (flag_refusal f \<noteq> None \<longrightarrow> es = [] \<and> (\<exists>t. r = Exit 2 t)) \<and>
     (\<forall>code t. r = Exit code t \<longrightarrow> code \<in> {1, 2, 3}) \<and>
     (\<forall>s. r = Started s \<longrightarrow> flag_refusal f = None \<and> sg_supervisorID s \<noteq> [] \<and>
        (fl_supervisorID f \<noteq> [] \<longrightarrow> sg_supervisorID s = fl_supervisorID f) \<and>
        (\<exists>items. EList AnsBindVMGVR [] [] (Inr items) \<in> set es \<and> (\<forall>item \<in> set items. manageable E item)) \<and>
        config_of h f (sg_config s) \<and> hs_WaitForCacheSync h)"

lemma emits_resolveSupervisorID:
  "emits (resolveSupervisorID E override) (\<lambda>r es. list_all is_read es \<and>
     (\<forall>i. r = Inr i \<longrightarrow> i \<noteq> [] \<and> (override \<noteq> [] \<longrightarrow> i = override)))"
  unfolding resolveSupervisorID_def
  by (intro emits_if emits_return emits_bind [OF does_Get]) (auto split: sum.splits if_splits)

lemma build_config_of: "build_config h = Inr built \<Longrightarrow> config_of h f (rate_limit h f built)"
  unfolding build_config_def config_of_def rate_limit_def Let_def
  by (cases "hs_BuildConfigFromFlags h (kubeconfig_path h)") (auto split: if_splits)

lemma emits_start_with:
  assumes "flag_refusal f = None" "config_of h f config"
  shows "emits (start_with E f h config) (start_ok E f h)"
  unfolding start_with_def
  by (rule emits_bind [OF emits_resolveSupervisorID], intro emits_sum emits_return emits_bind [OF emits_checkForLegacyChildren])
    (use assms in \<open>auto simp: start_ok_def start_settings_def split: option.splits\<close>)

lemma emits_start: "emits (start E f h) (start_ok E f h)"
  unfolding start_def Let_def
  by (intro emits_option emits_sum emits_return emits_start_with)
    (auto simp: start_ok_def intro: build_config_of)

lemma vm_version_exact:
  "case resolveVMGVR d of Inl err \<Rightarrow> \<not> (\<exists>v. served_version d v \<and> v \<noteq> []) | Inr v \<Rightarrow> served_version d v"
  using resolveVMGVR_found [of d] resolveVMGVR_served [of d] by (cases "resolveVMGVR d") auto

end
