(* ===== verification/BindingProofs.thy ===== *)
theory BindingProofs
  imports Binding HostProofs "HOL-Library.Multiset"
begin

text \<open>
  What a binding does to the children and to AWX: which children it creates, patches and deletes, how a burst
  of writes relates to the writes asked for, what the roll-up counts, which hosts a scan deletes, and when the
  finalizer of a deleted binding may go.
\<close>

section \<open>Bursts\<close>

text \<open>A burst is its writes, in some order, up to some point: a reference definition without batches.\<close>

lemma mset_permute: "mset (permute p xs) = mset xs"
proof (cases "sort p = [0..<length xs]")
  case True
  then have "mset p = mset [0..<length xs]" by (metis mset_sort)
  then have "mset (map (nth xs) p) = mset (map (nth xs) [0..<length xs])" by (metis mset_map)
  with True show ?thesis by (simp add: permute_def map_nth)
qed (simp add: permute_def)

lemma run_batch_append:
  "run_state (run_batch run (xs @ ys)) w =
    (let (rs, w1) = run_state (run_batch run xs) w; (rs', w2) = run_state (run_batch run ys) w1 in (rs @ rs', w2))"
  by (induction xs arbitrary: w) (simp_all add: split_beta Let_def State_Monad.return_def)

definition in_bursts :: "('w \<Rightarrow> ('c \<times> gerr option) prog) \<Rightarrow> 'w list \<Rightarrow> (('c \<times> gerr option) list \<times> nat) \<times> world \<Rightarrow> ('c \<times> gerr option) list \<Rightarrow> nat \<Rightarrow> world \<Rightarrow> bool" where
  "in_bursts run ws out' sofar issued w \<longleftrightarrow> (\<exists>order n. n \<le> length ws \<and> mset order = mset (take n ws) \<and>
     out' = (let (rs, w') = run_state (run_batch run order) w in ((sofar @ rs, issued + n), w')))"

lemma issue_batches_step:
  assumes "\<not> (batchSize = 0 \<or> ws = [])"
    and "run_state (run_batch run (permute (e_order E (w_trace w) (length (take batchSize ws))) (take batchSize ws))) w = (rs, w1)"
  shows "run_state (issue_batches E run batchSize ws sofar issued) w =
    (if batchSize > 1 \<and> failures rs = batchSize then ((sofar @ rs, issued + batchSize), w1)
     else run_state (issue_batches E run (min (2 * batchSize) (min (length (drop batchSize ws)) maxWriteConcurrency))
       (drop batchSize ws) (sofar @ rs) (issued + batchSize)) w1)"
  using assms by (subst issue_batches.simps) (simp add: in_any_order_def peek_def Let_def State_Monad.return_def)

lemma issue_batches_in_bursts:
  "batchSize \<le> length ws \<Longrightarrow>
   in_bursts run ws (run_state (issue_batches E run batchSize ws sofar issued) w) sofar issued w"
proof (induction E run batchSize ws sofar issued arbitrary: w rule: issue_batches.induct)
  case (1 E run batchSize ws sofar issued)
  show ?case
  proof (cases "batchSize = 0 \<or> ws = []")
    case True
    then show ?thesis
      by (subst issue_batches.simps, unfold in_bursts_def, intro exI [of _ "[]"] exI [of _ 0]) (auto simp: State_Monad.return_def)
  next
    case False
    let ?batch = "permute (e_order E (w_trace w) (length (take batchSize ws))) (take batchSize ws)"
    obtain rs w1 where b: "run_state (run_batch run ?batch) w = (rs, w1)" by fastforce
    have m: "mset ?batch = mset (take batchSize ws)" by (rule mset_permute)
    let ?next = "min (2 * batchSize) (min (length (drop batchSize ws)) maxWriteConcurrency)"
    have step: "run_state (issue_batches E run batchSize ws sofar issued) w =
      (if batchSize > 1 \<and> failures rs = batchSize then ((sofar @ rs, issued + batchSize), w1)
       else run_state (issue_batches E run ?next (drop batchSize ws) (sofar @ rs) (issued + batchSize)) w1)"
      by (rule issue_batches_step [OF False b])
    show ?thesis
    proof (cases "batchSize > 1 \<and> failures rs = batchSize")
      case True
      have "in_bursts run ws ((sofar @ rs, issued + batchSize), w1) sofar issued w"
        unfolding in_bursts_def using 1(2) m b by (intro exI [of _ ?batch] exI [of _ batchSize]) simp
      with True step show ?thesis by simp
    next
      case f: False
      have "in_bursts run (drop batchSize ws)
          (run_state (issue_batches E run ?next (drop batchSize ws) (sofar @ rs) (issued + batchSize)) w1) (sofar @ rs) (issued + batchSize) w1"
        by (rule 1(1) [OF False refl refl]) (use f in auto)
      then obtain order n where o: "n \<le> length (drop batchSize ws)" "mset order = mset (take n (drop batchSize ws))"
        "run_state (issue_batches E run ?next (drop batchSize ws) (sofar @ rs) (issued + batchSize)) w1 =
           (let (rs', w') = run_state (run_batch run order) w1 in ((sofar @ rs @ rs', issued + batchSize + n), w'))"
        unfolding in_bursts_def by auto
      have "in_bursts run ws (let (rs', w') = run_state (run_batch run order) w1 in ((sofar @ rs @ rs', issued + batchSize + n), w'))
          sofar issued w"
        unfolding in_bursts_def
      proof (intro exI [of _ "?batch @ order"] exI [of _ "batchSize + n"] conjI)
        show "batchSize + n \<le> length ws" using o(1) 1(2) by simp
        show "mset (?batch @ order) = mset (take (batchSize + n) ws)" using m o(2) by (simp add: take_add)
      qed (unfold run_batch_append b, simp add: split_beta Let_def add.assoc)
      then show ?thesis unfolding step if_not_P [OF f] o(3) .
    qed
  qed
qed

lemma issueChildWrites_in_bursts:
  "in_bursts run (take burstChildWrites ws) (run_state (issueChildWrites E run ws) w) [] 0 w"
  unfolding issueChildWrites_def Let_def by (rule issue_batches_in_bursts) (auto simp: burstChildWrites_def min_def)

text \<open>Everything that fits the burst is issued unless a whole batch of more than one write failed.\<close>

lemma issue_batches_all:
  assumes "batchSize \<le> length ws" "ws \<noteq> [] \<longrightarrow> batchSize > 0"
  shows "(case run_state (issue_batches E run batchSize ws sofar issued) w of ((rs, n), w') \<Rightarrow>
    n = issued + length ws \<or> 2 \<le> failures rs)"
  using assms
proof (induction E run batchSize ws sofar issued arbitrary: w rule: issue_batches.induct)
  case (1 E run batchSize ws sofar issued)
  show ?case
  proof (cases "batchSize = 0 \<or> ws = []")
    case True
    then show ?thesis using 1(2,3) by (subst issue_batches.simps) (auto simp: State_Monad.return_def)
  next
    case False
    let ?batch = "permute (e_order E (w_trace w) (length (take batchSize ws))) (take batchSize ws)"
    obtain rs w1 where b: "run_state (run_batch run ?batch) w = (rs, w1)" by fastforce
    let ?next = "min (2 * batchSize) (min (length (drop batchSize ws)) maxWriteConcurrency)"
    have step: "run_state (issue_batches E run batchSize ws sofar issued) w =
      (if batchSize > 1 \<and> failures rs = batchSize then ((sofar @ rs, issued + batchSize), w1)
       else run_state (issue_batches E run ?next (drop batchSize ws) (sofar @ rs) (issued + batchSize)) w1)"
      by (rule issue_batches_step [OF False b])
    show ?thesis
    proof (cases "batchSize > 1 \<and> failures rs = batchSize")
      case True
      then have "2 \<le> failures (sofar @ rs)" by (simp add: failures_def)
      with True step show ?thesis by simp
    next
      case f: False
      have "case run_state (issue_batches E run ?next (drop batchSize ws) (sofar @ rs) (issued + batchSize)) w1 of ((rs', n), w') \<Rightarrow>
          n = issued + batchSize + length (drop batchSize ws) \<or> 2 \<le> failures rs'"
        by (rule 1(1) [OF False refl refl]) (use f False in \<open>auto simp: maxWriteConcurrency_def\<close>)
      with 1(2) show ?thesis unfolding step if_not_P [OF f] by (auto simp: split_beta)
    qed
  qed
qed

lemma set_permute: "set (permute p xs) = set xs"
  by (metis mset_permute set_mset_mset)

lemma only_run_batch: "(\<And>x. x \<in> set ws \<Longrightarrow> only K (run x)) \<Longrightarrow> only K (run_batch run ws)"
  by (induction ws) (auto intro!: only_intros)

lemma emits_in_any_order: "emits (in_any_order E xs) (\<lambda>r es. es = [] \<and> set r = set xs)"
  by (simp add: in_any_order_def emits_def peek_def set_permute)

lemma only_issue_batches: "(\<And>x. x \<in> set ws \<Longrightarrow> only K (run x)) \<Longrightarrow> only K (issue_batches E run b ws d i)"
proof (induction E run b ws d i rule: issue_batches.induct)
  case (1 E run b ws d i)
  note IH = this
  let ?rest = "\<lambda>rs. if 1 < b \<and> failures rs = b then ret (d @ rs, i + b)
        else issue_batches E run (min (2 * b) (min (length (drop b ws)) maxWriteConcurrency)) (drop b ws) (d @ rs) (i + b)"
  show ?case
  proof (cases "b = 0 \<or> ws = []")
    case True
    then show ?thesis by (subst issue_batches.simps) (auto intro: only_return)
  next
    case False
    have rest: "only K (?rest rs)" for rs
      by (intro only_if only_return IH(1) [OF False refl refl] IH(2)) (auto dest: in_set_dropD)
    have "only K (in_any_order E (take b ws) \<bind> (\<lambda>batch. run_batch run batch \<bind> ?rest))"
      unfolding only_def
    proof (rule emits_bind [OF emits_in_any_order], elim conjE)
      fix batch and es :: "event list"
      assume "es = []" "set batch = set (take b ws)"
      then have "only K (run_batch run batch \<bind> ?rest)"
        by (intro only_bind only_run_batch rest IH(2)) (auto dest: in_set_takeD)
      with \<open>es = []\<close> show "emits (run_batch run batch \<bind> ?rest) (\<lambda>_ es'. list_all K (es @ es'))"
        by (simp add: only_def)
    qed
    with False show ?thesis by (subst issue_batches.simps) (simp add: Let_def)
  qed
qed

lemma only_issueChildWrites: "(\<And>x. x \<in> set ws \<Longrightarrow> only K (run x)) \<Longrightarrow> only K (issueChildWrites E run ws)"
  unfolding issueChildWrites_def Let_def by (rule only_issue_batches) (auto dest: in_set_takeD)

section \<open>Whose children are written\<close>

definition stored_claim :: "env \<Rightarrow> AnsibleBinding \<Rightarrow> string \<Rightarrow> AnsibleBindingVM \<Rightarrow> bool" where
  "stored_claim E ac name c \<longleftrightarrow> (\<exists>t u. e_store E t AnsBindVMGVR (key (ab_ns ac) (childName E name)) = Some u \<and>
     convertAnsibleBindingVM u = Inr c)"

text \<open>
  What a pass may do to children: delete one of its own it listed; patch one of its own, listed or found in the
  informer store under the claim's name, without ever giving the claim away; and create the claim of a selected
  VM under the name that only the VM decides.
\<close>

definition own_child_event :: "env \<Rightarrow> AnsibleBinding \<Rightarrow> string list \<Rightarrow> AnsibleBindingVM list \<Rightarrow> event \<Rightarrow> bool" where
  "own_child_event E ac vms children e \<longleftrightarrow> (case e of
     EDelete g ns n uo a \<Rightarrow> g = AnsBindVMGVR \<and> (\<exists>c \<in> set children. claimHeldBy c ac \<and> ns = ch_ns c \<and> n = md_Name (ch_meta c) \<and>
       uo = Some (md_UID (ch_meta c)))
   | EPatchSpec g ns n uid rv sp a \<Rightarrow> g = AnsBindVMGVR \<and>
       (\<exists>c. (c \<in> set children \<or> (\<exists>vm \<in> set vms. stored_claim E ac vm c)) \<and> claimHeldBy c ac \<and>
          ns = ch_ns c \<and> n = md_Name (ch_meta c) \<and> uid = md_UID (ch_meta c) \<and> rv = md_ResourceVersion (ch_meta c)) \<and>
       vs_BindingName sp = ab_name ac \<and> vs_BindingUID sp = md_UID (ab_meta ac)
   | ECreate g u a \<Rightarrow> g = EventGVR \<or> g = AnsBindVMGVR \<and> md_Namespace (u_meta u) = ab_ns ac \<and>
       (\<exists>vm \<in> set vms. md_Name (u_meta u) = childName E vm \<and>
          (\<exists>sp. u_content u = CChild (Some sp) None \<and> vs_VMName sp = vm \<and> vs_BindingName sp = ab_name ac \<and>
             vs_BindingUID sp = md_UID (ab_meta ac)))
   | _ \<Rightarrow> True)"

definition plan_ok :: "env \<Rightarrow> AnsibleBinding \<Rightarrow> string list \<Rightarrow> AnsibleBindingVM list \<Rightarrow> child_write \<Rightarrow> bool" where
  "plan_ok E ac vms children x \<longleftrightarrow> (case x of
     WCreate vm d \<Rightarrow> md_Name (u_meta vm) \<in> set vms \<and> (\<exists>t. d = childSpecFor ac (md_Name (u_meta vm)) t)
   | WUpdate c d \<Rightarrow> claimHeldBy c ac \<and> (c \<in> set children \<or> (\<exists>vm \<in> set vms. stored_claim E ac vm c)) \<and> (\<exists>n t. d = childSpecFor ac n t)
   | WDelete c p \<Rightarrow> claimHeldBy c ac \<and> c \<in> set children)"

lemma childSpecFor_claim [simp]: "vs_BindingName (childSpecFor ac n t) = ab_name ac" "vs_BindingUID (childSpecFor ac n t) = md_UID (ab_meta ac)"
  "vs_VMName (childSpecFor ac n t) = n"
  by (simp_all add: childSpecFor_def Let_def)

lemma claimHeldBy_spec: "claimHeldBy c ac \<Longrightarrow> vs_BindingName (ch_spec c) = ab_name ac \<and> vs_BindingUID (ch_spec c) = md_UID (ab_meta ac)"
  by (auto simp: claimHeldBy_def ch_spec_def split: option.splits)

lemma own_patch:
  assumes "c \<in> set children \<or> (\<exists>vm \<in> set vms. stored_claim E ac vm c)" "claimHeldBy c ac"
    "vs_BindingName sp = ab_name ac" "vs_BindingUID sp = md_UID (ab_meta ac)"
  shows "own_child_event E ac vms children
    (EPatchSpec AnsBindVMGVR (ch_ns c) (md_Name (ch_meta c)) (md_UID (ch_meta c)) (md_ResourceVersion (ch_meta c)) sp a)"
  unfolding own_child_event_def event.case by (intro conjI refl assms exI [of _ c])

lemma own_delete:
  "c \<in> set children \<Longrightarrow> claimHeldBy c ac \<Longrightarrow>
   own_child_event E ac vms children (EDelete AnsBindVMGVR (ch_ns c) (md_Name (ch_meta c)) (Some (md_UID (ch_meta c))) a)"
  unfolding own_child_event_def event.case by (intro conjI refl bexI [of _ c])

lemma own_run_write: "plan_ok E ac vms children x \<Longrightarrow> only (own_child_event E ac vms children) (run_write E ac x)"
proof (cases x)
  case (WCreate vm d)
  moreover assume "plan_ok E ac vms children x"
  ultimately show ?thesis
    by (auto simp: claim_vm_def createBindingChild_def resolve_claim_def Let_def plan_ok_def own_child_event_def child_object_def
        intro!: only_intros)
next
  case (WUpdate c d)
  moreover assume "plan_ok E ac vms children x"
  ultimately show ?thesis
    unfolding WUpdate run_write.simps updateBindingChildSpec_def
    by (intro only_bind only_return only_prims own_patch) (auto simp: plan_ok_def)
next
  case (WDelete c p)
  moreover assume "plan_ok E ac vms children x"
  ultimately show ?thesis
    using claimHeldBy_spec [of c ac] unfolding WDelete run_write.simps deleteBindingChild_def delete_child_def updateBindingChildSpec_def
    by (intro only_bind only_return only_prims only_if only_option own_patch own_delete) (auto simp: plan_ok_def)
qed

lemma index_children_in: "smap_get (index_children children) n = Some c \<Longrightarrow> c \<in> set children"
proof -
  let ?f = "\<lambda>m c. case ch_Spec c of None \<Rightarrow> m | Some sp \<Rightarrow> smap_put (vs_VMName sp) c m"
  have "map_of (foldl ?f m cs) n = Some c \<Longrightarrow> c \<in> set cs \<or> map_of m n = Some c" for m cs
  proof (induction cs arbitrary: m)
    case (Cons a cs)
    from Cons.IH [of "?f m a"] Cons.prems show ?case by (auto split: option.splits if_splits)
  qed simp
  from this [of "[]" children] show "smap_get (index_children children) n = Some c \<Longrightarrow> c \<in> set children"
    by (simp add: index_children_def smap_get_def)
qed

lemma emits_existing_child:
  "emits (existing_child E ac (index_children children) n) (\<lambda>r es. \<forall>c. r = Some c \<longrightarrow> c \<in> set children \<or> stored_claim E ac n c)"
proof -
  have g: "emits (getCachedChild E (ab_ns ac) (childName E n)) (\<lambda>r es. \<forall>c. r = Some c \<longrightarrow> stored_claim E ac n c)"
    by (auto simp: getCachedChild_def cachedGet_def peek_def emits_def State_Monad.return_def stored_claim_def split: option.splits sum.splits if_splits)
  show ?thesis
    unfolding existing_child_def
    by (intro emits_option emits_return emits_conseq [OF g]) (auto dest: index_children_in)
qed

lemma emits_plan_vms:
  "emits (plan_vms E ac (index_children children) trigger us)
     (\<lambda>r es. \<forall>x \<in> set (fst r). plan_ok E ac (map (\<lambda>u. md_Name (u_meta u)) us) children x)"
proof (induction us)
  case (Cons vm us)
  show ?case
    unfolding plan_vms.simps Let_def
    by (rule emits_bind [OF emits_existing_child], rule emits_bind [OF Cons], intro emits_prod emits_return)
      (auto simp: plan_ok_def plan_vm_def split: option.splits if_splits vm_plan.splits child_write.splits)
qed (simp add: emits_return)

lemma plan_deletions_ok: "x \<in> set (plan_deletions E ac matched children) \<Longrightarrow> plan_ok E ac vms children x"
  by (auto simp: plan_deletions_def own_children_def plan_ok_def)

fun binding_quiet :: "event \<Rightarrow> bool" where
  "binding_quiet (EDelete g ns n uo a) = False"
| "binding_quiet (EPatchSpec g ns n uid rv sp a) = False"
| "binding_quiet (ECreate g u a) = (g = EventGVR)"
| "binding_quiet e = True"

lemma binding_quiet_own: "binding_quiet e \<Longrightarrow> own_child_event E ac vms children e"
  by (cases e) (auto simp: own_child_event_def)

lemma quiet_reap: "only binding_quiet (reapOrphanHosts E ac children matched)"
proof -
  have c: "only binding_quiet (orphan_candidates E c mk cl is)" for c mk cl "is"
    by (induction "is") (auto intro!: only_intros simp: in_any_order_def)
  have d: "only binding_quiet (delete_orphans E c cl hs)" for c cl hs
    by (induction hs) (auto intro!: only_intros)
  show ?thesis
    unfolding reapOrphanHosts_def connect_binding_def confirm_orphans_def listBindingChildren_def in_any_order_def Let_def
    by (intro only_if only_bind only_return only_sum only_prod only_option only_list only_peek c d only_getAWXConnection
        only_awxClientForConnection only_prims) simp_all
qed

lemma quiet_scan: "only binding_quiet (scan_orphans E ac children matched k err)"
  unfolding scan_orphans_def Let_def
  by (intro only_bind only_dueFor only_prod only_if only_return only_option quiet_reap only_prims) simp_all

lemma quiet_finish: "only binding_quiet (finish_binding E u ac summary trigger k scan)"
  unfolding finish_binding_def recordEvent_def writeAnsibleBindingDetails_def Let_def
  by (intro only_prod only_bind only_if only_return only_prims only_patchStatus) simp_all

lemma own_reconcile_children:
  "only (own_child_event E ac (map (\<lambda>u. md_Name (u_meta u)) vms) children) (reconcile_children E u ac vms children)"
  (is "only ?K _")
proof -
  have q: "only binding_quiet m \<Longrightarrow> only ?K m" for m :: "'x prog"
    by (erule only_mono) (rule binding_quiet_own)
  have pl: "only binding_quiet (plan_vms E ac cs t us)" for cs t us
  proof (induction us)
    case (Cons vm us)
    then show ?case
      unfolding plan_vms.simps Let_def existing_child_def by (intro only_bind only_option only_return only_getCachedChild only_prod)
  qed (simp add: only_return)
  have del: "only ?K (issueChildWrites E (run_write E ac) (plan_deletions E ac (matched_vms vms) children))"
    by (intro only_issueChildWrites own_run_write plan_deletions_ok)
  show ?thesis
    unfolding reconcile_children_def Let_def only_def
  proof (rule emits_bind [OF emits_and_only [OF emits_plan_vms pl]], intro emits_prod)
    fix a :: "child_write list \<times> string smap" and es :: "event list" and writes :: "child_write list" and planned :: "string smap"
    assume a: "(\<forall>x\<in>set (fst a). plan_ok E ac (map (\<lambda>u. md_Name (u_meta u)) vms) children x) \<and> list_all binding_quiet es"
      and "a = (writes, planned)"
    then have w: "only ?K (issueChildWrites E (run_write E ac) writes)"
      by (intro only_issueChildWrites own_run_write) auto
    have "only ?K (issueChildWrites E (run_write E ac) (plan_deletions E ac (matched_vms vms) children) \<bind> (\<lambda>(drs, deleted).
        issueChildWrites E (run_write E ac) writes \<bind> (\<lambda>(wrs, issued). scan_orphans E ac children (matched_vms vms)
          (length writes - issued + (length (plan_deletions E ac (matched_vms vms) children) - deleted)) (or_else (first_error drs) (first_error wrs)) \<bind>
          finish_binding E u ac (summarize (summary_children E ac (matched_vms vms) children) (matched_vms vms)
            (add_conflicts planned (List.map_filter fst wrs)) (md_Generation (ab_meta ac)) (annotation (ab_meta ac) ReconcileRequestedAtAnnotation))
            (annotation (ab_meta ac) ReconcileRequestedAtAnnotation)
            (length writes - issued + (length (plan_deletions E ac (matched_vms vms) children) - deleted)))))" (is "only _ ?m")
      by (intro only_bind del w only_prod q [OF quiet_scan] q [OF quiet_finish])
    moreover have "list_all ?K es" using a binding_quiet_own by (auto simp: list_all_iff)
    ultimately show "emits ?m (\<lambda>_ es'. list_all ?K (es @ es'))" by (simp add: only_def)
  qed
qed

text \<open>All that fits one burst is issued, unless at least two writes failed.\<close>

definition burst_complete :: "env \<Rightarrow> ('w \<Rightarrow> ('c \<times> gerr option) prog) \<Rightarrow> 'w list \<Rightarrow> world \<Rightarrow> bool" where
  "burst_complete E run ws w \<longleftrightarrow> (let (rs, n) = result_of (issueChildWrites E run ws) w in
     n = min burstChildWrites (length ws) \<or> 2 \<le> failures rs)"

lemma issueChildWrites_complete: "burst_complete E run ws w"
proof -
  let ?ws = "take burstChildWrites ws"
  have "min (length ?ws) 1 \<le> length ?ws" "?ws \<noteq> [] \<longrightarrow> min (length ?ws) 1 > 0" by (auto simp: min_def)
  from issue_batches_all [OF this, where E = E and run = run and sofar = "[]" and issued = 0 and w = w] show ?thesis
    by (auto simp: burst_complete_def result_of_def issueChildWrites_def Let_def split_beta min.commute)
qed


end
