(* ===== verification/BindingRollup.thy ===== *)
theory BindingRollup
  imports Binding
begin

text \<open>
  What a binding's roll-up says: the counters add up to the selected VMs, none is negative, and the
  aggregate is ready only when every selected VM has a child that finished what is asked for now.
\<close>

section \<open>The counters\<close>

definition counted :: "BindingSummary \<Rightarrow> int" where
  "counted s = sm_Succeeded s + sm_Running s + sm_Pending s + sm_Failed s + sm_Conflicted s"

text \<open>What a pass over the children leaves alone.\<close>

definition same_frame :: "BindingSummary \<Rightarrow> BindingSummary \<Rightarrow> bool" where
  "same_frame s s' \<longleftrightarrow> counted s' = counted s \<and> sm_Total s' = sm_Total s \<and> sm_Conflicted s' = sm_Conflicted s \<and>
     sm_ConflictedVMs s' = sm_ConflictedVMs s"

lemma same_frame_trans: "same_frame s t \<Longrightarrow> same_frame t u \<Longrightarrow> same_frame s u"
  by (simp add: same_frame_def)

lemma frame_count_child: "same_frame s (count_child g t c s)"
  by (simp add: same_frame_def counted_def count_child_def count_failed_def Let_def)

lemma frame_loop: "same_frame s (summarize_loop matched conflicts g t cs seen s)"
proof (induction matched conflicts g t cs seen s rule: summarize_loop.induct)
  case (2 matched conflicts g t c cs seen s)
  have "same_frame s (s\<lparr>sm_Terminating := sm_Terminating s + 1\<rparr>)" by (simp add: same_frame_def counted_def)
  with 2 frame_count_child [of s g t c] show ?case
    by (auto simp: Let_def intro: same_frame_trans)
qed (simp add: same_frame_def)

text \<open>No counter but \<open>sm_Pending\<close> ever goes down.\<close>

definition grows :: "BindingSummary \<Rightarrow> BindingSummary \<Rightarrow> bool" where
  "grows s s' \<longleftrightarrow> sm_Succeeded s \<le> sm_Succeeded s' \<and> sm_Running s \<le> sm_Running s' \<and> sm_Failed s \<le> sm_Failed s' \<and>
     sm_Terminating s \<le> sm_Terminating s'"

lemma grows_trans: "grows s t \<Longrightarrow> grows t u \<Longrightarrow> grows s u"
  by (auto simp: grows_def)

lemma grows_count_child: "grows s (count_child g t c s)"
  by (simp add: grows_def count_child_def count_failed_def Let_def)

lemma grows_loop: "grows s (summarize_loop matched conflicts g t cs seen s)"
proof (induction matched conflicts g t cs seen s rule: summarize_loop.induct)
  case (2 matched conflicts g t c cs seen s)
  have "grows s (s\<lparr>sm_Terminating := sm_Terminating s + 1\<rparr>)" by (simp add: grows_def)
  with 2 grows_count_child [of s g t c] show ?case
    by (auto simp: Let_def intro: grows_trans)
qed (simp add: grows_def)

lemma summarize_frame:
  "same_frame (initial_summary matched conflicts) (summarize cs matched conflicts g t)"
  "grows (initial_summary matched conflicts) (summarize cs matched conflicts g t)"
  using frame_loop [of "initial_summary matched conflicts" matched conflicts g t cs "[]"]
    grows_loop [of "initial_summary matched conflicts" matched conflicts g t cs "[]"]
  by (simp_all add: summarize_def Let_def same_frame_def counted_def grows_def)

lemma summarize_adds_up:
  "counted (summarize cs matched conflicts g t) = sm_Total (summarize cs matched conflicts g t) \<and>
   sm_Total (summarize cs matched conflicts g t) = int (length matched) \<and>
   sm_Conflicted (summarize cs matched conflicts g t) = int (length conflicts)"
  using summarize_frame(1) [of matched conflicts cs g t]
  by (simp add: same_frame_def counted_def initial_summary_def zero_summary_def)

text \<open>The lists of names are capped.\<close>

lemma summarize_names:
  "length (sm_FailedVMs (summarize cs matched conflicts g t)) \<le> summaryNameLimit \<and>
   length (sm_ConflictedVMs (summarize cs matched conflicts g t)) \<le> summaryNameLimit"
  using summarize_frame(1) [of matched conflicts cs g t]
  by (simp add: same_frame_def initial_summary_def) (simp add: summarize_def Let_def)

section \<open>The VMs accounted for\<close>

text \<open>The VMs that may still be counted: selected, without a conflict, and not seen yet.\<close>

definition open_vms :: "string smap \<Rightarrow> string smap \<Rightarrow> string list \<Rightarrow> string set" where
  "open_vms matched conflicts seen = {vm \<in> fst ` set matched. vm \<notin> set seen \<and> \<not> nonempty (smap_get conflicts vm)}"

lemma card_smap_keys: "smap_ok m \<Longrightarrow> card (fst ` set m) = length m"
  using distinct_card [of "map fst m"] by (simp add: strict_sorted_iff)

lemma open_vms_Cons: "open_vms matched conflicts (vm # seen) = open_vms matched conflicts seen - {vm}"
  by (auto simp: open_vms_def)

lemma finite_open_vms [simp]: "finite (open_vms matched conflicts seen)"
  by (simp add: open_vms_def)

lemma open_vm_counted:
  assumes "smap_get matched vm \<noteq> None" "vm \<notin> set seen" "\<not> nonempty (smap_get conflicts vm)"
  shows "vm \<in> open_vms matched conflicts seen"
  using assms by (auto simp: open_vms_def smap_get_def map_of_eq_None_iff)

lemma pending_loop:
  "sm_Pending s - int (card (open_vms matched conflicts seen)) \<le> sm_Pending (summarize_loop matched conflicts g t cs seen s)"
proof (induction matched conflicts g t cs seen s rule: summarize_loop.induct)
  case (2 matched conflicts g t c cs seen s)
  let ?vm = "vs_VMName (ch_spec c)"
  have p: "sm_Pending s - 1 \<le> sm_Pending (count_child g t c s)"
    by (simp add: count_child_def count_failed_def Let_def)
  show ?case
  proof (cases "ch_Spec c = None \<or> is_deleting (ch_meta c) \<or> smap_get matched ?vm = None \<or> ?vm \<in> set seen \<or>
      nonempty (smap_get conflicts ?vm)")
    case True
    with 2(1-3) show ?thesis by (auto simp: Let_def)
  next
    case False
    then have m: "?vm \<in> open_vms matched conflicts seen" by (intro open_vm_counted) auto
    then have "card (open_vms matched conflicts seen) = Suc (card (open_vms matched conflicts (?vm # seen)))"
      unfolding open_vms_Cons by (metis card.remove finite_open_vms)
    moreover have "sm_Pending (count_child g t c s) - int (card (open_vms matched conflicts (?vm # seen)))
        \<le> sm_Pending (summarize_loop matched conflicts g t cs (?vm # seen) (count_child g t c s))"
      using False 2(4) by (simp add: Let_def)
    ultimately show ?thesis using False p by (auto simp: Let_def)
  qed
qed simp

text \<open>
  With one entry per VM in both maps, and conflicts only on selected VMs and with the name of an owner, every
  counter is a number of VMs.
\<close>

lemma summarize_nonneg:
  assumes "smap_ok matched" "smap_ok conflicts" "fst ` set conflicts \<subseteq> fst ` set matched" "[] \<notin> snd ` set conflicts"
  shows "0 \<le> sm_Succeeded (summarize cs matched conflicts g t) \<and> 0 \<le> sm_Running (summarize cs matched conflicts g t) \<and>
    0 \<le> sm_Failed (summarize cs matched conflicts g t) \<and> 0 \<le> sm_Pending (summarize cs matched conflicts g t)"
proof -
  have "smap_get conflicts vm = Some v \<Longrightarrow> v \<noteq> []" for vm v
    using assms(4) by (force simp: smap_get_def dest: map_of_SomeD)
  then have "open_vms matched conflicts [] = fst ` set matched - fst ` set conflicts"
    by (auto simp: open_vms_def smap_get_def nonempty_def map_of_eq_None_iff split: option.splits)
  then have "card (open_vms matched conflicts []) = card (fst ` set matched) - card (fst ` set conflicts)"
    using assms(3) by (simp add: card_Diff_subset)
  moreover have "card (fst ` set matched) = length matched" "card (fst ` set conflicts) = length conflicts"
    using assms(1,2) by (simp_all add: card_smap_keys)
  moreover have "card (fst ` set conflicts) \<le> card (fst ` set matched)" using assms(3) by (intro card_mono) auto
  ultimately have "0 \<le> sm_Pending (summarize cs matched conflicts g t)"
    using pending_loop [of "initial_summary matched conflicts" matched conflicts "[]" g t cs]
    by (simp add: summarize_def Let_def initial_summary_def of_nat_diff)
  with summarize_frame(2) [of matched conflicts cs g t] show ?thesis
    by (simp add: grows_def initial_summary_def zero_summary_def)
qed

section \<open>Every VM exactly once\<close>

text \<open>
  What the summary says of one VM: that it has a conflict, or else what its child says - the first in the list that is
  not on its way out - and that it waits where it has none.
\<close>

datatype verdict = VSucceeded | VRunning | VPending | VFailed | VConflicted

definition child_verdict :: "int \<Rightarrow> string \<Rightarrow> AnsibleBindingVM \<Rightarrow> verdict" where
  "child_verdict g t c = (let phase = (case ch_Status c of None \<Rightarrow> [] | Some st \<Rightarrow> vt_Phase st);
       state = (case ch_Status c of None \<Rightarrow> [] | Some st \<Rightarrow> gs_State st) in
     if state = StateFailed then VFailed else if run_stale g t (ch_Status c) then VPending
     else if phase = PhaseFailed then VFailed else if phase = PhaseSucceeded then VSucceeded
     else if phase = PhaseRunning then VRunning else VPending)"

definition stands_for :: "string \<Rightarrow> AnsibleBindingVM \<Rightarrow> bool" where
  "stands_for vm c \<longleftrightarrow> ch_Spec c \<noteq> None \<and> \<not> is_deleting (ch_meta c) \<and> vs_VMName (ch_spec c) = vm"

definition open_verdict :: "AnsibleBindingVM list \<Rightarrow> int \<Rightarrow> string \<Rightarrow> string \<Rightarrow> verdict" where
  "open_verdict cs g t vm = (case find (stands_for vm) cs of None \<Rightarrow> VPending | Some c \<Rightarrow> child_verdict g t c)"

definition vm_verdict :: "AnsibleBindingVM list \<Rightarrow> string smap \<Rightarrow> int \<Rightarrow> string \<Rightarrow> string \<Rightarrow> verdict" where
  "vm_verdict cs conflicts g t vm = (if nonempty (smap_get conflicts vm) then VConflicted else open_verdict cs g t vm)"

fun counter :: "verdict \<Rightarrow> BindingSummary \<Rightarrow> int" where
  "counter VSucceeded s = sm_Succeeded s"
| "counter VRunning s = sm_Running s"
| "counter VPending s = sm_Pending s"
| "counter VFailed s = sm_Failed s"
| "counter VConflicted s = sm_Conflicted s"

lemma counter_count_child:
  "counter v (count_child g t c s) = counter v s + (if child_verdict g t c = v then 1 else 0) - (if v = VPending then 1 else 0)"
  by (cases v) (simp_all add: count_child_def count_failed_def child_verdict_def Let_def)

lemma child_verdict_free: "child_verdict g t c \<noteq> VConflicted"
  by (simp add: child_verdict_def Let_def)

lemma open_verdict_Cons:
  "open_verdict (c # cs) g t vm = (if stands_for vm c then child_verdict g t c else open_verdict cs g t vm)"
  by (simp add: open_verdict_def)

definition open_as :: "verdict \<Rightarrow> AnsibleBindingVM list \<Rightarrow> int \<Rightarrow> string \<Rightarrow> string set \<Rightarrow> string set" where
  "open_as v cs g t vms = {vm \<in> vms. open_verdict cs g t vm = v}"

lemma open_as_skip:
  "\<forall>vm \<in> vms. \<not> stands_for vm c \<Longrightarrow> open_as v (c # cs) g t vms = open_as v cs g t vms"
  by (auto simp: open_as_def open_verdict_Cons)

lemma open_as_take:
  assumes "vm \<in> vms" "stands_for vm c" "finite vms"
  shows "int (card (open_as v (c # cs) g t vms)) =
    int (card (open_as v cs g t (vms - {vm}))) + (if child_verdict g t c = v then 1 else 0)"
proof -
  have others: "\<not> stands_for x c" if "x \<noteq> vm" for x using assms(2) that by (auto simp: stands_for_def)
  have e: "open_as v (c # cs) g t vms = (if child_verdict g t c = v then {vm} else {}) \<union> open_as v cs g t (vms - {vm})"
    using assms(1,2) others by (auto simp: open_as_def open_verdict_Cons)
  have "finite (open_as v cs g t (vms - {vm}))" "vm \<notin> open_as v cs g t (vms - {vm})"
    using assms(3) by (auto simp: open_as_def)
  then show ?thesis by (simp add: e)
qed

text \<open>The loop, exactly: each VM still open goes to the counter of its verdict, and leaves \<open>Pending\<close> for it.\<close>

lemma counter_loop:
  "counter v (summarize_loop matched conflicts g t cs seen s) = counter v s +
     int (card (open_as v cs g t (open_vms matched conflicts seen))) -
     (if v = VPending then int (card (open_vms matched conflicts seen)) else 0)"
proof (induction matched conflicts g t cs seen s rule: summarize_loop.induct)
  case (1 matched conflicts g t seen s)
  have "open_as v [] g t vms = (if v = VPending then vms else {})" for vms
    by (auto simp: open_as_def open_verdict_def)
  then show ?case by simp
next
  case (2 matched conflicts g t c cs seen s)
  let ?vm = "vs_VMName (ch_spec c)" and ?open = "open_vms matched conflicts seen"
  have gone: "counter v (s\<lparr>sm_Terminating := n\<rparr>) = counter v s" for n by (cases v) simp_all
  show ?case
  proof (cases "ch_Spec c = None \<or> is_deleting (ch_meta c) \<or> smap_get matched ?vm = None \<or> ?vm \<in> set seen \<or>
      nonempty (smap_get conflicts ?vm)")
    case True
    then have "\<forall>vm \<in> ?open. \<not> stands_for vm c"
      by (auto simp: stands_for_def open_vms_def smap_get_def map_of_eq_None_iff)
    from open_as_skip [OF this] True 2(1-3) gone show ?thesis by (auto simp: Let_def)
  next
    case False
    then have m: "?vm \<in> ?open" and st: "stands_for ?vm c" by (auto intro: open_vm_counted simp: stands_for_def)
    have c: "card ?open = Suc (card (open_vms matched conflicts (?vm # seen)))"
      unfolding open_vms_Cons using m by (metis card.remove finite_open_vms)
    have e: "summarize_loop matched conflicts g t (c # cs) seen s =
        summarize_loop matched conflicts g t cs (?vm # seen) (count_child g t c s)"
      using False by (auto simp: Let_def)
    have "counter v (summarize_loop matched conflicts g t (c # cs) seen s) = counter v (count_child g t c s) +
        int (card (open_as v cs g t (open_vms matched conflicts (?vm # seen)))) -
        (if v = VPending then int (card (open_vms matched conflicts (?vm # seen))) else 0)"
      unfolding e by (rule 2(4) [OF refl]) (use False in auto)
    also have "\<dots> = counter v s + int (card (open_as v (c # cs) g t ?open)) - (if v = VPending then int (card ?open) else 0)"
      unfolding counter_count_child open_as_take [OF m st finite_open_vms] open_vms_Cons using c [unfolded open_vms_Cons] by simp
    finally show ?thesis .
  qed
qed

text \<open>
  With one entry per VM in both maps, and conflicts only on selected VMs and with the name of an owner: every counter is
  the number of selected VMs with that verdict.
\<close>

lemma summarize_counts:
  assumes "smap_ok matched" "smap_ok conflicts" "fst ` set conflicts \<subseteq> fst ` set matched" "[] \<notin> snd ` set conflicts"
  shows "counter v (summarize cs matched conflicts g t) = int (card {vm \<in> fst ` set matched. vm_verdict cs conflicts g t vm = v})"
proof -
  let ?S = "summarize cs matched conflicts g t" and ?I = "initial_summary matched conflicts"
  have ne: "nonempty (smap_get conflicts vm) \<longleftrightarrow> vm \<in> fst ` set conflicts" for vm
  proof (cases "map_of conflicts vm")
    case None
    then show ?thesis by (simp add: smap_get_def nonempty_def map_of_eq_None_iff)
  next
    case (Some x)
    then have "(vm, x) \<in> set conflicts" by (rule map_of_SomeD)
    with assms(4) have "x \<noteq> []" "vm \<in> fst ` set conflicts" by force+
    with Some show ?thesis by (simp add: smap_get_def nonempty_def)
  qed
  have op: "open_vms matched conflicts [] = fst ` set matched - fst ` set conflicts"
    by (auto simp: open_vms_def ne)
  have card: "card (fst ` set matched) = length matched" "card (fst ` set conflicts) = length conflicts"
    using assms(1,2) by (simp_all add: card_smap_keys)
  have copen: "int (card (open_vms matched conflicts [])) = int (length matched) - int (length conflicts)"
    unfolding op using assms(3) card by (simp add: card_Diff_subset) (metis card_mono List.finite_set finite_imageI of_nat_diff)
  have loop: "counter v ?S = counter v ?I + int (card (open_as v cs g t (open_vms matched conflicts []))) -
      (if v = VPending then int (card (open_vms matched conflicts [])) else 0)"
    using counter_loop [of v matched conflicts g t cs "[]" ?I] by (cases v) (simp_all add: summarize_def Let_def)
  show ?thesis
  proof (cases "v = VConflicted")
    case True
    have "{vm \<in> fst ` set matched. vm_verdict cs conflicts g t vm = VConflicted} = fst ` set conflicts"
      using assms(3) child_verdict_free by (auto simp: vm_verdict_def ne open_verdict_def split: option.splits)
    with True card show ?thesis using summarize_adds_up [of cs matched conflicts g t] by simp
  next
    case False
    then have "{vm \<in> fst ` set matched. vm_verdict cs conflicts g t vm = v} = open_as v cs g t (open_vms matched conflicts [])"
      by (auto simp: vm_verdict_def open_as_def op ne)
    moreover have "counter v ?I = (if v = VPending then int (length matched) - int (length conflicts) else 0)"
      using False by (cases v) (simp_all add: initial_summary_def zero_summary_def)
    ultimately show ?thesis unfolding loop using copen by simp
  qed
qed

text \<open>And the children on their way out are counted apart.\<close>

lemma terminating_counts:
  "sm_Terminating (summarize cs matched conflicts g t) = int (length (filter (\<lambda>c. ch_Spec c \<noteq> None \<and> is_deleting (ch_meta c)) cs))"
proof -
  have k: "sm_Terminating (count_child g t c s) = sm_Terminating s" for g t c s
    by (simp add: count_child_def count_failed_def Let_def)
  have "sm_Terminating (summarize_loop matched conflicts g t cs seen s) = sm_Terminating s +
      int (length (filter (\<lambda>c. ch_Spec c \<noteq> None \<and> is_deleting (ch_meta c)) cs))" for seen s
    by (induction matched conflicts g t cs seen s rule: summarize_loop.induct) (auto simp: Let_def k)
  then show ?thesis by (simp add: summarize_def Let_def initial_summary_def zero_summary_def)
qed

section \<open>Ready\<close>

text \<open>A child that finished, successfully, what the binding asks for now.\<close>

definition succeeded_child :: "int \<Rightarrow> string \<Rightarrow> AnsibleBindingVM \<Rightarrow> bool" where
  "succeeded_child g t c \<longleftrightarrow> ch_Spec c \<noteq> None \<and> \<not> is_deleting (ch_meta c) \<and> (\<exists>st. ch_Status c = Some st \<and>
     vt_Phase st = PhaseSucceeded \<and> vt_AppliedGeneration st = g \<and> vt_AppliedTrigger st = t \<and> gs_State st \<noteq> StateFailed)"

lemma phases_distinct: "PhaseSucceeded \<noteq> PhaseFailed"
  by (simp add: PhaseSucceeded_def PhaseFailed_def)

lemma count_child_succeeded:
  assumes "ch_Spec c \<noteq> None" "\<not> is_deleting (ch_meta c)"
  shows "sm_Succeeded (count_child g t c s) = sm_Succeeded s + (if succeeded_child g t c then 1 else 0)"
proof (cases "ch_Status c")
  case None
  then show ?thesis
    by (simp add: count_child_def count_failed_def succeeded_child_def run_stale_def Let_def if_distrib [where f = sm_Succeeded])
next
  case (Some st)
  then show ?thesis
    using assms phases_distinct
    by (auto simp: count_child_def count_failed_def succeeded_child_def run_stale_def Let_def if_distrib [where f = sm_Succeeded])
qed

definition succeeded_vms :: "int \<Rightarrow> string \<Rightarrow> AnsibleBindingVM list \<Rightarrow> string set" where
  "succeeded_vms g t cs = {vs_VMName (ch_spec c) | c. c \<in> set cs \<and> succeeded_child g t c}"

lemma succeeded_loop:
  "sm_Succeeded (summarize_loop matched conflicts g t cs seen s) - sm_Succeeded s
     \<le> int (card (open_vms matched conflicts seen \<inter> succeeded_vms g t cs))"
proof (induction matched conflicts g t cs seen s rule: summarize_loop.induct)
  case (2 matched conflicts g t c cs seen s)
  let ?vm = "vs_VMName (ch_spec c)"
  let ?o = "open_vms matched conflicts seen"
  have mono: "card (?o \<inter> succeeded_vms g t cs) \<le> card (?o \<inter> succeeded_vms g t (c # cs))"
    by (rule card_mono) (auto simp: succeeded_vms_def)
  show ?case
  proof (cases "ch_Spec c = None \<or> is_deleting (ch_meta c) \<or> smap_get matched ?vm = None \<or> ?vm \<in> set seen \<or>
      nonempty (smap_get conflicts ?vm)")
    case True
    with 2(1-3) mono show ?thesis by (auto simp: Let_def)
  next
    case False
    then have m: "?vm \<in> ?o" by (intro open_vm_counted) auto
    let ?rest = "open_vms matched conflicts (?vm # seen) \<inter> succeeded_vms g t cs"
    have ih: "sm_Succeeded (summarize_loop matched conflicts g t cs (?vm # seen) (count_child g t c s))
        - sm_Succeeded (count_child g t c s) \<le> int (card ?rest)"
      using False 2(4) by (simp add: Let_def)
    have r: "?rest \<subseteq> (?o \<inter> succeeded_vms g t (c # cs)) - {?vm}"
      by (auto simp: succeeded_vms_def open_vms_Cons)
    show ?thesis
    proof (cases "succeeded_child g t c")
      case True
      then have "?vm \<in> ?o \<inter> succeeded_vms g t (c # cs)" using m by (auto simp: succeeded_vms_def)
      then have "Suc (card ?rest) \<le> card (?o \<inter> succeeded_vms g t (c # cs))"
        using r by (metis card_Suc_Diff1 card_mono finite_Diff finite_Int finite_open_vms Suc_le_mono)
      then show ?thesis using ih False count_child_succeeded [of c g t s] True by (auto simp: Let_def)
    next
      case n: False
      have "card ?rest \<le> card (?o \<inter> succeeded_vms g t (c # cs))"
        using r by (intro card_mono) auto
      then show ?thesis using ih False count_child_succeeded [of c g t s] n by (auto simp: Let_def)
    qed
  qed
qed simp

lemma binding_state_ready:
  "snd (snd (binding_state s)) \<longleftrightarrow> \<not> (sm_Total s = 0 \<and> sm_Terminating s > 0) \<and> sm_Conflicted s \<le> 0 \<and> sm_Failed s \<le> 0 \<and>
     sm_Running s \<le> 0 \<and> sm_Pending s \<le> 0 \<and> sm_Terminating s \<le> 0"
  by (auto simp: binding_state_def Let_def)

lemma terminating_loop:
  assumes "c \<in> set cs" "ch_Spec c \<noteq> None" "is_deleting (ch_meta c)"
  shows "sm_Terminating s < sm_Terminating (summarize_loop matched conflicts g t cs seen s)"
  using assms
proof (induction matched conflicts g t cs seen s rule: summarize_loop.induct)
  case (2 matched conflicts g t d cs seen s)
  show ?case
  proof (cases "c = d")
    case True
    with 2(6,7) grows_loop [of "s\<lparr>sm_Terminating := sm_Terminating s + 1\<rparr>" matched conflicts g t cs seen] show ?thesis
      by (auto simp: grows_def Let_def)
  next
    case False
    with 2(5) have c: "c \<in> set cs" by simp
    have k: "sm_Terminating (count_child g t d s) = sm_Terminating s"
      by (simp add: count_child_def count_failed_def Let_def)
    show ?thesis
      using 2(1) [OF refl _ c 2(6,7)] 2(2) [OF refl _ _ c 2(6,7)] 2(3) [OF refl _ _ _ c 2(6,7)] 2(4) [OF refl _ _ _ c 2(6,7)] k
      by (auto simp: Let_def)
  qed
qed simp

lemma ready_vms:
  assumes "smap_ok matched" and r: "snd (snd (binding_state (summarize cs matched conflicts g t)))"
  shows "fst ` set matched \<subseteq> succeeded_vms g t cs \<and> conflicts = [] \<and>
    (\<forall>c \<in> set cs. ch_Spec c \<noteq> None \<longrightarrow> \<not> is_deleting (ch_meta c))"
proof -
  let ?s = "summarize cs matched conflicts g t"
  note z = r [unfolded binding_state_ready]
  have c: "conflicts = []" using z summarize_adds_up [of cs matched conflicts g t] by simp
  have "int (length matched) \<le> sm_Succeeded ?s"
    using z summarize_adds_up [of cs matched conflicts g t] unfolding counted_def by linarith
  also have "sm_Succeeded ?s \<le> int (card (open_vms matched conflicts [] \<inter> succeeded_vms g t cs))"
    using succeeded_loop [of matched conflicts g t cs "[]" "initial_summary matched conflicts"]
    by (simp add: summarize_def Let_def initial_summary_def zero_summary_def)
  finally have l: "card (fst ` set matched) \<le> card (open_vms matched conflicts [] \<inter> succeeded_vms g t cs)"
    using assms(1) by (simp add: card_smap_keys)
  have "open_vms matched conflicts [] \<inter> succeeded_vms g t cs = fst ` set matched"
    by (rule card_seteq) (use l in \<open>auto simp: open_vms_def\<close>)
  moreover have "\<not> is_deleting (ch_meta d)" if "d \<in> set cs" "ch_Spec d \<noteq> None" for d
    using terminating_loop [OF that, of "initial_summary matched conflicts" matched conflicts g t "[]"] z
    by (auto simp: summarize_def Let_def initial_summary_def zero_summary_def)
  ultimately show ?thesis using c by blast
qed

section \<open>The map of selected VMs\<close>

lemma matched_vms_props:
  "smap_ok (matched_vms vms)" "fst ` set (matched_vms vms) = (\<lambda>u. md_Name (u_meta u)) ` set vms"
  "smap_get (matched_vms vms) n = Some uid \<Longrightarrow> \<exists>vm \<in> set vms. md_Name (u_meta vm) = n \<and> md_UID (u_meta vm) = uid"
proof -
  let ?f = "\<lambda>m vm. smap_put (md_Name (u_meta vm)) (md_UID (u_meta vm)) m"
  have "smap_ok (foldl ?f m vms) \<and> fst ` set (foldl ?f m vms) = fst ` set m \<union> (\<lambda>u. md_Name (u_meta u)) ` set vms \<and>
      (\<forall>uid. map_of (foldl ?f m vms) n = Some uid \<longrightarrow> map_of m n = Some uid \<or>
         (\<exists>vm \<in> set vms. md_Name (u_meta vm) = n \<and> md_UID (u_meta vm) = uid))" if "smap_ok m" for m
    using that
  proof (induction vms arbitrary: m)
    case (Cons a vms)
    have "(\<lambda>u. md_Name (u_meta u)) ` set (a # vms) = insert (md_Name (u_meta a)) ((\<lambda>u. md_Name (u_meta u)) ` set vms)" by simp
    with Cons.IH [OF smap_put_ok [OF Cons.prems, of "md_Name (u_meta a)" "md_UID (u_meta a)"]] show ?case
      unfolding foldl.simps by (simp split: if_split_asm)
  qed auto
  from this [of "[]"] show "smap_ok (matched_vms vms)" "fst ` set (matched_vms vms) = (\<lambda>u. md_Name (u_meta u)) ` set vms"
    "smap_get (matched_vms vms) n = Some uid \<Longrightarrow> \<exists>vm \<in> set vms. md_Name (u_meta vm) = n \<and> md_UID (u_meta vm) = uid"
    by (simp_all add: matched_vms_def smap_get_def)
qed

text \<open>A selected VM behind whose name a child stands, and the child is of that very VM.\<close>

definition settled_vm :: "env \<Rightarrow> AnsibleBinding \<Rightarrow> unstr list \<Rightarrow> AnsibleBindingVM \<Rightarrow> bool" where
  "settled_vm E ac vms c \<longleftrightarrow> claimHeldBy c ac \<and>
     succeeded_child (md_Generation (ab_meta ac)) (annotation (ab_meta ac) ReconcileRequestedAtAnnotation) c \<and>
     (\<exists>vm \<in> set vms. md_Name (u_meta vm) = vs_VMName (ch_spec c) \<and> bindingChildMatchesVM E c (md_UID (u_meta vm)))"

lemma ready_binding:
  assumes "snd (snd (binding_state (summarize (summary_children E ac (matched_vms vms) children) (matched_vms vms) conflicts
      (md_Generation (ab_meta ac)) (annotation (ab_meta ac) ReconcileRequestedAtAnnotation))))" and "vm \<in> set vms"
  shows "\<exists>c \<in> set children. vs_VMName (ch_spec c) = md_Name (u_meta vm) \<and> settled_vm E ac vms c"
proof -
  from ready_vms [OF matched_vms_props(1) assms(1)] assms(2)
  have "md_Name (u_meta vm) \<in> succeeded_vms (md_Generation (ab_meta ac)) (annotation (ab_meta ac) ReconcileRequestedAtAnnotation)
      (summary_children E ac (matched_vms vms) children)"
    by (auto simp: matched_vms_props(2))
  then obtain c where c: "c \<in> set (summary_children E ac (matched_vms vms) children)" "vs_VMName (ch_spec c) = md_Name (u_meta vm)"
    "succeeded_child (md_Generation (ab_meta ac)) (annotation (ab_meta ac) ReconcileRequestedAtAnnotation) c"
    by (auto simp: succeeded_vms_def)
  then have k: "c \<in> set children" "claimHeldBy c ac" "current_child E (matched_vms vms) c"
    by (auto simp: summary_children_def own_children_def succeeded_child_def)
  then obtain uid where "smap_get (matched_vms vms) (vs_VMName (ch_spec c)) = Some uid" "bindingChildMatchesVM E c uid"
    by (auto simp: current_child_def split: option.splits)
  with matched_vms_props(3) have "\<exists>vm \<in> set vms. md_Name (u_meta vm) = vs_VMName (ch_spec c) \<and> bindingChildMatchesVM E c (md_UID (u_meta vm))"
    by metis
  with c(2,3) k(1,2) show ?thesis unfolding settled_vm_def by blast
qed

end
