(* ===== verification/BindingPass.thy ===== *)
theory BindingPass
  imports BindingProofs BindingRollup
begin

text \<open>
  A whole pass over a binding: what it lists, that it leaves no selected VM and no child of a VM no longer
  selected unattended, when it reports ready, when it asks to come back, and what it refuses before
  it has done anything.
\<close>

section \<open>From the children to the pass\<close>

definition selected_vms :: "AnsibleBinding \<Rightarrow> unstr list \<Rightarrow> event list \<Rightarrow> bool" where
  "selected_vms ac vms es \<longleftrightarrow> EList VMGVR (ab_ns ac) (bs_VMSelector (ab_spec ac)) (Inr vms) \<in> set es"

text \<open>The binding's children: as the informer has them indexed, or as a live list in this pass has them.\<close>

definition listed_children :: "env \<Rightarrow> AnsibleBinding \<Rightarrow> AnsibleBindingVM list \<Rightarrow> event list \<Rightarrow> bool" where
  "listed_children E ac children es \<longleftrightarrow> (let label = bindingLabelValue E (ab_name ac) in \<exists>us cs.
     convert_children us = Inr cs \<and> children = sort_children cs \<and>
     ((\<exists>t. e_childIndex E t (key (ab_ns ac) label) = Some us) \<or>
      EList AnsBindVMGVR (ab_ns ac) [(BindingLabel, label)] (Inr us) \<in> set es))"

fun is_list :: "event \<Rightarrow> bool" where
  "is_list (EList g ns sel a) = True"
| "is_list e = False"

lemma set_sort_children [simp]: "set (sort_children cs) = set cs"
  by (simp add: sort_children_def)

lemma emits_live_children:
  "emits (listBindingChildren E (ab_ns ac) (ab_name ac)) (\<lambda>r es.
     \<exists>a. es = [EList AnsBindVMGVR (ab_ns ac) [(BindingLabel, bindingLabelValue E (ab_name ac))] a] \<and>
       (\<forall>cs. r = Inr cs \<longrightarrow> (\<exists>us cs0. a = Inr us \<and> convert_children us = Inr cs0 \<and> cs = sort_children cs0)))"
  unfolding listBindingChildren_def
  by (rule emits_bind [OF does_List], elim exE conjE, rule emits_return)
    (auto split: sum.splits simp: map_sum_def)

lemma emits_listed_children:
  "emits (listBindingChildrenCached E (ab_ns ac) (ab_name ac)) (\<lambda>r es. list_all is_list es \<and>
     (\<forall>cs. r = Inr cs \<longrightarrow> listed_children E ac cs es))"
proof -
  have p: "emits (peek f) (\<lambda>r es. es = [] \<and> (\<exists>t. r = f t))" for f :: "trace \<Rightarrow> unstr list option"
    unfolding emits_def peek_def by auto
  have l: "emits (listBindingChildren E (ab_ns ac) (ab_name ac)) (\<lambda>r es. list_all is_list es \<and>
     (\<forall>cs. r = Inr cs \<longrightarrow> listed_children E ac cs es))"
    by (rule emits_conseq [OF emits_live_children]) (auto simp: listed_children_def Let_def, blast)
  show ?thesis
    unfolding listBindingChildrenCached_def
    by (rule emits_bind [OF p], intro emits_option emits_return)
      (auto simp: listed_children_def Let_def map_sum_def split: sum.splits intro: emits_conseq [OF l], metis)
qed

definition binding_inputs :: "env \<Rightarrow> unstr \<Rightarrow> AnsibleBinding \<Rightarrow> unstr list \<Rightarrow> AnsibleBindingVM list \<Rightarrow> event list \<Rightarrow> bool" where
  "binding_inputs E u ac vms children es \<longleftrightarrow> check_binding u = Inr ac \<and> selected_vms ac vms es \<and> listed_children E ac children es \<and>
     (bs_HostName (ab_spec ac) = [] \<or> length vms \<le> 1)"

text \<open>A pass that gets nowhere has only listed; one that gets to the children does what \<open>reconcile_children\<close> does.\<close>

lemma emits_binding_pass:
  assumes refuse: "\<And>err es. list_all is_list es \<Longrightarrow> R (Inl err) es"
    and pass: "\<And>ac vms children xs. list_all is_list xs \<Longrightarrow> binding_inputs E u ac vms children xs \<Longrightarrow>
      emits (reconcile_children E u ac vms children) (\<lambda>r es. R r (xs @ es))"
  shows "emits (applyAnsibleBinding E u) R"
  unfolding applyAnsibleBinding_def listVirtualMachines_def
proof (intro emits_sum emits_return, goal_cases)
  case (1 err)
  then show ?case using refuse by simp
next
  case (2 ac)
  show ?case
  proof (rule emits_bind [OF does_List], intro emits_sum emits_if emits_return, goal_cases)
    case (3 r es vms)
    then obtain a where a: "r = api_result a" "es = [EList VMGVR (ab_ns ac) (bs_VMSelector (ab_spec ac)) a]" by blast
    show ?case
    proof (rule emits_bind [OF emits_listed_children], intro emits_sum emits_return, goal_cases)
      case (2 rc es' children)
      have "list_all is_list (es @ es')" using a 2 by simp
      moreover have "binding_inputs E u ac vms children (es @ es')"
        using 2 3 a \<open>check_binding u = Inr ac\<close>
        by (auto simp: binding_inputs_def selected_vms_def listed_children_def Let_def)
      ultimately show ?case using pass by (simp flip: append_assoc)
    qed (use a refuse in auto)
  qed (use refuse in auto)
qed

section \<open>The pass keeps to its own children\<close>

definition binding_pass :: "env \<Rightarrow> unstr \<Rightarrow> event list \<Rightarrow> bool" where
  "binding_pass E u es \<longleftrightarrow> list_all binding_quiet es \<or> (\<exists>ac vms children. binding_inputs E u ac vms children es \<and>
     list_all (own_child_event E ac (map (\<lambda>v. md_Name (u_meta v)) vms) children) es)"

lemma binding_inputs_more: "binding_inputs E u ac vms children xs \<Longrightarrow> binding_inputs E u ac vms children (xs @ ys)"
  by (auto simp: binding_inputs_def selected_vms_def listed_children_def Let_def)

lemma lists_quiet: "list_all is_list es \<Longrightarrow> list_all binding_quiet es"
  by (erule list.pred_mono_strong) (auto elim: is_list.elims)

lemma emits_applyAnsibleBinding: "emits (applyAnsibleBinding E u) (\<lambda>_. binding_pass E u)"
proof (rule emits_binding_pass)
  fix ac vms children xs
  assume x: "list_all is_list xs" "binding_inputs E u ac vms children xs"
  have "list_all (own_child_event E ac (map (\<lambda>v. md_Name (u_meta v)) vms) children) xs"
    using lists_quiet [OF x(1)] by (auto simp: list_all_iff binding_quiet_own)
  with binding_inputs_more [OF x(2)]
  show "emits (reconcile_children E u ac vms children) (\<lambda>r es. binding_pass E u (xs @ es))"
    unfolding binding_pass_def
    by (intro emits_conseq [OF own_reconcile_children [unfolded only_def]] disjI2 exI [of _ ac] exI [of _ vms] exI [of _ children]) auto
qed (simp add: binding_pass_def lists_quiet)

section \<open>Ready\<close>

definition ready_answer :: "gerr + Result \<Rightarrow> bool" where
  "ready_answer r \<longleftrightarrow> (\<exists>res u'. r = Inr res \<and> res_Object res = Some u' \<and> snd (snd (rollup_state (convertAnsibleBinding u'))))"

text \<open>What an answer without an error says of the pass: nothing failed, and when to come back.\<close>

definition finish_ok :: "unstr \<Rightarrow> AnsibleBinding \<Rightarrow> BindingSummary \<Rightarrow> string \<Rightarrow> nat \<Rightarrow> stamp \<Rightarrow> gerr option \<Rightarrow> gerr + Result \<Rightarrow> bool" where
  "finish_ok u ac summary trigger deferred scan err r \<longleftrightarrow> (\<forall>res. r = Inr res \<longrightarrow> err = None \<and>
     res_Object res = Some (bindingWithDetails u summary (md_Generation (ab_meta ac)) trigger scan) \<and>
     (if deferred > 0 then res_RequeueAfter res = nanos_per_second
      else res_RequeueAfter res = 0 \<and> sm_Conflicted summary \<le> 0 \<or>
        conflictRetryInterval \<le> res_RequeueAfter res \<and> res_RequeueAfter res < conflictRetryInterval + conflictRetryJitter))"

lemma emits_finish_binding:
  "emits (finish_binding E u ac summary trigger deferred (scan, err)) (\<lambda>r es. finish_ok u ac summary trigger deferred scan err r)"
proof -
  have q: "emits (if b then recordEvent E u t rs m else ret ()) (\<lambda>_ _. True)" for b t rs m
    unfolding recordEvent_def by (intro emits_top only_if only_bind only_return only_prims) simp_all
  have w: "emits (if b then ret None else writeAnsibleBindingDetails E u s g t o') (\<lambda>_ _. True)" for b s g t o'
    unfolding writeAnsibleBindingDetails_def by (intro emits_top only_if only_return only_patchStatus) simp_all
  have j: "emits (rand_Int63n E n) (\<lambda>x _. 0 < n \<longrightarrow> 0 \<le> x \<and> x < n)" for n
    by (simp add: rand_Int63n_def emits_def ask_def Let_def)
  define waits where "waits e x \<longleftrightarrow> x = 0 \<and> (sm_Conflicted summary \<le> 0 \<or> e \<noteq> None) \<or>
    conflictRetryInterval \<le> x \<and> x < conflictRetryInterval + conflictRetryJitter" for e :: "gerr option" and x
  have t: "emits (if sm_Conflicted summary > 0 \<and> e = None then do { jitter \<leftarrow> rand_Int63n E conflictRetryJitter;
      ret (conflictRetryInterval + jitter) } else ret 0) (\<lambda>x _. waits e x)" for e :: "gerr option"
    by (intro emits_if emits_bind [OF j] emits_return) (auto simp: waits_def conflictRetryJitter_def)
  show ?thesis
    unfolding finish_binding_def Let_def prod.case
    by (intro emits_bind [OF q] emits_bind [OF w] emits_bind [OF t] emits_return)
      (auto simp: waits_def finish_ok_def split: option.splits)
qed


lemma rollup_with_details:
  assumes "convertAnsibleBinding u = Inr ac" and "snd (snd (rollup_state (convertAnsibleBinding (bindingWithDetails u s g t scan))))"
  shows "snd (snd (binding_state s))"
proof -
  from assms(1) obtain sp st where "u_content u = CBinding sp st" by (auto simp: convertAnsibleBinding_def split: content.splits)
  with assms(2) show ?thesis
    by (auto simp: bindingWithDetails_def convertAnsibleBinding_def rollup_state_def typed_status_def with_generic_def Let_def
        split: if_splits)
qed

lemma check_binding_converts: "check_binding u = Inr ac \<Longrightarrow> convertAnsibleBinding u = Inr ac"
  by (auto simp: check_binding_def Let_def split: sum.splits if_splits)

lemma any_run_write: "only (\<lambda>_. True) (run_write E ac x)"
proof (cases x)
  case (WCreate vm d)
  show ?thesis
    unfolding WCreate run_write.simps claim_vm_def createBindingChild_def resolve_claim_def Let_def
    by (intro only_bind only_return only_option only_if only_prims) simp_all
next
  case (WUpdate c d)
  show ?thesis unfolding WUpdate run_write.simps updateBindingChildSpec_def by (intro only_bind only_return only_prims) simp
next
  case (WDelete c p)
  show ?thesis
    unfolding WDelete run_write.simps deleteBindingChild_def delete_child_def updateBindingChildSpec_def
    by (intro only_bind only_return only_option only_if only_prims) simp_all
qed

lemma any_scan: "emits (scan_orphans E ac children matched k err) (\<lambda>r _. snd r = None \<longrightarrow> err = None)"
proof -
  have r: "emits (reapOrphanHosts E ac children matched) (\<lambda>_ _. True)"
    by (rule emits_top) (rule only_mono [OF quiet_reap], simp)
  have d: "emits (dueFor E ts p) (\<lambda>_ _. True)" for ts p
    by (rule emits_top) (rule only_dueFor, simp)
  have n: "emits (nowRFC3339 E) (\<lambda>_ _. True)" by (rule emits_nowRFC3339) simp
  show ?thesis
    unfolding scan_orphans_def Let_def
    by (intro emits_bind [OF d] emits_prod emits_if emits_return emits_bind [OF r] emits_option emits_bind [OF n]) auto
qed

definition ready_sound :: "env \<Rightarrow> unstr \<Rightarrow> gerr + Result \<Rightarrow> event list \<Rightarrow> bool" where
  "ready_sound E u r es \<longleftrightarrow> (ready_answer r \<longrightarrow> (\<exists>ac vms children. binding_inputs E u ac vms children es \<and>
     (\<forall>vm \<in> set vms. \<exists>c \<in> set children. vs_VMName (ch_spec c) = md_Name (u_meta vm) \<and> settled_vm E ac vms c)))"

lemma emits_ready: "emits (applyAnsibleBinding E u) (ready_sound E u)"
  unfolding ready_sound_def [abs_def]
proof (rule emits_binding_pass)
  fix ac vms children xs
  assume x: "binding_inputs E u ac vms children xs"
  have i: "emits (issueChildWrites E (run_write E ac) ws) (\<lambda>_ _. True)" for ws
    by (rule emits_top) (rule only_issueChildWrites, rule any_run_write)
  have p: "emits (plan_vms E ac (index_children children) t us) (\<lambda>_ _. True)" for t us
    by (rule emits_conseq [OF emits_plan_vms]) simp
  let ?ready = "\<lambda>r es. ready_answer r \<longrightarrow> (\<exists>ac vms children. binding_inputs E u ac vms children es \<and>
     (\<forall>vm \<in> set vms. \<exists>c \<in> set children. vs_VMName (ch_spec c) = md_Name (u_meta vm) \<and> settled_vm E ac vms c))"
  let ?g = "md_Generation (ab_meta ac)" and ?t = "annotation (ab_meta ac) ReconcileRequestedAtAnnotation" and ?m = "matched_vms vms"
  have fin: "emits (finish_binding E u ac (summarize (summary_children E ac ?m children) ?m cf ?g ?t) ?t k (scan, err))
      (\<lambda>r es. ?ready r (zs @ es))" if z: "binding_inputs E u ac vms children zs" for cf k scan err zs
  proof (rule emits_conseq [OF emits_finish_binding], rule impI)
    fix r es
    assume "finish_ok u ac (summarize (summary_children E ac ?m children) ?m cf ?g ?t) ?t k scan err r" and "ready_answer r"
    then have "snd (snd (rollup_state (convertAnsibleBinding
        (bindingWithDetails u (summarize (summary_children E ac ?m children) ?m cf ?g ?t) ?g ?t scan))))"
      by (auto simp: finish_ok_def ready_answer_def)
    moreover have "convertAnsibleBinding u = Inr ac" using z by (auto simp: binding_inputs_def check_binding_converts)
    ultimately have "snd (snd (binding_state (summarize (summary_children E ac ?m children) ?m cf ?g ?t)))"
      using rollup_with_details by blast
    from ready_binding [OF this] binding_inputs_more [OF z]
    show "\<exists>ac vms children. binding_inputs E u ac vms children (zs @ es) \<and>
       (\<forall>vm \<in> set vms. \<exists>c \<in> set children. vs_VMName (ch_spec c) = md_Name (u_meta vm) \<and> settled_vm E ac vms c)" by blast
  qed
  show "emits (reconcile_children E u ac vms children) (\<lambda>r es. ?ready r (xs @ es))"
    unfolding reconcile_children_def Let_def
    by (rule emits_bind [OF p], intro emits_prod, rule emits_bind [OF i], intro emits_prod, rule emits_bind [OF i], intro emits_prod,
        rule emits_bind [OF any_scan]) (auto simp only: split_paired_all simp flip: append_assoc intro!: fin binding_inputs_more x)
qed (simp add: ready_answer_def)

section \<open>Nothing is left out\<close>

text \<open>A write that went through: a create may have lost to another claim, a deletion to another deleter.\<close>

definition performed :: "env \<Rightarrow> AnsibleBinding \<Rightarrow> child_write \<Rightarrow> event set \<Rightarrow> bool" where
  "performed E ac x es \<longleftrightarrow> (case x of
     WCreate vm d \<Rightarrow> \<exists>a. ECreate AnsBindVMGVR (child_object E ac vm d) a \<in> es \<and> (a = None \<or> (\<exists>m. a = Some (AlreadyExistsR, m)))
   | WUpdate c d \<Rightarrow> EPatchSpec AnsBindVMGVR (ch_ns c) (md_Name (ch_meta c)) (md_UID (ch_meta c)) (md_ResourceVersion (ch_meta c)) d None \<in> es
   | WDelete c p \<Rightarrow> is_deleting (ch_meta c) \<or>
       (\<exists>a. EDelete AnsBindVMGVR (ch_ns c) (md_Name (ch_meta c)) (Some (md_UID (ch_meta c))) a \<in> es \<and> (a = None \<or> (\<exists>m. a = Some (NotFoundR, m)))) \<or>
       (\<exists>d m. EPatchSpec AnsBindVMGVR (ch_ns c) (md_Name (ch_meta c)) (md_UID (ch_meta c)) (md_ResourceVersion (ch_meta c)) d (Some (NotFoundR, m)) \<in> es))"

lemma performed_mono: "performed E ac x es \<Longrightarrow> es \<subseteq> es' \<Longrightarrow> performed E ac x es'"
  by (auto simp: performed_def split: child_write.splits)

lemma api_opt_reasons:
  "api_opt a = Some e \<Longrightarrow> isNotFound e \<Longrightarrow> \<exists>m. a = Some (NotFoundR, m)"
  "api_opt a = Some e \<Longrightarrow> isAlreadyExists e \<Longrightarrow> \<exists>m. a = Some (AlreadyExistsR, m)"
  "Some e = api_opt a \<Longrightarrow> isNotFound e \<Longrightarrow> \<exists>m. a = Some (NotFoundR, m)"
  "Some e = api_opt a \<Longrightarrow> isAlreadyExists e \<Longrightarrow> \<exists>m. a = Some (AlreadyExistsR, m)"
  "None = api_opt a \<Longrightarrow> a = None"
  by (cases a; auto simp: api_opt_def api_error_def)+

lemma performed_delete_child:
  "emits (delete_child E c) (\<lambda>r es. r = None \<longrightarrow> performed E ac (WDelete c p) (set es))"
  unfolding delete_child_def
  by (intro emits_if emits_return emits_bind [OF does_Delete])
    (auto simp: performed_def split: option.splits if_splits dest: api_opt_reasons)

lemma performed_deleteBindingChild:
  "emits (deleteBindingChild E c p) (\<lambda>r es. r = None \<longrightarrow> performed E ac (WDelete c q) (set es))"
proof -
  have d: "emits (delete_child E c) (\<lambda>r es. r = None \<longrightarrow> performed E ac (WDelete c q) (set (xs @ es)))" for xs
    by (rule emits_conseq [OF performed_delete_child [where ac = ac and p = q]]) (auto elim: performed_mono)
  show ?thesis
    unfolding deleteBindingChild_def updateBindingChildSpec_def
    by (intro emits_if emits_bind [OF does_PatchSpec] emits_option emits_return d d [of "[]", simplified])
      (auto simp: performed_def dest: api_opt_reasons)
qed

lemma emits_run_write:
  "emits (run_write E ac x) (\<lambda>r es. snd r = None \<longrightarrow> performed E ac x (set es))"
proof (cases x)
  case (WCreate vm d)
  have res: "emits (resolve_claim E ac n) (\<lambda>_ _. True)" for n
    unfolding resolve_claim_def Let_def by (rule emits_top) (intro only_bind only_return only_prims; simp)
  show ?thesis
    unfolding WCreate run_write.simps claim_vm_def createBindingChild_def Let_def
    by (rule emits_bind [OF does_Create], intro emits_option emits_if emits_return emits_conseq [OF res])
      (auto simp: performed_def dest: api_opt_reasons)
next
  case (WUpdate c d)
  show ?thesis
    unfolding WUpdate run_write.simps updateBindingChildSpec_def
    by (intro emits_bind [OF does_PatchSpec] emits_return) (auto simp: performed_def)
next
  case (WDelete c p)
  show ?thesis
    unfolding WDelete run_write.simps by (rule emits_bind [OF performed_deleteBindingChild]) (auto intro!: emits_return)
qed

lemma failures_append [simp]: "failures (rs @ rs') = failures rs + failures rs'"
  by (simp add: failures_def)

lemma failures_Cons [simp]: "failures (r # rs) = (if snd r \<noteq> None then 1 else 0) + failures rs"
  by (simp add: failures_def)

lemma failures_Nil [simp]: "failures [] = 0"
  by (simp add: failures_def)

lemma first_error_None: "first_error rs = None \<longleftrightarrow> failures rs = 0"
  by (induction rs) (auto simp: first_error_def List.map_filter_simps split: option.splits list.splits)

definition all_performed :: "env \<Rightarrow> AnsibleBinding \<Rightarrow> child_write list \<Rightarrow> event set \<Rightarrow> bool" where
  "all_performed E ac ws es \<longleftrightarrow> (\<forall>x \<in> set ws. performed E ac x es)"

lemma all_performed_mono: "all_performed E ac ws es \<Longrightarrow> es \<subseteq> es' \<Longrightarrow> all_performed E ac ws es'"
  unfolding all_performed_def by (blast intro: performed_mono)

lemma emits_run_batch:
  "emits (run_batch (run_write E ac) ws) (\<lambda>rs es. failures rs = 0 \<longrightarrow> all_performed E ac ws (set es))"
proof (induction ws)
  case (Cons x ws)
  show ?case
    unfolding run_batch.simps
    by (rule emits_bind [OF emits_run_write], rule emits_bind [OF Cons], rule emits_return)
      (auto simp: all_performed_def elim: performed_mono)
qed (simp add: emits_return all_performed_def)

text \<open>What a burst did: no more than it was given, and all of it when it says so and nothing failed.\<close>

definition burst_ok :: "env \<Rightarrow> AnsibleBinding \<Rightarrow> child_write list \<Rightarrow> nat \<Rightarrow> write_out list \<times> nat \<Rightarrow> event list \<Rightarrow> bool" where
  "burst_ok E ac ws issued r es \<longleftrightarrow> snd r \<le> issued + length ws \<and>
     (failures (fst r) = 0 \<and> issued + length ws \<le> snd r \<longrightarrow> all_performed E ac ws (set es))"

lemma emits_issue_batches:
  "b \<le> length ws \<Longrightarrow> run = run_write E ac \<Longrightarrow> emits (issue_batches E run b ws sofar issued) (\<lambda>r es. failures sofar \<le> failures (fst r) \<and> burst_ok E ac ws issued r es)"
proof (induction E run b ws sofar issued rule: issue_batches.induct)
  case (1 E run b ws d i)
  show ?case
  proof (cases "b = 0 \<or> ws = []")
    case True
    then show ?thesis
      by (subst issue_batches.simps) (auto intro!: emits_return simp: burst_ok_def all_performed_def)
  next
    case False
    let ?next = "min (2 * b) (min (length (drop b ws)) maxWriteConcurrency)"
    have "emits (in_any_order E (take b ws) \<bind> (\<lambda>batch. run_batch run batch \<bind> (\<lambda>rs.
        if 1 < b \<and> failures rs = b then ret (d @ rs, i + b)
        else issue_batches E run ?next (drop b ws) (d @ rs) (i + b)))) (\<lambda>r es. failures d \<le> failures (fst r) \<and> burst_ok E ac ws i r es)"
    proof (rule emits_bind [OF emits_in_any_order], elim conjE)
      fix batch and es :: "event list"
      assume es: "es = []" and batch: "set batch = set (take b ws)"
      have run: "emits (run_batch run batch) (\<lambda>rs es. failures rs = 0 \<longrightarrow> all_performed E ac batch (set es))"
        unfolding 1(3) by (rule emits_run_batch)
      show "emits (run_batch run batch \<bind> (\<lambda>rs. if 1 < b \<and> failures rs = b then ret (d @ rs, i + b)
          else issue_batches E run ?next (drop b ws) (d @ rs) (i + b))) (\<lambda>r es'. failures d \<le> failures (fst r) \<and> burst_ok E ac ws i r (es @ es'))"
      proof (rule emits_bind [OF run], intro emits_if emits_return)
        fix rs :: "write_out list" and es1
        assume p: "failures rs = 0 \<longrightarrow> all_performed E ac batch (set es1)"
        show "failures d \<le> failures (fst (d @ rs, i + b)) \<and> burst_ok E ac ws i (d @ rs, i + b) (es @ es1 @ [])" if "1 < b \<and> failures rs = b"
          using that 1(2) by (simp add: burst_ok_def)
        assume f: "\<not> (1 < b \<and> failures rs = b)"
        have rest: "emits (issue_batches E run ?next (drop b ws) (d @ rs) (i + b))
            (\<lambda>r es. failures (d @ rs) \<le> failures (fst r) \<and> burst_ok E ac (drop b ws) (i + b) r es)"
          by (rule 1(1) [OF False refl refl f _ 1(3)]) simp
        show "emits (issue_batches E run ?next (drop b ws) (d @ rs) (i + b))
            (\<lambda>r es'. failures d \<le> failures (fst r) \<and> burst_ok E ac ws i r (es @ es1 @ es'))"
        proof (rule emits_conseq [OF rest], elim conjE)
          fix r es2
          assume r: "failures (d @ rs) \<le> failures (fst r)" "burst_ok E ac (drop b ws) (i + b) r es2"
          have "performed E ac x (set es1 \<union> set es2)" if x: "x \<in> set ws" and z: "failures (fst r) = 0" "i + length ws \<le> snd r" for x
          proof -
            from x have "x \<in> set (take b ws) \<or> x \<in> set (drop b ws)" by (metis UnE append_take_drop_id set_append)
            moreover have "failures rs = 0" "all_performed E ac (drop b ws) (set es2)" using r z 1(2) by (auto simp: burst_ok_def)
            ultimately show ?thesis using p batch by (auto simp: all_performed_def elim: performed_mono)
          qed
          with r 1(2) show "failures d \<le> failures (fst r) \<and> burst_ok E ac ws i r (es @ es1 @ es2)"
            by (auto simp: burst_ok_def all_performed_def es)
        qed
      qed
    qed
    then show ?thesis by (subst issue_batches.simps, unfold if_not_P [OF False] Let_def)
  qed
qed

lemma emits_issueChildWrites:
  "emits (issueChildWrites E (run_write E ac) ws) (\<lambda>r es. failures (fst r) = 0 \<and> length ws - snd r = 0 \<longrightarrow> all_performed E ac ws (set es))"
  unfolding issueChildWrites_def Let_def
  by (rule emits_conseq [OF emits_issue_batches [OF _ refl]]) (auto simp: burst_ok_def min_def split: if_splits)

text \<open>
  A selected VM is attended to: its child was asked for, or a child is known under its name that needs nothing
  (somebody else's, on its way out, of an earlier VM of that name, or as desired already), or was made to be as desired.
\<close>

definition known_child :: "env \<Rightarrow> AnsibleBinding \<Rightarrow> AnsibleBindingVM list \<Rightarrow> string \<Rightarrow> AnsibleBindingVM \<Rightarrow> bool" where
  "known_child E ac children n c \<longleftrightarrow> c \<in> set children \<and> vs_VMName (ch_spec c) = n \<or> stored_claim E ac n c"

definition attended :: "env \<Rightarrow> AnsibleBinding \<Rightarrow> AnsibleBindingVM list \<Rightarrow> unstr \<Rightarrow> event set \<Rightarrow> bool" where
  "attended E ac children vm es \<longleftrightarrow> (let n = md_Name (u_meta vm);
       d = childSpecFor ac n (annotation (ab_meta ac) ReconcileRequestedAtAnnotation) in
     performed E ac (WCreate vm d) es \<or>
     (\<exists>c. known_child E ac children n c \<and>
        (\<not> claimHeldBy c ac \<or> is_deleting (ch_meta c) \<or> \<not> bindingChildMatchesVM E c (md_UID (u_meta vm)) \<or> ch_spec c = d \<or>
         performed E ac (WUpdate c d) es)))"

definition plan_attends :: "env \<Rightarrow> AnsibleBinding \<Rightarrow> AnsibleBindingVM list \<Rightarrow> unstr list \<Rightarrow> child_write list \<Rightarrow> bool" where
  "plan_attends E ac children vms ws \<longleftrightarrow> (\<forall>es. all_performed E ac ws es \<longrightarrow> (\<forall>vm \<in> set vms. attended E ac children vm es))"

lemma index_children_vm:
  "smap_get (index_children children) n = Some c \<Longrightarrow> c \<in> set children \<and> vs_VMName (ch_spec c) = n"
proof -
  let ?f = "\<lambda>m c. case ch_Spec c of None \<Rightarrow> m | Some sp \<Rightarrow> smap_put (vs_VMName sp) c m"
  have "map_of (foldl ?f m cs) n = Some c \<Longrightarrow> c \<in> set cs \<and> vs_VMName (ch_spec c) = n \<or> map_of m n = Some c" for m cs
  proof (induction cs arbitrary: m)
    case (Cons a cs)
    from Cons.IH [of "?f m a"] Cons.prems show ?case by (auto simp: ch_spec_def split: option.splits if_splits)
  qed simp
  from this [of "[]" children] show "smap_get (index_children children) n = Some c \<Longrightarrow> c \<in> set children \<and> vs_VMName (ch_spec c) = n"
    by (simp add: index_children_def smap_get_def)
qed

lemma emits_known_child:
  "emits (existing_child E ac (index_children children) n) (\<lambda>r es. \<forall>c. r = Some c \<longrightarrow> known_child E ac children n c)"
proof -
  have g: "emits (getCachedChild E (ab_ns ac) (childName E n)) (\<lambda>r es. \<forall>c. r = Some c \<longrightarrow> stored_claim E ac n c)"
    by (auto simp: getCachedChild_def cachedGet_def peek_def emits_def State_Monad.return_def stored_claim_def split: option.splits sum.splits if_splits)
  show ?thesis
    unfolding existing_child_def
    by (intro emits_option emits_return emits_conseq [OF g]) (auto simp: known_child_def dest: index_children_vm)
qed

text \<open>The spec the binding wants a VM's child to have now.\<close>

abbreviation wanted :: "AnsibleBinding \<Rightarrow> unstr \<Rightarrow> AnsibleBindingVMSpec" where
  "wanted ac vm \<equiv> childSpecFor ac (md_Name (u_meta vm)) (annotation (ab_meta ac) ReconcileRequestedAtAnnotation)"

lemma attended_by_plan:
  assumes "\<And>c. existing = Some c \<Longrightarrow> known_child E ac children (md_Name (u_meta vm)) c"
  shows "case plan_vm E ac vm (wanted ac vm) existing of
      Claim \<Rightarrow> performed E ac (WCreate vm (wanted ac vm)) es \<longrightarrow>
        attended E ac children vm es
    | Update c \<Rightarrow> performed E ac (WUpdate c (wanted ac vm)) es \<longrightarrow>
        attended E ac children vm es
    | _ \<Rightarrow> attended E ac children vm es"
  using assms unfolding plan_vm_def attended_def Let_def by (cases existing) auto

lemma emits_plan_attends:
  "emits (plan_vms E ac (index_children children) (annotation (ab_meta ac) ReconcileRequestedAtAnnotation) vms)
     (\<lambda>r _. plan_attends E ac children vms (fst r))"
proof (induction vms)
  case (Cons vm vms)
  show ?case
    unfolding plan_vms.simps Let_def
  proof (rule emits_bind [OF emits_known_child], rule emits_bind [OF Cons], intro emits_prod emits_return)
    fix existing :: "AnsibleBindingVM option" and es es' :: "event list" and p :: "child_write list \<times> string smap" and ws cf
    assume "\<forall>c. existing = Some c \<longrightarrow> known_child E ac children (md_Name (u_meta vm)) c"
    then have a: "\<And>es. case plan_vm E ac vm (wanted ac vm) existing of
      Claim \<Rightarrow> performed E ac (WCreate vm (wanted ac vm)) es \<longrightarrow>
        attended E ac children vm es
    | Update c \<Rightarrow> performed E ac (WUpdate c (wanted ac vm)) es \<longrightarrow>
        attended E ac children vm es
    | _ \<Rightarrow> attended E ac children vm es" by (intro attended_by_plan) auto
    assume "plan_attends E ac children vms (fst p)" "p = (ws, cf)"
    with a show "plan_attends E ac children (vm # vms) (fst (case plan_vm E ac vm (wanted ac vm) existing of
           Claim \<Rightarrow> (WCreate vm (wanted ac vm) # ws, cf)
         | Conflict owner \<Rightarrow> (ws, if smap_get cf (md_Name (u_meta vm)) = None then smap_put (md_Name (u_meta vm)) owner cf else cf)
         | Keep \<Rightarrow> (ws, cf)
         | Update child \<Rightarrow> (WUpdate child (wanted ac vm) # ws, cf)))"
      by (cases "plan_vm E ac vm (wanted ac vm) existing") (auto simp: plan_attends_def all_performed_def)
  qed
qed (simp add: emits_return plan_attends_def)

text \<open>The children a pass gives up: the binding's own claims on VMs it no longer selects.\<close>

definition given_up :: "env \<Rightarrow> AnsibleBinding \<Rightarrow> unstr list \<Rightarrow> AnsibleBindingVM list \<Rightarrow> event set \<Rightarrow> bool" where
  "given_up E ac vms children es \<longleftrightarrow> (\<forall>c \<in> set children. ch_Spec c \<noteq> None \<and> claimHeldBy c ac \<and> \<not> current_child E (matched_vms vms) c \<longrightarrow>
     performed E ac (WDelete c (bs_CleanupPolicy (ab_spec ac))) es)"

lemma given_up_deletions: "all_performed E ac (plan_deletions E ac (matched_vms vms) children) es \<Longrightarrow> given_up E ac vms children es"
  by (auto simp: all_performed_def plan_deletions_def own_children_def given_up_def)

definition settled_pass :: "env \<Rightarrow> unstr \<Rightarrow> gerr + Result \<Rightarrow> event list \<Rightarrow> bool" where
  "settled_pass E u r es \<longleftrightarrow> (\<forall>res. r = Inr res \<and> res_RequeueAfter res \<noteq> nanos_per_second \<longrightarrow>
     (\<exists>ac vms children. binding_inputs E u ac vms children es \<and> (\<forall>vm \<in> set vms. attended E ac children vm (set es)) \<and>
        given_up E ac vms children (set es)))"

lemma emits_settled_pass: "emits (applyAnsibleBinding E u) (settled_pass E u)"
proof (rule emits_binding_pass)
  fix ac vms children xs
  assume x: "binding_inputs E u ac vms children xs"
  let ?dels = "plan_deletions E ac (matched_vms vms) children"
  show "emits (reconcile_children E u ac vms children) (\<lambda>r es. settled_pass E u r (xs @ es))"
    unfolding reconcile_children_def Let_def
  proof (rule emits_bind [OF emits_plan_attends], intro emits_prod, rule emits_bind [OF emits_issueChildWrites], intro emits_prod,
      rule emits_bind [OF emits_issueChildWrites], intro emits_prod, rule emits_bind [OF any_scan])
    fix p :: "child_write list \<times> string smap" and ws cf and rd rw :: "write_out list \<times> nat" and drs deleted wrs issued
      and es0 es1 es2 es3 :: "event list" and sc :: "stamp \<times> gerr option"
    assume p: "plan_attends E ac children vms (fst p)" "p = (ws, cf)"
      and d: "failures (fst rd) = 0 \<and> length ?dels - snd rd = 0 \<longrightarrow> all_performed E ac ?dels (set es1)" "rd = (drs, deleted)"
      and w: "failures (fst rw) = 0 \<and> length ws - snd rw = 0 \<longrightarrow> all_performed E ac ws (set es2)" "rw = (wrs, issued)"
      and sc: "snd sc = None \<longrightarrow> or_else (first_error drs) (first_error wrs) = None"
    let ?k = "length ws - issued + (length ?dels - deleted)"
    let ?s = "summarize (summary_children E ac (matched_vms vms) children) (matched_vms vms) (add_conflicts cf (List.map_filter fst wrs))
      (md_Generation (ab_meta ac)) (annotation (ab_meta ac) ReconcileRequestedAtAnnotation)"
    show "emits (finish_binding E u ac ?s (annotation (ab_meta ac) ReconcileRequestedAtAnnotation) ?k sc)
        (\<lambda>r es. settled_pass E u r (xs @ es0 @ es1 @ es2 @ es3 @ es))"
    proof (cases sc, hypsubst, rule emits_conseq [OF emits_finish_binding], unfold settled_pass_def, intro allI impI, elim conjE)
      fix scan err r es res
      assume s: "sc = (scan, err)" and f: "finish_ok u ac ?s (annotation (ab_meta ac) ReconcileRequestedAtAnnotation) ?k scan err r"
        "r = Inr res" "res_RequeueAfter res \<noteq> nanos_per_second"
      then have "err = None" "?k = 0" by (auto simp: finish_ok_def split: if_splits)
      with s sc have n: "failures drs = 0" "failures wrs = 0"
        by (auto simp: or_else_def first_error_None split: option.splits)
      let ?es = "xs @ es0 @ es1 @ es2 @ es3 @ es"
      from n d w \<open>?k = 0\<close> have "all_performed E ac ?dels (set es1)" "all_performed E ac ws (set es2)" by auto
      then have "all_performed E ac ?dels (set ?es)" "all_performed E ac ws (set ?es)" by (auto elim: all_performed_mono)
      with p have "\<forall>vm \<in> set vms. attended E ac children vm (set ?es)" "given_up E ac vms children (set ?es)"
        by (auto simp: plan_attends_def given_up_deletions)
      with binding_inputs_more [OF x] show "\<exists>ac vms children. binding_inputs E u ac vms children ?es \<and>
          (\<forall>vm \<in> set vms. attended E ac children vm (set ?es)) \<and> given_up E ac vms children (set ?es)" by blast
    qed
  qed
qed (simp add: settled_pass_def)

text \<open>When a pass asks to come back.\<close>

definition requeue_ok :: "gerr + Result \<Rightarrow> bool" where
  "requeue_ok r \<longleftrightarrow> (\<forall>res. r = Inr res \<longrightarrow> res_RequeueAfter res = 0 \<or> res_RequeueAfter res = nanos_per_second \<or>
     30 * nanos_per_second \<le> res_RequeueAfter res \<and> res_RequeueAfter res < 40 * nanos_per_second)"

lemma emits_binding_requeue: "emits (applyAnsibleBinding E u) (\<lambda>r _. requeue_ok r)"
  unfolding requeue_ok_def
proof (rule emits_binding_pass)
  fix ac vms children xs
  have i: "emits (issueChildWrites E (run_write E ac) ws) (\<lambda>_ _. True)" for ws
    by (rule emits_top) (rule only_issueChildWrites, rule any_run_write)
  have p: "emits (plan_vms E ac (index_children children) t us) (\<lambda>_ _. True)" for t us
    by (rule emits_conseq [OF emits_plan_vms]) simp
  show "emits (reconcile_children E u ac vms children) (\<lambda>r _. \<forall>res. r = Inr res \<longrightarrow> res_RequeueAfter res = 0 \<or> res_RequeueAfter res = nanos_per_second \<or>
     30 * nanos_per_second \<le> res_RequeueAfter res \<and> res_RequeueAfter res < 40 * nanos_per_second)"
    unfolding reconcile_children_def Let_def
    by (rule emits_bind [OF p], intro emits_prod, rule emits_bind [OF i], intro emits_prod, rule emits_bind [OF i], intro emits_prod,
        rule emits_bind [OF any_scan])
      (auto simp only: split_paired_all intro!: emits_conseq [OF emits_finish_binding],
        auto simp: finish_ok_def conflictRetryInterval_def conflictRetryJitter_def split: if_splits)
qed simp

section \<open>The conflicts of a pass\<close>

text \<open>
  The conflicts a pass hands to its summary: each VM once, of those it selected, with the name of a holder. The plan finds
  them in the caches, and the creates that lost a claim add theirs.
\<close>

definition holders :: "string set \<Rightarrow> string smap \<Rightarrow> bool" where
  "holders names m \<longleftrightarrow> smap_ok m \<and> list_all (\<lambda>(vm, owner). vm \<in> names \<and> owner \<noteq> []) m"

definition names_holder :: "string set \<Rightarrow> write_out \<Rightarrow> bool" where
  "names_holder names out \<longleftrightarrow> (\<forall>vm owner. fst out = Some (vm, owner) \<longrightarrow> vm \<in> names \<and> owner \<noteq> [])"

lemma smap_put_set: "set (smap_put k v m) \<subseteq> insert (k, v) (set m)"
  by (induction m) (auto split: if_splits)

lemma holders_put: "holders names m \<Longrightarrow> n \<in> names \<Longrightarrow> x \<noteq> [] \<Longrightarrow> holders names (smap_put n x m)"
  unfolding holders_def list_all_iff using smap_put_set [of n x m] by (blast intro: smap_put_ok)

lemma holders_mono: "holders A m \<Longrightarrow> A \<subseteq> B \<Longrightarrow> holders B m"
  unfolding holders_def list_all_iff by blast

lemma holders_summary: "holders names m \<longleftrightarrow> smap_ok m \<and> fst ` set m \<subseteq> names \<and> [] \<notin> snd ` set m"
  unfolding holders_def list_all_iff by (auto simp: image_iff)

lemma holders_add: "holders names m \<Longrightarrow> list_all (names_holder names) outs \<Longrightarrow> holders names (add_conflicts m (List.map_filter fst outs))"
proof (induction outs arbitrary: m)
  case (Cons o' outs)
  then show ?case
    by (cases "fst o'") (auto simp: add_conflicts_def List.map_filter_simps names_holder_def intro: holders_put)
qed (simp add: add_conflicts_def List.map_filter_simps)

lemma claimOwnerOf_named: "claimOwnerOf c \<noteq> []"
  by (simp add: claimOwnerOf_def unrecognised_def split: option.split)

abbreviation vm_names :: "unstr list \<Rightarrow> string set" where
  "vm_names vms \<equiv> (\<lambda>vm. md_Name (u_meta vm)) ` set vms"

lemma plan_vms_holders:
  "emits (plan_vms E ac m trigger vms) (\<lambda>x es. holders (vm_names vms) (snd x) \<and> (\<forall>vm d. WCreate vm d \<in> set (fst x) \<longrightarrow> vm \<in> set vms))"
proof (induction vms)
  case (Cons vm vms)
  have ex: "emits (existing_child E ac m n) (\<lambda>_ _. True)" for n
    by (rule emits_top) (unfold existing_child_def, intro only_option only_return only_getCachedChild)
  show ?case
    unfolding plan_vms.simps Let_def
    by (rule emits_bind [OF ex], rule emits_bind [OF Cons], intro emits_prod emits_return)
      (auto simp: claimOwnerOf_named plan_vm_def split: option.splits if_splits intro: holders_put [OF holders_mono] elim: holders_mono)
qed (simp add: emits_return holders_def)

lemma run_write_holder: "(\<And>vm d. x = WCreate vm d \<Longrightarrow> vm \<in> set vms) \<Longrightarrow> emits (run_write E ac x) (\<lambda>r es. names_holder (vm_names vms) r)"
proof (cases x)
  case (WCreate vm d)
  assume "\<And>vm d. x = WCreate vm d \<Longrightarrow> vm \<in> set vms"
  with WCreate have n: "md_Name (u_meta vm) \<in> vm_names vms" by auto
  have r: "emits (resolve_claim E ac (md_Name (u_meta vm))) (\<lambda>r es. names_holder (vm_names vms) r)"
    unfolding resolve_claim_def Let_def
    by (rule emits_bind [OF does_Get], intro emits_return)
      (use n in \<open>auto simp: names_holder_def claimOwnerOf_named unreadable_claim_def split: sum.splits if_splits\<close>)
  have c: "emits (createBindingChild E ac vm d) (\<lambda>_ _. True)"
    unfolding createBindingChild_def Let_def by (rule emits_top) (intro only_bind only_return only_option only_if only_prims; simp)
  show ?thesis
    unfolding WCreate run_write.simps claim_vm_def Let_def
    by (rule emits_bind [OF c], intro emits_option emits_if emits_return emits_conseq [OF r]) (simp_all add: names_holder_def)
next
  case (WUpdate c d)
  have "emits (updateBindingChildSpec E c d) (\<lambda>_ _. True)"
    unfolding updateBindingChildSpec_def by (rule emits_top) (intro only_bind only_return only_prims; simp)
  then show ?thesis unfolding WUpdate by (auto intro!: emits_bind emits_return simp: names_holder_def)
next
  case (WDelete c p)
  have "emits (deleteBindingChild E c p) (\<lambda>_ _. True)"
    unfolding deleteBindingChild_def delete_child_def updateBindingChildSpec_def
    by (rule emits_top) (intro only_bind only_return only_option only_if only_prims; simp)
  then show ?thesis unfolding WDelete by (auto intro!: emits_bind emits_return simp: names_holder_def)
qed

lemma run_batch_results:
  "(\<And>x. x \<in> set ws \<Longrightarrow> emits (run x) (\<lambda>r _. P r)) \<Longrightarrow> emits (run_batch run ws) (\<lambda>rs _. list_all P rs)"
proof (induction ws)
  case (Cons x ws)
  show ?case
    unfolding run_batch.simps
    by (rule emits_bind [OF Cons.prems], simp, rule emits_bind [OF Cons.IH [OF Cons.prems]], simp, rule emits_return, simp)
qed (simp add: emits_return)

lemma issue_batches_results:
  assumes "\<And>x. x \<in> set ws \<Longrightarrow> emits (run x) (\<lambda>r _. P r)" "list_all P d"
  shows "emits (issue_batches E run b ws d i) (\<lambda>r _. list_all P (fst r))"
  using assms
proof (induction E run b ws d i rule: issue_batches.induct)
  case (1 E run b ws d i)
  show ?case
  proof (cases "b = 0 \<or> ws = []")
    case True
    with 1(3) show ?thesis by (subst issue_batches.simps) (auto simp: emits_return)
  next
    case False
    show ?thesis
    proof (subst issue_batches.simps, unfold if_not_P [OF False] Let_def, rule emits_bind [OF emits_in_any_order], elim conjE)
      fix batch and es :: "event list"
      assume b: "set batch = set (take b ws)"
      have r: "emits (run_batch run batch) (\<lambda>rs _. list_all P rs)"
        by (rule run_batch_results, rule 1(2)) (use b in \<open>auto dest: in_set_takeD\<close>)
      show "emits (run_batch run batch \<bind> (\<lambda>rs. if 1 < b \<and> failures rs = b then ret (d @ rs, i + b)
          else issue_batches E run (min (2 * b) (min (length (drop b ws)) maxWriteConcurrency)) (drop b ws) (d @ rs) (i + b)))
          (\<lambda>r _. list_all P (fst r))"
        by (rule emits_bind [OF r], intro emits_if emits_return 1(1) [OF False refl refl])
          (use 1(2,3) in \<open>auto dest: in_set_dropD\<close>)
    qed
  qed
qed

lemma issueChildWrites_results:
  "(\<And>x. x \<in> set ws \<Longrightarrow> emits (run x) (\<lambda>r _. P r)) \<Longrightarrow> emits (issueChildWrites E run ws) (\<lambda>r _. list_all P (fst r))"
  unfolding issueChildWrites_def Let_def by (rule issue_batches_results) (auto dest: in_set_takeD)

text \<open>The part of \<open>reconcile_children\<close> that finds them.\<close>

lemma pass_conflicts:
  "emits (do {
       (writes, planned) \<leftarrow> plan_vms E ac m trigger vms;
       (wrs, issued) \<leftarrow> issueChildWrites E (run_write E ac) writes;
       ret (add_conflicts planned (List.map_filter fst wrs))
     }) (\<lambda>conflicts _. holders (vm_names vms) conflicts)"
proof (rule emits_bind [OF plan_vms_holders], intro emits_prod)
  fix x es writes planned
  assume p: "holders (vm_names vms) (snd x) \<and> (\<forall>vm d. WCreate vm d \<in> set (fst x) \<longrightarrow> vm \<in> set vms)" "x = (writes, planned)"
  have i: "emits (issueChildWrites E (run_write E ac) writes) (\<lambda>r _. list_all (names_holder (vm_names vms)) (fst r))"
    by (rule issueChildWrites_results, rule run_write_holder) (use p in auto)
  show "emits (issueChildWrites E (run_write E ac) writes \<bind> (\<lambda>(wrs, issued). ret (add_conflicts planned (List.map_filter fst wrs))))
      (\<lambda>conflicts _. holders (vm_names vms) conflicts)"
    by (rule emits_bind [OF i], intro emits_prod emits_return) (use p in \<open>auto intro: holders_add\<close>)
qed

end
