(* ===== verification/BindingCleanup.thy ===== *)
theory BindingCleanup
  imports BindingPass
begin

text \<open>
  What a binding takes away: the inventory hosts its orphan scan deletes, the children a finalizing pass
  deletes and under which policy, and that the finalizer goes only once a live list shows no child left. Last,
  the laws of the loop for the controllers of bindings and of connections.
\<close>

section \<open>The orphan scan\<close>

lemma smap_put_in: "x \<in> set (smap_put k v m) \<Longrightarrow> x = (k, v) \<or> x \<in> set m"
  by (induction k v m rule: smap_put.induct) (auto split: if_splits)

lemma keep_owned_in: "(n, h) \<in> set (keep_owned mk hs owned) \<Longrightarrow>
  (n, h) \<in> set owned \<or> n = hr_Name h \<and> h \<in> set hs \<and> trim_space (hr_Description h) = mk"
  unfolding keep_owned_def
proof (induction hs arbitrary: owned)
  case (Cons a hs)
  from Cons.IH [of "if trim_space (hr_Description a) = mk then smap_put (hr_Name a) a owned else owned"] Cons.prems show ?case
    by (auto split: if_splits dest: smap_put_in)
qed simp

definition page_shows :: "AWXClient \<Rightarrow> string \<Rightarrow> hostResult \<Rightarrow> event \<Rightarrow> bool" where
  "page_shows c mk h e \<longleftrightarrow> (\<exists>path resp. e = EHttp c (RqHostsPage path) (Inr resp) \<and> ok_code (rs_StatusCode resp) \<and>
     h \<in> set (hosts_of (rs_Body resp)) \<and> trim_space (hr_Description h) = mk)"

lemma emits_page:
  "emits (awx_do E c (RqHostsPage path) True) (\<lambda>r es. \<forall>body. r = Inr body \<longrightarrow> (\<exists>resp. es = [EHttp c (RqHostsPage path) (Inr resp)] \<and>
     ok_code (rs_StatusCode resp) \<and> body = rs_Body resp))"
  by (rule emits_conseq [OF emits_awx_do]) (auto split: sum.splits if_splits http_body.splits)

lemma emits_owned_pages:
  "emits (owned_pages n E c mk path owned) (\<lambda>r es. \<forall>hs. r = Inr hs \<longrightarrow>
     (\<forall>(m, h) \<in> set hs. (m, h) \<in> set owned \<or> m = hr_Name h \<and> list_ex (page_shows c mk h) es))"
proof (induction n arbitrary: path owned)
  case (Suc n)
  show ?case
    unfolding owned_pages.simps
  proof (intro emits_if emits_return, simp, rule emits_bind [OF emits_page], intro emits_sum emits_return, simp)
    fix r es body
    assume "\<forall>body. r = Inr body \<longrightarrow> (\<exists>resp. es = [EHttp c (RqHostsPage path) (Inr resp)] \<and> ok_code (rs_StatusCode resp) \<and> body = rs_Body resp)"
      and "r = Inr body"
    then obtain resp where p: "es = [EHttp c (RqHostsPage path) (Inr resp)]" "ok_code (rs_StatusCode resp)" "body = rs_Body resp" by auto
    have k: "(m, h) \<in> set owned \<or> m = hr_Name h \<and> list_ex (page_shows c mk h) es" if "(m, h) \<in> set (keep_owned mk (hosts_of body) owned)" for m h
      using keep_owned_in [OF that] p by (auto simp: page_shows_def)
    show "emits (let owned = keep_owned mk (hosts_of body) owned in
              if \<not> has_prefix (next_of body) ''/'' then ret (Inr owned)
              else owned_pages n E c mk (next_of body) owned)
        (\<lambda>b es'. \<forall>hs. b = Inr hs \<longrightarrow> (\<forall>(m, h) \<in> set hs. (m, h) \<in> set owned \<or> m = hr_Name h \<and> list_ex (page_shows c mk h) (es @ es')))"
      unfolding Let_def
      by (intro emits_if emits_return emits_conseq [OF Suc]) (use k in fastforce)+
  qed
qed (auto intro: emits_return)

lemma emits_orphan_candidates:
  "emits (orphan_candidates E c mk claimed is) (\<lambda>r es. \<forall>hs. r = Inr hs \<longrightarrow>
     (\<forall>h \<in> set hs. hr_Name h \<notin> set claimed \<and> list_ex (page_shows c mk h) es))"
proof (induction "is")
  case (Cons i "is")
  have l: "emits (ListOwnedHosts E c i mk) (\<lambda>r es. \<forall>hs. r = Inr hs \<longrightarrow> (\<forall>(m, h) \<in> set hs. m = hr_Name h \<and> list_ex (page_shows c mk h) es))"
    unfolding ListOwnedHosts_def by (rule emits_conseq [OF emits_owned_pages]) auto
  show ?case
    unfolding orphan_candidates.simps
    by (rule emits_bind [OF l], intro emits_sum emits_return, simp, rule emits_bind [OF emits_in_any_order], rule emits_bind [OF Cons], rule emits_return)
      (fastforce simp: map_sum_def split: sum.splits)
qed (simp add: emits_return)

lemma emits_delete_orphans:
  "only (deletes_in (\<lambda>c' i. c' = c \<and> (\<exists>h \<in> set hs. hr_ID h = i \<and> hr_Name h \<notin> set claimed))) (delete_orphans E c claimed hs)"
proof (induction hs)
  case (Cons h hs)
  have d: "only K (DeleteHost E c i)" if "\<And>a. K (EHttp c (RqDeleteHost i) a)" for K i
    using that by (rule only_intros)
  show ?case
    unfolding delete_orphans.simps
    by (intro only_if only_bind only_option only_return d only_mono [OF Cons]) (auto simp: deletes_in_def)
qed (simp add: only_return)

text \<open>The connection as the informer store or the API has it.\<close>

definition conn_of :: "env \<Rightarrow> AnsibleBinding \<Rightarrow> AWXConnection \<Rightarrow> event list \<Rightarrow> bool" where
  "conn_of E ac conn es \<longleftrightarrow> (let ref = bs_AWXConnectionRef (ab_spec ac) in \<exists>obj. convertAWXConnection obj = Inr conn \<and>
     ((\<exists>t. e_store E t AWXConnGVR (key (ab_ns ac) ref) = Some obj) \<or> EGet AWXConnGVR (ab_ns ac) ref (Inr obj) \<in> set es))"

lemma emits_connect_binding:
  "emits (connect_binding E ac) (\<lambda>r es. \<forall>conn c. r = Inr (conn, c) \<longrightarrow> conn_of E ac conn es)"
proof -
  have p: "emits (cachedGet E g ns n) (\<lambda>r es. es = [] \<and> (\<forall>obj. r = Some obj \<longrightarrow> (\<exists>t. e_store E t g (key ns n) = Some obj)))" for g ns n
    unfolding cachedGet_def emits_def peek_def by auto
  have g: "emits (getAWXConnection E ns n) (\<lambda>r es. \<forall>obj. r = Inr obj \<longrightarrow>
      (\<exists>t. e_store E t AWXConnGVR (key ns n) = Some obj) \<or> EGet AWXConnGVR ns n (Inr obj) \<in> set es)" for ns n
    unfolding getAWXConnection_def
    by (rule emits_bind [OF p], intro emits_option emits_return emits_conseq [OF does_Get]) auto
  have c: "emits (awxClientForConnection E conn) (\<lambda>_ _. True)" for conn
    by (rule emits_top) (intro only_awxClientForConnection; simp)
  show ?thesis
    unfolding connect_binding_def Let_def
    by (rule emits_bind [OF g], intro emits_sum emits_if emits_return emits_bind [OF c])
      (auto simp: conn_of_def Let_def split: sum.splits)
qed

text \<open>
  A host deleted as an orphan: AWX listed it in this pass under this binding's own marker, then the children
  were listed again from the API server, and neither one of those nor a selected VM goes by its name.
\<close>

definition orphan_backed :: "env \<Rightarrow> AnsibleBinding \<Rightarrow> string smap \<Rightarrow> AWXClient \<Rightarrow> int \<Rightarrow> event list \<Rightarrow> bool" where
  "orphan_backed E ac matched c i pre \<longleftrightarrow> bs_CleanupPolicy (ab_spec ac) \<noteq> CleanupPolicyRetain \<and>
     (\<exists>h conn us fresh pre1 pre2. hr_ID h = i \<and>
        pre = pre1 @ EList AnsBindVMGVR (ab_ns ac) [(BindingLabel, bindingLabelValue E (ab_name ac))] (Inr us) # pre2 \<and>
        list_ex (page_shows c (hostOwnerMarker E (ab_ns ac) (ab_name ac)) h) pre1 \<and> convert_children us = Inr fresh \<and>
        conn_of E ac conn pre1 \<and>
        hr_Name h \<notin> set (claimedHostNames ac (cs_HostNamePrefix (the (conn_Spec conn))) fresh matched))"

lemma conn_of_mono: "conn_of E ac conn es \<Longrightarrow> set es \<subseteq> set es' \<Longrightarrow> conn_of E ac conn es'"
  unfolding conn_of_def Let_def by blast

lemma orphan_backed_mono: "orphan_backed E ac matched c i pre \<Longrightarrow> orphan_backed E ac matched c i (xs @ pre)"
  unfolding orphan_backed_def
proof (elim conjE exE, goal_cases)
  case (1 h conn us fresh pre1 pre2)
  moreover have "conn_of E ac conn (xs @ pre1)" using 1 by (elim conn_of_mono) simp
  ultimately show ?case
    by (intro conjI exI [of _ h] exI [of _ conn] exI [of _ us] exI [of _ fresh] exI [of _ "xs @ pre1"] exI [of _ pre2]) simp_all
qed

lemma backed_append:
  assumes "deletes_backed F xs" "deletes_backed F ys" "\<And>c i pre. F c i pre \<Longrightarrow> F c i (xs @ pre)"
  shows "deletes_backed F (xs @ ys)"
  unfolding deletes_backed_def
proof (intro allI impI)
  fix pre c i a post
  assume "xs @ ys = pre @ EHttp c (RqDeleteHost i) a # post"
  then consider zs where "xs = pre @ EHttp c (RqDeleteHost i) a # zs"
    | zs where "pre = xs @ zs" "ys = zs @ EHttp c (RqDeleteHost i) a # post"
    unfolding append_eq_append_conv2 by (metis append.right_neutral append_eq_Cons_conv append_Nil)
  then show "F c i pre"
    using assms by cases (auto simp: deletes_backed_def)
qed

text \<open>The judgement that all deletions of a computation are backed, with its rules.\<close>

definition orphan_safe :: "env \<Rightarrow> AnsibleBinding \<Rightarrow> string smap \<Rightarrow> 'a prog \<Rightarrow> bool" where
  "orphan_safe E ac matched m \<longleftrightarrow> emits m (\<lambda>_. deletes_backed (orphan_backed E ac matched))"

lemma orphan_safe_quiet: "only (\<lambda>e. \<not> is_host_delete e) m \<Longrightarrow> orphan_safe E ac matched m"
  unfolding only_def orphan_safe_def by (erule emits_conseq) (rule deletes_none)

lemma orphan_safe_bind:
  assumes "orphan_safe E ac matched m" "\<And>a. orphan_safe E ac matched (f a)"
  shows "orphan_safe E ac matched (m \<bind> f)"
  unfolding orphan_safe_def
  by (rule emits_bind [OF assms(1) [unfolded orphan_safe_def]], rule emits_conseq [OF assms(2) [unfolded orphan_safe_def]])
    (blast intro: backed_append orphan_backed_mono)

lemma orphan_safe_if: "orphan_safe E ac matched m \<Longrightarrow> orphan_safe E ac matched n \<Longrightarrow> orphan_safe E ac matched (if b then m else n)"
  by simp

lemma orphan_safe_prod: "(\<And>x y. orphan_safe E ac matched (f x y)) \<Longrightarrow> orphan_safe E ac matched (case p of (x, y) \<Rightarrow> f x y)"
  by (cases p) simp

lemma set_claimed: "set cs = set cs' \<Longrightarrow> set (claimedHostNames ac p cs m) = set (claimedHostNames ac p cs' m)"
  by (simp add: claimedHostNames_def)

lemma emits_confirm_orphans:
  assumes "\<And>h. h \<in> set hs \<Longrightarrow> list_ex (page_shows c (hostOwnerMarker E (ab_ns ac) (ab_name ac)) h) xs" "conn_of E ac conn xs"
    "list_all (\<lambda>e. \<not> is_host_delete e) xs" "bs_CleanupPolicy (ab_spec ac) \<noteq> CleanupPolicyRetain"
  shows "emits (confirm_orphans E ac conn c matched hs) (\<lambda>_ es. deletes_backed (orphan_backed E ac matched) (xs @ es))"
  unfolding confirm_orphans_def
proof (rule emits_bind [OF emits_live_children], intro emits_sum emits_return, goal_cases)
  case (1 r es err)
  with assms(3) show ?case by (intro deletes_none) auto
next
  case (2 r es fresh)
  then obtain us cs where l: "es = [EList AnsBindVMGVR (ab_ns ac) [(BindingLabel, bindingLabelValue E (ab_name ac))] (Inr us)]"
    "convert_children us = Inr cs" "fresh = sort_children cs" by auto
  show ?case
  proof (rule emits_conseq [OF emits_delete_orphans [unfolded only_def]])
    fix r es'
    assume "list_all (deletes_in (\<lambda>c' i. c' = c \<and> (\<exists>h \<in> set hs. hr_ID h = i \<and>
        hr_Name h \<notin> set (claimedHostNames ac (cs_HostNamePrefix (the (conn_Spec conn))) fresh matched)))) es'"
    then have "deletes_backed (orphan_backed E ac matched) ((xs @ es) @ es')"
    proof (rule deletes_after [rotated])
      show "list_all (\<lambda>e. \<not> is_host_delete e) (xs @ es)" using assms(3) l by simp
      fix c' i zs
      assume "c' = c \<and> (\<exists>h \<in> set hs. hr_ID h = i \<and> hr_Name h \<notin> set (claimedHostNames ac (cs_HostNamePrefix (the (conn_Spec conn))) fresh matched))"
      then obtain h where h: "c' = c" "h \<in> set hs" "hr_ID h = i"
        "hr_Name h \<notin> set (claimedHostNames ac (cs_HostNamePrefix (the (conn_Spec conn))) cs matched)"
        using set_claimed [of fresh cs] l by auto
      then show "orphan_backed E ac matched c' i ((xs @ es) @ zs)"
        unfolding orphan_backed_def using assms(1,2,4) l
        by (intro conjI exI [of _ h] exI [of _ conn] exI [of _ us] exI [of _ cs] exI [of _ xs] exI [of _ zs]) simp_all
    qed
    then show "deletes_backed (orphan_backed E ac matched) (xs @ es @ es')" by simp
  qed
qed

lemma any_connect: "only (\<lambda>e. \<not> is_host_delete e) (connect_binding E ac)"
  unfolding connect_binding_def Let_def
  by (intro only_bind only_sum only_if only_return only_getAWXConnection only_awxClientForConnection; simp)

lemma any_candidates: "only (\<lambda>e. \<not> is_host_delete e) (orphan_candidates E c mk cl is)"
  by (induction "is") (auto intro!: only_intros simp: in_any_order_def)

lemma emits_reapOrphanHosts:
  "emits (reapOrphanHosts E ac children matched) (\<lambda>_. deletes_backed (orphan_backed E ac matched))"
proof -
  have nil: "emits (ret x) (\<lambda>_ es. deletes_backed (orphan_backed E ac matched) es)" for x :: "gerr option"
    by (intro emits_return deletes_none) simp
  show ?thesis
    unfolding reapOrphanHosts_def
  proof (intro emits_if nil, rule emits_bind [OF emits_and_only [OF emits_connect_binding any_connect]], intro emits_sum emits_prod, goal_cases)
    case (1 r es err)
    then show ?case by (intro emits_return deletes_none) simp
  next
    case (2 r es y conn c)
    have o: "emits (in_any_order E xs) (\<lambda>_ es. es = [])" for xs :: "int list"
      by (rule emits_conseq [OF emits_in_any_order]) simp
    show ?case
    proof (rule emits_bind [OF o], rule emits_bind [OF emits_and_only [OF emits_orphan_candidates any_candidates]], intro emits_sum emits_list, goal_cases)
      case (3 invs es1 r' es2 hs h hs')
      have "emits (confirm_orphans E ac conn c matched hs) (\<lambda>_ es'. deletes_backed (orphan_backed E ac matched) ((es @ es2) @ es'))"
        by (rule emits_confirm_orphans) (use 2 3 in \<open>auto intro: conn_of_mono\<close>)
      with 3 show ?case by simp
    qed (use 2 in \<open>auto intro!: emits_return deletes_none\<close>)
  qed
qed

lemma only_run_keeps: "only (\<lambda>e. \<not> is_http e) (run_write E ac x)"
proof (cases x)
  case (WCreate vm d)
  show ?thesis
    unfolding WCreate run_write.simps claim_vm_def createBindingChild_def resolve_claim_def Let_def
    by (intro only_bind only_return only_option only_if only_prims) simp_all
next
  case (WUpdate c d)
  show ?thesis unfolding WUpdate run_write.simps updateBindingChildSpec_def by (intro only_bind only_return only_prims) simp
next
  case (WDelete c p)
  show ?thesis
    unfolding WDelete run_write.simps deleteBindingChild_def delete_child_def updateBindingChildSpec_def
    by (intro only_bind only_return only_option only_if only_prims) simp_all
qed

definition orphans_ok :: "env \<Rightarrow> unstr \<Rightarrow> event list \<Rightarrow> bool" where
  "orphans_ok E u es \<longleftrightarrow> list_all (\<lambda>e. \<not> is_host_delete e) es \<or> (\<exists>ac vms children. binding_inputs E u ac vms children es \<and>
     deletes_backed (orphan_backed E ac (matched_vms vms)) es)"

lemma emits_binding_orphans: "emits (applyAnsibleBinding E u) (\<lambda>_. orphans_ok E u)"
proof (rule emits_binding_pass)
  fix err and es :: "event list"
  assume "list_all is_list es"
  then have "list_all (\<lambda>e. \<not> is_host_delete e) es" by (rule list.pred_mono_strong) (auto elim: is_list.elims)
  then show "orphans_ok E u es" by (simp add: orphans_ok_def)
next
  fix ac vms children xs
  assume x: "list_all is_list xs" "binding_inputs E u ac vms children xs"
  let ?F = "orphan_backed E ac (matched_vms vms)"
  let ?q = "\<lambda>e. \<not> is_host_delete e"
  have xs: "list_all ?q xs" using x(1) by (rule list.pred_mono_strong) (auto elim: is_list.elims)
  have w: "only ?q (issueChildWrites E (run_write E ac) ws)" for ws
    by (intro only_issueChildWrites only_mono [OF only_run_keeps]) (auto elim: is_host_delete.elims)
  have pl: "only ?q (plan_vms E ac cs t us)" for cs t us
  proof (induction us)
    case (Cons vm us)
    then show ?case
      unfolding plan_vms.simps Let_def existing_child_def by (intro only_bind only_option only_return only_getCachedChild only_prod)
  qed (simp add: only_return)
  have r: "orphan_safe E ac m (reapOrphanHosts E ac children m)" for m
    unfolding orphan_safe_def by (rule emits_reapOrphanHosts)
  have sc: "orphan_safe E ac m (scan_orphans E ac children m k err)" for m k err
    unfolding scan_orphans_def Let_def
    by (intro orphan_safe_bind [OF r] orphan_safe_bind orphan_safe_prod orphan_safe_quiet [OF only_dueFor] orphan_safe_if
        orphan_safe_quiet [OF only_option] orphan_safe_quiet [OF only_return] only_bind only_return only_prims) simp_all
  have fin: "only ?q (finish_binding E u ac s t k scan)" for s t k scan
    unfolding finish_binding_def recordEvent_def writeAnsibleBindingDetails_def Let_def
    by (intro only_prod only_bind only_if only_return only_prims only_patchStatus) simp_all
  have "orphan_safe E ac (matched_vms vms) (reconcile_children E u ac vms children)"
    unfolding reconcile_children_def Let_def
    by (intro orphan_safe_bind orphan_safe_prod orphan_safe_quiet [OF pl] orphan_safe_quiet [OF w] sc orphan_safe_quiet [OF fin])
  then show "emits (reconcile_children E u ac vms children) (\<lambda>_ es. orphans_ok E u (xs @ es))"
    unfolding orphans_ok_def orphan_safe_def
    by (rule emits_conseq)
      (blast intro: binding_inputs_more [OF x(2)] backed_append deletes_none [OF xs] orphan_backed_mono)
qed

section \<open>Deleting a child\<close>

definition set_policy :: "AnsibleBindingVM \<Rightarrow> string \<Rightarrow> api_err option \<Rightarrow> event" where
  "set_policy c p a = EPatchSpec AnsBindVMGVR (ch_ns c) (md_Name (ch_meta c)) (md_UID (ch_meta c)) (md_ResourceVersion (ch_meta c))
     ((ch_spec c)\<lparr>vs_CleanupPolicy := p\<rparr>) a"

definition deletion_of :: "AnsibleBindingVM \<Rightarrow> api_err option \<Rightarrow> event" where
  "deletion_of c a = EDelete AnsBindVMGVR (ch_ns c) (md_Name (ch_meta c)) (Some (md_UID (ch_meta c))) a"

text \<open>
  The deletion of a child names the very object that was read, and when the binding's cleanup policy is not the
  child's it goes out only after the child's spec was replaced by one with that policy and nothing else changed.
\<close>

definition delete_protocol :: "AnsibleBindingVM \<Rightarrow> string \<Rightarrow> event list \<Rightarrow> bool" where
  "delete_protocol c p es \<longleftrightarrow>
     (if p = [] \<or> ch_Spec c = None \<or> vs_CleanupPolicy (ch_spec c) = p
      then (if is_deleting (ch_meta c) then es = [] else \<exists>a. es = [deletion_of c a])
      else (\<exists>err. es = [set_policy c p (Some err)]) \<or>
        (if is_deleting (ch_meta c) then es = [set_policy c p None] else \<exists>a. es = [set_policy c p None, deletion_of c a]))"

lemma api_opt_Some: "Some e = api_opt a \<Longrightarrow> \<exists>r m. a = Some (r, m)"
  by (cases a) auto

lemma emits_deleteBindingChild: "emits (deleteBindingChild E c p) (\<lambda>_. delete_protocol c p)"
  unfolding deleteBindingChild_def updateBindingChildSpec_def delete_child_def
  by (intro emits_if emits_bind [OF does_PatchSpec] emits_bind [OF does_Delete] emits_option emits_return)
    (auto simp: delete_protocol_def set_policy_def deletion_of_def split: if_splits dest!: api_opt_Some api_opt_reasons(5))

section \<open>Finalization\<close>

text \<open>A child a finalizing pass takes for the binding's: unrecognisable, or with the binding's name.\<close>

definition ours :: "AnsibleBinding \<Rightarrow> AnsibleBindingVM \<Rightarrow> bool" where
  "ours ac c \<longleftrightarrow> ch_Spec c = None \<or> vs_BindingName (ch_spec c) = ab_name ac"

definition removes :: "string \<Rightarrow> AnsibleBindingVM \<Rightarrow> event \<Rightarrow> bool" where
  "removes p c e \<longleftrightarrow> (\<exists>a. e = deletion_of c a \<or> e = set_policy c p a)"

abbreviation policy_of :: "AnsibleBinding \<Rightarrow> string" where
  "policy_of ac \<equiv> (case ab_Spec ac of None \<Rightarrow> [] | Some sp \<Rightarrow> bs_CleanupPolicy sp)"

definition removal :: "env \<Rightarrow> AnsibleBinding \<Rightarrow> AnsibleBindingVM list \<Rightarrow> nat \<Rightarrow> nat \<times> gerr option \<Rightarrow> event list \<Rightarrow> bool" where
  "removal E ac cs k r es \<longleftrightarrow> list_all (\<lambda>e. \<exists>c \<in> set cs. ours ac c \<and> removes (policy_of ac) c e) es \<and>
     (snd r = None \<longrightarrow> fst r = k + length (filter (ours ac) cs) \<and>
        (\<forall>c \<in> set cs. ours ac c \<longrightarrow> performed E ac (WDelete c (policy_of ac)) (set es)))"

lemma protocol_removes: "delete_protocol c p es \<Longrightarrow> list_all (removes p c) es"
  by (auto simp: delete_protocol_def removes_def split: if_splits)

lemma emits_deleteBindingChildren: "emits (deleteBindingChildren E ac cs k) (removal E ac cs k)"
proof (induction cs arbitrary: k)
  case (Cons c cs)
  show ?case
  proof (cases "ours ac c")
    case False
    then have "ch_Spec c \<noteq> None \<and> vs_BindingName (ch_spec c) \<noteq> ab_name ac" by (simp add: ours_def)
    then show ?thesis
      unfolding deleteBindingChildren.simps using False
      by (simp, intro emits_conseq [OF Cons]) (auto simp: removal_def list_all_iff)
  next
    case True
    then have n: "\<not> (ch_Spec c \<noteq> None \<and> vs_BindingName (ch_spec c) \<noteq> ab_name ac)" by (simp add: ours_def)
    show ?thesis
      unfolding deleteBindingChildren.simps if_not_P [OF n]
    proof (rule emits_bind [OF emits_conj [OF emits_deleteBindingChild performed_deleteBindingChild [where ac = ac and q = "policy_of ac"]]], intro emits_option emits_return)
      fix r :: "gerr option" and es and y :: gerr
      assume "delete_protocol c (policy_of ac) es \<and> (r = None \<longrightarrow> performed E ac (WDelete c (policy_of ac)) (set es))" "r = Some y"
      then show "removal E ac (c # cs) k (k + 1, Some y) (es @ [])"
        using protocol_removes [of c "policy_of ac" es] True by (auto simp: removal_def list_all_iff)
    next
      fix r :: "gerr option" and es
      assume d: "delete_protocol c (policy_of ac) es \<and> (r = None \<longrightarrow> performed E ac (WDelete c (policy_of ac)) (set es))" "r = None"
      show "emits (deleteBindingChildren E ac cs (k + 1)) (\<lambda>b es'. removal E ac (c # cs) k b (es @ es'))"
        using protocol_removes [of c "policy_of ac" es] True d
        by (intro emits_conseq [OF Cons]) (auto simp: removal_def list_all_iff elim: performed_mono)
    qed
  qed
qed (simp add: emits_return removal_def)

text \<open>No child left: the last thing the pass did was a live list, and every child in it is another binding's.\<close>

definition no_child_left :: "env \<Rightarrow> AnsibleBinding \<Rightarrow> event list \<Rightarrow> bool" where
  "no_child_left E ac es \<longleftrightarrow> (\<exists>pre us cs. es = pre @ [EList AnsBindVMGVR (ab_ns ac) [(BindingLabel, bindingLabelValue E (ab_name ac))] (Inr us)] \<and>
     convert_children us = Inr cs \<and> (\<forall>c \<in> set cs. \<not> ours ac c))"

text \<open>Not there yet: the pass has asked for the deletion of every child it listed, and comes back for them.\<close>

definition children_going :: "env \<Rightarrow> AnsibleBinding \<Rightarrow> event list \<Rightarrow> bool" where
  "children_going E ac es \<longleftrightarrow> (\<exists>children. listed_children E ac children es \<and> (\<exists>c \<in> set children. ours ac c) \<and>
     (\<forall>c \<in> set children. ours ac c \<longrightarrow> performed E ac (WDelete c (policy_of ac)) (set es)))"

definition cleanup_ok :: "env \<Rightarrow> AnsibleBinding \<Rightarrow> gerr + CleanupResult \<Rightarrow> event list \<Rightarrow> bool" where
  "cleanup_ok E ac r es \<longleftrightarrow>
     list_all (\<lambda>e. is_list e \<or> (\<exists>children. listed_children E ac children es \<and> (\<exists>c \<in> set children. ours ac c \<and> removes (policy_of ac) c e))) es \<and>
     (case r of Inl err \<Rightarrow> True
      | Inr x \<Rightarrow> if cr_Done x then no_child_left E ac es
          else cr_RequeueAfter x = 30 * nanos_per_second \<and> children_going E ac es)"

lemma listed_children_mono: "listed_children E ac cs es \<Longrightarrow> set es \<subseteq> set es' \<Longrightarrow> listed_children E ac cs es'"
  unfolding listed_children_def Let_def by blast

lemma emits_wait_for_children:
  assumes l: "\<And>cs. r = Inr cs \<Longrightarrow> listed_children E ac cs xs"
    and xs: "list_all (\<lambda>e. is_list e) xs"
    and go: "\<And>cs. r = Inr cs \<Longrightarrow> \<forall>c \<in> set cs. \<not> ours ac c \<Longrightarrow> emits andThen (\<lambda>r es. cleanup_ok E ac r (xs @ es))"
  shows "emits (wait_for_children E ac text r andThen) (\<lambda>r es. cleanup_ok E ac r (xs @ es))"
  unfolding wait_for_children_def
proof (intro emits_sum emits_return, goal_cases)
  case (1 err)
  with xs show ?case by (auto simp: cleanup_ok_def list_all_iff)
next
  case (2 cs)
  note L = l [OF 2]
  show ?case
  proof (rule emits_bind [OF emits_deleteBindingChildren], intro emits_prod emits_option emits_if emits_return)
    fix rr es n e
    assume rm: "removal E ac cs 0 rr es" and rr: "rr = (n, e)"
    have ev: "list_all (\<lambda>e. is_list e \<or> (\<exists>children. listed_children E ac children (xs @ es @ zs) \<and>
        (\<exists>c \<in> set children. ours ac c \<and> removes (policy_of ac) c e))) (xs @ es)" for zs
      using xs rm listed_children_mono [OF L, of "xs @ es @ zs"] by (auto simp: removal_def list_all_iff)
    show "cleanup_ok E ac (Inl y) (xs @ es @ [])" for y
      using ev [of "[]"] by (simp add: cleanup_ok_def)
    assume none: "e = None"
    show "cleanup_ok E ac (Inr \<lparr>cr_Done = False, cr_RequeueAfter = childCleanupPollInterval\<rparr>) (xs @ es @ [])" if "0 < n"
    proof -
      have "filter (ours ac) cs \<noteq> []" using rm rr none that by (auto simp: removal_def)
      then have "\<exists>c \<in> set cs. ours ac c" by (auto simp: filter_empty_conv)
      then have "children_going E ac (xs @ es)"
        using rm rr none listed_children_mono [OF L, of "xs @ es"]
        by (auto simp: children_going_def removal_def intro!: exI [of _ cs] elim: performed_mono)
      then show ?thesis using ev [of "[]"] by (simp add: cleanup_ok_def childCleanupPollInterval_def)
    qed
    assume "\<not> 0 < n"
    then have f: "\<forall>c \<in> set cs. \<not> ours ac c" using rm rr none by (auto simp: removal_def filter_empty_conv)
    then have "es = []" using rm by (cases es) (auto simp: removal_def)
    with go [OF 2 f] show "emits andThen (\<lambda>b es'. cleanup_ok E ac b (xs @ es @ es'))" by simp
  qed
qed

definition finalized_binding :: "env \<Rightarrow> unstr \<Rightarrow> gerr + CleanupResult \<Rightarrow> event list \<Rightarrow> bool" where
  "finalized_binding E u r es \<longleftrightarrow> (case convertAnsibleBinding u of Inl err \<Rightarrow> es = [] | Inr ac \<Rightarrow> cleanup_ok E ac r es)"

lemma emits_cleanupAnsibleBinding: "emits (cleanupAnsibleBinding E u) (finalized_binding E u)"
proof (cases "convertAnsibleBinding u")
  case (Inl err)
  then show ?thesis by (simp add: cleanupAnsibleBinding_def emits_return finalized_binding_def)
next
  case (Inr ac)
  have fin: "emits (ret (Inr hook_finished)) (\<lambda>r es. cleanup_ok E ac r (xs @ es))"
    if "list_all is_list xs" "xs = pre @ [EList AnsBindVMGVR (ab_ns ac) [(BindingLabel, bindingLabelValue E (ab_name ac))] (Inr us)]"
      "convert_children us = Inr cs" "\<forall>c \<in> set cs. \<not> ours ac c" for xs pre us cs
    using that by (intro emits_return) (auto simp: cleanup_ok_def hook_finished_def no_child_left_def list_all_iff)
  have second: "emits (listBindingChildren E (ab_ns ac) (ab_name ac) \<bind> (\<lambda>fresh.
      wait_for_children E ac f_bc_confirm fresh (ret (Inr hook_finished)))) (\<lambda>r es. cleanup_ok E ac r (xs @ es))"
    if xs: "list_all is_list xs" for xs
  proof (rule emits_bind [OF emits_live_children])
    fix r :: "gerr + AnsibleBindingVM list" and es
    let ?l = "EList AnsBindVMGVR (ab_ns ac) [(BindingLabel, bindingLabelValue E (ab_name ac))]"
    assume "\<exists>a. es = [?l a] \<and> (\<forall>cs. r = Inr cs \<longrightarrow> (\<exists>us cs0. a = Inr us \<and> convert_children us = Inr cs0 \<and> cs = sort_children cs0))"
    then obtain a where a: "es = [?l a]" "\<And>cs. r = Inr cs \<Longrightarrow> \<exists>us cs0. a = Inr us \<and> convert_children us = Inr cs0 \<and> cs = sort_children cs0" by blast
    have "emits (wait_for_children E ac f_bc_confirm r (ret (Inr hook_finished))) (\<lambda>r es'. cleanup_ok E ac r ((xs @ es) @ es'))"
    proof (rule emits_wait_for_children)
      fix cs
      assume "r = Inr cs"
      from a(2) [OF this] obtain us cs0 where u: "a = Inr us" "convert_children us = Inr cs0" "cs = sort_children cs0" by blast
      then show "listed_children E ac cs (xs @ es)" using a(1) unfolding listed_children_def Let_def by auto
      assume "\<forall>c \<in> set cs. \<not> ours ac c"
      with u show "emits (ret (Inr hook_finished)) (\<lambda>r es'. cleanup_ok E ac r ((xs @ es) @ es'))"
        by (intro fin [where pre = xs and us = us and cs = cs0]) (use xs a in auto)
    qed (use xs a in auto)
    then show "emits (wait_for_children E ac f_bc_confirm r (ret (Inr hook_finished))) (\<lambda>b es'. cleanup_ok E ac b (xs @ es @ es'))" by simp
  qed
  have "emits (cleanupAnsibleBinding E u) (cleanup_ok E ac)"
    unfolding cleanupAnsibleBinding_def Inr sum.case
    by (rule emits_bind [OF emits_listed_children], rule emits_wait_for_children) (auto intro: second)
  with Inr show ?thesis by (simp add: finalized_binding_def [abs_def])
qed

section \<open>The controllers in the loop\<close>

text \<open>A binding's own functions: lists, children written, its details, Events, the clock and jitter, connections read, and AWX.\<close>

fun bind_event :: "event \<Rightarrow> bool" where
  "bind_event (EHttp c (RqPing p) a) = True"
| "bind_event (EHttp c (RqHostsPage p) a) = True"
| "bind_event (EHttp c (RqDeleteHost i) a) = True"
| "bind_event (ENow t) = True"
| "bind_event (ERand n x) = True"
| "bind_event (EGet g ns n a) = (g = SecretGVR \<or> g = AWXConnGVR \<or> g = AnsBindVMGVR)"
| "bind_event (EList g ns sel a) = (g = VMGVR \<or> g = AnsBindVMGVR)"
| "bind_event (ECreate g u a) = (g = EventGVR \<or> g = AnsBindVMGVR)"
| "bind_event (EPatchSpec g ns n uid rv sp a) = (g = AnsBindVMGVR)"
| "bind_event (EDelete g ns n uo a) = (g = AnsBindVMGVR)"
| "bind_event (EApplyStatus g ns n (PBinding sm k tr t) fm a) = (g = AnsBindGVR \<and> fm = detailsFieldManager)"
| "bind_event _ = False"

lemma bind_deleteChild: "only bind_event (deleteBindingChild E c p)"
  unfolding deleteBindingChild_def delete_child_def updateBindingChildSpec_def
  by (intro only_bind only_return only_option only_if only_prims) simp_all

lemma bind_run_write: "only bind_event (run_write E ac x)"
proof (cases x)
  case (WCreate vm d)
  show ?thesis
    unfolding WCreate run_write.simps claim_vm_def createBindingChild_def resolve_claim_def Let_def
    by (intro only_bind only_return only_option only_if only_prims) simp_all
next
  case (WUpdate c d)
  show ?thesis unfolding WUpdate run_write.simps updateBindingChildSpec_def by (intro only_bind only_return only_prims) simp
next
  case (WDelete c p)
  show ?thesis unfolding WDelete run_write.simps by (intro only_bind only_return bind_deleteChild)
qed

lemma bind_reap: "only bind_event (reapOrphanHosts E ac children matched)"
proof -
  have c: "only bind_event (orphan_candidates E c mk cl is)" for c mk cl "is"
    by (induction "is") (auto intro!: only_intros simp: in_any_order_def)
  have d: "only bind_event (delete_orphans E c cl hs)" for c cl hs
    by (induction hs) (auto intro!: only_intros)
  show ?thesis
    unfolding reapOrphanHosts_def connect_binding_def confirm_orphans_def listBindingChildren_def in_any_order_def Let_def
    by (intro only_if only_bind only_return only_sum only_prod only_option only_list only_peek c d only_getAWXConnection
        only_awxClientForConnection only_prims) simp_all
qed

lemma bind_list: "only bind_event (listBindingChildrenCached E ns n)" "only bind_event (listBindingChildren E ns n)"
  unfolding listBindingChildrenCached_def listBindingChildren_def
  by (intro only_bind only_return only_option only_peek only_prims; simp)+

lemma bind_applyAnsibleBinding: "only bind_event (applyAnsibleBinding E u)"
proof -
  have pl: "only bind_event (plan_vms E ac cs t us)" for ac cs t us
  proof (induction us)
    case (Cons vm us)
    then show ?case
      unfolding plan_vms.simps Let_def existing_child_def by (intro only_bind only_option only_return only_getCachedChild only_prod)
  qed (simp add: only_return)
  show ?thesis
    unfolding applyAnsibleBinding_def reconcile_children_def scan_orphans_def finish_binding_def recordEvent_def
      writeAnsibleBindingDetails_def Let_def
    by (intro only_sum only_return only_bind only_listVirtualMachines only_if bind_list pl only_prod only_issueChildWrites bind_run_write
        only_dueFor bind_reap only_option only_prims only_patchStatus) simp_all
qed

lemma bind_cleanupAnsibleBinding: "only bind_event (cleanupAnsibleBinding E u)"
proof -
  have d: "only bind_event (deleteBindingChildren E ac cs k)" for ac cs k
    by (induction cs arbitrary: k) (auto intro!: only_bind only_option only_return bind_deleteChild)
  show ?thesis
    unfolding cleanupAnsibleBinding_def wait_for_children_def
    by (intro only_sum only_return only_bind bind_list d only_prod only_option only_if)
qed

interpretation bind_loop: finalizing_reconciler E "ansBindController E" bind_event for E
proof unfold_locales
  fix u
  show "only bind_event (c_provisionFunc (ansBindController E) u)"
    by (simp add: ansBindController_def bind_applyAnsibleBinding)
  show "c_cleanupFunc (ansBindController E) = Some f \<Longrightarrow> only bind_event (f u)" for f
    by (auto simp: ansBindController_def bind_cleanupAnsibleBinding)
  show "only is_clock (c_updateStatusFunc (ansBindController E) u ok err)" for ok err
    unfolding ansBindController_def updateAnsibleBindingStatus_def
    by (auto intro!: only_intros clock_updateGenericStatus split: prod.split)
next
  show "bind_event e \<Longrightarrow> \<not> is_fin_patch e" for e by (cases e rule: is_fin_patch.cases) auto
qed

interpretation bind_policy: settled_policy "holdFinalizers (ansBindController E)"
    "releaseFinalizers (ansBindController E)" "needs_update (ansBindController E)"
    "own_finalizers (ansBindController E)" "set (c_staleFinalizers (ansBindController E))" for E
  by unfold_locales (simp add: ansBindController_def)

interpretation conn_loop: finalizing_reconciler E "awxConnController E" conn_event for E
proof unfold_locales
  fix u
  show "only conn_event (c_provisionFunc (awxConnController E) u)"
    by (simp add: awxConnController_def only_applyAWXConnection)
  show "c_cleanupFunc (awxConnController E) = Some f \<Longrightarrow> only conn_event (f u)" for f
    by (simp add: awxConnController_def)
  show "only is_clock (c_updateStatusFunc (awxConnController E) u ok err)" for ok err
    by (simp add: awxConnController_def clock_updateGenericStatus)
next
  show "conn_event e \<Longrightarrow> \<not> is_fin_patch e" for e by (cases e rule: is_fin_patch.cases) auto
qed

interpretation conn_policy: settled_policy "holdFinalizers (awxConnController E)"
    "releaseFinalizers (awxConnController E)" "needs_update (awxConnController E)"
    "own_finalizers (awxConnController E)" "set (c_staleFinalizers (awxConnController E))" for E
  by unfold_locales (simp add: awxConnController_def awxConnectionStaleFinalizer_def own_finalizers_def)

end
