(* ===== verification/Fleet.thy ===== *)
theory Fleet
  imports EncodeProofs StartupProofs RunCleanup VMCleanup BindingCleanup
begin

text \<open>
  The four controllers together: what holds of each of them because its kind's functions keep to what the engine and
  the work queue rely on. Two field managers write the status of every kind, and no field has two of them.
\<close>

section \<open>Workers\<close>

interpretation run_worker: worker E "ansibleRunController E" run_event for E
  by unfold_locales (auto elim!: settles_item.elims)

interpretation vm_worker: worker E "ansBindVMController E" vm_event for E
  by unfold_locales (auto elim!: settles_item.elims)

interpretation bind_worker: worker E "ansBindController E" bind_event for E
  by unfold_locales (auto elim!: settles_item.elims)

interpretation conn_worker: worker E "awxConnController E" conn_event for E
  by unfold_locales (auto elim!: settles_item.elims)

lemma all_controllers:
  assumes "P (awxConnController E)" "P (ansBindController E)" "P (ansBindVMController E)" "P (ansibleRunController E)"
  shows "list_all P (controllers E)"
  using assms by (simp add: controllers_def)

lemma workers_work_off: "list_all (\<lambda>c. worked_off E c ks w (events_of (runWorker E c ks) w)) (controllers E)"
  by (intro all_controllers run_worker.runWorker_works_off vm_worker.runWorker_works_off bind_worker.runWorker_works_off
      conn_worker.runWorker_works_off)

section \<open>Field managers\<close>

lemma structToMap_keys:
  "\<exists>m'. structToMap fl type_name (GMap m) = Inr m' \<and> map fst m' = map fst m"
  by (auto simp: structToMap_GMap comp_def split_beta)

lemma fields_None: "json_fields ((k, None) # fs) = json_fields fs"
  by (simp add: json_fields_def)

lemma generic_fields_stripped:
  "generic_fields (strip_generic s) = [(''state'', None), (''message'', None), (''ready'', None), (''lastUpdated'', None)]"
  by (simp add: generic_fields_def strip_generic_def leaf_defs)

lemma runStatusDetails_stripped: "strip_generic (runStatusDetails st) = runStatusDetails st"
  by (simp add: strip_generic_def runStatusDetails_def zero_run_status_def)

text \<open>An apply owns the engine's four fields, all of them, or none of them, according to the manager it is made for.\<close>

fun fields_apart :: "(string \<Rightarrow> string option) \<Rightarrow> event \<Rightarrow> bool" where
  "fields_apart fl (EApplyStatus g ns n p fm a) = (\<exists>m. status_map_of fl p = Inr m \<and>
     (if fm = StatusFieldManager then set (map fst m) = set engineStatusFields
      else set (map fst m) \<inter> set engineStatusFields = {}))"
| "fields_apart fl _ = True"

lemma child_map_apart:
  assumes "vmDetailsOf d = d"
  shows "\<exists>m. status_map_of fl (PChild d) = Inr m \<and> set (map fst m) \<inter> set engineStatusFields = {}"
proof -
  have g: "generic_fields d = [(''state'', None), (''message'', None), (''ready'', None), (''lastUpdated'', None)]"
    using assms generic_fields_stripped [of d] by (simp add: vmDetailsOf_def)
  have "\<exists>fs. enc_AnsibleBindingVMStatus d = GMap (json_fields fs) \<and> set (map fst fs) \<inter> set engineStatusFields = {}"
    unfolding enc_AnsibleBindingVMStatus_def g append_Cons append_Nil fields_None
    by (rule exI, rule conjI, rule refl) (simp add: engineStatusFields_def)
  then obtain fs where e: "enc_AnsibleBindingVMStatus d = GMap (json_fields fs)" "set (map fst fs) \<inter> set engineStatusFields = {}" by blast
  obtain m where "structToMap fl ''main.AnsibleBindingVMStatus'' (GMap (json_fields fs)) = Inr m" "map fst m = map fst (json_fields fs)"
    using structToMap_keys by blast
  moreover from this(2) e(2) fields_keys [of fs] have "set (map fst m) \<inter> set engineStatusFields = {}"
    by (simp only:) blast
  ultimately show ?thesis using e(1) by (simp del: set_map)
qed

lemma run_map_apart:
  assumes "runStatusDetails d = d"
  shows "\<exists>m. status_map_of fl (PRun d) = Inr m \<and> set (map fst m) \<inter> set engineStatusFields = {}"
proof -
  have g: "generic_fields d = [(''state'', None), (''message'', None), (''ready'', None), (''lastUpdated'', None)]"
    using generic_fields_stripped [of d] runStatusDetails_stripped [of d] assms by simp
  have "\<exists>fs. enc_AnsibleRunStatus d = GMap (json_fields fs) \<and> set (map fst fs) \<inter> set engineStatusFields = {}"
    unfolding enc_AnsibleRunStatus_def g append_Cons append_Nil fields_None
    by (rule exI, rule conjI, rule refl) (simp add: engineStatusFields_def)
  then obtain fs where e: "enc_AnsibleRunStatus d = GMap (json_fields fs)" "set (map fst fs) \<inter> set engineStatusFields = {}" by blast
  obtain m where "structToMap fl ''main.AnsibleRunStatus'' (GMap (json_fields fs)) = Inr m" "map fst m = map fst (json_fields fs)"
    using structToMap_keys by blast
  moreover from this(2) e(2) fields_keys [of fs] have "set (map fst m) \<inter> set engineStatusFields = {}"
    by (simp only:) blast
  ultimately show ?thesis using e(1) by (simp del: set_map)
qed

lemma binding_map_apart:
  "\<exists>m. status_map_of fl (PBinding s k tr t) = Inr m \<and> set (map fst m) \<inter> set engineStatusFields = {}"
proof -
  obtain m where "structToMap fl ''main.BindingSummary'' (enc_BindingSummary s) = Inr m"
    using structToMap_keys unfolding enc_BindingSummary_def by blast
  then show ?thesis by (simp add: ansibleBindingDetails_def Let_def engineStatusFields_def)
qed

lemmas managers = StatusFieldManager_def detailsFieldManager_def vmDetailsFieldManager_def runDetailsFieldManager_def
  connectionFieldManager_def

lemma loop_fields_apart: "loop_event g e \<Longrightarrow> fields_apart fl e"
  by (erule loop_event.elims) (auto simp: engineStatusFields_def)

lemma run_fields_apart: "run_event e \<Longrightarrow> fields_apart fl e"
  by (erule run_event.elims) (use run_map_apart in \<open>auto simp: managers simp del: status_map_of.simps\<close>)

lemma vm_fields_apart: "vm_event e \<Longrightarrow> fields_apart fl e"
  by (erule vm_event.elims) (use child_map_apart in \<open>auto simp: managers simp del: status_map_of.simps\<close>)

lemma bind_fields_apart: "bind_event e \<Longrightarrow> fields_apart fl e"
  by (erule bind_event.elims) (use binding_map_apart in \<open>auto simp: managers simp del: status_map_of.simps\<close>)

lemma conn_fields_apart: "conn_event e \<Longrightarrow> fields_apart fl e"
  by (erule conn_event.elims) (auto simp: managers engineStatusFields_def)

lemma controllers_apart:
  "list_all (\<lambda>c. only (fields_apart fl) (Reconcile E c u)) (controllers E)"
  by (intro all_controllers only_mono [OF run_loop.Reconcile_only] only_mono [OF vm_loop.Reconcile_only]
      only_mono [OF bind_loop.Reconcile_only] only_mono [OF conn_loop.Reconcile_only])
    (auto dest: loop_fields_apart run_fields_apart vm_fields_apart bind_fields_apart conn_fields_apart)

lemma controllers_apply_apart:
  "list_all (\<lambda>c. list_all (fields_apart fl) (events_of (Reconcile E c u) w)) (controllers E)"
  by (rule list.pred_mono_strong [OF controllers_apart]) (rule emitsD [OF emits_only])

section \<open>Maps that lose nothing\<close>

lemma child_maps_exact:
  assumes "int64_values (enc_AnsibleBindingVMStatus s)" "int64_values (enc_AnsibleBindingVMStatus t)"
  shows "status_map_of fl (PChild s) = status_map_of fl (PChild t) \<longleftrightarrow> s = t"
proof -
  obtain m n where e: "enc_AnsibleBindingVMStatus s = GMap m" "enc_AnsibleBindingVMStatus t = GMap n"
    by (simp add: enc_AnsibleBindingVMStatus_def)
  with assms have "int64_values (GMap m)" "int64_values (GMap n)" by simp_all
  then show ?thesis
    using inj_eq [OF inj_enc_AnsibleBindingVMStatus, of s t] by (simp add: e structToMap_exact)
qed

lemma run_maps_exact:
  assumes "int64_values (enc_AnsibleRunStatus s)" "int64_values (enc_AnsibleRunStatus t)"
  shows "status_map_of fl (PRun s) = status_map_of fl (PRun t) \<longleftrightarrow> s = t"
proof -
  obtain m n where e: "enc_AnsibleRunStatus s = GMap m" "enc_AnsibleRunStatus t = GMap n"
    by (simp add: enc_AnsibleRunStatus_def)
  with assms have "int64_values (GMap m)" "int64_values (GMap n)" by simp_all
  then show ?thesis
    using inj_eq [OF inj_enc_AnsibleRunStatus, of s t] by (simp add: e structToMap_exact)
qed

lemma binding_maps_exact:
  assumes "int64_values (enc_BindingSummary s)" "int64_values (enc_BindingSummary s')"
  shows "status_map_of fl (PBinding s k tr t) = status_map_of fl (PBinding s' k' tr' t') \<longleftrightarrow> s = s' \<and> k = k' \<and> tr = tr' \<and> t = t'"
proof -
  obtain m n where e: "enc_BindingSummary s = GMap m" "enc_BindingSummary s' = GMap n"
    by (simp add: enc_BindingSummary_def)
  with assms have "int64_values (GMap m)" "int64_values (GMap n)" by simp_all
  then show ?thesis
    using inj_eq [OF inj_enc_BindingSummary, of s s'] by (auto simp: e structToMap_exact ansibleBindingDetails_def Let_def)
qed

end
