(* ===== verification/Ownership.thy ===== *)
theory Ownership
  imports EncodeProofs RunProofs
begin

text \<open>
  Who owns a field of a status. The API server keeps, for every field, the managers that set it, an Update and an
  Apply of the same name being two; it is a parameter here, with what its documentation of server-side apply says. The
  claim of a launch is an Update and every other write of a run an Apply, so the attempt marker the claim puts down
  stays when a later write leaves it out: taking it off after a refused launch has no effect on the stored record.
\<close>

section \<open>The server\<close>

text \<open>\<open>sv_owners\<close> has the manager, whether it is an Apply, and the field; both writes are accepted ones, the Apply forced.\<close>

record 's status_server =
  sv_live :: "'s \<Rightarrow> govalue smap"
  sv_owners :: "'s \<Rightarrow> (string \<times> bool \<times> string) set"
  sv_update :: "'s \<Rightarrow> string \<Rightarrow> govalue smap \<Rightarrow> 's"
  sv_apply :: "'s \<Rightarrow> string \<Rightarrow> govalue smap \<Rightarrow> 's"

text \<open>An Update owns what it changes.\<close>

definition documented_update :: "'s status_server \<Rightarrow> bool" where
  "documented_update sv \<longleftrightarrow> (\<forall>s m d k v. smap_get d k = Some v \<and> smap_get (sv_live sv s) k \<noteq> Some v \<longrightarrow>
     smap_get (sv_live sv (sv_update sv s m d)) k = Some v \<and> (m, False, k) \<in> sv_owners sv (sv_update sv s m d))"

text \<open>An Apply that leaves out a field, or agrees with it, neither changes it nor takes it from its other owners.\<close>

definition documented_apply :: "'s status_server \<Rightarrow> bool" where
  "documented_apply sv \<longleftrightarrow> (\<forall>s m d k m' ap. (m', ap, k) \<in> sv_owners sv s \<and> (m', ap) \<noteq> (m, True) \<and>
     (smap_get d k = None \<or> smap_get d k = smap_get (sv_live sv s) k) \<longrightarrow>
     (m', ap, k) \<in> sv_owners sv (sv_apply sv s m d) \<and> smap_get (sv_live sv (sv_apply sv s m d)) k = smap_get (sv_live sv s) k)"

text \<open>The stored status after the calls of a pass that the server accepted.\<close>

fun server_step :: "(string \<Rightarrow> string option) \<Rightarrow> 's status_server \<Rightarrow> 's \<Rightarrow> event \<Rightarrow> 's" where
  "server_step fl sv s (EUpdateStatus g u fm (Inr rv)) =
     (case claim_status_map fl u of Inr d \<Rightarrow> sv_update sv s fm d | Inl err \<Rightarrow> s)"
| "server_step fl sv s (EApplyStatus g ns n p fm None) =
     (case status_map_of fl p of Inr d \<Rightarrow> sv_apply sv s fm d | Inl err \<Rightarrow> s)"
| "server_step fl sv s _ = s"

definition server_after :: "(string \<Rightarrow> string option) \<Rightarrow> 's status_server \<Rightarrow> 's \<Rightarrow> event list \<Rightarrow> 's" where
  "server_after fl sv = foldl (server_step fl sv)"

section \<open>The marker in the maps\<close>

definition marker where "marker = ''launchAttemptedAt''"

lemma run_map_marker:
  "\<exists>m. status_map_of fl (PRun d) = Inr m \<and> smap_get m marker = o_stamp (rt_LaunchAttemptedAt d)"
proof -
  have "\<exists>fs. enc_AnsibleRunStatus d = GMap (json_fields fs) \<and> distinct (map fst fs) \<and>
      map_of fs marker = Some (o_stamp (rt_LaunchAttemptedAt d))"
    unfolding enc_AnsibleRunStatus_def
    by (rule exI, rule conjI, rule refl) (simp add: generic_fields_def marker_def)
  then obtain fs where fs: "enc_AnsibleRunStatus d = GMap (json_fields fs)" "distinct (map fst fs)"
    "map_of fs marker = Some (o_stamp (rt_LaunchAttemptedAt d))" by blast
  then have "map_of (json_fields fs) marker = o_stamp (rt_LaunchAttemptedAt d)" by (simp add: map_of_fields)
  then have "map_option (\<lambda>v. normalizeJSONNumbers fl (use_number v)) (map_of (json_fields fs) marker) = o_stamp (rt_LaunchAttemptedAt d)"
    by (simp add: o_stamp_def)
  with fs(1) show ?thesis by (simp add: structToMap_GMap smap_get_def map_of_map)
qed

lemma claim_map_marker:
  assumes "u_content u = CRun sp (Some st)"
  shows "\<exists>m. claim_status_map fl u = Inr m \<and> smap_get m marker = o_stamp (rt_LaunchAttemptedAt st)"
proof -
  obtain m where m: "status_map_of fl (PRun st) = Inr m" "smap_get m marker = o_stamp (rt_LaunchAttemptedAt st)"
    using run_map_marker by blast
  have "map_of (foldr put_field (engine_values g) m) marker = map_of m marker" for g
    by (cases "gf_state g"; cases "gf_message g"; cases "gf_ready g"; cases "gf_lastUpdated g")
      (simp_all add: engine_values_def marker_def)
  with m assms show ?thesis by (simp add: claim_status_map_def smap_get_def)
qed

section \<open>A claim and what follows it\<close>

text \<open>After the claim: no Update, and every details write has the marker of the claim or none.\<close>

fun follows_claim :: "stamp \<Rightarrow> event \<Rightarrow> bool" where
  "follows_claim t (EUpdateStatus g u fm a) = False"
| "follows_claim t (EApplyStatus g ns n (PRun d) fm a) = (rt_LaunchAttemptedAt d = NoStamp \<or> rt_LaunchAttemptedAt d = t)"
| "follows_claim t (EApplyStatus g ns n p fm a) = False"
| "follows_claim t e = True"

definition claim_writes :: "run_out \<Rightarrow> event list \<Rightarrow> bool" where
  "claim_writes r es \<longleftrightarrow> (\<exists>now u sp st a post. es = ENow now # EUpdateStatus AnsRunGVR u runDetailsFieldManager a # post \<and>
     u_content u = CRun sp (Some st) \<and> rt_LaunchAttemptedAt st \<noteq> NoStamp \<and> list_all (follows_claim (rt_LaunchAttemptedAt st)) post)"


lemma follows_writeRunDetails:
  "rt_LaunchAttemptedAt st = NoStamp \<or> rt_LaunchAttemptedAt st = t \<Longrightarrow> only (follows_claim t) (writeRunDetails E u st)"
  by (auto intro!: only_intros)

lemma follows_record_launch:
  assumes "rt_LaunchAttemptedAt st = t"
  shows "emits (record_launch E u run st awx res) (\<lambda>r es. list_all (follows_claim t) es)"
proof -
  have j: "emits (with_launched_job E awx (fst res) st) (\<lambda>st' es. rt_LaunchAttemptedAt st' = t \<and> list_all (follows_claim t) es)"
    unfolding with_launched_job_def
    by (auto intro!: emits_if emits_return emits_bind [OF does_nowRFC3339] simp: assms)
  show ?thesis
    unfolding record_launch_def
  proof (rule emits_bind [OF j])
    fix st' :: AnsibleRunStatus and es
    assume st': "rt_LaunchAttemptedAt st' = t \<and> list_all (follows_claim t) es"
    then have "only (follows_claim t) (record_answer E u run st' res)"
      unfolding record_answer_def Let_def by (auto intro!: only_intros follows_writeRunDetails)
    then show "emits (record_answer E u run st' res) (\<lambda>r es'. list_all (follows_claim t) (es @ es'))"
      using st' by (auto intro: emits_conseq [OF emits_only])
  qed
qed

lemma follows_submit_launch: "only (follows_claim t) (submit_launch E awx p)"
  by (rule only_submit_launch) simp_all

lemma claim_and_launch_writes: "emits (claim_and_launch E u run st awx p) claim_writes"
proof -
  have "emits (claimLaunch E u st) (\<lambda>r es. \<exists>cl sp a. es = [EUpdateStatus AnsRunGVR cl runDetailsFieldManager a] \<and>
      u_content cl = CRun sp (Some (runStatusDetails st)))" for st
    unfolding claimLaunch_def
    by (rule emits_bind [OF does_UpdateStatus])
      (auto intro!: emits_return simp: set_run_status_def strip_generic_def runStatusDetails_def zero_run_status_def)
  note claim = this
  have rest: "emits (submit_launch E awx p \<bind> record_launch E u' run st awx) (\<lambda>_. list_all (follows_claim (rt_LaunchAttemptedAt st)))"
    for u' st
    by (rule emits_bind [OF emits_only [OF follows_submit_launch]], rule emits_conseq [OF follows_record_launch [OF refl]]) simp
  show ?thesis
    unfolding claim_and_launch_def Let_def
  proof (rule emits_bind [OF does_nowRFC3339], elim exE conjE)
    fix t es now assume h: "es = [ENow now]" "t = format_time now"
    let ?st = "st\<lparr>rt_LaunchAttemptedAt := t\<rparr>"
    show "emits (claimLaunch E u ?st \<bind> (\<lambda>cl. case cl of
          Inl err \<Rightarrow> ret ((u, ?st), Some (errorw f_recording [] err))
        | Inr u' \<Rightarrow> submit_launch E awx p \<bind> record_launch E u' run ?st awx)) (\<lambda>r es'. claim_writes r (es @ es'))"
    proof (rule emits_bind [OF claim], elim exE conjE)
      fix cl es' x sp a
      assume c: "es' = [EUpdateStatus AnsRunGVR x runDetailsFieldManager a]" "u_content x = CRun sp (Some (runStatusDetails ?st))"
      have w: "claim_writes r (es @ es' @ post)" if "list_all (follows_claim t) post" for r post
        using that h c by (auto simp: claim_writes_def)
      show "emits (case cl of Inl err \<Rightarrow> ret ((u, ?st), Some (errorw f_recording [] err))
          | Inr u' \<Rightarrow> submit_launch E awx p \<bind> record_launch E u' run ?st awx) (\<lambda>r es''. claim_writes r (es @ es' @ es''))"
        by (intro emits_sum emits_return emits_conseq [OF rest]) (use w [of "[]"] w in simp_all)
    qed
  qed
qed

section \<open>The marker stays\<close>

lemma marker_kept:
  assumes sv: "documented_apply sv" and t: "t \<noteq> NoStamp"
    and own: "(runDetailsFieldManager, False, marker) \<in> sv_owners sv s" "smap_get (sv_live sv s) marker = Some (GStamp t)"
    and es: "list_all (follows_claim t) es"
  shows "smap_get (sv_live sv (server_after fl sv s es)) marker = Some (GStamp t)"
  using own es
proof (induction es arbitrary: s)
  case (Cons e es)
  have "(runDetailsFieldManager, False, marker) \<in> sv_owners sv (server_step fl sv s e) \<and>
      smap_get (sv_live sv (server_step fl sv s e)) marker = Some (GStamp t)"
  proof (cases "(fl, sv, s, e)" rule: server_step.cases)
    case (2 fl' sv' s' g ns n p fm)
    then obtain d where d: "p = PRun d" "rt_LaunchAttemptedAt d = NoStamp \<or> rt_LaunchAttemptedAt d = t"
      using Cons.prems(3) by (cases p) auto
    obtain m where m: "status_map_of fl p = Inr m" "smap_get m marker = o_stamp (rt_LaunchAttemptedAt d)"
      using run_map_marker d(1) by blast
    with d(2) Cons.prems(2) t have "smap_get m marker = None \<or> smap_get m marker = smap_get (sv_live sv s) marker"
      by (auto simp: o_stamp_def)
    with sv Cons.prems(1) have "(runDetailsFieldManager, False, marker) \<in> sv_owners sv (sv_apply sv s fm m) \<and>
        smap_get (sv_live sv (sv_apply sv s fm m)) marker = smap_get (sv_live sv s) marker"
      unfolding documented_apply_def by blast
    with 2 m(1) Cons.prems(2) show ?thesis by (simp del: status_map_of.simps)
  qed (use Cons.prems in auto)
  with Cons show ?case by (simp add: server_after_def)
qed (simp add: server_after_def)

text \<open>Once a claim was accepted the stored record carries its marker to the end of the pass, whatever AWX answered.\<close>

lemma claim_marker_stays:
  assumes sv: "documented_update sv" "documented_apply sv" and w: "claim_writes r es"
    and none: "smap_get (sv_live sv s) marker = None"
    and accepted: "EUpdateStatus AnsRunGVR u fm (Inr rv) \<in> set es"
  shows "\<exists>t. smap_get (sv_live sv (server_after fl sv s es)) marker = Some (GStamp t)"
proof -
  from w obtain now cl sp st a post where es: "es = ENow now # EUpdateStatus AnsRunGVR cl runDetailsFieldManager a # post"
    "u_content cl = CRun sp (Some st)" "rt_LaunchAttemptedAt st \<noteq> NoStamp" "list_all (follows_claim (rt_LaunchAttemptedAt st)) post"
    unfolding claim_writes_def by blast
  from accepted es(1,4) have a: "a = Inr rv" by (auto simp: list_all_iff)
  obtain m where m: "claim_status_map fl cl = Inr m" "smap_get m marker = Some (GStamp (rt_LaunchAttemptedAt st))"
    using claim_map_marker [OF es(2), of fl] es(3) by (auto simp: o_stamp_def)
  let ?s = "sv_update sv s runDetailsFieldManager m"
  have "smap_get (sv_live sv ?s) marker = Some (GStamp (rt_LaunchAttemptedAt st)) \<and>
      (runDetailsFieldManager, False, marker) \<in> sv_owners sv ?s"
    using sv(1) m(2) none unfolding documented_update_def by simp
  with marker_kept [OF sv(2) es(3) _ _ es(4), of ?s fl]
  have "smap_get (sv_live sv (server_after fl sv ?s post)) marker = Some (GStamp (rt_LaunchAttemptedAt st))" by blast
  moreover have "server_after fl sv s es = server_after fl sv ?s post"
    using es(1) a m(1) by (simp add: server_after_def)
  ultimately show ?thesis by auto
qed

end
