(* ===== verification/Demo.thy ===== *)
theory Demo
  imports RunHistory RunCleanup RunScope
begin

text \<open>
  A concrete environment the witnesses are evaluated in: one AWX with one template, an API server that
  knows one connection, its secret and one run, and answers every write with success. The clock
  advances by a second per event.
\<close>

definition demo_meta :: "string \<Rightarrow> ObjectMeta" where
  "demo_meta name = \<lparr>md_Namespace = ''ns'', md_Name = name, md_UID = ''uid'', md_ResourceVersion = ''1'', md_Generation = 1,
     md_DeletionTimestamp = None, md_CreationTimestamp = None, md_Labels = [], md_Annotations = [], md_Finalizers = [],
     md_OwnerReferences = []\<rparr>"

definition demo_object :: "string \<Rightarrow> content \<Rightarrow> unstr" where
  "demo_object name x = \<lparr>u_apiVersion = ''v1'', u_kind = ''k'', u_meta = demo_meta name, u_generic = gf_none, u_content = x\<rparr>"

definition demo_conn :: unstr where
  "demo_conn = demo_object ''awx'' (CConn (Some \<lparr>cs_URL = ''https://awx'', cs_SecretRef = ''s'', cs_InsecureSkipVerify = False,
     cs_CABundleSecretRef = None, cs_APIBasePath = ''/api/v2/'', cs_HostNamePrefix = []\<rparr>) None)"

definition demo_spec :: AnsibleRunSpec where
  "demo_spec = \<lparr>rs_AWXConnectionRef = ''awx'', rs_Template = \<lparr>tr_Name = ''site'', tr_Type = TemplateTypeJob\<rparr>,
     rs_VMRef = None, rs_HostName = [], rs_HostVariables = [],
     rs_Hosts = [], rs_ExtraVars = [], rs_VarsFrom = [], rs_CleanupPolicy = [], rs_ActiveDeadlineSeconds = 0, rs_TTLSecondsAfterFinished = None\<rparr>"

definition demo_run :: "AnsibleRunStatus option \<Rightarrow> unstr" where
  "demo_run st = demo_object ''run'' (CRun (Some demo_spec) st)"

definition demo_template :: templateResult where
  "demo_template = \<lparr>tq_ID = 7, tq_Name = ''site'', tq_Inventory = Some 3, tq_AskLimitOnLaunch = True,
     tq_AskVariablesOnLaunch = True\<rparr>"

definition demo_reply :: "http_body \<Rightarrow> string + http_resp" where
  "demo_reply b = Inr \<lparr>rs_StatusCode = 200, rs_Text = [], rs_Body = b\<rparr>"

fun demo_http :: "trace \<Rightarrow> AWXClient \<Rightarrow> awx_req \<Rightarrow> string + http_resp" where
  "demo_http t c (RqTemplates iw n) = demo_reply (BTemplates [demo_template])"
| "demo_http t c (RqHostsByName i n) = demo_reply (BHosts [] [])"
| "demo_http t c (RqCreateHost i n d v) =
     demo_reply (BHost \<lparr>hr_ID = 40, hr_Name = n, hr_Variables = v, hr_Description = d\<rparr>)"
| "demo_http t c (RqLaunch iw i b) =
     demo_reply (BLaunch \<lparr>lr_ID = 99, lr_Job = 99, lr_WorkflowJob = 0, lr_IgnoredFields = []\<rparr>)"
| "demo_http t c (RqJob iw i) = demo_reply (BJobStatus st_successful)"
| "demo_http t c r = demo_reply EmptyBody"

definition demo_env :: "unstr \<Rightarrow> env" where
  "demo_env u = \<lparr>e_now = (\<lambda>t. 1000000000 * (1700000000 + int (length t))), e_rand = (\<lambda>t n. 0), e_http = demo_http,
     e_get = (\<lambda>t g ns n. case g of
        SecretGVR \<Rightarrow> Inr (demo_object ''s'' (CSecret [(''token'', ''dA=='')]))
      | AWXConnGVR \<Rightarrow> Inr demo_conn
      | AnsRunGVR \<Rightarrow> Inr u
      | _ \<Rightarrow> Inl (NotFoundR, [])),
     e_list = (\<lambda>t g ns s. Inr []), e_create = (\<lambda>t g u. None), e_applyStatus = (\<lambda>t g ns n p fm. None),
     e_updateStatus = (\<lambda>t g u fm. Inr ''2''), e_patchFinalizers = (\<lambda>t g ns n fs rv. None),
     e_patchSpec = (\<lambda>t g ns n uid rv sp. None), e_delete = (\<lambda>t g ns n uid. None),
     e_restMapping = (\<lambda>t a b d. Inl (True, [])), e_splitKey = (\<lambda>k. None), e_parseGroupVersion = (\<lambda>s. Inl []),
     e_jsonPathParse = (\<lambda>s. None), e_jsonPathFind = (\<lambda>u s. Inl []), e_store = (\<lambda>t g k. None),
     e_childIndex = (\<lambda>t k. None), e_numRequeues = (\<lambda>t g k. 0), e_order = (\<lambda>t n. [0..<n]), e_sha256 = (\<lambda>s. s), e_certsOK = (\<lambda>s. True),
     e_floatText = (\<lambda>s. s), e_supervisorID = ''sup'', e_hostCheckPeriod = 0, e_varsFromResources = []\<rparr>"

definition demo_client :: AWXClient where
  "demo_client = \<lparr>cl_baseURL = ''https://awx'', cl_basePath = ''/api/v2'', cl_token = ''t'',
     cl_tls = no_tls\<rparr>"

definition demo_world :: world where
  "demo_world = \<lparr>w_trace = [], w_clients = [(''ns/awx/1'', \<lparr>cce_client = demo_client, cce_basePath = ''/api/v2'',
     cce_expires = 2000000000000000000\<rparr>)], w_templates = []\<rparr>"

definition demo_events :: "event list" where
  "demo_events = events_of (applyAnsibleRun (demo_env (demo_run None)) (demo_run None)) demo_world"

text \<open>The record that pass leaves.\<close>

definition demo_after :: AnsibleRunStatus where
  "demo_after = zero_run_status\<lparr>rt_JobID := 99, rt_JobURL := ''https://awx/#/jobs/playbook/99/output'',
     rt_JobStatus := st_pending, rt_StartedAt := Stamp 1700000008000000000,
     rt_LaunchAttemptedAt := Stamp 1700000005000000000, rt_AWXEndpoint := ''https://awx|/api''\<rparr>"

lemma demo_accepted: "accepted demo_events = 1"
  by code_simp

lemma demo_reads: "reads zero_run_status demo_events"
  by code_simp

lemma demo_evolves: "evolves zero_run_status demo_events demo_after"
  by code_simp

text \<open>A history with one accepted launch.\<close>

lemma demo_history: "history (demo_env (demo_run None)) demo_after 1"
proof -
  have "demo_events = take (length demo_events)
      (events_of (applyAnsibleRun (demo_env (demo_run None)) (demo_run None)) demo_world)"
    by (simp add: demo_events_def)
  from history.reconciled [OF history.start this demo_reads demo_evolves] show ?thesis
    by (simp add: demo_accepted)
qed

end
