(* ===== verification/JsonProofs.thy ===== *)
theory JsonProofs
  imports HostProofs
begin

text \<open>
  The variables of a host survive the trip to AWX: what \<open>json_marshal\<close> writes of a map of strings is read
  back by \<open>json_unmarshal\<close> as the same map, so a host that has the variables asked for is not patched again.
\<close>

section \<open>Strings\<close>

text \<open>What the parser does with one escape.\<close>

definition escape_ok :: "char \<Rightarrow> bool" where
  "escape_ok c \<longleftrightarrow> (case escape_char c of
     [a] \<Rightarrow> a = c \<and> c \<noteq> c_quote \<and> c \<noteq> c_backslash \<and> \<not> c < CHR '' ''
   | [a, b] \<Rightarrow> a = c_backslash \<and> b \<noteq> CHR ''u'' \<and> simple_escape b = Some c
   | [a, b, w, x, y, z] \<Rightarrow> a = c_backslash \<and> b = CHR ''u'' \<and>
       hex4 [w, x, y, z] = Some (of_char c, []) \<and> of_char c < (128 :: nat)
   | _ \<Rightarrow> False)"

lemma hex_val_digit: "n < 16 \<Longrightarrow> hex_val (hex_digit n) = Some n"
  by (auto simp: hex_val_def hex_digit_def between_def)

lemma hex_val_literals: "hex_val (CHR ''0'') = Some 0" "hex_val (CHR ''2'') = Some 2"
  by (simp_all add: hex_val_def between_def)

lemma hex4_u_escape: "hex4 [CHR ''0'', CHR ''0'', hex_digit (of_char c div 16), hex_digit (of_char c mod 16)] = Some (of_char c, [])"
proof -
  have "of_char c div 16 < (16 :: nat)" by (simp add: less_mult_imp_div_less)
  then show ?thesis by (simp add: hex_val_digit hex_val_literals)
qed

lemma escaped_ascii: "c < CHR '' '' \<or> c = CHR ''<'' \<or> c = CHR ''>'' \<or> c = CHR ''&'' \<Longrightarrow> of_char c < (128 :: nat)"
  by (auto simp: less_char_def)

lemma simple_escapes: "simple_escape c_quote = Some c_quote" "simple_escape c_backslash = Some c_backslash"
  "simple_escape (CHR ''b'') = Some (CHR 0x08)" "simple_escape (CHR ''f'') = Some (CHR 0x0C)"
  "simple_escape (CHR ''n'') = Some (CHR 0x0A)" "simple_escape (CHR ''r'') = Some (CHR 0x0D)"
  "simple_escape (CHR ''t'') = Some (CHR 0x09)"
  by (simp_all add: simple_escape_def)

lemma escape_ok: "escape_ok c"
  using escaped_ascii [of c]
  by (auto simp: escape_ok_def escape_char_def u_escape_def simple_escapes hex4_u_escape simp del: hex4.simps)

lemma hex4_append: "hex4 [w, x, y, z] = Some (n, []) \<Longrightarrow> hex4 (w # x # y # z # r) = Some (n, r)"
  by (auto split: option.splits)

lemma parse_escape_char:
  assumes "length (escape_char c) < n"
  shows "\<exists>m. n \<le> m + length (escape_char c) \<and> m < n \<and>
    parse_chars n (escape_char c @ s) = map_option (apfst ((#) c)) (parse_chars m s)"
proof -
  obtain k where n: "n = Suc k" using assms by (cases n) auto
  from escape_ok [of c] consider
      (one) "escape_char c = [c]" "c \<noteq> c_quote" "c \<noteq> c_backslash" "\<not> c < CHR '' ''"
    | (two) b where "escape_char c = [c_backslash, b]" "b \<noteq> CHR ''u''" "simple_escape b = Some c"
    | (six) w x y z where "escape_char c = [c_backslash, CHR ''u'', w, x, y, z]" "hex4 [w, x, y, z] = Some (of_char c, [])"
        "of_char c < (128 :: nat)"
    unfolding escape_ok_def by (auto split: list.splits)
  then show ?thesis
  proof cases
    case one
    then show ?thesis by (intro exI [of _ k]) (simp add: n)
  next
    case two
    then show ?thesis by (intro exI [of _ k]) (simp add: n)
  next
    case (six w x y z)
    from hex4_append [OF six(2), of s] six(3) have "unicode_escape (w # x # y # z # s) = Some ([c], s)"
      by (simp add: unicode_escape_def utf8_def byte_def)
    moreover have "map_option (apfst ((@) [c])) v = map_option (apfst ((#) c)) v" for v :: "(string \<times> string) option"
      by (cases v) (auto simp: apfst_def map_prod_def)
    ultimately show ?thesis using six(1) by (intro exI [of _ k]) (simp add: n)
  qed
qed

lemma line_sep:
  "hex4 [CHR ''2'', CHR ''0'', CHR ''2'', hex_digit (of_char (CHR 0xA8) mod 16)] = Some (8232, [])"
  "hex4 [CHR ''2'', CHR ''0'', CHR ''2'', hex_digit (of_char (CHR 0xA9) mod 16)] = Some (8233, [])"
  "utf8 8232 = [CHR 0xE2, CHR 0x80, CHR 0xA8]" "utf8 8233 = [CHR 0xE2, CHR 0x80, CHR 0xA9]"
  by (simp_all add: hex_val_literals hex_val_digit utf8_def byte_def char_of_eq_iff)

lemma parse_line_sep:
  assumes "c = CHR 0xA8 \<or> c = CHR 0xA9"
  shows "unicode_escape (CHR ''2'' # CHR ''0'' # CHR ''2'' # hex_digit (of_char c mod 16) # s) = Some ([CHR 0xE2, CHR 0x80, c], s)"
  using assms
proof
  assume "c = CHR 0xA8"
  with hex4_append [OF line_sep(1), of s] show ?thesis by (simp add: unicode_escape_def line_sep(3) del: hex4.simps)
next
  assume "c = CHR 0xA9"
  with hex4_append [OF line_sep(2), of s] show ?thesis by (simp add: unicode_escape_def line_sep(4) del: hex4.simps)
qed

lemma parse_escape: "length (escape s) < n \<Longrightarrow> parse_chars n (escape s @ c_quote # r) = Some (s, r)"
proof (induction s arbitrary: n rule: escape.induct [case_names more single pair none])
  case (more a b c s)
  show ?case
  proof (cases "a = CHR 0xE2 \<and> b = CHR 0x80 \<and> (c = CHR 0xA8 \<or> c = CHR 0xA9)")
    case True
    then obtain k where n: "n = Suc k" "length (escape s) < k" using more(3) by (cases n) auto
    have "parse_chars k (escape s @ c_quote # r) = Some (s, r)" using True n(2) by (intro more(1)) auto
    with True n parse_line_sep [of c "escape s @ c_quote # r"] show ?thesis by simp
  next
    case False
    have e: "escape (a # b # c # s) = escape_char a @ escape (b # c # s)" by (simp only: escape.simps if_not_P [OF False])
    with more(3) have l: "length (escape_char a) < n" by simp
    from parse_escape_char [OF l, of "escape (b # c # s) @ c_quote # r"] obtain m where
      "n \<le> m + length (escape_char a)"
      "parse_chars n (escape_char a @ escape (b # c # s) @ c_quote # r) = map_option (apfst ((#) a)) (parse_chars m (escape (b # c # s) @ c_quote # r))"
      by blast
    moreover have "length (escape (b # c # s)) < m" using more(3) e \<open>n \<le> m + length (escape_char a)\<close> by simp
    ultimately show ?thesis using more(2) [OF False, of m] e by simp
  qed
next
  case (single a)
  then obtain m where "n \<le> m + length (escape_char a)"
    "parse_chars n (escape_char a @ c_quote # r) = map_option (apfst ((#) a)) (parse_chars m (c_quote # r))"
    using parse_escape_char [of a n "c_quote # r"] by auto
  then show ?case using single by (cases m) auto
next
  case (pair a b)
  then have l: "length (escape_char a) < n" by simp
  from parse_escape_char [OF l, of "escape [b] @ c_quote # r"] obtain m where
    "n \<le> m + length (escape_char a)"
    "parse_chars n (escape_char a @ escape [b] @ c_quote # r) = map_option (apfst ((#) a)) (parse_chars m (escape [b] @ c_quote # r))" by blast
  with pair show ?case by simp
next
  case none
  then show ?case by (cases n) auto
qed

section \<open>Maps of strings\<close>

lemma skip_ws_quote [simp]: "skip_ws (c_quote # s) = c_quote # s"
  by (simp add: skip_ws_def json_ws_def)

lemma parse_json_string: "parse_chars (Suc (length (escape s) + length (c_quote # r))) (escape s @ c_quote # r) = Some (s, r)"
  by (rule parse_escape) simp

lemma parse_string_value: "parse_value (Suc n) (json_string s @ r) = Some (JStr s, r)"
  using parse_json_string [of s r] by (simp add: json_string_def apfst_def map_prod_def)

lemma json_members_str: "json_members fl (str_map ms) = map (\<lambda>(k, v). json_string k @ CHR '':'' # json_string v) ms"
  by (induction ms) (auto simp: str_map_def)

lemma parse_members_str:
  "ms \<noteq> [] \<Longrightarrow> length ms < n \<Longrightarrow>
   parse_members n (join '','' (map (\<lambda>(k, v). json_string k @ CHR '':'' # json_string v) ms) @ CHR ''}'' # r) = Some (str_map ms, r)"
proof (induction ms arbitrary: n)
  case (Cons p ms)
  obtain k v where p: "p = (k, v)" by fastforce
  from Cons.prems obtain m where n: "n = Suc (Suc m)" by (cases n; cases "n - 1") auto
  let ?tail = "\<lambda>xs. json_string k @ CHR '':'' # json_string v @ xs"
  have ws: "skip_ws (CHR '':'' # s) = CHR '':'' # s" "skip_ws (CHR ''}'' # s) = CHR ''}'' # s" "skip_ws (CHR '','' # s) = CHR '','' # s" for s
    by (simp_all add: skip_ws_def json_ws_def)
  have key: "parse_chars (Suc (length (escape k @ c_quote # CHR '':'' # json_string v @ xs))) (escape k @ c_quote # CHR '':'' # json_string v @ xs) =
      Some (k, CHR '':'' # json_string v @ xs)" for xs
    by (rule parse_escape) simp
  have head: "?tail xs = c_quote # escape k @ c_quote # CHR '':'' # json_string v @ xs" for xs
    by (simp add: json_string_def)
  show ?case
  proof (cases ms)
    case Nil
    have "parse_members n (?tail (CHR ''}'' # r)) = Some ([(k, JStr v)], r)"
      unfolding n head parse_members.simps skip_ws_quote using key [of "CHR ''}'' # r"]
      by (simp add: ws parse_string_value del: parse_value.simps length_append parse_chars.simps)
    with Nil p show ?thesis by (simp add: str_map_def)
  next
    case (Cons q qs)
    let ?rest = "join '','' (map (\<lambda>(k, v). json_string k @ CHR '':'' # json_string v) ms) @ CHR ''}'' # r"
    have ih: "parse_members (Suc m) ?rest = Some (str_map ms, r)"
      by (rule Cons.IH) (use Cons Cons.prems n in simp_all)
    have "parse_members n (?tail (CHR '','' # ?rest)) = Some ((k, JStr v) # str_map ms, r)"
      unfolding n head parse_members.simps(2) [of "Suc m"] skip_ws_quote using key [of "CHR '','' # ?rest"]
      by (simp add: ws parse_string_value ih del: parse_value.simps parse_members.simps length_append parse_chars.simps)
    with Cons p show ?thesis by (simp add: str_map_def)
  qed
qed simp

lemma smap_put_end: "\<forall>x \<in> set m. fst x < k \<Longrightarrow> smap_put k v m = m @ [(k, v)]"
  by (induction k v m rule: smap_put.induct) auto

lemma members_map_ok: "smap_ok ms \<Longrightarrow> members_map ms = ms"
proof -
  have "foldl (\<lambda>m (k, v). smap_put k v m) acc ms = acc @ ms" if "smap_ok ms" "\<forall>x \<in> set acc. \<forall>y \<in> set ms. fst x < fst y" for acc
    using that
  proof (induction ms arbitrary: acc)
    case (Cons p ms)
    then have "smap_put (fst p) (snd p) acc = acc @ [p]" by (simp add: smap_put_end)
    moreover have "foldl (\<lambda>m (k, v). smap_put k v m) (acc @ [p]) ms = (acc @ [p]) @ ms"
      by (rule Cons.IH) (use Cons.prems in auto)
    ultimately show ?case by (cases p) simp
  qed simp
  then show "smap_ok ms \<Longrightarrow> members_map ms = ms" by (simp add: members_map_def)
qed

lemma str_map_keys [simp]: "map fst (str_map m) = map fst m"
  by (simp add: str_map_def)

lemma join_size: "length ms \<le> length (join '','' (map (\<lambda>(k, v). json_string k @ CHR '':'' # json_string v) ms))"
proof (induction ms)
  case (Cons p ms)
  then show ?case by (cases ms) (auto simp: json_string_def split_beta)
qed simp

text \<open>A map of strings, written and read back.\<close>

lemma json_roundtrip:
  assumes "smap_ok m"
  shows "json_unmarshal (json_marshal fl (str_map m)) = Some (Some (str_map m))"
proof (cases m)
  case Nil
  then show ?thesis by (simp add: json_unmarshal_def json_marshal_def str_map_def skip_ws_def json_ws_def)
next
  case (Cons p ps)
  let ?b = "join '','' (map (\<lambda>(k, v). json_string k @ CHR '':'' # json_string v) m)"
  have t: "json_marshal fl (str_map m) = CHR ''{'' # ?b @ ''}''"
    by (simp add: json_marshal_def json_members_str)
  have q: "\<exists>s. ?b @ x = c_quote # s" for x using Cons by (cases ps) (auto simp: json_string_def split_beta)
  obtain s where s: "?b @ ''}'' = c_quote # s" using q by blast
  have "parse_members (Suc (length (?b @ ''}''))) (?b @ ''}'') = Some (str_map m, [])"
    by (rule parse_members_str) (use Cons join_size [of m] in simp_all)
  then have "parse_value (Suc (length (json_marshal fl (str_map m)))) (json_marshal fl (str_map m)) = Some (JObj (str_map m), [])"
    unfolding t s using assms
    by (simp add: skip_ws_def json_ws_def members_map_ok apfst_def map_prod_def del: parse_members.simps)
  then show ?thesis by (simp add: json_unmarshal_def skip_ws_def)
qed

lemma trim_marshal [simp]: "trim_space (json_marshal fl (str_map m)) = json_marshal fl (str_map m)"
  by (simp add: json_marshal_def trim_space_def trim_right_by_def is_space_def)

lemma smap_put_same: "(k, v) \<in> set m \<Longrightarrow> smap_ok m \<Longrightarrow> smap_put k v m = m"
  by (induction k v m rule: smap_put.induct) (auto simp: not_less_iff_gr_or_eq)

lemma smap_merge_same: "set src \<subseteq> set dst \<Longrightarrow> smap_ok dst \<Longrightarrow> smap_merge dst src = dst"
  by (induction dst src rule: smap_merge.induct) (auto simp: smap_put_same)

lemma trim_space_idem: "trim_space (trim_space s) = trim_space s"
proof -
  have "dropWhile p (trim_right_by p (dropWhile p s)) = trim_right_by p (dropWhile p s)" for p :: "char \<Rightarrow> bool" and s
  proof (cases "dropWhile p s")
    case (Cons c cs)
    then have c: "\<not> p c" by (metis hd_dropWhile list.sel(1) list.distinct(1))
    have "\<exists>ds. trim_right_by p (c # cs) = c # ds"
      using c by (induction cs rule: rev_induct) (auto simp: trim_right_by_def, metis rev_rev_ident)
    with Cons c show ?thesis by auto
  next
    case Nil
    then show ?thesis unfolding Nil by (simp add: trim_right_by_def)
  qed
  then show ?thesis by (simp add: trim_space_def)
qed

text \<open>
  Merging into variables written before, and reading the result back: the old ones, overridden by the new.
\<close>

lemma str_map_put: "str_map (smap_put k v m) = smap_put k (JStr v) (str_map m)"
  unfolding str_map_def by (induction k v m rule: smap_put.induct) auto

lemma str_map_merge: "str_map (smap_merge a b) = smap_merge (str_map a) (str_map b)"
  by (induction a b rule: smap_merge.induct) (simp_all add: str_map_put, simp_all add: str_map_def)

lemma smap_merge_empty: "smap_ok m \<Longrightarrow> smap_merge [] m = m"
proof -
  have "smap_merge dst src = dst @ src" if "smap_ok (dst @ src)" for dst src :: "'a smap"
    using that
  proof (induction dst src rule: smap_merge.induct)
    case (2 dst k v src)
    have "smap_put k v dst = dst @ [(k, v)]"
      using 2(2) by (induction k v dst rule: smap_put.induct) (auto simp: sorted_wrt_append)
    with 2 show ?case by simp
  qed simp
  from this [of "[]" m] show "smap_ok m \<Longrightarrow> smap_merge [] m = m" by simp
qed

lemma merge_roundtrip:
  assumes "smap_ok old" "smap_ok vars"
  shows "\<exists>t. mergeHostVariables E (json_marshal (e_floatText E) (str_map old)) vars = Inr t \<and>
    json_unmarshal t = Some (Some (str_map (smap_merge old vars)))"
proof (cases "old = []")
  case True
  then have "json_marshal (e_floatText E) (str_map old) = ''{}''" by (simp add: json_marshal_def str_map_def)
  moreover have "trim_space ''{}'' = ''{}''" by (simp add: trim_space_def trim_right_by_def is_space_def)
  ultimately show ?thesis using True json_roundtrip [OF assms(2)] smap_merge_empty [OF assms(2)]
    by (simp add: mergeHostVariables_def)
next
  case False
  let ?t = "json_marshal (e_floatText E) (str_map old)"
  have "?t \<noteq> []" "?t \<noteq> ''---''" by (simp_all add: json_marshal_def)
  moreover have "?t \<noteq> ''{}''"
    using json_roundtrip [OF assms(1), of "e_floatText E"] json_roundtrip [of "[]" "e_floatText E"] False
    by (auto simp: json_marshal_def str_map_def)
  ultimately show ?thesis
    using json_roundtrip [OF assms(1), of "e_floatText E"] json_roundtrip [OF smap_merge_ok [OF assms(1)], of "e_floatText E" vars]
    by (simp add: mergeHostVariables_def Let_def str_map_merge)
qed

text \<open>Merging variables into ones that have them already changes nothing, whatever else is there.\<close>

lemma merge_settled:
  assumes "smap_ok old" "smap_ok vars" "smap_merge old vars = old" "trim_space t = json_marshal (e_floatText E) (str_map old)"
  shows "mergeHostVariables E t vars = Inr (trim_space t)"
proof -
  have "mergeHostVariables E t vars = mergeHostVariables E (trim_space t) vars"
    by (simp add: mergeHostVariables_def trim_space_idem)
  moreover have "mergeHostVariables E (trim_space t) vars = Inr (trim_space t)"
  proof (cases "old = []")
    case True
    with assms(2,3) have "vars = []" using smap_merge_empty by metis
    moreover have "trim_space t = ''{}''" using assms(4) True by (simp add: json_marshal_def str_map_def)
    moreover have "trim_space ''{}'' = ''{}''" by (simp add: trim_space_def trim_right_by_def is_space_def)
    ultimately show ?thesis by (simp add: mergeHostVariables_def json_marshal_def str_map_def)
  next
    case False
    let ?t = "json_marshal (e_floatText E) (str_map old)"
    have "?t \<noteq> []" "?t \<noteq> ''---''" by (simp_all add: json_marshal_def)
    moreover have "?t \<noteq> ''{}''"
      using json_roundtrip [OF assms(1), of "e_floatText E"] json_roundtrip [of "[]" "e_floatText E"] False
      by (auto simp: json_marshal_def str_map_def)
    moreover have "trim_space ?t = ?t" using trim_space_idem [of t] assms(4) by simp
    ultimately show ?thesis
      using json_roundtrip [OF assms(1), of "e_floatText E"] assms(3)
      by (simp add: assms(4) mergeHostVariables_def Let_def str_map_merge [symmetric])
  qed
  ultimately show ?thesis by simp
qed

text \<open>
  A lookup that answers with a host of this owner's which has the variables asked for already, and maybe others.
\<close>

definition host_as_asked :: "env \<Rightarrow> string \<Rightarrow> string \<Rightarrow> string smap \<Rightarrow> hostResult \<Rightarrow> http_resp \<Rightarrow> bool" where
  "host_as_asked E name mk vars h resp \<longleftrightarrow> ok_code (rs_StatusCode resp) \<and>
     findHostByName (hosts_of (rs_Body resp)) name = Some h \<and> trim_space (hr_Description h) = mk \<and>
     (\<exists>old. smap_ok old \<and> smap_merge old vars = old \<and>
        trim_space (hr_Variables h) = json_marshal (e_floatText E) (str_map old))"

lemma run_FindHost:
  assumes "e_http E (w_trace w) c (RqHostsByName n name) = Inr resp" "ok_code (rs_StatusCode resp)"
    and "findHostByName (hosts_of (rs_Body resp)) name = Some h"
  shows "run_state (FindHost E c n name) w =
    (Inr (Some h), w\<lparr>w_trace := w_trace w @ [EHttp c (RqHostsByName n name) (Inr resp)]\<rparr>)"
  using assms by (cases "rs_Body resp")
    (simp_all add: FindHost_def awx_do_def http_Do_def ask_def run_state_bind State_Monad.return_def Let_def)

lemma UpsertHost_settled:
  assumes "smap_ok vars" "e_http E (w_trace w) c (RqHostsByName n name) = Inr resp" "host_as_asked E name mk vars h resp"
  shows "result_of (UpsertHost E c n name mk vars) w = Inr (hr_ID h, True) \<and>
    events_of (UpsertHost E c n name mk vars) w = [EHttp c (RqHostsByName n name) (Inr resp)]"
proof -
  from assms(3) obtain old where o: "smap_ok old" "smap_merge old vars = old"
    "trim_space (hr_Variables h) = json_marshal (e_floatText E) (str_map old)"
    and h: "ok_code (rs_StatusCode resp)" "findHostByName (hosts_of (rs_Body resp)) name = Some h" "trim_space (hr_Description h) = mk"
    unfolding host_as_asked_def by blast
  from merge_settled [OF o(1) assms(1) o(2,3)] run_FindHost [OF assms(2) h(1,2)] h(3) show ?thesis
    by (simp add: UpsertHost_def result_of_def events_of_def run_state_bind State_Monad.return_def)
qed

end
