(* ===== verification/DemoVM.thy ===== *)
theory DemoVM
  imports Demo HookProofs JsonProofs Ownership VMHistory
begin

text \<open>
  A concrete VM's child: being deleted, with a hook, for the witness of the hook's history.
\<close>

section \<open>A deleted child with a hook\<close>

definition demo_hook :: DeprovisionHook where
  "demo_hook = \<lparr>hk_Targeting = TargetingTemplate, hk_Template = \<lparr>tr_Name = ''site'', tr_Type = TemplateTypeJob\<rparr>,
     hk_TimeoutSeconds = 600\<rparr>"

definition demo_child_spec :: AnsibleBindingVMSpec where
  "demo_child_spec = \<lparr>vs_VMName = ''vm'', vs_BindingName = ''b'', vs_BindingUID = ''buid'', vs_AWXConnectionRef = ''awx'',
     vs_Template = \<lparr>tr_Name = ''site'', tr_Type = TemplateTypeJob\<rparr>, vs_HostName = [], vs_HostVariables = [],
     vs_UseDefaultLimit = True, vs_ExtraVars = [], vs_CleanupPolicy = [], vs_OnDeleted = Some demo_hook,
     vs_BindingGeneration = 1, vs_BindingTrigger = []\<rparr>"

definition demo_child :: unstr where
  "demo_child = (demo_object ''vm-vm-vm'' (CChild (Some demo_child_spec) None))
     \<lparr>u_meta := (demo_meta ''vm-vm-vm'')\<lparr>md_DeletionTimestamp := Some 0, md_OwnerReferences :=
        [\<lparr>or_APIVersion = ''vmoperator.vmware.com/v1alpha2'', or_Kind = ''VirtualMachine'', or_Name = ''vm'', or_UID = ''vmuid''\<rparr>]\<rparr>\<rparr>"

definition demo_vm_env :: env where
  "demo_vm_env = (demo_env (demo_run None))\<lparr>e_get := (\<lambda>t g ns n. case g of
        SecretGVR \<Rightarrow> Inr (demo_object ''s'' (CSecret [(''token'', ''dA=='')]))
      | AWXConnGVR \<Rightarrow> Inr demo_conn
      | AnsBindVMGVR \<Rightarrow> Inr demo_child
      | _ \<Rightarrow> Inl (NotFoundR, []))\<rparr>"

definition demo_hook_events :: "event list" where
  "demo_hook_events = events_of (cleanupAnsibleBindingVM demo_vm_env demo_child) demo_world"


lemma demo_hook_launches: "launches demo_hook_events = 1"
  by code_simp

lemma demo_hook_reads: "child_reads None demo_hook_events"
  by code_simp

text \<open>The record a trace leads to.\<close>

lemma hook_evolves_some: "\<exists>s'. hook_evolves s es s'"
proof (induction es arbitrary: s)
  case (Cons e es)
  have "\<exists>m. m \<in> hook_becomes s e" by (cases "(s, e)" rule: hook_becomes.cases) auto
  with Cons show ?case by (metis hook_evolves.simps(2))
qed auto

lemma demo_hook_history: "\<exists>s. hook_history demo_vm_env s 1"
proof -
  obtain s where s: "hook_evolves None demo_hook_events s" using hook_evolves_some by blast
  have "demo_hook_events = take (length demo_hook_events) (events_of (cleanupAnsibleBindingVM demo_vm_env demo_child) demo_world)"
    by (simp add: demo_hook_events_def)
  moreover have "has_hook demo_child"
    by (simp add: has_hook_def demo_child_def demo_object_def convertAnsibleBindingVM_def demo_child_spec_def ch_spec_def)
  moreover have "\<not> dep_spent None" by (simp add: dep_spent_def)
  ultimately show ?thesis
    using hook_history.pass [OF hook_history.begun [where E = demo_vm_env] _ _ demo_hook_reads s] demo_hook_launches by fastforce
qed

section \<open>Objects being deleted\<close>

definition demo_going :: "string \<Rightarrow> content \<Rightarrow> unstr" where
  "demo_going f x = (demo_object ''obj'' x)\<lparr>u_meta := (demo_meta ''obj'')\<lparr>md_DeletionTimestamp := Some 0, md_Finalizers := [f]\<rparr>\<rparr>"

definition demo_binding_spec :: AnsibleBindingSpec where
  "demo_binding_spec = \<lparr>bs_VMSelector = [(''app'', ''web'')], bs_AWXConnectionRef = ''awx'',
     bs_Template = \<lparr>tr_Name = ''site'', tr_Type = TemplateTypeJob\<rparr>, bs_HostName = [], bs_HostVariables = [],
     bs_UseDefaultLimit = True, bs_ExtraVars = [], bs_CleanupPolicy = [], bs_OnDeleted = Some demo_hook\<rparr>"

definition demo_binding_going :: unstr where
  "demo_binding_going = demo_going ''field.vmware.com/ansible-binding-cleanup'' (CBinding (Some demo_binding_spec) None)"

definition demo_child_going :: unstr where
  "demo_child_going = demo_going ''field.vmware.com/ansible-binding-vm-cleanup'' (CChild (Some demo_child_spec) None)"

definition demo_run_going :: unstr where
  "demo_run_going = demo_going ''field.vmware.com/ansible-run-cleanup'' (CRun (Some demo_spec) None)"

text \<open>An informer that holds the deleted child under its key.\<close>

definition demo_queue_env :: env where
  "demo_queue_env = demo_vm_env\<lparr>e_splitKey := (\<lambda>k. Some (''ns'', ''obj'')), e_store := (\<lambda>t g k. Some demo_child_going)\<rparr>"

section \<open>A run to clean up, and a host as asked\<close>

definition demo_cleanup_run :: AnsibleRun where
  "demo_cleanup_run = \<lparr>run_meta = demo_meta ''run'', run_Spec = Some demo_spec, run_Status = Some demo_after\<rparr>"

definition demo_awx :: runAWXContext where
  "demo_awx = \<lparr>ax_conn = \<lparr>conn_meta = demo_meta ''awx'', conn_Spec = None, conn_Status = None\<rparr>, ax_client = demo_client,
     ax_endpoint = ''https://awx|/api'', ax_isWorkflow = False\<rparr>"

text \<open>A run whose launch was sent and no job recorded; AWX lists the job, still going, and holds the run's host.\<close>

definition demo_lost :: AnsibleRunStatus where
  "demo_lost = zero_run_status\<lparr>rt_LaunchAttemptedAt := Stamp 1700000000000000000, rt_AWXEndpoint := ''https://awx|/api''\<rparr>"

definition demo_lost_env :: env where
  "demo_lost_env = demo_vm_env\<lparr>e_http := (\<lambda>t c r. case r of
      RqRecentJobs iw i \<Rightarrow> demo_reply (BJobs [\<lparr>jl_ID = 99, jl_Created = Stamp 1700000001000000000, jl_Limit = [],
        jl_Status = st_pending\<rparr>])
    | RqGetHost i \<Rightarrow> demo_reply (BHost \<lparr>hr_ID = i, hr_Name = ''h'', hr_Variables = [],
        hr_Description = runHostOwnerMarker demo_vm_env ''ns'' ''run''\<rparr>)
    | _ \<Rightarrow> demo_http t c r)\<rparr>"

definition demo_lost_hosts :: "RunHostStatus list" where
  "demo_lost_hosts = [\<lparr>rhs_Name = ''h'', rhs_Address = [], rhs_AWXHostID = 41, rhs_AWXInventoryID = 3, rhs_AWXHostCreated = True\<rparr>]"

definition demo_lost_cleanup :: "(gerr + CleanupResult) prog" where
  "demo_lost_cleanup = cleanup_in_awx demo_lost_env (demo_run None) demo_cleanup_run demo_lost demo_awx demo_lost_hosts"

lemma demo_lost_done: "result_of demo_lost_cleanup demo_world = Inr cleanup_done"
  by code_simp

lemma demo_lost_unresolved: "run_unresolved demo_lost \<and> \<not> run_cancelling demo_lost \<and> \<not> moved demo_lost demo_awx"
  by code_simp

lemma demo_lost_seen: "list_ex (\<lambda>e. map_option aj_ID (lost_job demo_lost e) = Some 99 \<and>
    map_option (isTerminalAWXStatus \<circ> aj_Status) (lost_job demo_lost e) = Some False) (events_of demo_lost_cleanup demo_world)"
  by code_simp

lemma demo_lost_must_stop: "99 \<in> must_stop demo_lost (events_of demo_lost_cleanup demo_world)"
  using demo_lost_unresolved demo_lost_seen by (auto simp: must_stop_def list_ex_iff) metis

lemma demo_lost_deletes: "list_ex is_host_delete (events_of demo_lost_cleanup demo_world)"
  by code_simp

text \<open>A run with a deadline that wraps.\<close>

definition demo_late_run :: AnsibleRun where
  "demo_late_run = \<lparr>run_meta = (demo_meta ''run'')\<lparr>md_CreationTimestamp := Some 0\<rparr>,
     run_Spec = Some (demo_spec\<lparr>rs_ActiveDeadlineSeconds := 9223372037\<rparr>), run_Status = None\<rparr>"

definition demo_vars :: "string smap" where
  "demo_vars = [(''ansible_host'', ''10.0.0.5'')]"

text \<open>The host has a variable of somebody else's too.\<close>

definition demo_host :: hostResult where
  "demo_host = \<lparr>hr_ID = 41, hr_Name = ''vm'', hr_Variables = json_marshal (\<lambda>s. s) (str_map (demo_vars @ [(''zone'', ''a'')])),
     hr_Description = ''m''\<rparr>"

definition demo_hosts_reply :: http_resp where
  "demo_hosts_reply = \<lparr>rs_StatusCode = 200, rs_Text = [], rs_Body = BHosts [demo_host] []\<rparr>"

definition demo_host_env :: env where
  "demo_host_env = demo_vm_env\<lparr>e_http := (\<lambda>t c r. Inr demo_hosts_reply)\<rparr>"

lemma demo_vars_ok: "smap_ok demo_vars"
  by (simp add: demo_vars_def)

lemma demo_upsert_asked: "host_as_asked demo_host_env ''vm'' ''m'' demo_vars demo_host demo_hosts_reply"
proof -
  have "trim_space (hr_Description demo_host) = ''m''" by code_simp
  moreover have "trim_space (hr_Variables demo_host) = json_marshal (\<lambda>s. s) (str_map (demo_vars @ [(''zone'', ''a'')]))"
    by code_simp
  moreover have "smap_ok (demo_vars @ [(''zone'', ''a'')])" "smap_merge (demo_vars @ [(''zone'', ''a'')]) demo_vars = demo_vars @ [(''zone'', ''a'')]"
    by code_simp+
  moreover have "e_floatText demo_host_env = (\<lambda>s. s)" by (simp add: demo_host_env_def demo_vm_env_def demo_env_def)
  moreover have "ok_code (rs_StatusCode demo_hosts_reply)" by code_simp
  moreover have "findHostByName (hosts_of (rs_Body demo_hosts_reply)) ''vm'' = Some demo_host"
    by (simp add: demo_hosts_reply_def demo_host_def)
  ultimately show ?thesis unfolding host_as_asked_def by metis
qed

section \<open>A launch AWX refuses, and a server that keeps owners\<close>

definition demo_refusing_env :: env where
  "demo_refusing_env = (demo_env (demo_run None))\<lparr>e_http := (\<lambda>t c r. case r of
      RqLaunch iw i b \<Rightarrow> Inr \<lparr>rs_StatusCode = 400, rs_Text = ''no'', rs_Body = EmptyBody\<rparr>
    | _ \<Rightarrow> demo_http t c r)\<rparr>"

definition demo_plan :: launchPlan where
  "demo_plan = \<lparr>pl_Template = \<lparr>tp_ID = 7, tp_Inventory = Some 3, tp_AskLimitOnLaunch = True, tp_AskVariablesOnLaunch = True\<rparr>,
     pl_ExtraVars = [], pl_Targets = []\<rparr>"

definition demo_refused :: "run_out prog" where
  "demo_refused = claim_and_launch demo_refusing_env (demo_run None) demo_cleanup_run zero_run_status demo_awx demo_plan"

text \<open>The stored fields, and who set each: the manager, whether with an Apply, and the field.\<close>

type_synonym demo_store = "govalue smap \<times> (string \<times> bool \<times> string) list"

definition demo_sv_update :: "demo_store \<Rightarrow> string \<Rightarrow> govalue smap \<Rightarrow> demo_store" where
  "demo_sv_update s m d = (d, map (\<lambda>(k, v). (m, False, k)) (filter (\<lambda>(k, v). map_of (fst s) k \<noteq> Some v) d) @
     filter (\<lambda>(m', ap, k). map_of d k = map_of (fst s) k) (snd s))"

definition demo_sv_apply :: "demo_store \<Rightarrow> string \<Rightarrow> govalue smap \<Rightarrow> demo_store" where
  "demo_sv_apply s m d =
     (let others = filter (\<lambda>(m', ap, k). (m', ap) \<noteq> (m, True) \<and> (map_of d k = None \<or> map_of d k = map_of (fst s) k)) (snd s);
          mine = map (\<lambda>(k, v). (m, True, k)) d in
      (d @ filter (\<lambda>(k, v). map_of d k = None \<and> (k \<in> snd ` snd ` set others \<or> (m, True, k) \<notin> set (snd s))) (fst s),
       mine @ others))"

definition demo_server :: "demo_store status_server" where
  "demo_server = \<lparr>sv_live = fst, sv_owners = (\<lambda>s. set (snd s)), sv_update = demo_sv_update, sv_apply = demo_sv_apply\<rparr>"

lemma demo_documented_update: "documented_update demo_server"
  by (auto simp: documented_update_def demo_server_def demo_sv_update_def smap_get_def dest: map_of_SomeD intro!: image_eqI)

lemma map_of_filter_key: "P k \<Longrightarrow> map_of (filter (\<lambda>(k, v). P k) xs) k = map_of xs k"
  by (induction xs) auto

lemma demo_documented_apply: "documented_apply demo_server"
proof -
  have "map_of (fst (demo_sv_apply s m d)) k = map_of (fst s) k"
    if "(m', ap, k) \<in> set (snd s)" "(m', ap) \<noteq> (m, True)" "map_of d k = None \<or> map_of d k = map_of (fst s) k" for s m d k m' ap
  proof (cases "map_of d k")
    case None
    let ?P = "\<lambda>k. map_of d k = None \<and> (k \<in> snd ` snd ` set (filter (\<lambda>(m', ap, k). (m', ap) \<noteq> (m, True) \<and>
      (map_of d k = None \<or> map_of d k = map_of (fst s) k)) (snd s)) \<or> (m, True, k) \<notin> set (snd s))"
    from that None have "?P k" by (auto simp: image_iff intro!: bexI [of _ "(m', ap, k)"])
    from map_of_filter_key [of ?P, OF this] None show ?thesis
      unfolding demo_sv_apply_def Let_def fst_conv map_of_append by (simp add: map_add_def)
  next
    case (Some v)
    with that(3) have "map_of (fst s) k = Some v" by simp
    with Some show ?thesis by (simp add: demo_sv_apply_def Let_def map_add_def split: option.split)
  qed
  then show ?thesis
    by (auto simp: documented_apply_def demo_server_def smap_get_def demo_sv_apply_def Let_def)
qed

text \<open>The calls of that pass: the claim is among them.\<close>

fun demo_claim :: "event \<Rightarrow> bool" where
  "demo_claim (EUpdateStatus g u fm (Inr rv)) = (g = AnsRunGVR \<and> fm = runDetailsFieldManager \<and> rv = ''2'')"
| "demo_claim _ = False"

lemma demo_refused_claimed:
  "\<exists>u. EUpdateStatus AnsRunGVR u runDetailsFieldManager (Inr ''2'') \<in> set (events_of demo_refused demo_world)"
proof -
  have "list_ex demo_claim (events_of demo_refused demo_world)"
    by code_simp
  then show ?thesis by (auto simp: list_ex_iff elim!: demo_claim.elims)
qed

lemma demo_refused_taken_off: "rt_LaunchAttemptedAt (snd (fst (result_of demo_refused demo_world))) = NoStamp"
  by code_simp

section \<open>A child to provision\<close>

definition demo_live_child :: unstr where
  "demo_live_child = demo_child\<lparr>u_meta := (u_meta demo_child)\<lparr>md_DeletionTimestamp := None\<rparr>\<rparr>"

definition demo_ready_vm :: unstr where
  "demo_ready_vm = (demo_object ''vm'' (CVM \<lparr>vm_powerState = Some ''poweredOn'', vm_primaryIP4 = Some ''10.0.0.5'',
     vm_primaryIP6 = None, vm_vmIp = None\<rparr>))\<lparr>u_meta := (demo_meta ''vm'')\<lparr>md_UID := ''vmuid''\<rparr>\<rparr>"

definition demo_child_env :: env where
  "demo_child_env = demo_vm_env\<lparr>e_parseGroupVersion := (\<lambda>s. Inr (vmGroup, ''v1alpha2'')),
     e_get := (\<lambda>t g ns n. if g = VMGVR then Inr demo_ready_vm else e_get demo_vm_env t g ns n)\<rparr>"

definition demo_child_events :: "event list" where
  "demo_child_events = events_of (applyAnsibleBindingVM demo_child_env demo_live_child) demo_world"

lemma demo_child_job: "accepted demo_child_events = 1"
  by code_simp

lemma demo_child_answered: "all_answered demo_child_events"
  by code_simp

lemma demo_child_applied: "last_applied demo_child_events"
  by code_simp

lemma child_evolves_some: "\<exists>s'. child_evolves s es s'"
proof (induction es arbitrary: s)
  case (Cons e es)
  have "\<exists>m. m \<in> child_may_become s e" by (cases "(s, e)" rule: child_may_become.cases) auto
  with Cons show ?case by (metis child_evolves.simps(2))
qed auto

lemma demo_child_checked: "\<exists>child uid. check_child demo_child_env demo_live_child = Inr (child, uid) \<and>
    vs_BindingGeneration (ch_spec child) = 1 \<and> vs_BindingTrigger (ch_spec child) = [] \<and> priorVMState child = zero_vm_status"
proof -
  have "case check_child demo_child_env demo_live_child of Inl e \<Rightarrow> False | Inr (child, uid) \<Rightarrow>
      vs_BindingGeneration (ch_spec child) = 1 \<and> vs_BindingTrigger (ch_spec child) = [] \<and> ch_Status child = None"
    by code_simp
  then show ?thesis by (auto simp: priorVMState_def split: sum.splits)
qed

lemma demo_child_history: "\<exists>s. child_history demo_child_env 1 [] s 1"
proof -
  obtain s where s: "child_evolves zero_vm_status demo_child_events s" using child_evolves_some by blast
  obtain child uid where c: "check_child demo_child_env demo_live_child = Inr (child, uid)"
    "vs_BindingGeneration (ch_spec child) = 1" "vs_BindingTrigger (ch_spec child) = []" "priorVMState child = zero_vm_status"
    using demo_child_checked by blast
  have t: "demo_child_events = take (length demo_child_events) (events_of (applyAnsibleBindingVM demo_child_env demo_live_child) demo_world)"
    by (simp add: demo_child_events_def)
  from child_history.child_pass [OF child_history.child_start c(1-3) _ t _ s] show ?thesis
    using c(4) demo_child_job demo_child_answered demo_child_applied by (auto simp: demo_child_events_def)
qed

section \<open>A child listed twice\<close>

text \<open>A child whose job runs, for what the binding asks now.\<close>

definition demo_twin :: AnsibleBindingVM where
  "demo_twin = \<lparr>ch_meta = demo_meta ''vm-vm'', ch_Spec = Some demo_child_spec,
     ch_Status = Some (zero_vm_status\<lparr>vt_Phase := PhaseRunning, vt_AppliedGeneration := 1\<rparr>)\<rparr>"

end
