(* ===== verification/Spec2Isabelle.thy ===== *)
theory Spec2Isabelle
  imports Transport RunHistory RunLife RunCleanup RunScope VMCleanup VMHistory Fleet Ownership Demo DemoVM BindingCleanup JsonProofs
begin

text \<open>
  The Ansible supervisor service: a Kubernetes controller (src/controller, Go) that keeps AWX - hosts in an inventory,
  jobs launched from templates - in step with custom resources. This development models the controller's logic,
  operation by operation, and proves what it promises.

  THE PROGRAM. Four custom resources, one reconcile loop each, all on the same engine:
  an \<open>AWXConnection\<close> (how to reach an AWX), an \<open>AnsibleBinding\<close> (a selector of VirtualMachines and what to run on them),
  an \<open>AnsibleBindingVM\<close> (the claim of a binding on one VM: one inventory host, one run at a time, an optional
  \<open>onDeleted\<close> hook when it goes), and an \<open>AnsibleRun\<close> (a one-way trip: launch one job, poll it to its end). A binding only
  writes children; a child and a run talk to AWX. What they share are the API server's objects, the informer's copies of
  them, two caches of the process, and AWX itself.

  HOW IT IS MODELLED. A pass is a value of type \<open>'a prog\<close> (World): a state monad over the trace of calls made so far and the two
  caches. What is not code of this repository - AWX, the API server, the informers' stores, the clock, random jitter, the
  order of Go's map iteration and of concurrent writes, SHA-256, JSONPath, floating-point text - is the argument
  \<open>E :: env\<close>, a record of functions from the trace to an answer: it may answer anything, differently each time. Every API call,
  HTTP request, clock reading and queue operation appends one event with its answer; reading an informer's store does not.
  So a statement about \<open>events_of (f E x) w\<close> holds for every behaviour of the outside, errors and lost replies included.
  Errors are values: \<open>gerr\<close> keeps the chain that \<open>errors.As\<close> looks through, and an operation returns \<open>gerr + 'a\<close>, or a value with a
  \<open>gerr option\<close> where the Go function returns both. Texts of messages are the source's, one definition each
  (\<open>f_...\<close>, collected in \<open>text_defs\<close>). Strings are lists of bytes; maps are lists sorted by key (\<open>smap_ok\<close>); \<open>int\<close> and \<open>int64\<close> are
  \<open>int\<close>, with the wrap of durations written out (\<open>wrap64\<close>, \<open>seconds\<close>).

  THE THEORIES, in the order of the code.
  Prelude: Go's strings and \<open>Sprintf\<close>, sorted maps (locale \<open>string_map\<close>), 64-bit durations. GoErrors: errors and their texts.
  Types: types.go. World: the environment, events, and the three judgements the proofs are made of -
  \<open>emits m R\<close> (result and events satisfy \<open>R\<close>), \<open>only K m\<close> (every event satisfies \<open>K\<close>), \<open>guards P Q m\<close> (no \<open>Q\<close> before a \<open>P\<close>) - with
  their rules (\<open>only_intros\<close>).
  Json: the part of encoding/json that host variables go through. Util: util.go (markers, names, labels, VM
  readiness, histories). AwxClient: awx_client.go. Transport: its transports and their cache. Engine: engine.go, the reconcile loop, the
  finalizer patches and the status patches. Workqueue: workqueue.go. Connection: awxconnection.go, caches.go and
  template resolution. VarsFrom: varsfrom.go. AnsibleRun: ansiblerun.go. BindingVM, Deprovision and CleanupVM:
  ansiblebindingvm.go and events.go (provisioning; the hook; finalization). Binding: ansiblebinding.go. Encode: the JSON of the
  structs (types.go), \<open>structToMap\<close> and the maps and patches sent. Startup: migrate.go and the start of main.go.

  THE INTERFACES. \<open>string_map\<close> (Prelude) is what the code relies on of Go's maps, given by \<open>smap\<close>. \<open>finalizer_policy\<close> and
  \<open>settled_policy\<close> (Engine) are what the loop relies on of a finalizer rewrite, given by \<open>holdFinalizers\<close> and
  \<open>releaseFinalizers\<close> for any controller and settled for all four. \<open>reconciler\<close> and \<open>finalizing_reconciler\<close> (Engine) are what the loop relies on of a
  kind's functions, given by each of the four controllers (\<open>run_loop\<close>, \<open>vm_loop\<close>, \<open>bind_loop\<close>, \<open>conn_loop\<close>): the laws about
  finalizers and the queue are proved once in them. \<open>worker\<close> (Workqueue) adds what a queue worker relies on, given by the four in Fleet. \<open>shared_pool\<close> (Transport) is what a client relies on of a cache of shared values,
  given by \<open>transportFor\<close>: a pool is sound for every sequence of fetches, and exact when equal keys build equal values.

  THE LEMMAS. RunProofs, RunHistory: the launch protocol of a run's pass, and by rule induction over \<open>history\<close> - any number
  of passes over any informer copy, each cut anywhere, writes with an error reply applied or not - at most one
  launch that is not refused. RunLife: the abstract life of a run, which every write of a pass refines: a job is only reached by way of a claim
  (\<open>job_needs_claim\<close>), and a run over with neither never gets one. RunScope: what a launch reaches, host records, the ends of a run. RunCleanup: what finalizing a run deletes, and
  when it may say it is done: after the end of every job it has to stop, one it finds for a lost launch included (\<open>must_stop\<close>). HostProofs: markers, and lookups before writes. VMProofs, VMHosts: a child's provisioning
  pass; VMHistory: by rule induction over \<open>child_history\<close> at most one launch AWX does not refuse for a generation and trigger, when
  such a launch is answered with its job and the record of it is applied. HookProofs: the hook, and by rule induction over \<open>hook_history\<close> at most one launch of it. VMCleanup: the host a child's
  end deletes. BindingProofs, BindingRollup, BindingPass, BindingCleanup: children written, bursts refined to their
  contract, the summary (a verdict per VM, each counter the number of VMs with it; a pass's conflicts are as that needs), ready, settled passes, orphan hosts, finalization. JsonProofs: host variables
  survive the trip to AWX. StartupProofs: names, API version, gate, start. EncodeProofs, Fleet: the maps sent determine what they encode, the workers (one pass over each key and the
  answer its outcome asks for), and no status field with two writers. Ownership: the documented rules of server-side apply (\<open>documented_update\<close>,
  \<open>documented_apply\<close>, for any server with them) and the attempt marker under them; \<open>may_become\<close> in RunHistory allows for both ends. Demo, DemoVM: concrete environments for the
  witnesses below. The properties C1 to C40 below are stated over the model's own operations.

  LOOPS. Everything is total. Bounded loops of the code recurse on what is left of their bound: status patches
  \<open>maxRetries\<close> = 5, finalizer patches 2, pages of hosts 100, base paths of the API 4 at most. Other loops recurse on their lists. The
  JSON parser takes fuel, the length of the text plus one, which is enough for any text it is given (every nested call is on a
  shorter text; \<open>json_roundtrip\<close> shows it suffices for what the program writes).

  NOT MODELLED. \<open>Run\<close>, \<open>setupInformer\<close> and the rest of \<open>main\<close> (goroutines, informers, signal handling): glue over client-go; the
  handlers they install, a worker's loop and the items it processes are modelled.
  Logging. Connections, timeouts, TLS handshakes and contexts: a request is one event whatever it took; a cancelled
  context is an error answer. Mutexes: each pass is sequential, and other passes are in what \<open>E\<close> may answer.
  JSON text of the maps sent (strings are taken as valid UTF-8), and the structs' decoding: an object's content is given decoded. A nil map or slice
  and an empty one are the same \<open>[]\<close>, also where the code compares two statuses with \<open>reflect.DeepEqual\<close>, which tells them apart: the model then
  takes for equal what the code may write once more, with the same map. Within one burst, concurrent writes are interleaved write by write. The manifests,
  the shell tests and the fake AWX under test/ are configuration and test code.
\<close>



text \<open>C1: over the whole life of a run - reconcile and cleanup passes in any number, each cut short anywhere, with write
replies that may be lost - AWX is sent at most one launch that it does not refuse, and once it was sent one the record
authorizes no other.\<close>

theorem run_launched_at_most_once:
  "history E s n \<Longrightarrow> n \<le> 1 \<and> (n = 1 \<longrightarrow> spent s)"
  by (rule history_invariant)

theorem run_launched_at_most_once_witness:
  "history (demo_env (demo_run None)) demo_after 1 \<and> (1 :: nat) \<le> 1 \<and> spent demo_after"
  using run_launched_at_most_once [OF demo_history] demo_history by simp

text \<open>C2: passes refine the life of a run: from the record a pass read, every path of the record through its writes - each applied
or lost - is a path of the abstract machine \<open>life_step\<close>, for reconcile passes as for finalizing ones. On that machine a fresh run gets
a job only by way of \<open>Claimed\<close> (\<open>job_needs_claim\<close>), a job is never replaced (\<open>job_is_kept\<close>), what is over stays over, and a run
that is over with neither claim nor job never gets one (\<open>unstarted_is_final\<close>).\<close>

theorem run_refines_lifecycle:
  "of_live cached (\<lambda>live. lives (live_status live)) (events_of (applyAnsibleRun E cached) w) \<and>
   of_live cached (\<lambda>live. lives (live_status live)) (events_of (cleanupAnsibleRun E cached) w)"
  by (intro conjI emitsD [OF emits_applyAnsibleRun_lives] emitsD [OF emits_cleanupAnsibleRun_lives])

text \<open>C3: over all the finalizing passes of a child with an \<open>onDeleted\<close> hook - cut short anywhere, with write replies that may be
lost - the hook is launched at most once, and once it was the record says so (the child is not deleted under the
controller's feet: \<open>child_reads\<close> excludes a status write answered by NotFound, which the code takes for success).\<close>

theorem hook_launched_at_most_once:
  "hook_history E s n \<Longrightarrow> n \<le> 1 \<and> (n = 1 \<longrightarrow> dep_spent s)"
  by (rule hook_history_invariant)

theorem hook_launched_at_most_once_witness:
  "\<exists>s. hook_history demo_vm_env s 1 \<and> (1 :: nat) \<le> 1 \<and> dep_spent s"
proof -
  obtain s where "hook_history demo_vm_env s 1" using demo_hook_history by blast
  with hook_launched_at_most_once [OF this] show ?thesis by auto
qed

text \<open>C4: a pass reads the live run first; a spent record is never spent again; a launch comes right after this pass's own
conditional claim, and every later write keeps the record spent unless AWX refused the launch.\<close>

theorem run_pass_protocol:
  "pass_protocol cached (events_of (applyAnsibleRun E cached) w)"
  by (rule emitsD [OF emits_applyAnsibleRun])

text \<open>C5: for one generation and trigger, over any number of provisioning passes of a child, AWX is sent at most one launch that it
does not refuse, and after one the record says so. Every such launch counts, whatever its answer; what \<open>child_history\<close> asks
for is that a pass that sends one is whole, is answered with the job, and has its record applied. Passes without one may
be cut anywhere and lose their writes.\<close>

theorem child_started_once:
  "child_history E g t s n \<Longrightarrow> n \<le> 1 \<and> (n = 1 \<longrightarrow> ran_for g t s)"
  by (rule child_history_invariant)

theorem child_started_once_witness:
  "\<exists>s. child_history demo_child_env 1 [] s 1 \<and> (1 :: nat) \<le> 1 \<and> ran_for 1 [] s"
proof -
  obtain s where "child_history demo_child_env 1 [] s 1" using demo_child_history by blast
  with child_started_once [OF this] show ?thesis by auto
qed

text \<open>C6: a pass over a VM's child acts only after reading the VM the claim was made on; it launches at most one job, one the
record wants, of the template of the spec's name and type; limited to the host looked up in this pass when the spec does not
set \<open>useDefaultLimit\<close> and the template has an inventory, and with no limit otherwise (\<open>vm_scope\<close>); and a job that AWX named is
in the last write of the pass.\<close>

theorem child_pass_sound:
  "child_pass E u (events_of (applyAnsibleBindingVM E u) w)"
  by (rule emitsD [OF emits_applyAnsibleBindingVM])

text \<open>C7: a finalizing pass with a hook re-reads the child first; when that record says the hook was launched it launches
nothing, otherwise at most once, right after the write of the record of it to this child was accepted or answered
\<open>NotFound\<close> (\<open>applied\<close>: \<open>patchStatus\<close> takes a child that is gone for success, so a hook may then run without a record), and
every record it writes afterwards keeps it.\<close>

theorem finalizing_pass_sound:
  "finalizing_pass E u (events_of (cleanupAnsibleBindingVM E u) w)"
  by (rule emitsD [OF emits_cleanupAnsibleBindingVM])

text \<open>C8: a server that keeps field owners as documented still stores the attempt marker of an accepted claim after all writes of
the pass: leaving it out of a later apply, as after a refused launch, does not take it off (the witness: the pass's own
record has no marker, the stored one has).\<close>

theorem refused_marker_stays:
  assumes "documented_update sv" "documented_apply sv" "smap_get (sv_live sv s) marker = None"
    and "EUpdateStatus AnsRunGVR cl fm (Inr rv) \<in> set (events_of (claim_and_launch E u run st awx p) w)"
  shows "\<exists>t. smap_get (sv_live sv (server_after fl sv s (events_of (claim_and_launch E u run st awx p) w))) marker = Some (GStamp t)"
  by (rule claim_marker_stays [OF assms(1,2) emitsD [OF claim_and_launch_writes] assms(3,4)])

theorem refused_marker_stays_witness:
  "(\<exists>t. smap_get (sv_live demo_server (server_after Some demo_server ([], []) (events_of demo_refused demo_world))) marker
     = Some (GStamp t)) \<and> rt_LaunchAttemptedAt (snd (fst (result_of demo_refused demo_world))) = NoStamp"
proof -
  obtain cl where c: "EUpdateStatus AnsRunGVR cl runDetailsFieldManager (Inr ''2'') \<in> set (events_of demo_refused demo_world)"
    using demo_refused_claimed by blast
  have "smap_get (sv_live demo_server ([], [])) marker = None" by (simp add: demo_server_def smap_get_def)
  from refused_marker_stays [OF demo_documented_update demo_documented_apply this c [unfolded demo_refused_def]] show ?thesis
    unfolding demo_refused_def [symmetric] using demo_refused_taken_off by blast
qed

text \<open>C9: a run launches the template of the name and type the spec gives, as AWX reported it in this pass, limited to exactly the
hosts the spec names (\<open>target_names\<close>: its hosts in order, or its VM's name with the connection's prefix) - each recorded in the
claim before the launch - and gives a limit and variables only to a template that prompts for them.\<close>

theorem run_launch_scope:
  "of_live cached (live_scoped E) (events_of (applyAnsibleRun E cached) w)"
  by (rule emitsD [OF emits_applyAnsibleRun_scoped])

text \<open>C10: a finalizing run deletes only hosts that its live record lists as created and that AWX has just shown to carry this
run's own marker, none under \<open>Retain\<close>, and none before the end of every job in \<open>must_stop\<close>: the recorded one while it may be
running, or the one found in this pass for a launch whose answer was lost. The end is: cancelled, and then seen over or
waited for long enough.\<close>

theorem run_cleanup_protocol:
  "of_live cached (cleanup_protocol E) (events_of (cleanupAnsibleRun E cached) w)"
  by (rule emitsD [OF emits_cleanupAnsibleRun])

text \<open>C11: against the instance the run went to, a finalization that says it is done has settled every host it had to delete, and
has confirmed the end of every job it has to stop, one found for a lost launch included (the witness: such a job, cancelled
and waited for, before the run's one host is deleted).\<close>

theorem run_cleanup_complete:
  "\<not> moved st awx \<Longrightarrow>
   cleanup_complete E run st (ax_client awx) hs (result_of (cleanup_in_awx E u run st awx hs) w)
     (events_of (cleanup_in_awx E u run st awx hs) w)"
  using emitsD [OF emits_cleanup_in_awx [where E = E and u = u and run = run and st = st and awx = awx and hs = hs], of w]
  by (simp add: run_cleanup_ok_def)

theorem run_cleanup_complete_witness:
  "job_ended 99 NoStamp (events_of demo_lost_cleanup demo_world) \<and>
   hosts_settled (runHostOwnerMarker demo_lost_env ''ns'' ''run'') demo_client {41} (events_of demo_lost_cleanup demo_world)"
proof -
  have c: "cleanup_complete demo_lost_env demo_cleanup_run demo_lost demo_client demo_lost_hosts
      (result_of demo_lost_cleanup demo_world) (events_of demo_lost_cleanup demo_world)"
    using run_cleanup_complete [of demo_lost demo_awx demo_lost_env demo_cleanup_run demo_lost_hosts "demo_run None" demo_world]
      demo_lost_unresolved by (simp add: demo_lost_cleanup_def demo_awx_def)
  have n: "run_ns demo_cleanup_run = ''ns'' \<and> md_Name (run_meta demo_cleanup_run) = ''run'' \<and>
      rt_CancelRequestedAt demo_lost = NoStamp \<and> rhs_AWXHostID ` set demo_lost_hosts = {41}" by code_simp
  from c n demo_lost_must_stop show ?thesis
    by (auto simp: cleanup_complete_def finished_in_awx_def confirmed_def demo_lost_done cleanup_done_def)
qed

text \<open>C12: a run patches a host right after looking it up and finding it its own or nobody's, and creates one right after finding
none, with its own marker.\<close>

theorem run_host_writes:
  "of_live cached (\<lambda>live. writes_checked (runHostOwnerMarker E (md_Namespace (u_meta live)) (md_Name (u_meta live))))
     (events_of (applyAnsibleRun E cached) w)"
  by (rule emitsD [OF emits_applyAnsibleRun_writes])

text \<open>C13: a pass over a child patches and creates hosts only after the lookup that allows it, and deletes one only with the marker
seen on it or with its creation on record.\<close>

theorem child_host_writes:
  "host_writes_ok E u (events_of (applyAnsibleBindingVM E u) w)"
  by (rule emitsD [OF emits_applyAnsibleBindingVM_checked])

text \<open>C14: a pass over a child talks to AWX only after reading the VM the claim is on, and only for a reason.\<close>

theorem child_wakes_awx_for_a_reason:
  "wakes E u (events_of (applyAnsibleBindingVM E u) w)"
  by (rule emitsD [OF emits_applyAnsibleBindingVM_wakes])

text \<open>C15: a finalizing child deletes only hosts that a lookup earlier in this pass showed to carry its own marker, none under
\<open>Retain\<close> and none while its cleanup is unfinished; a child with a hook is read again first, and its live copy's policy counts.\<close>

theorem child_cleanup_deletes:
  "finalizing_deletes E u (result_of (cleanupAnsibleBindingVM E u) w) (events_of (cleanupAnsibleBindingVM E u) w)"
  by (rule emitsD [OF emits_finalizing_deletes])

text \<open>C16: a binding's pass creates children only for VMs it selects and patches and deletes only those that carry its claim.\<close>

theorem binding_touches_its_own:
  "binding_pass E u (events_of (applyAnsibleBinding E u) w)"
  by (rule emitsD [OF emits_applyAnsibleBinding])

text \<open>C17: a binding's pass that does not come back within a second has attended to every VM it selects and given up every child
it does not; and the requeue it asks for, where it asks for one (0 is none), is after a second or after 30 to 40 seconds.\<close>

theorem binding_settles:
  "settled_pass E u (result_of (applyAnsibleBinding E u) w) (events_of (applyAnsibleBinding E u) w) \<and>
   requeue_ok (result_of (applyAnsibleBinding E u) w)"
  by (intro conjI emitsD [OF emits_settled_pass] emitsD [OF emits_binding_requeue])

text \<open>C18: a binding is ready only when every VM it selects has a child of this binding that has settled the binding's current
generation and trigger.\<close>

theorem binding_ready_is_sound:
  "ready_sound E u (result_of (applyAnsibleBinding E u) w) (events_of (applyAnsibleBinding E u) w)"
  by (rule emitsD [OF emits_ready])

text \<open>C19: the orphan sweep deletes a host only without \<open>Retain\<close>, after AWX listed it with this binding's own marker and a live list of
children, made after that, left nobody to claim its name.\<close>

theorem binding_orphans_sound:
  "orphans_ok E u (events_of (applyAnsibleBinding E u) w)"
  by (rule emitsD [OF emits_binding_orphans])

text \<open>C20: a child's deletion names the very object that was read, and goes out only after the binding's cleanup policy was written
to it.\<close>

theorem child_deletion_protocol:
  "delete_protocol c p (events_of (deleteBindingChild E c p) w)"
  by (rule emitsD [OF emits_deleteBindingChild])

text \<open>C21: the finalizer of a deleted binding that decodes goes only after a cleanup that said it was done, the last call of which was
a live list without a child of this binding. (A binding that does not decode is let go at once: the code reports its
cleanup as done.)\<close>

theorem binding_released_after_children:
  assumes "is_deleting (u_meta u)" "containsFinalizer u (c_finalizerName (ansBindController E))" "convertAnsibleBinding u = Inr ac"
  shows "released_after (cleanup_ok E ac) (events_of (Reconcile E (ansBindController E) u) w)"
proof -
  have "emits (cleanupAnsibleBinding E u) (cleanup_ok E ac)"
    using emits_cleanupAnsibleBinding [of E u] assms(3) by (simp add: finalized_binding_def [abs_def])
  then show ?thesis
    by (intro emitsD [OF bind_loop.released_when_done]) (use assms in \<open>simp_all add: ansBindController_def\<close>)
qed

theorem binding_released_after_children_witness:
  "list_ex is_fin_patch (events_of (Reconcile demo_vm_env (ansBindController demo_vm_env) demo_binding_going) demo_world) \<and>
   (\<exists>ac. convertAnsibleBinding demo_binding_going = Inr ac \<and>
     released_after (cleanup_ok demo_vm_env ac)
       (events_of (Reconcile demo_vm_env (ansBindController demo_vm_env) demo_binding_going) demo_world))"
proof -
  have p: "list_ex is_fin_patch (events_of (Reconcile demo_vm_env (ansBindController demo_vm_env) demo_binding_going) demo_world)"
    by code_simp
  obtain ac where ac: "convertAnsibleBinding demo_binding_going = Inr ac"
    by (simp add: convertAnsibleBinding_def demo_binding_going_def demo_going_def demo_object_def)
  have "is_deleting (u_meta demo_binding_going)"
    "containsFinalizer demo_binding_going (c_finalizerName (ansBindController demo_vm_env))"
    by (simp_all add: demo_binding_going_def demo_going_def is_deleting_def containsFinalizer_def containsString_def ansBindController_def)
  from binding_released_after_children [OF this ac] p ac show ?thesis by blast
qed

text \<open>C22: AWX hears nothing about a live child before its finalizer was patched on.\<close>

theorem finalizer_before_awx:
  "\<not> is_deleting (u_meta u) \<Longrightarrow> needs_update (ansBindVMController E) (md_Finalizers (u_meta u)) \<Longrightarrow>
   guarded (patch_succeeded AnsBindVMGVR (holdFinalizers (ansBindVMController E))) is_http
     (events_of (Reconcile E (ansBindVMController E) u) w)"
  by (rule vm_finalizer_first)

theorem finalizer_before_awx_witness:
  "guarded (patch_succeeded AnsBindVMGVR (holdFinalizers (ansBindVMController demo_vm_env))) is_http
     (events_of (Reconcile demo_vm_env (ansBindVMController demo_vm_env) (demo_object ''vm-vm'' (CChild (Some demo_child_spec) None))) demo_world)"
  by (rule finalizer_before_awx) (simp_all add: demo_object_def demo_meta_def is_deleting_def needs_update_def containsString_def ansBindVMController_def)

text \<open>C23: the queue never drops an object being deleted: its key is forgotten only after a pass without error, and queued again
after any other, however many retries there were.\<close>

theorem deleted_child_never_dropped:
  "e_splitKey E k = Some (ns, n) \<Longrightarrow> e_store E (w_trace w) AnsBindVMGVR (key ns n) = Some u \<Longrightarrow> is_deleting (u_meta u) \<Longrightarrow>
   events_of (processNextWorkItem E (ansBindVMController E) (Some k)) w = events_of (Reconcile E (ansBindVMController E) u) w @
     [if result_of (Reconcile E (ansBindVMController E) u) w = None then EForget AnsBindVMGVR k else EAddRateLimited AnsBindVMGVR k,
      EDone AnsBindVMGVR k]"
  using vm_loop.deleting_requeued [where E = E and k = k and ns = ns and n = n and w = w and u = u] by simp

theorem deleted_child_never_dropped_witness:
  "events_of (processNextWorkItem demo_queue_env (ansBindVMController demo_queue_env) (Some ''ns/obj'')) demo_world =
   events_of (Reconcile demo_queue_env (ansBindVMController demo_queue_env) demo_child_going) demo_world @
     [if result_of (Reconcile demo_queue_env (ansBindVMController demo_queue_env) demo_child_going) demo_world = None
      then EForget AnsBindVMGVR ''ns/obj'' else EAddRateLimited AnsBindVMGVR ''ns/obj'', EDone AnsBindVMGVR ''ns/obj'']"
  by (rule deleted_child_never_dropped [where ns = "''ns''" and n = "''obj''"])
    (simp_all add: demo_queue_env_def demo_child_going_def demo_going_def is_deleting_def key_def)

text \<open>C24: a worker of any controller works off the keys its queue hands it, in order: exactly one pass over each, in which nothing is
settled with the queue, then the answer that the pass's outcome asks for (\<open>queue_answer\<close>), then the end of the item.\<close>

theorem worker_drains:
  "list_all (\<lambda>c. worked_off E c ks w (events_of (runWorker E c ks) w)) (controllers E)"
  by (rule workers_work_off)

text \<open>C25: no status field has two writers: what the engine's manager applies is exactly its four fields, and what a kind's own
manager applies - the map that \<open>structToMap\<close> makes of the details - has none of them.\<close>

theorem managers_apart:
  "list_all (\<lambda>c. list_all (fields_apart fl) (events_of (Reconcile E c u) w)) (controllers E)"
  by (rule controllers_apply_apart)

text \<open>C26: the map sent for a status determines the status: two statuses of a child, two of a run, and two reports of a binding give
the same map exactly when they are equal (a nil and an empty list being one value of the model, both left out of the
map), whatever the float conversion does: no number is rounded, no field is lost, no two fields are mixed up.\<close>

theorem status_maps_exact:
  assumes "int64_values (enc_AnsibleBindingVMStatus s)" "int64_values (enc_AnsibleBindingVMStatus s')"
    and "int64_values (enc_AnsibleRunStatus t)" "int64_values (enc_AnsibleRunStatus t')"
    and "int64_values (enc_BindingSummary m)" "int64_values (enc_BindingSummary m')"
  shows "(status_map_of fl (PChild s) = status_map_of fl (PChild s') \<longleftrightarrow> s = s') \<and>
    (status_map_of fl (PRun t) = status_map_of fl (PRun t') \<longleftrightarrow> t = t') \<and>
    (status_map_of fl (PBinding m g trigger scan) = status_map_of fl (PBinding m' g' trigger' scan') \<longleftrightarrow>
      m = m' \<and> g = g' \<and> trigger = trigger' \<and> scan = scan')"
  by (intro conjI child_maps_exact run_maps_exact binding_maps_exact assms)

theorem status_maps_exact_witness:
  "status_map_of Some (PChild (zero_vm_status\<lparr>vt_LastJobID := 9007199254740992\<rparr>)) \<noteq>
   status_map_of Some (PChild (zero_vm_status\<lparr>vt_LastJobID := 9007199254740993\<rparr>))"
proof -
  let ?a = "zero_vm_status\<lparr>vt_LastJobID := 9007199254740992\<rparr>" and ?b = "zero_vm_status\<lparr>vt_LastJobID := 9007199254740993\<rparr>"
  have v: "int64_values (enc_AnsibleBindingVMStatus ?a)" "int64_values (enc_AnsibleBindingVMStatus ?b)"
    "int64_values (enc_AnsibleRunStatus zero_run_status)" "int64_values (enc_BindingSummary zero_summary)"
    by (simp_all add: enc_defs leaf_defs zero_vm_status_def zero_run_status_def zero_summary_def int64_range_def)
  have "?a \<noteq> ?b" by (simp add: zero_vm_status_def)
  with status_maps_exact [OF v(1,2) v(3,3) v(4,4), where fl = Some] show ?thesis by blast
qed

text \<open>C27: the rewrites of a finalizer list: releasing undoes holding, others' finalizers survive both in their order, and one
holding rewrite leaves nothing to do, for the child's controller as for the connection's.\<close>

theorem finalizer_rewrites:
  "releaseFinalizers c (holdFinalizers c fs) = releaseFinalizers c fs \<and>
   filter (\<lambda>f. f \<notin> own_finalizers c \<and> f \<notin> set (c_staleFinalizers c)) (holdFinalizers c fs) = releaseFinalizers c fs \<and>
   \<not> needs_update (ansBindVMController E) (holdFinalizers (ansBindVMController E) fs) \<and>
   \<not> needs_update (awxConnController E) (holdFinalizers (awxConnController E) fs)"
  by (intro conjI loop.release_hold vm_policy.hold_settles conn_policy.hold_settles)
    (simp add: loop.hold_foreign loop.release_eq)

text \<open>C28: patching finalizers takes at most two attempts, and every list sent is the rewrite of the list in the version of the
object that the patch is conditional on.\<close>

theorem finalizer_patch_versioned:
  "versioned g mutate u (events_of (patchFinalizer E g u mutate) w) \<and>
   length (filter is_fin_patch (events_of (patchFinalizer E g u mutate) w)) \<le> 2"
  using emitsD [OF patch_fin_loop_versioned [where E = E and k = 1 and g = g and u = u and mutate = mutate], where w = w]
  by (simp add: patchFinalizer_def)

text \<open>C29: a status patch ends after at most \<open>maxRetries\<close> calls, and succeeds only when the last one was applied or the object is
gone.\<close>

theorem status_patch_bounded:
  "length (events_of (patchStatus E g u p fm) w) \<le> maxRetries \<and>
   (case result_of (patchStatus E g u p fm) w of
      Some err \<Rightarrow> True
    | None \<Rightarrow> events_of (patchStatus E g u p fm) w \<noteq> [] \<and> applied g u p fm (last (events_of (patchStatus E g u p fm) w)))"
  using emitsD [OF patch_loop_length [of maxRetries E g u p fm PermanentConfigE], where w = w]
    emitsD [OF patch_loop_None [of maxRetries E g u p fm PermanentConfigE], where w = w]
  unfolding patchStatus_def by (simp split: option.split)

text \<open>C30: issuing writes in growing batches implements its contract: some prefix of the burst, each write exactly once and in
some order, and all of it unless at least two failed.\<close>

theorem child_writes_in_bursts:
  "in_bursts run (take burstChildWrites ws) (State_Monad.run_state (issueChildWrites E run ws) w) [] 0 w \<and>
   burst_complete E run ws w"
  by (intro conjI issueChildWrites_in_bursts issueChildWrites_complete)

text \<open>C31: each counter of a binding's summary is exactly the number of selected VMs with that verdict (\<open>vm_verdict\<close>, which is of one VM,
so that none counts twice); the counters add up to the number of VMs selected; terminating children are counted apart, and
the lists of names keep to their limit.\<close>

theorem summary_adds_up:
  assumes "smap_ok matched" "smap_ok conflicts" "fst ` set conflicts \<subseteq> fst ` set matched" "[] \<notin> snd ` set conflicts"
  shows "counter v (summarize cs matched conflicts g t) = int (card {vm \<in> fst ` set matched. vm_verdict cs conflicts g t vm = v}) \<and>
   counted (summarize cs matched conflicts g t) = sm_Total (summarize cs matched conflicts g t) \<and>
   sm_Total (summarize cs matched conflicts g t) = int (card (fst ` set matched)) \<and>
   sm_Terminating (summarize cs matched conflicts g t) = int (length (filter (\<lambda>c. ch_Spec c \<noteq> None \<and> is_deleting (ch_meta c)) cs)) \<and>
   length (sm_FailedVMs (summarize cs matched conflicts g t)) \<le> summaryNameLimit \<and>
   length (sm_ConflictedVMs (summarize cs matched conflicts g t)) \<le> summaryNameLimit"
  using summarize_counts [OF assms] summarize_adds_up [of cs matched conflicts g t] summarize_names [of cs matched conflicts g t]
    terminating_counts [of cs matched conflicts g t] card_smap_keys [OF assms(1)] by simp

theorem summary_adds_up_witness:
  "counter VPending (summarize [demo_twin, demo_twin] [(''db'', ''u2''), (''vm'', ''u1''), (''web'', ''u3'')] [(''db'', ''other'')] 1 []) =
   int (card {vm \<in> {''db'', ''vm'', ''web''}. vm_verdict [demo_twin, demo_twin] [(''db'', ''other'')] 1 [] vm = VPending}) \<and>
   summarize [demo_twin, demo_twin] [(''db'', ''u2''), (''vm'', ''u1''), (''web'', ''u3'')] [(''db'', ''other'')] 1 [] =
   zero_summary\<lparr>sm_Total := 3, sm_Pending := 1, sm_Running := 1, sm_Conflicted := 1, sm_ConflictedVMs := [''db (other)'']\<rparr>"
proof
  show "counter VPending (summarize [demo_twin, demo_twin] [(''db'', ''u2''), (''vm'', ''u1''), (''web'', ''u3'')] [(''db'', ''other'')] 1 []) =
      int (card {vm \<in> {''db'', ''vm'', ''web''}. vm_verdict [demo_twin, demo_twin] [(''db'', ''other'')] 1 [] vm = VPending})"
    using summary_adds_up [of "[(''db'', ''u2''), (''vm'', ''u1''), (''web'', ''u3'')]" "[(''db'', ''other'')]" VPending "[demo_twin, demo_twin]" 1 "[]"]
    by (simp add: strict_sorted_iff)
qed code_simp

text \<open>C32: merging variables into the JSON text of earlier ones and reading the result back gives the earlier ones overridden by the
new, whatever characters they hold.\<close>

theorem host_variables_roundtrip:
  "smap_ok old \<Longrightarrow> smap_ok vars \<Longrightarrow>
   \<exists>t. mergeHostVariables E (json_marshal (e_floatText E) (str_map old)) vars = Inr t \<and>
     json_unmarshal t = Some (Some (str_map (smap_merge old vars)))"
  by (rule merge_roundtrip)

theorem host_variables_roundtrip_witness:
  "\<exists>t. mergeHostVariables demo_vm_env (json_marshal (e_floatText demo_vm_env)
       (str_map [(''a'', [CHR 0x22, CHR 0x5C, CHR 0x0A]), (''b'', [])])) [(''b'', ''x'')] = Inr t \<and>
     json_unmarshal t = Some (Some (str_map (smap_merge [(''a'', [CHR 0x22, CHR 0x5C, CHR 0x0A]), (''b'', [])] [(''b'', ''x'')])))"
  by (rule host_variables_roundtrip) (simp_all add: char_of_eq_iff)



text \<open>C34: the cache of transports is transparent: after any sequence of calls, an option gets the transport that would have been
built for it alone, or the error, as long as the digests of the CA bundles in use differ.\<close>

theorem transport_cache_transparent:
  "inj_on (e_sha256 E) (tls_CABundlePEM ` set (opts # os)) \<Longrightarrow>
   transport_got (transportFor E sysRoots opts (transports_after E sysRoots os)) = newTransport E sysRoots opts \<and>
   (case fst (shared_httpClientFor E sysRoots opts (transports_after E sysRoots os)) of Inl e \<Rightarrow> Some e | Inr c \<Rightarrow> None) =
     httpClientFor E opts"
  by (intro conjI transport_exact shared_httpClientFor_error)

theorem transport_cache_transparent_witness:
  "transport_got (transportFor demo_vm_env True \<lparr>tls_InsecureSkipVerify = False, tls_CABundlePEM = ''B''\<rparr>
     (transports_after demo_vm_env True [no_tls, \<lparr>tls_InsecureSkipVerify = False, tls_CABundlePEM = ''A''\<rparr>])) =
   newTransport demo_vm_env True \<lparr>tls_InsecureSkipVerify = False, tls_CABundlePEM = ''B''\<rparr>"
  by (rule transport_cache_transparent [THEN conjunct1]) (simp add: demo_vm_env_def demo_env_def)

text \<open>C35: transports of different modes are never shared, the same options get the same transport again, and there are never more
transports than distinct keys; a refused bundle leaves the cache as it was.\<close>

theorem transports_apart:
  "case transportFor E sysRoots opts (transports_after E sysRoots os) of
     (Inl e, s) \<Rightarrow> httpClientFor E opts = Some e \<and> s = transports_after E sysRoots os
   | (Inr a, s) \<Rightarrow> transport_apart E sysRoots opts s a \<and> length (ts_heap s) \<le> card (cacheKey E ` set (opts # os))"
  by (rule transport_shared)

text \<open>C36: ownership markers tell owners apart: bindings from bindings, runs from runs, and runs from bindings.\<close>

theorem markers_tell_apart:
  "CHR ''/'' \<notin> set ns \<Longrightarrow> CHR ''/'' \<notin> set ns' \<Longrightarrow> CHR ''/'' \<notin> set n \<Longrightarrow> CHR ''/'' \<notin> set n' \<Longrightarrow>
   (hostOwnerMarker E ns n = hostOwnerMarker E ns' n' \<longleftrightarrow> ns = ns' \<and> n = n') \<and>
   (runHostOwnerMarker E ns n = runHostOwnerMarker E ns' n' \<longleftrightarrow> ns = ns' \<and> n = n') \<and>
   runHostOwnerMarker E ns n \<noteq> hostOwnerMarker E ns' n'"
  by (simp add: binding_marker_inj run_marker_inj run_binding_marker)

theorem markers_tell_apart_witness:
  "runHostOwnerMarker demo_vm_env ''ns'' ''web'' \<noteq> hostOwnerMarker demo_vm_env ''ns'' ''web'' \<and>
   hostOwnerMarker demo_vm_env ''ns'' ''web'' \<noteq> hostOwnerMarker demo_vm_env ''ns'' ''db''"
  using markers_tell_apart [of "''ns''" "''ns''" "''web''" "''web''" demo_vm_env]
    markers_tell_apart [of "''ns''" "''ns''" "''web''" "''db''" demo_vm_env] by simp

text \<open>C37: the records of a run's hosts: one per name and inventory, none lost, and created once is created for good.\<close>

theorem host_records_sound:
  "distinct (map host_key (host_records hs)) \<and> host_key ` set (host_records hs) = host_key ` set hs \<and>
   ((\<exists>y \<in> set (host_records hs). host_key y = k \<and> rhs_AWXHostCreated y) \<longleftrightarrow> (\<exists>x \<in> set hs. host_key x = k \<and> rhs_AWXHostCreated x))"
  by (rule host_records_ok)

text \<open>C38: resolved variables are a well-formed map of exactly the names the sources list, none of them also in \<open>extraVars\<close>, and the
only reads are of allowed kinds in the run's own namespace.\<close>

theorem vars_from_sound:
  "vars_sound sources extraVars (result_of (resolveVarsFrom E ns sources extraVars) w) \<and>
   list_all (vars_event E ns) (events_of (resolveVarsFrom E ns sources extraVars) w)"
  by (intro conjI emitsD [OF emits_resolveVarsFrom] emitsD [OF emits_only [OF only_resolveVarsFrom]])

text \<open>C39: an unusable flag ends the start with code 2 before anything is read; start-up only reads, and it succeeds only with a
supervisor ID, every existing child manageable, a client configured with the flags' limits, and its caches filled.\<close>

theorem start_sound:
  "start_ok E f h (result_of (start E f h) w) (events_of (start E f h) w)"
  by (rule emitsD [OF emits_start])

text \<open>C40: a deadline of up to 9223372036 seconds is exact; one of 9223372037 wraps to a negative duration: the run is past it as
soon as it exists.\<close>

theorem deadline_wraps:
  "md_CreationTimestamp (run_meta run) = Some created \<Longrightarrow> created \<le> e_now E (w_trace w) \<Longrightarrow>
   (0 < rs_ActiveDeadlineSeconds (run_spec run) \<and> rs_ActiveDeadlineSeconds (run_spec run) \<le> 9223372036 \<longrightarrow>
     (result_of (deadlineExceeded E run) w \<longleftrightarrow>
      time_sub (e_now E (w_trace w)) created > rs_ActiveDeadlineSeconds (run_spec run) * nanos_per_second)) \<and>
   (rs_ActiveDeadlineSeconds (run_spec run) = 9223372037 \<longrightarrow> result_of (deadlineExceeded E run) w)"
  using deadline_small [of run created E w] deadline_past_at_once [of run created E w] by blast

theorem deadline_wraps_witness:
  "result_of (deadlineExceeded demo_vm_env demo_late_run) demo_world"
  using deadline_wraps [where created = 0 and run = demo_late_run and E = demo_vm_env and w = demo_world]
  by (simp add: demo_late_run_def demo_meta_def run_spec_def demo_vm_env_def demo_env_def)

end
